(* ===== verification/Prelude.thy ===== *)
theory Prelude
  imports Main "HOL-Library.Char_ord" "HOL-Library.List_Lexorder" "HOL-Library.Sublist"
begin

text \<open>
  Shared vocabulary of the development.

  \<^item> Actions: a Python method that reads and writes a store and may raise is a function from
    the store to a result (\<open>Inl\<close> the exception, \<open>Inr\<close> the value) and the store it leaves.
    \<open>transaction\<close> is the \<open>BEGIN IMMEDIATE\<close> / \<open>rollback\<close> / \<open>commit\<close> bracket of the SQLite code.
  \<^item> \<open>steps_within R m\<close> says that every run of \<open>m\<close>, successful or not, moves the store along \<open>R\<close>.
    The locale \<open>state_order\<close> proves once, for any preorder \<open>R\<close>, that the combinators keep it; an
    invariant \<open>I\<close> is the preorder \<open>I s \<longrightarrow> I t\<close>.
  \<^item> Text: a Python \<open>str\<close> is a list of characters; the characters of the model are the code
    points below 256. \<open>strip\<close>, \<open>lower\<close> and \<open>in\<close> follow CPython on them.
\<close>

named_theorems act_defs \<open>definitions of the action combinators\<close>
named_theorems act_order \<open>preorder facts of elementary actions\<close>

section \<open>Actions on a store\<close>

type_synonym ('s, 'e, 'a) act = "'s \<Rightarrow> ('e + 'a) \<times> 's"

definition ret :: "'a \<Rightarrow> ('s, 'e, 'a) act" where
  [act_defs]: "ret x s = (Inr x, s)"

definition raise :: "'e \<Rightarrow> ('s, 'e, 'a) act" where
  [act_defs]: "raise e s = (Inl e, s)"

definition lift_res :: "'e + 'a \<Rightarrow> ('s, 'e, 'a) act" where
  [act_defs]: "lift_res r s = (r, s)"

definition gets :: "('s \<Rightarrow> 'a) \<Rightarrow> ('s, 'e, 'a) act" where
  [act_defs]: "gets f s = (Inr (f s), s)"

definition modify :: "('s \<Rightarrow> 's) \<Rightarrow> ('s, 'e, unit) act" where
  [act_defs]: "modify f s = (Inr (), f s)"

definition bindE :: "('s, 'e, 'a) act \<Rightarrow> ('a \<Rightarrow> ('s, 'e, 'b) act) \<Rightarrow> ('s, 'e, 'b) act" where
  [act_defs]: "bindE m k s = (case m s of (Inl e, s') \<Rightarrow> (Inl e, s') | (Inr x, s') \<Rightarrow> k x s')"

definition guardE :: "bool \<Rightarrow> 'e \<Rightarrow> ('s, 'e, unit) act" where
  [act_defs]: "guardE b e = (if b then ret () else raise e)"

definition whenE :: "bool \<Rightarrow> ('s, 'e, unit) act \<Rightarrow> ('s, 'e, unit) act" where
  [act_defs]: "whenE b m = (if b then m else ret ())"

fun foldE :: "('b \<Rightarrow> 'a \<Rightarrow> ('s, 'e, 'b) act) \<Rightarrow> 'b \<Rightarrow> 'a list \<Rightarrow> ('s, 'e, 'b) act" where
  "foldE f acc [] = ret acc"
| "foldE f acc (x # xs) = bindE (f acc x) (\<lambda>acc'. foldE f acc' xs)"

definition transaction :: "('s, 'e, 'a) act \<Rightarrow> ('s, 'e, 'a) act" where
  "transaction m s = (case m s of (Inl e, _) \<Rightarrow> (Inl e, s) | (Inr x, s') \<Rightarrow> (Inr x, s'))"

text \<open>Result-level sequencing, for code that only computes a value or raises.\<close>

definition bindR :: "'e + 'a \<Rightarrow> ('a \<Rightarrow> 'e + 'b) \<Rightarrow> 'e + 'b" where
  "bindR r k = (case r of Inl e \<Rightarrow> Inl e | Inr x \<Rightarrow> k x)"

lemma bindR_simps [simp]:
  "bindR (Inl e) k = Inl e"
  "bindR (Inr x) k = k x"
  by (simp_all add: bindR_def)

lemma bindR_eq_Inr: "bindR r k = Inr y \<longleftrightarrow> (\<exists>x. r = Inr x \<and> k x = Inr y)"
  by (cases r) auto

fun mapR :: "('a \<Rightarrow> 'e + 'b) \<Rightarrow> 'a list \<Rightarrow> 'e + 'b list" where
  "mapR f [] = Inr []"
| "mapR f (x # xs) = bindR (f x) (\<lambda>y. bindR (mapR f xs) (\<lambda>ys. Inr (y # ys)))"

lemma mapR_Inr_length: "mapR f xs = Inr ys \<Longrightarrow> length ys = length xs"
  by (induction xs arbitrary: ys) (auto simp: bindR_eq_Inr)

lemma bindE_run [simp]:
  "bindE (ret x) k = k x"
  "bindE (raise e) k = raise e"
  "bindE (lift_res (Inl e)) k = raise e"
  "bindE (lift_res (Inr x)) k = k x"
  by (simp_all add: act_defs fun_eq_iff)

lemma bindE_gets [simp]: "bindE (gets f) k s = k (f s) s"
  by (simp add: act_defs)

lemma bindE_modify [simp]: "bindE (modify f) k s = k () (f s)"
  by (simp add: act_defs)

lemma bindE_lift_res: "bindE (lift_res r) k s = (case r of Inl e \<Rightarrow> (Inl e, s) | Inr x \<Rightarrow> k x s)"
  by (simp add: act_defs split: sum.split)

lemma bindE_guardE: "bindE (guardE b e) k s = (if b then k () s else (Inl e, s))"
  by (simp add: act_defs)

lemma ret_run [simp]: "ret x s = (Inr x, s)"
  and raise_run [simp]: "raise e s = (Inl e, s)"
  by (simp_all add: act_defs)

lemma bindE_assoc: "bindE (bindE m k) l = bindE m (\<lambda>x. bindE (k x) l)"
  by (simp add: bindE_def fun_eq_iff split: prod.split sum.split)

lemma bindE_Inr:
  "bindE m k s = (Inr y, t) \<longleftrightarrow> (\<exists>x u. m s = (Inr x, u) \<and> k x u = (Inr y, t))"
  by (simp add: bindE_def split: prod.split sum.split)

lemma act_Inr:
  "ret a s = (Inr x, t) \<longleftrightarrow> x = a \<and> t = s"
  "raise e s = (Inr x, t) \<longleftrightarrow> False"
  "lift_res r s = (Inr x, t) \<longleftrightarrow> r = Inr x \<and> t = s"
  "gets f s = (Inr y, t) \<longleftrightarrow> y = f s \<and> t = s"
  "modify g s = (Inr u, t) \<longleftrightarrow> t = g s"
  "guardE b e s = (Inr u, t) \<longleftrightarrow> b \<and> t = s"
  by (auto simp: act_defs)

lemma whenE_Inr: "whenE b m s = (Inr u, t) \<longleftrightarrow> (if b then m s = (Inr u, t) else t = s)"
  by (auto simp: whenE_def act_Inr)

lemma bindE_step: "m s = (Inr x, u) \<Longrightarrow> bindE m k s = k x u"
  by (simp add: bindE_def)

lemma transaction_Inr: "transaction m s = (Inr x, t) \<longleftrightarrow> m s = (Inr x, t)"
  by (simp add: transaction_def split: prod.split sum.split)

lemma transaction_rollback: "transaction m s = (Inl e, t) \<Longrightarrow> t = s"
  by (auto simp: transaction_def split: prod.splits sum.splits)

lemma transaction_fst: "fst (transaction m s) = fst (m s)"
  by (simp add: transaction_def split: prod.split sum.split)

section \<open>Runs along a preorder\<close>

definition steps_within :: "('s \<Rightarrow> 's \<Rightarrow> bool) \<Rightarrow> ('s, 'e, 'a) act \<Rightarrow> bool" where
  "steps_within R m \<longleftrightarrow> (\<forall>s. R s (snd (m s)))"

lemma steps_withinD: "steps_within R m \<Longrightarrow> m s = (r, t) \<Longrightarrow> R s t"
  by (metis snd_conv steps_within_def)

lemma steps_withinI: "(\<And>s. R s (snd (m s))) \<Longrightarrow> steps_within R m"
  by (simp add: steps_within_def)

definition commits :: "('s \<Rightarrow> 's \<Rightarrow> bool) \<Rightarrow> ('s, 'e, 'a) act \<Rightarrow> bool" where
  "commits R m \<longleftrightarrow> (\<forall>s x t. m s = (Inr x, t) \<longrightarrow> R s t)"

lemma commitsI: "(\<And>s x t. m s = (Inr x, t) \<Longrightarrow> R s t) \<Longrightarrow> commits R m"
  by (simp add: commits_def)

locale state_order =
  fixes le :: "'s \<Rightarrow> 's \<Rightarrow> bool"
  assumes le_refl: "le s s"
    and le_trans: "le s t \<Longrightarrow> le t u \<Longrightarrow> le s u"
begin

lemma within_ret: "steps_within le (ret x)"
  by (simp add: steps_within_def act_defs le_refl)

lemma within_raise: "steps_within le (raise e)"
  by (simp add: steps_within_def act_defs le_refl)

lemma within_lift_res: "steps_within le (lift_res r)"
  by (simp add: steps_within_def act_defs le_refl)

lemma within_gets: "steps_within le (gets f)"
  by (simp add: steps_within_def act_defs le_refl)

lemma within_guardE: "steps_within le (guardE b e)"
  by (simp add: steps_within_def act_defs le_refl)

lemma within_modify: "(\<And>s. le s (f s)) \<Longrightarrow> steps_within le (modify f)"
  by (simp add: steps_within_def act_defs)

lemma within_bindE:
  assumes "steps_within le m" and "\<And>x. steps_within le (k x)"
  shows "steps_within le (bindE m k)"
proof (rule steps_withinI)
  fix s
  have "le s (snd (m s))" using assms(1) by (simp add: steps_within_def)
  moreover have "le (snd (m s)) (snd (k x (snd (m s))))" for x
    using assms(2) by (simp add: steps_within_def)
  ultimately show "le s (snd (bindE m k s))"
    by (auto simp: bindE_def split: prod.split sum.split intro: le_trans)
qed

lemma within_bindE_gets:
  assumes "\<And>s. le s (snd (k (f s) s))"
  shows "steps_within le (bindE (gets f) k)"
  using assms by (simp add: steps_within_def)

lemma within_whenE: "steps_within le m \<Longrightarrow> steps_within le (whenE b m)"
  by (simp add: whenE_def within_ret)

lemma within_if_split:
  "(b \<Longrightarrow> steps_within le m) \<Longrightarrow> (\<not> b \<Longrightarrow> steps_within le m') \<Longrightarrow>
   steps_within le (if b then m else m')"
  by simp

lemma within_case_option:
  "steps_within le m \<Longrightarrow> (\<And>x. steps_within le (k x)) \<Longrightarrow>
   steps_within le (case v of None \<Rightarrow> m | Some x \<Rightarrow> k x)"
  by (simp split: option.split)

lemma within_case_prod: "(\<And>x y. steps_within le (k x y)) \<Longrightarrow> steps_within le (case p of (x, y) \<Rightarrow> k x y)"
  by (simp split: prod.split)

lemma within_foldE: "(\<And>a x. steps_within le (f a x)) \<Longrightarrow> steps_within le (foldE f a xs)"
  by (induction xs arbitrary: a) (auto intro: within_ret within_bindE)

lemma within_transaction: "steps_within le m \<Longrightarrow> steps_within le (transaction m)"
  by (rule steps_withinI)
    (auto simp: transaction_def le_refl split: prod.split sum.split dest: steps_withinD)

lemma within_checked: "(\<And>x. r = Inr x \<Longrightarrow> steps_within le (k x)) \<Longrightarrow> steps_within le (bindE (lift_res r) k)"
  by (cases r) (simp_all add: within_raise)

lemma within_guarded: "(b \<Longrightarrow> steps_within le (k ())) \<Longrightarrow> steps_within le (bindE (guardE b e) k)"
  by (simp add: guardE_def within_raise)

lemmas rules = within_ret within_raise within_lift_res within_gets within_guardE within_checked
  within_guarded within_bindE
  within_whenE within_if_split within_case_option within_case_prod within_foldE within_transaction

text \<open>Inside a transaction only the runs that commit matter.\<close>

lemma commits_ret: "commits le (ret x)"
  by (simp add: commits_def act_defs le_refl)

lemma commits_raise: "commits le (raise e)"
  by (simp add: commits_def act_defs)

lemma commits_lift_res: "commits le (lift_res r)"
  by (simp add: commits_def act_defs le_refl)

lemma commits_gets: "commits le (gets f)"
  by (simp add: commits_def act_defs le_refl)

lemma commits_guardE: "commits le (guardE b e)"
  by (simp add: guardE_def commits_ret commits_raise)

lemma commits_bindE:
  assumes "commits le m" and "\<And>x. commits le (k x)"
  shows "commits le (bindE m k)"
  unfolding commits_def
proof (intro allI impI)
  fix s x t assume "bindE m k s = (Inr x, t)"
  then obtain y u where "m s = (Inr y, u)" "k y u = (Inr x, t)" by (auto simp: bindE_Inr)
  then have "le s u" "le u t" using assms unfolding commits_def by blast+
  then show "le s t" by (rule le_trans)
qed

lemma commits_checked: "(\<And>x. r = Inr x \<Longrightarrow> commits le (k x)) \<Longrightarrow> commits le (bindE (lift_res r) k)"
  by (cases r) (simp_all add: commits_raise)

lemma commits_pair:
  "commits le (bindE m (\<lambda>x. n x)) \<Longrightarrow> (\<And>y. commits le (k y)) \<Longrightarrow> commits le (bindE m (\<lambda>x. bindE (n x) k))"
  using commits_bindE [of "bindE m n" k] by (simp add: bindE_assoc)

lemma commits_whenE: "(b \<Longrightarrow> commits le m) \<Longrightarrow> commits le (whenE b m)"
  by (simp add: whenE_def commits_ret)

lemma commits_if_split:
  "(b \<Longrightarrow> commits le m) \<Longrightarrow> (\<not> b \<Longrightarrow> commits le m') \<Longrightarrow> commits le (if b then m else m')"
  by simp

lemma commits_case_option:
  "commits le m \<Longrightarrow> (\<And>x. commits le (k x)) \<Longrightarrow> commits le (case v of None \<Rightarrow> m | Some x \<Rightarrow> k x)"
  by (simp split: option.split)

lemma commits_case_prod: "(\<And>x y. commits le (k x y)) \<Longrightarrow> commits le (case p of (x, y) \<Rightarrow> k x y)"
  by (simp split: prod.split)

lemma commits_foldE: "(\<And>a x. commits le (f a x)) \<Longrightarrow> commits le (foldE f a xs)"
  by (induction xs arbitrary: a) (auto intro: commits_ret commits_bindE)

lemma commits_transaction: "commits le m \<Longrightarrow> steps_within le (transaction m)"
  unfolding steps_within_def commits_def
  by (auto simp: transaction_def le_refl split: prod.split sum.split)

lemmas commit_rules = commits_ret commits_raise commits_lift_res commits_gets commits_guardE
  commits_checked commits_bindE commits_whenE commits_if_split commits_case_option commits_case_prod
  commits_foldE

end

text \<open>An invariant is the preorder that never leaves it.\<close>

definition keeps :: "('s \<Rightarrow> bool) \<Rightarrow> 's \<Rightarrow> 's \<Rightarrow> bool" where
  "keeps I s t \<longleftrightarrow> (I s \<longrightarrow> I t)"

lemma keeps_order: "state_order (keeps I)"
  by unfold_locales (auto simp: keeps_def)

interpretation kept: state_order "keeps I" for I
  by (rule keeps_order)

lemma keepsD: "steps_within (keeps I) m \<Longrightarrow> m s = (r, t) \<Longrightarrow> I s \<Longrightarrow> I t"
  by (auto dest: steps_withinD simp: keeps_def)


section \<open>Tables with a unique column\<close>

lemma filter_unique_key:
  assumes "distinct (map f xs)" "x \<in> set xs" "f x = k"
  shows "filter (\<lambda>y. f y = k) xs = [x]"
  using assms
proof (induction xs)
  case (Cons a xs)
  show ?case
  proof (cases "a = x")
    case True
    then have "\<forall>y \<in> set xs. f y \<noteq> k" using Cons.prems by (auto simp: image_iff)
    then show ?thesis using True Cons.prems by (simp add: filter_empty_conv)
  next
    case False
    then have "x \<in> set xs" using Cons.prems(2) by simp
    moreover from this have "f a \<noteq> k" using Cons.prems(1,3) by (auto simp: image_iff)
    ultimately show ?thesis using Cons by simp
  qed
qed simp

text \<open>\<open>SELECT ... WHERE key = ?\<close> on a unique column.\<close>

lemma find_unique_key:
  assumes "distinct (map f xs)" "x \<in> set xs" "f x = k"
  shows "find (\<lambda>y. f y = k) xs = Some x"
  using assms by (induction xs) (auto simp: image_iff)

lemma find_Some_set: "find P xs = Some x \<Longrightarrow> x \<in> set xs \<and> P x"
  by (auto simp: find_Some_iff)


text \<open>An UPDATE that leaves a column alone leaves its set of values alone.\<close>

lemma image_map_if: "(\<And>r. f (g r) = f r) \<Longrightarrow> f ` set (map (\<lambda>r. if P r then g r else r) rs) = f ` set rs"
  by (induction rs) auto

end
