(* ===== verification/PyText.thy ===== *)
theory PyText
  imports Prelude
begin

text \<open>
  The text operations of Python the program uses, on lists of characters: \<open>str.strip\<close>,
  \<open>str.lower\<close>, \<open>str.isdigit\<close>, \<open>str.join\<close>, decimal rendering and reading of integers, and the
  test for a hexadecimal SHA-256 digest that the stores repeat.
\<close>

section \<open>Characters\<close>

definition is_space :: "char \<Rightarrow> bool" where
  "is_space c \<longleftrightarrow> (let n = of_char c :: nat in
     (9 \<le> n \<and> n \<le> 13) \<or> (28 \<le> n \<and> n \<le> 32) \<or> n = 133 \<or> n = 160)"

definition lower_char :: "char \<Rightarrow> char" where
  "lower_char c = (let n = of_char c :: nat in
     if (65 \<le> n \<and> n \<le> 90) \<or> (192 \<le> n \<and> n \<le> 222 \<and> n \<noteq> 215) then char_of (n + 32) else c)"

definition is_digit :: "char \<Rightarrow> bool" where
  "is_digit c \<longleftrightarrow> (let n = of_char c :: nat in 48 \<le> n \<and> n \<le> 57)"

definition digit_val :: "char \<Rightarrow> nat" where
  "digit_val c = of_char c - 48"

definition digit_char :: "nat \<Rightarrow> char" where
  "digit_char d = char_of (48 + d)"

lemma of_char_digit_char [simp]: "d < 10 \<Longrightarrow> (of_char (digit_char d) :: nat) = 48 + d"
  by (simp add: digit_char_def)

lemma digit_char_facts [simp]:
  assumes "d < 10"
  shows "is_digit (digit_char d)" "digit_val (digit_char d) = d" "\<not> is_space (digit_char d)"
  using assms by (simp_all add: is_digit_def digit_val_def is_space_def Let_def)

section \<open>Stripping and lower case\<close>

definition strip :: "string \<Rightarrow> string" where
  "strip s = rev (dropWhile is_space (rev (dropWhile is_space s)))"

definition lower :: "string \<Rightarrow> string" where
  "lower s = map lower_char s"

lemma dropWhile_stop: "(xs \<noteq> [] \<Longrightarrow> \<not> P (hd xs)) \<Longrightarrow> dropWhile P xs = xs"
  by (cases xs) auto

lemma strip_stop:
  assumes "s = [] \<or> (\<not> is_space (hd s) \<and> \<not> is_space (last s))"
  shows "strip s = s"
proof (cases "s = []")
  case False
  then have "dropWhile is_space s = s" using assms by (intro dropWhile_stop) auto
  moreover have "dropWhile is_space (rev s) = rev s"
    using assms False by (intro dropWhile_stop) (auto simp: hd_rev)
  ultimately show ?thesis by (simp add: strip_def)
qed (simp add: strip_def)

lemma strip_no_space: "(\<forall>c \<in> set s. \<not> is_space c) \<Longrightarrow> strip s = s"
  by (rule strip_stop) (cases s, auto)

lemma strip_bounds:
  "strip s = [] \<or> (\<not> is_space (hd (strip s)) \<and> \<not> is_space (last (strip s)))"
proof (cases "strip s = []")
  case False
  let ?a = "dropWhile is_space s"
  have ne: "dropWhile is_space (rev ?a) \<noteq> []" using False by (simp add: strip_def)
  have last: "\<not> is_space (last (strip s))"
    using hd_dropWhile [OF ne] ne by (simp add: strip_def last_rev)
  have a: "?a \<noteq> []" using ne by (cases ?a) auto
  have suffix: "suffix (dropWhile is_space (rev ?a)) (rev ?a)" by (rule suffix_dropWhile)
  then have "prefix (strip s) ?a" by (simp add: strip_def suffix_to_prefix)
  then have "hd (strip s) = hd ?a" using False by (auto simp: prefix_def hd_append)
  then have "\<not> is_space (hd (strip s))" using hd_dropWhile [OF a] by simp
  with last show ?thesis by simp
qed simp

lemma strip_idem [simp]: "strip (strip s) = strip s"
  by (rule strip_stop) (rule strip_bounds)

lemma strip_length: "length (strip s) \<le> length s"
  using length_dropWhile_le [of is_space s]
    length_dropWhile_le [of is_space "rev (dropWhile is_space s)"]
  by (simp add: strip_def)

lemma length_lower [simp]: "length (lower s) = length s"
  by (simp add: lower_def)

section \<open>Digests\<close>

definition is_hex_lower :: "char \<Rightarrow> bool" where
  "is_hex_lower c \<longleftrightarrow> c \<in> set ''0123456789abcdef''"

definition is_sha256_hex :: "string \<Rightarrow> bool" where
  "is_sha256_hex s \<longleftrightarrow> length s = 64 \<and> list_all is_hex_lower s"

lemma is_hex_lower_facts:
  assumes "is_hex_lower c"
  shows "\<not> is_space c" "lower_char c = c"
  using assms by (auto simp: is_hex_lower_def is_space_def lower_char_def Let_def)

lemma sha256_hex_normal [simp]:
  assumes "is_sha256_hex s"
  shows "strip s = s" "lower s = s" "length s = 64" "s \<noteq> []"
proof -
  have all: "\<forall>c \<in> set s. \<not> is_space c \<and> lower_char c = c"
    using assms by (auto simp: is_sha256_hex_def list_all_iff is_hex_lower_facts)
  show "strip s = s" using all by (intro strip_no_space) simp
  show "lower s = s" using all by (simp add: lower_def map_idI)
  show "length s = 64" "s \<noteq> []" using assms by (auto simp: is_sha256_hex_def)
qed

section \<open>Decimal integers\<close>

fun show_nat :: "nat \<Rightarrow> string" where
  "show_nat n = (if n < 10 then [digit_char n] else show_nat (n div 10) @ [digit_char (n mod 10)])"

declare show_nat.simps [simp del]

definition show_int :: "int \<Rightarrow> string" where
  "show_int i = (if i < 0 then ''-'' @ show_nat (nat (- i)) else show_nat (nat i))"

fun read_digits :: "nat \<Rightarrow> string \<Rightarrow> nat option" where
  "read_digits acc [] = Some acc"
| "read_digits acc (c # cs) =
     (if is_digit c then read_digits (10 * acc + digit_val c) cs else None)"

definition read_nat :: "string \<Rightarrow> nat option" where
  "read_nat s = (if s = [] then None else read_digits 0 s)"

definition all_digits :: "string \<Rightarrow> bool" where
  "all_digits s \<longleftrightarrow> s \<noteq> [] \<and> list_all is_digit s"

lemma read_digits_append:
  "read_digits acc (s @ t) = (case read_digits acc s of None \<Rightarrow> None | Some m \<Rightarrow> read_digits m t)"
  by (induction acc s rule: read_digits.induct) auto

lemma show_nat_digits: "\<forall>c \<in> set (show_nat n). is_digit c"
proof (induction n rule: show_nat.induct)
  case (1 n)
  then show ?case by (subst show_nat.simps) auto
qed

lemma show_nat_nonempty [simp]: "show_nat n \<noteq> []"
  by (subst show_nat.simps) simp

lemma read_digits_show: "read_digits 0 (show_nat n) = Some n"
proof (induction n rule: show_nat.induct)
  case (1 n)
  then show ?case by (subst show_nat.simps) (auto simp: read_digits_append)
qed

lemma read_show_nat [simp]: "read_nat (show_nat n) = Some n"
  by (simp add: read_nat_def read_digits_show)

lemma all_digits_show [simp]: "all_digits (show_nat n)"
  using show_nat_digits by (simp add: all_digits_def list_all_iff)

lemma read_nat_all_digits: "read_nat s = Some n \<Longrightarrow> all_digits s"
proof -
  have "read_digits acc s = Some n \<Longrightarrow> list_all is_digit s" for acc
    by (induction acc s rule: read_digits.induct) (auto split: if_splits)
  then show "read_nat s = Some n \<Longrightarrow> all_digits s"
    by (auto simp: read_nat_def all_digits_def split: if_splits)
qed

lemma show_nat_inj: "show_nat m = show_nat n \<Longrightarrow> m = n"
  by (metis option.inject read_show_nat)

lemma digit_not_minus: "is_digit c \<Longrightarrow> c \<noteq> CHR ''-''"
  by (auto simp: is_digit_def)

lemma show_int_inj: "show_int i = show_int j \<Longrightarrow> i = j"
proof -
  have hd: "hd (show_nat n) \<noteq> CHR ''-''" for n
    using show_nat_digits [of n] digit_not_minus by (metis hd_in_set show_nat_nonempty)
  have ne: "CHR ''-'' # s \<noteq> show_nat n" "show_nat n \<noteq> CHR ''-'' # s" for s n
    using hd [of n] by (metis list.sel(1))+
  show "show_int i = show_int j \<Longrightarrow> i = j"
    by (auto simp: show_int_def ne dest: show_nat_inj split: if_splits)
qed

text \<open>Zero padding to a fixed width, as \<open>%02d\<close> and \<open>isoformat\<close> do, and reading it back.\<close>

definition zfill :: "nat \<Rightarrow> nat \<Rightarrow> string" where
  "zfill k n = replicate (k - length (show_nat n)) CHR ''0'' @ show_nat n"

lemma read_digits_zeros: "read_digits 0 (replicate k CHR ''0'' @ s) = read_digits 0 s"
  by (induction k) (auto simp: is_digit_def digit_val_def)

lemma read_zfill [simp]: "read_nat (zfill k n) = Some n"
  by (simp add: zfill_def read_nat_def read_digits_zeros read_digits_show)

lemma length_show_nat: "0 < k \<Longrightarrow> n < 10 ^ k \<Longrightarrow> length (show_nat n) \<le> k"
proof (induction n arbitrary: k rule: show_nat.induct)
  case (1 n)
  show ?case
  proof (cases "n < 10")
    case True
    then show ?thesis using "1.prems" by (subst show_nat.simps) simp
  next
    case False
    from False "1.prems" obtain k' where k: "k = Suc k'" "0 < k'"
      by (cases k; cases "k - 1") auto
    then have "n div 10 < 10 ^ k'" using "1.prems" by (auto simp: div_less_iff_less_mult)
    then have "length (show_nat (n div 10)) \<le> k'" using "1.IH" False k by blast
    then show ?thesis using False k by (subst show_nat.simps) simp
  qed
qed

lemma length_zfill: "0 < k \<Longrightarrow> n < 10 ^ k \<Longrightarrow> length (zfill k n) = k"
  using length_show_nat [of k n] by (simp add: zfill_def)

lemma zfill_digits: "\<forall>c \<in> set (zfill k n). is_digit c"
  using show_nat_digits [of n] by (auto simp: zfill_def is_digit_def)

section \<open>Joining\<close>

fun join :: "string \<Rightarrow> string list \<Rightarrow> string" where
  "join sep [] = []"
| "join sep [x] = x"
| "join sep (x # y # ys) = x @ sep @ join sep (y # ys)"

end
