(* ===== verification/PyTime.thy ===== *)
theory PyTime
  imports PyText
begin

text \<open>
  \<open>datetime\<close> as the services use it: an instant is a number of microseconds since
  0001-01-01T00:00:00, a datetime is naive or aware (aware ones are kept as their UTC instant).
  \<open>iso_text\<close> is \<open>isoformat()\<close>, \<open>utc_text\<close> the program's \<open>Z\<close>-suffixed rendering, \<open>fromisoformat\<close>
  the parser, for the extended ISO forms (the basic and week-date forms of Python 3.11 raise
  \<open>ValueError\<close> in the model). \<open>fromisoformat_utc_text\<close> is the round trip.
\<close>

section \<open>Calendar\<close>

definition day_us :: int where "day_us = 86400000000"
definition hour_us :: int where "hour_us = 3600000000"
definition max_instant :: int where "max_instant = 3652059 * day_us"

lemmas time_units = day_us_def hour_us_def max_instant_def

definition is_leap :: "int \<Rightarrow> bool" where
  "is_leap y \<longleftrightarrow> y mod 4 = 0 \<and> (y mod 100 \<noteq> 0 \<or> y mod 400 = 0)"

definition days_before_year :: "int \<Rightarrow> int" where
  "days_before_year y = (y - 1) * 365 + (y - 1) div 4 - (y - 1) div 100 + (y - 1) div 400"

definition month_lengths :: "bool \<Rightarrow> int list" where
  "month_lengths leap = [31, if leap then 29 else 28, 31, 30, 31, 30, 31, 31, 30, 31, 30, 31]"

text \<open>Ordinal of a date, 1 for 0001-01-01; \<open>m\<close> is 1 for January.\<close>

definition ymd2ord :: "int \<Rightarrow> nat \<Rightarrow> int \<Rightarrow> int" where
  "ymd2ord y m d = days_before_year y + sum_list (take (m - 1) (month_lengths (is_leap y))) + d"

fun month_scan :: "nat \<Rightarrow> int list \<Rightarrow> int \<Rightarrow> nat \<times> int" where
  "month_scan m [] n = (m, n + 1)"
| "month_scan m (l # ls) n = (if n < l \<or> ls = [] then (m, n + 1) else month_scan (m + 1) ls (n - l))"

definition capped_divmod :: "int \<Rightarrow> int \<Rightarrow> int \<Rightarrow> int \<times> int" where
  "capped_divmod k n q = (let x = min k (n div q) in (x, n - x * q))"

definition ord2ymd :: "int \<Rightarrow> int \<times> nat \<times> int" where
  "ord2ymd n =
     (case ((n - 1) div 146097, (n - 1) mod 146097) of (a, n1) \<Rightarrow>
      case capped_divmod 3 n1 36524 of (b, n2) \<Rightarrow>
      case capped_divmod 24 n2 1461 of (c, n3) \<Rightarrow>
      case capped_divmod 3 n3 365 of (d, n4) \<Rightarrow>
        let y = 400 * a + 100 * b + 4 * c + d + 1
        in (case month_scan 1 (month_lengths (is_leap y)) n4 of (m, dd) \<Rightarrow> (y, m, dd)))"

lemma month_scan_sound:
  assumes "0 \<le> n" and "n < sum_list ls" and "\<forall>l \<in> set ls. 0 < l" and "ls \<noteq> []"
  shows "\<exists>i d. month_scan m ls n = (m + i, d) \<and> i < length ls \<and> 1 \<le> d \<and> d \<le> ls ! i
    \<and> sum_list (take i ls) + d = n + 1"
  using assms
proof (induction ls arbitrary: m n)
  case (Cons l ls)
  show ?case
  proof (cases "n < l \<or> ls = []")
    case True
    with Cons.prems show ?thesis by (intro exI [of _ 0] exI [of _ "n + 1"]) auto
  next
    case False
    with Cons.prems Cons.IH [of "n - l" "m + 1"] obtain i d where
      "month_scan (m + 1) ls (n - l) = (m + 1 + i, d)" "i < length ls" "1 \<le> d" "d \<le> ls ! i"
      "sum_list (take i ls) + d = n - l + 1" by auto
    with False show ?thesis by (intro exI [of _ "Suc i"] exI [of _ d]) auto
  qed
qed simp

lemma month_lengths_facts:
  "sum_list (month_lengths leap) = (if leap then 366 else 365)" "length (month_lengths leap) = 12"
  "\<forall>l \<in> set (month_lengths leap). 0 < l" "month_lengths leap \<noteq> []"
  "\<forall>l \<in> set (month_lengths leap). l \<le> 31"
  by (simp_all add: month_lengths_def)

definition valid_ymd :: "int \<Rightarrow> nat \<Rightarrow> int \<Rightarrow> bool" where
  "valid_ymd y m d \<longleftrightarrow> 1 \<le> y \<and> y \<le> 9999 \<and> 1 \<le> m \<and> m \<le> 12 \<and> 1 \<le> d
     \<and> d \<le> month_lengths (is_leap y) ! (m - 1)"

lemma capped_divmod:
  assumes "0 \<le> n" "0 < q" "0 \<le> k" and "capped_divmod k n q = (x, r)"
  shows "0 \<le> x" "x \<le> k" "0 \<le> r" "r < q \<or> x = k" "n = x * q + r"
proof -
  have x: "x = min k (n div q)" and r: "r = n - x * q"
    using assms(4) by (auto simp: capped_divmod_def Let_def)
  have div: "0 \<le> n div q" using assms by (simp add: pos_imp_zdiv_nonneg_iff)
  show "0 \<le> x" "x \<le> k" using assms div x by auto
  have "x * q \<le> n div q * q" using assms x by (intro mult_right_mono) auto
  also have "\<dots> \<le> n" using assms(2) by (metis div_mult_mod_eq le_add_same_cancel1 pos_mod_sign)
  finally show "0 \<le> r" using r by simp
  show "r < q \<or> x = k"
  proof (cases "n div q \<le> k")
    case True
    then have "r = n mod q" using x r by (simp add: minus_div_mult_eq_mod)
    then show ?thesis using assms(2) by simp
  qed (simp add: x)
  show "n = x * q + r" using r by simp
qed

text \<open>The 400-year cycle: quotients of the day number and the day left over in the year.\<close>

lemma cycle_split:
  assumes n: "0 \<le> n"
    and a: "a = n div 146097" "n1 = n mod 146097"
    and b: "capped_divmod 3 n1 36524 = (b, n2)"
    and c: "capped_divmod 24 n2 1461 = (c, n3)"
    and d: "capped_divmod 3 n3 365 = (d, n4)"
  shows "0 \<le> a" "0 \<le> b" "b \<le> 3" "0 \<le> c" "c \<le> 24" "0 \<le> d" "d \<le> 3" "0 \<le> n4" "n4 \<le> 365"
    "n4 = 365 \<Longrightarrow> d = 3 \<and> (c \<noteq> 24 \<or> b = 3)"
    "n = 146097 * a + 36524 * b + 1461 * c + 365 * d + n4"
proof -
  have n1: "0 \<le> n1" "n1 < 146097" by (simp_all add: a(2))
  note bs = capped_divmod [OF n1(1) _ _ b, simplified]
  note cs = capped_divmod [OF bs(3) _ _ c, simplified]
  note ds = capped_divmod [OF cs(3) _ _ d, simplified]
  show "0 \<le> a" using n by (simp add: a(1) pos_imp_zdiv_nonneg_iff)
  show "0 \<le> b" "b \<le> 3" "0 \<le> c" "c \<le> 24" "0 \<le> d" "d \<le> 3" "0 \<le> n4"
    by (fact bs cs ds)+
  have n2: "n2 \<le> 36524" "n2 = 36524 \<Longrightarrow> b = 3" using bs(4,5) n1(2) by linarith+
  have n3: "n3 \<le> 1460" "n3 = 1460 \<Longrightarrow> c = 24 \<Longrightarrow> n2 = 36524" using cs(4,5) n2(1) by linarith+
  show "n4 \<le> 365" using ds(4,5) n3(1) by linarith
  have "n4 = 365 \<Longrightarrow> d = 3 \<and> n3 = 1460" using ds(4,5) n3(1) by linarith
  then show "n4 = 365 \<Longrightarrow> d = 3 \<and> (c \<noteq> 24 \<or> b = 3)" using n2(2) n3(2) by blast
  have "n = a * 146097 + n1" by (simp add: a)
  then show "n = 146097 * a + 36524 * b + 1461 * c + 365 * d + n4"
    using bs(5) cs(5) ds(5) by linarith
qed

lemma year_of_cycle:
  fixes a b c d :: int
  assumes "0 \<le> b" "b \<le> 3" "0 \<le> c" "c \<le> 24" "0 \<le> d" "d \<le> 3"
  defines "y \<equiv> 400 * a + 100 * b + 4 * c + d + 1"
  shows "days_before_year y = 146097 * a + 36524 * b + 1461 * c + 365 * d"
    "d = 3 \<and> (c \<noteq> 24 \<or> b = 3) \<Longrightarrow> is_leap y"
proof -
  have q4: "(y - 1) div 4 = 100 * a + 25 * b + c"
    by (rule int_div_pos_eq [of _ 4 _ d]) (use assms in \<open>simp_all add: y_def\<close>)
  have q100: "(y - 1) div 100 = 4 * a + b"
    by (rule int_div_pos_eq [of _ 100 _ "4 * c + d"]) (use assms in \<open>simp_all add: y_def\<close>)
  have q400: "(y - 1) div 400 = a"
    by (rule int_div_pos_eq [of _ 400 _ "100 * b + 4 * c + d"]) (use assms in \<open>simp_all add: y_def\<close>)
  show "days_before_year y = 146097 * a + 36524 * b + 1461 * c + 365 * d"
    unfolding days_before_year_def q4 q100 q400 by (simp add: y_def)
  assume leap: "d = 3 \<and> (c \<noteq> 24 \<or> b = 3)"
  then have y: "y = 4 * (100 * a + 25 * b + c + 1)" by (simp add: y_def)
  have "y mod 100 = 4 * c + 4" if "c \<noteq> 24"
    by (rule int_mod_pos_eq [of _ 100 "4 * a + b"]) (use y assms that in simp_all)
  then have "y mod 100 = 0 \<Longrightarrow> c = 24" using assms(3) by fastforce
  moreover have "c = 24 \<Longrightarrow> y mod 400 = 0"
    using leap y by (auto intro: int_mod_pos_eq [of _ 400 "a + 1"])
  moreover have "y mod 4 = 0" using y by simp
  ultimately show "is_leap y" unfolding is_leap_def by (cases "y mod 100 = 0") simp_all
qed

lemma ord2ymd_sound:
  assumes "1 \<le> n" and "ord2ymd n = (y, m, d)"
  shows "ymd2ord y m d = n" "1 \<le> m" "m \<le> 12" "1 \<le> d"
    "d \<le> month_lengths (is_leap y) ! (m - 1)" "1 \<le> y" "n \<le> 3652059 \<Longrightarrow> y \<le> 9999"
proof -
  define a where "a = (n - 1) div 146097"
  define n1 where "n1 = (n - 1) mod 146097"
  obtain b n2 where b: "capped_divmod 3 n1 36524 = (b, n2)" by force
  obtain c n3 where c: "capped_divmod 24 n2 1461 = (c, n3)" by force
  obtain e n4 where e: "capped_divmod 3 n3 365 = (e, n4)" by force
  have "0 \<le> n - 1" using assms(1) by simp
  note cy = cycle_split [OF this a_def n1_def b c e]
  define y' where "y' = 400 * a + 100 * b + 4 * c + e + 1"
  have "ord2ymd n = (case month_scan 1 (month_lengths (is_leap y')) n4 of (m, dd) \<Rightarrow> (y', m, dd))"
    by (simp only: ord2ymd_def Let_def y'_def prod.case b c e flip: a_def n1_def)
  then have y: "y = 400 * a + 100 * b + 4 * c + e + 1"
    and ms: "month_scan 1 (month_lengths (is_leap y)) n4 = (m, d)"
    using assms(2) by (auto simp: y'_def split: prod.splits)
  note yc = year_of_cycle [OF cy(2-7), of a, folded y]
  have "n4 < sum_list (month_lengths (is_leap y))"
    using cy(9) yc(2) [OF cy(10)] by (cases "n4 = 365") (simp_all add: month_lengths_facts)
  from month_scan_sound [OF cy(8) this month_lengths_facts(3,4), of 1]
  obtain i d' where "month_scan 1 (month_lengths (is_leap y)) n4 = (1 + i, d')"
    and i': "i < 12" "1 \<le> d'" "d' \<le> month_lengths (is_leap y) ! i"
      "sum_list (take i (month_lengths (is_leap y))) + d' = n4 + 1"
    unfolding month_lengths_facts(2) by blast
  then have "m = 1 + i" "d' = d" using ms by simp_all
  note i = this(1) i' [unfolded this(2)]
  show "ymd2ord y m d = n" using i(1,5) yc(1) cy(11) by (simp add: ymd2ord_def)
  show "1 \<le> m" "m \<le> 12" "1 \<le> d" "d \<le> month_lengths (is_leap y) ! (m - 1)" using i by simp_all
  show "1 \<le> y" using y cy(1,2,4,6) by simp
  show "y \<le> 9999" if "n \<le> 3652059"
  proof (cases "a \<le> 23")
    case True
    then show ?thesis using y cy(3,5,7) by simp
  next
    case False
    then have "a = 24" using cy(2,4,6,8,11) that by linarith
    then show ?thesis using y cy(2-8,11) that by linarith
  qed
qed

section \<open>Rendering\<close>

datatype pydt = Naive int | Aware int

definition clock_text :: "int \<Rightarrow> string" where
  "clock_text sod = (let us = sod mod 1000000; s = sod div 1000000
     in zfill 2 (nat (s div 3600)) @ '':'' @ zfill 2 (nat (s div 60 mod 60)) @ '':''
        @ zfill 2 (nat (s mod 60)) @ (if us = 0 then [] else ''.'' @ zfill 6 (nat us)))"

definition iso_text :: "int \<Rightarrow> string" where
  "iso_text t = (case ord2ymd (t div day_us + 1) of (y, m, d) \<Rightarrow>
     zfill 4 (nat y) @ ''-'' @ zfill 2 m @ ''-'' @ zfill 2 (nat d) @ ''T'' @ clock_text (t mod day_us))"

text \<open>\<open>isoformat().replace("+00:00", "Z")\<close> of an aware UTC datetime.\<close>

definition utc_text :: "int \<Rightarrow> string" where
  "utc_text t = iso_text t @ ''Z''"

section \<open>Parsing\<close>

definition replace_Z :: "string \<Rightarrow> string" where
  "replace_Z s = concat (map (\<lambda>c. if c = CHR ''Z'' then ''+00:00'' else [c]) s)"

definition take_num :: "nat \<Rightarrow> string \<Rightarrow> (nat \<times> string) option" where
  "take_num k s =
     (if k \<le> length s \<and> list_all is_digit (take k s)
      then map_option (\<lambda>n. (n, drop k s)) (read_nat (take k s)) else None)"

definition expect :: "char \<Rightarrow> string \<Rightarrow> string option" where
  "expect c s = (case s of [] \<Rightarrow> None | x # r \<Rightarrow> if x = c then Some r else None)"

definition parse_frac :: "string \<Rightarrow> (int \<times> string) option" where
  "parse_frac s = (case s of
     [] \<Rightarrow> Some (0, [])
   | c # r \<Rightarrow>
       if c = CHR ''.'' \<or> c = CHR '','' then
         (let ds = takeWhile is_digit r in
          case read_nat (take 6 (ds @ replicate (6 - length ds) CHR ''0'')) of
            None \<Rightarrow> None
          | Some n \<Rightarrow> if ds = [] then None else Some (int n, dropWhile is_digit r))
       else Some (0, s))"

text \<open>\<open>HH[:MM[:SS[.ffffff]]]\<close> as microseconds, with the rest of the text.\<close>

definition parse_clock :: "string \<Rightarrow> (int \<times> string) option" where
  "parse_clock s = (case take_num 2 s of None \<Rightarrow> None | Some (h, r1) \<Rightarrow>
     if 24 \<le> h then None else
     (case expect (CHR '':'') r1 of None \<Rightarrow> Some (int h * hour_us, r1) | Some r2 \<Rightarrow>
     (case take_num 2 r2 of None \<Rightarrow> None | Some (m, r3) \<Rightarrow>
     if 60 \<le> m then None else
     (case expect (CHR '':'') r3 of
        None \<Rightarrow> Some (int h * hour_us + int m * 60000000, r3)
      | Some r4 \<Rightarrow>
     (case take_num 2 r4 of None \<Rightarrow> None | Some (sec, r5) \<Rightarrow>
     if 60 \<le> sec then None else
     (case parse_frac r5 of None \<Rightarrow> None | Some (us, r6) \<Rightarrow>
        Some (int h * hour_us + int m * 60000000 + int sec * 1000000 + us, r6)))))))"

definition parse_date :: "string \<Rightarrow> (int \<times> string) option" where
  "parse_date s = (case take_num 4 s of None \<Rightarrow> None | Some (y, r1) \<Rightarrow>
     (case expect (CHR ''-'') r1 of None \<Rightarrow> None | Some r2 \<Rightarrow>
     (case take_num 2 r2 of None \<Rightarrow> None | Some (m, r3) \<Rightarrow>
     (case expect (CHR ''-'') r3 of None \<Rightarrow> None | Some r4 \<Rightarrow>
     (case take_num 2 r4 of None \<Rightarrow> None | Some (d, r5) \<Rightarrow>
        if valid_ymd (int y) m (int d) then Some (ymd2ord (int y) m (int d), r5) else None)))))"

text \<open>The offset: nothing (naive), \<open>Z\<close>, or a sign and a clock reading.\<close>

definition parse_offset :: "string \<Rightarrow> int option option" where
  "parse_offset s = (case s of
     [] \<Rightarrow> Some None
   | c # r \<Rightarrow>
       if c = CHR ''Z'' then (if r = [] then Some (Some 0) else None)
       else if c = CHR ''+'' \<or> c = CHR ''-'' then
         (case parse_clock r of None \<Rightarrow> None | Some (o', r') \<Rightarrow>
            if r' = [] then Some (Some (if c = CHR ''+'' then o' else - o')) else None)
       else None)"

text \<open>\<open>datetime.fromisoformat\<close>; \<open>None\<close> is \<open>ValueError\<close>.\<close>

definition fromisoformat :: "string \<Rightarrow> pydt option" where
  "fromisoformat s = (case parse_date s of None \<Rightarrow> None | Some (n, r) \<Rightarrow>
     (case r of
        [] \<Rightarrow> Some (Naive ((n - 1) * day_us))
      | sep # r1 \<Rightarrow>
          (case parse_clock r1 of None \<Rightarrow> None | Some (t, r2) \<Rightarrow>
          (case parse_offset r2 of None \<Rightarrow> None
           | Some None \<Rightarrow> Some (Naive ((n - 1) * day_us + t))
           | Some (Some off) \<Rightarrow> Some (Aware ((n - 1) * day_us + t - off))))))"

definition valid_instant :: "int \<Rightarrow> bool" where
  "valid_instant t \<longleftrightarrow> 0 \<le> t \<and> t < max_instant"

lemma take_num_zfill: "0 < k \<Longrightarrow> n < 10 ^ k \<Longrightarrow> take_num k (zfill k n @ s) = Some (n, s)"
  using zfill_digits [of k n] by (simp add: take_num_def length_zfill list_all_iff)

lemma expect_simps [simp]:
  "expect c (c # s) = Some s" "c \<noteq> d \<Longrightarrow> expect c (d # s) = None" "expect c [] = None"
  by (simp_all add: expect_def)

lemma parse_frac_micro:
  assumes "0 \<le> us" "us < 1000000" and "s = [] \<or> (\<not> is_digit (hd s) \<and> hd s \<notin> set ''.,'')"
  shows "parse_frac ((if us = 0 then [] else ''.'' @ zfill 6 (nat us)) @ s) = Some (us, s)"
proof (cases "us = 0")
  case True
  then show ?thesis using assms(3) by (cases s) (auto simp: parse_frac_def)
next
  case False
  have len: "length (zfill 6 (nat us)) = 6" using assms by (intro length_zfill) auto
  have z: "zfill 6 (nat us) \<noteq> []" using len by auto
  have d: "\<forall>c \<in> set (zfill 6 (nat us)). is_digit c" by (rule zfill_digits)
  have "takeWhile is_digit s = []" "dropWhile is_digit s = s" using assms(3) by (cases s; auto)+
  then have "takeWhile is_digit (zfill 6 (nat us) @ s) = zfill 6 (nat us)"
    "dropWhile is_digit (zfill 6 (nat us) @ s) = s"
    using d by (simp_all add: takeWhile_append2 dropWhile_append2)
  then show ?thesis using False assms(1) len z by (simp add: parse_frac_def Let_def)
qed

lemma parse_clock_fields:
  assumes "h < 24" "m < 60" "c < 60" and "0 \<le> us" "us < 1000000"
    and "s = [] \<or> (\<not> is_digit (hd s) \<and> hd s \<notin> set ''.,'')"
  shows "parse_clock (zfill 2 h @ '':'' @ zfill 2 m @ '':'' @ zfill 2 c
      @ (if us = 0 then [] else ''.'' @ zfill 6 (nat us)) @ s)
    = Some (int h * hour_us + int m * 60000000 + int c * 1000000 + us, s)"
proof -
  define f where "f = (if us = 0 then [] else ''.'' @ zfill 6 (nat us)) @ s"
  have f: "parse_frac f = Some (us, s)"
    unfolding f_def by (rule parse_frac_micro [OF assms(4,5,6)])
  have tn: "take_num 2 (zfill 2 n @ r) = Some (n, r)" if "n < 60" for n r
    using that by (intro take_num_zfill) auto
  have "parse_clock (zfill 2 h @ '':'' @ zfill 2 m @ '':'' @ zfill 2 c @ f)
      = Some (int h * hour_us + int m * 60000000 + int c * 1000000 + us, s)"
    using assms(1-3) by (simp add: parse_clock_def tn f)
  then show ?thesis by (simp add: f_def)
qed

lemma parse_clock_text:
  assumes "0 \<le> t" "t < day_us" and "s = [] \<or> (\<not> is_digit (hd s) \<and> hd s \<notin> set ''.,'')"
  shows "parse_clock (clock_text t @ s) = Some (t, s)"
proof -
  define us where "us = t mod 1000000"
  define q where "q = t div 1000000"
  have t: "t = q * 1000000 + us" by (simp add: us_def q_def)
  have us: "0 \<le> us" "us < 1000000" by (simp_all add: us_def)
  have q: "0 \<le> q" "q < 86400" using t us assms(1,2) by (simp_all add: day_us_def)
  have "0 \<le> q div 3600" "q div 3600 < 24" "0 \<le> q div 60 mod 60" "0 \<le> q mod 60"
    using q by (simp_all add: pos_imp_zdiv_nonneg_iff div_less_iff_less_mult)
  then have h: "nat (q div 3600) < 24" and m: "nat (q div 60 mod 60) < 60" and c: "nat (q mod 60) < 60"
    and int: "int (nat (q div 3600)) = q div 3600" "int (nat (q div 60 mod 60)) = q div 60 mod 60"
      "int (nat (q mod 60)) = q mod 60" by simp_all
  have "q div 60 div 60 = q div 3600" using zdiv_zmult2_eq [of 60 q 60] by simp
  then have total: "q div 3600 * hour_us + q div 60 mod 60 * 60000000 + q mod 60 * 1000000 + us = t"
    using mult_div_mod_eq [of 60 q] mult_div_mod_eq [of 60 "q div 60"] t
    unfolding hour_us_def by linarith
  have "clock_text t @ s = zfill 2 (nat (q div 3600)) @ '':'' @ zfill 2 (nat (q div 60 mod 60)) @ '':''
      @ zfill 2 (nat (q mod 60)) @ (if us = 0 then [] else ''.'' @ zfill 6 (nat us)) @ s"
    by (simp only: clock_text_def Let_def append_assoc flip: us_def q_def)
  then show ?thesis
    using parse_clock_fields [OF h m c us assms(3)] by (simp only: int total)
qed

lemma ord2ymd_range:
  assumes "1 \<le> n" "n \<le> 3652059" "ord2ymd n = (y, m, d)"
  shows "valid_ymd y m d"
proof -
  note s = ord2ymd_sound [OF assms(1,3)]
  show ?thesis using s assms(2) by (simp add: valid_ymd_def)
qed

lemma digit_not_Z: "is_digit c \<Longrightarrow> c \<noteq> CHR ''Z''"
  by (auto simp: is_digit_def)

lemma replace_Z_id: "CHR ''Z'' \<notin> set s \<Longrightarrow> replace_Z s = s"
  by (induction s) (auto simp: replace_Z_def)

lemma replace_Z_append: "replace_Z (s @ r) = replace_Z s @ replace_Z r"
  by (simp add: replace_Z_def)

lemma iso_text_no_Z: "CHR ''Z'' \<notin> set (iso_text t)"
  using zfill_digits digit_not_Z
  by (auto simp: iso_text_def clock_text_def Let_def split: prod.splits)

lemma fromisoformat_iso:
  assumes "valid_instant t" and "s = [] \<or> (\<not> is_digit (hd s) \<and> hd s \<notin> set ''.,'')"
    and "parse_offset s = Some off"
  shows "fromisoformat (iso_text t @ s)
    = Some (case off of None \<Rightarrow> Naive t | Some d \<Rightarrow> Aware (t - d))"
proof -
  let ?n = "t div day_us + 1" and ?c = "t mod day_us"
  obtain y m d where ymd: "ord2ymd ?n = (y, m, d)" by (cases "ord2ymd ?n") auto
  have n: "1 \<le> ?n" "?n \<le> 3652059"
    using assms(1) by (auto simp: valid_instant_def time_units pos_imp_zdiv_nonneg_iff)
  note s = ord2ymd_sound [OF n(1) ymd] and v = ord2ymd_range [OF n ymd]
  have "nat y < 10000" "m < 100" "nat d < 100" "0 \<le> y" "0 \<le> d"
    using v month_lengths_facts(2,5) [of "is_leap y"]
      nth_mem [of "m - 1" "month_lengths (is_leap y)"] by (fastforce simp: valid_ymd_def)+
  then have date: "parse_date (zfill 4 (nat y) @ ''-'' @ zfill 2 m @ ''-'' @ zfill 2 (nat d) @ r) = Some (?n, r)"
    for r using v s(1) take_num_zfill [of 4] take_num_zfill [of 2] by (simp add: parse_date_def)
  have "0 \<le> ?c" "?c < day_us" by (simp_all add: day_us_def)
  from parse_clock_text [OF this assms(2)]
  have "parse_clock (clock_text ?c @ s) = Some (?c, s)" .
  then show ?thesis
    using date [of "''T'' @ clock_text ?c @ s"] assms(3) div_mult_mod_eq [of t day_us]
    by (simp add: fromisoformat_def iso_text_def ymd split: option.split)
qed

lemma fromisoformat_utc_text:
  "valid_instant t \<Longrightarrow> fromisoformat (replace_Z (utc_text t)) = Some (Aware t)"
proof -
  assume t: "valid_instant t"
  have "replace_Z (utc_text t) = iso_text t @ ''+00:00''"
    by (simp add: utc_text_def replace_Z_append replace_Z_id iso_text_no_Z) (simp add: replace_Z_def)
  moreover have "parse_offset ''+00:00'' = Some (Some 0)"
    by (simp add: parse_offset_def parse_clock_def take_num_def is_digit_def read_nat_def digit_val_def
        expect_def)
  ultimately show ?thesis
    using fromisoformat_iso [OF t, of "''+00:00''" "Some 0"] by (simp add: is_digit_def)
qed

lemma utc_text_inj: "valid_instant s \<Longrightarrow> valid_instant t \<Longrightarrow> utc_text s = utc_text t \<longleftrightarrow> s = t"
  by (metis fromisoformat_utc_text option.inject pydt.inject(2))


section \<open>Instants as stored text\<close>

lemma zfill_short: "n < 10 ^ k \<Longrightarrow> 0 < k \<Longrightarrow> length (zfill k n) \<le> k"
  using length_zfill [of k n] by simp

lemma nat_below: "x < int k \<Longrightarrow> 0 < k \<Longrightarrow> nat x < k"
  by simp

lemma power_int_pos: "(0::nat) < 10 ^ 2" "(0::nat) < 10 ^ 6"
  by simp_all

lemma clock_shape:
  "length (zfill 2 a) \<le> 2 \<Longrightarrow> length (zfill 2 b) \<le> 2 \<Longrightarrow> length (zfill 2 d) \<le> 2 \<Longrightarrow>
   length (zfill 6 u) \<le> 6 \<Longrightarrow>
   length (zfill 2 a @ '':'' @ zfill 2 b @ '':'' @ zfill 2 d @ (if z then [] else ''.'' @ zfill 6 u)) \<le> 20"
  by simp

lemma utc_text_length:
  assumes "valid_instant t"
  shows "length (utc_text t) \<le> 64"
proof -
  let ?n = "t div day_us + 1"
  obtain y m d where ymd: "ord2ymd ?n = (y, m, d)" by (cases "ord2ymd ?n") auto
  have n: "1 \<le> ?n" "?n \<le> 3652059"
    using assms by (auto simp: valid_instant_def time_units pos_imp_zdiv_nonneg_iff)
  have "nat y < 10 ^ 4" "m < 10 ^ 2" "nat d < 10 ^ 2"
    using ord2ymd_range [OF n ymd] month_lengths_facts(2,5) [of "is_leap y"]
      nth_mem [of "m - 1" "month_lengths (is_leap y)"] by (fastforce simp: valid_ymd_def)+
  then have date: "length (zfill 4 (nat y)) \<le> 4" "length (zfill 2 m) \<le> 2" "length (zfill 2 (nat d)) \<le> 2"
    by (simp_all add: zfill_short del: power_numeral)
  define c where "c = t mod day_us"
  have "0 \<le> c" "c < day_us" by (simp_all add: c_def day_us_def)
  then have "c div 1000000 div 3600 < int (10 ^ 2)"
    by (simp add: div_less_iff_less_mult day_us_def)
  moreover have "c div 1000000 div 60 mod 60 < int (10 ^ 2)" "c div 1000000 mod 60 < int (10 ^ 2)"
    "c mod 1000000 < int (10 ^ 6)"
    using pos_mod_bound [of 60 "c div 1000000 div 60"] pos_mod_bound [of 60 "c div 1000000"]
      pos_mod_bound [of 1000000 c] by simp_all
  ultimately have "nat (c div 1000000 div 3600) < 10 ^ 2" "nat (c div 1000000 div 60 mod 60) < 10 ^ 2"
    "nat (c div 1000000 mod 60) < 10 ^ 2" "nat (c mod 1000000) < 10 ^ 6"
    by (simp_all only: nat_below power_int_pos)
  note clock = this [THEN zfill_short, OF zero_less_numeral]
  have "length (clock_text c) \<le> 20"
    unfolding clock_text_def Let_def by (rule clock_shape [OF clock])
  moreover have "utc_text t = zfill 4 (nat y) @ ''-'' @ zfill 2 m @ ''-'' @ zfill 2 (nat d) @ ''T''
      @ clock_text c @ ''Z''"
    unfolding utc_text_def iso_text_def ymd c_def by simp
  ultimately show ?thesis using date by simp
qed

lemma utc_text_chars: "c \<in> set (utc_text t) \<Longrightarrow> is_digit c \<or> c \<in> set ''-T:.Z''"
  using zfill_digits
  by (auto simp: utc_text_def iso_text_def clock_text_def Let_def split: prod.splits if_splits)

lemma utc_text_clean: "strip (utc_text t) = utc_text t" "utc_text t \<noteq> []"
proof -
  have "\<forall>c \<in> set (utc_text t). \<not> is_space c"
    by (auto dest!: utc_text_chars simp: is_space_def is_digit_def Let_def)
  then show "strip (utc_text t) = utc_text t" by (rule strip_no_space)
  show "utc_text t \<noteq> []" by (simp add: utc_text_def)
qed

end
