(* ===== verification/BusinessHours.thy ===== *)
theory BusinessHours
  imports PyTime
begin

text \<open>
  The business calendar of \<open>src/dtlab/services/operational_settings.py\<close>: the policy record and its
  validation, \<open>add_business_hours\<close> and \<open>is_business_open\<close>. The IANA zone database that
  \<open>ZoneInfo\<close> reads is the parameter \<open>tzdb\<close>: which names it knows and the two conversions between
  UTC instants and wall-clock readings (a wall reading carries the \<open>fold\<close> flag). The loop itself
  works on wall-clock microseconds, as Python does for datetimes of one zone.
\<close>

section \<open>Policy\<close>

record business_hours_policy =
  bh_enabled :: bool
  bh_timezone :: string
  bh_start :: string
  bh_end :: string
  bh_weekdays :: "int list"

definition default_business_hours :: business_hours_policy where
  "default_business_hours = \<lparr>bh_enabled = True, bh_timezone = ''Europe/Rome'', bh_start = ''09:00'',
     bh_end = ''18:00'', bh_weekdays = [0, 1, 2, 3, 4]\<rparr>"

record tzdb =
  tz_known :: "string \<Rightarrow> bool"
  tz_wall :: "string \<Rightarrow> int \<Rightarrow> int \<times> bool"
  tz_utc :: "string \<Rightarrow> int \<times> bool \<Rightarrow> int"

datatype settings_error =
    UnknownZone
  | BadIsoTime
  | OpeningNotBeforeClosing
  | NoWorkingDay
  | NaiveAnchor
  | NegativeHours
  | Overflow

text \<open>\<open>time.fromisoformat\<close>, as microseconds of the day.\<close>

definition time_fromisoformat :: "string \<Rightarrow> settings_error + nat" where
  "time_fromisoformat s =
     (case parse_clock (if prefix ''T'' s then drop 1 s else s) of
        Some (t, []) \<Rightarrow> Inr (nat t)
      | _ \<Rightarrow> Inl BadIsoTime)"

definition validate :: "tzdb \<Rightarrow> business_hours_policy \<Rightarrow> settings_error + business_hours_policy" where
  "validate tz p =
     (if \<not> tz_known tz (bh_timezone p) then Inl UnknownZone else
      bindR (time_fromisoformat (bh_start p)) (\<lambda>st.
      bindR (time_fromisoformat (bh_end p)) (\<lambda>en.
      if en \<le> st then Inl OpeningNotBeforeClosing
      else if bh_weekdays p = [] \<or> list_ex (\<lambda>d. d \<notin> {0..<7}) (bh_weekdays p) then Inl NoWorkingDay
      else Inr p)))"

section \<open>The working-time loop\<close>

definition weekday :: "int \<Rightarrow> int" where
  "weekday wall = (wall div day_us) mod 7"

definition day_start :: "int \<Rightarrow> int" where
  "day_start wall = wall div day_us * day_us"

text \<open>
  One turn of the \<open>while\<close>: either the clock moves to the opening of the next day (beyond the last
  representable day that is Python's \<open>OverflowError\<close>) or working time is consumed. The result is
  the new wall reading and what remains.
\<close>

definition bh_turn :: "nat \<Rightarrow> nat \<Rightarrow> int list \<Rightarrow> int \<Rightarrow> int \<Rightarrow> settings_error + (int \<times> int)" where
  "bh_turn st en wd cur remaining =
     (let next_day = (if max_instant \<le> day_start cur + day_us then Inl Overflow
                      else Inr (day_start cur + day_us + int st, remaining)) in
      if weekday cur \<notin> set wd then next_day
      else
        let opening = day_start cur + int st;
            closing = day_start cur + int en;
            current = (if cur < opening then opening else cur)
        in
        if closing \<le> current then next_day
        else
          let available = closing - current;
              consumed = min available remaining
          in Inr (current + consumed, remaining - consumed))"

lemma day_parts: "wall = day_start wall + wall mod day_us" "0 \<le> wall mod day_us" "wall mod day_us < day_us"
  by (simp_all add: day_start_def day_us_def)

lemma bh_turn_progress:
  assumes "bh_turn st en wd cur r = Inr (cur', r')" and "0 < r"
  shows "cur < cur'" "r' \<le> r" "0 \<le> r'" "r' < r \<or> cur' < max_instant + int st"
proof -
  have d: "cur < day_start cur + day_us" using day_parts(1,3) [of cur] by linarith
  show "cur < cur'" "r' \<le> r" "0 \<le> r'" "r' < r \<or> cur' < max_instant + int st"
    using assms d by (auto simp: bh_turn_def Let_def min_def split: if_splits)
qed

text \<open>The loop; the current reading carries its fold, which every turn resets.\<close>

function bh_loop :: "nat \<Rightarrow> nat \<Rightarrow> int list \<Rightarrow> int \<times> bool \<Rightarrow> int \<Rightarrow> settings_error + (int \<times> bool)" where
  "bh_loop st en wd (cur, fd) remaining =
     (if remaining \<le> 0 then Inr (cur, fd)
      else case bh_turn st en wd cur remaining of
        Inl e \<Rightarrow> Inl e
      | Inr (cur', remaining') \<Rightarrow> bh_loop st en wd (cur', False) remaining')"
  by pat_completeness auto
termination
proof (relation "measures [\<lambda>(st, en, wd, (cur, f), r). nat r,
    \<lambda>(st, en, wd, (cur, f), r). nat (max_instant + int st - cur)]", goal_cases)
  case 1
  show ?case by simp
next
  case (2 st en wd cur fd r p cur' r')
  then have "bh_turn st en wd cur r = Inr (cur', r')" "0 < r" by simp_all
  note pr = bh_turn_progress [OF this]
  show ?case using pr \<open>0 < r\<close> by auto
qed

declare bh_loop.simps [simp del]

definition add_business_hours ::
  "tzdb \<Rightarrow> pydt \<Rightarrow> int \<Rightarrow> business_hours_policy \<Rightarrow> settings_error + int" where
  "add_business_hours tz anchor hours p =
     bindR (validate tz p) (\<lambda>_.
     case anchor of
       Naive _ \<Rightarrow> Inl NaiveAnchor
     | Aware t \<Rightarrow>
         if hours < 0 then Inl NegativeHours
         else if \<not> bh_enabled p then
           (if valid_instant (t + hours * hour_us) then Inr (t + hours * hour_us) else Inl Overflow)
         else
           bindR (time_fromisoformat (bh_start p)) (\<lambda>st.
           bindR (time_fromisoformat (bh_end p)) (\<lambda>en.
           bindR (bh_loop st en (bh_weekdays p) (tz_wall tz (bh_timezone p) t) (hours * hour_us)) (\<lambda>w.
           Inr (tz_utc tz (bh_timezone p) w)))))"

definition is_business_open ::
  "tzdb \<Rightarrow> int \<Rightarrow> business_hours_policy \<Rightarrow> settings_error + bool" where
  "is_business_open tz moment p =
     (if \<not> bh_enabled p then Inr True else
      bindR (validate tz p) (\<lambda>_.
      let local = fst (tz_wall tz (bh_timezone p) moment) in
      if weekday local \<notin> set (bh_weekdays p) then Inr False else
      bindR (time_fromisoformat (bh_start p)) (\<lambda>st.
      if \<not> int st \<le> local mod day_us then Inr False else
      bindR (time_fromisoformat (bh_end p)) (\<lambda>en. Inr (local mod day_us < int en)))))"

section \<open>Open time\<close>

text \<open>
  The working time before a wall reading: the whole working days before its day, and the part of
  its own day after opening and before closing. This is the specification of the loop.
\<close>

definition open_days :: "int list \<Rightarrow> int \<Rightarrow> int" where
  "open_days wd n = int (length (filter (\<lambda>d. d mod 7 \<in> set wd) [0..n - 1]))"

definition open_us :: "nat \<Rightarrow> nat \<Rightarrow> int list \<Rightarrow> int \<Rightarrow> int" where
  "open_us st en wd wall =
     open_days wd (wall div day_us) * (int en - int st)
     + (if weekday wall \<in> set wd
        then max 0 (min (int en) (wall mod day_us) - int st) else 0)"

definition in_office :: "nat \<Rightarrow> nat \<Rightarrow> int list \<Rightarrow> int \<Rightarrow> bool" where
  "in_office st en wd wall \<longleftrightarrow>
     weekday wall \<in> set wd \<and> int st < wall mod day_us \<and> wall mod day_us \<le> int en"

lemma open_days_Suc:
  "0 \<le> n \<Longrightarrow> open_days wd (n + 1) = open_days wd n + (if n mod 7 \<in> set wd then 1 else 0)"
proof -
  assume "0 \<le> n"
  then have "[0..n] = [0..n - 1] @ [n]"
    by (rule upto_rec2)
  then show ?thesis by (simp add: open_days_def)
qed

lemma wall_of_parts:
  assumes "0 \<le> s" "s < day_us"
  shows "(day_start wall + s) div day_us = wall div day_us" "(day_start wall + s) mod day_us = s"
    "weekday (day_start wall + s) = weekday wall" "day_start (day_start wall + s) = day_start wall"
proof -
  have d: "(day_start wall + s) div day_us = wall div day_us"
    unfolding day_start_def using assms by (intro int_div_pos_eq [of _ _ _ s]) simp_all
  have m: "(day_start wall + s) mod day_us = s"
    unfolding day_start_def using assms by (intro int_mod_pos_eq [of _ _ "wall div day_us"]) simp_all
  show "(day_start wall + s) div day_us = wall div day_us" "(day_start wall + s) mod day_us = s"
    "weekday (day_start wall + s) = weekday wall" "day_start (day_start wall + s) = day_start wall"
    using d m by (simp_all add: weekday_def) (simp add: day_start_def)
qed

lemma next_day_parts:
  assumes "int st < day_us"
  shows "(day_start cur + day_us + int st) div day_us = cur div day_us + 1"
    "(day_start cur + day_us + int st) mod day_us = int st"
  unfolding day_start_def using assms
  by (auto intro!: int_div_pos_eq [of _ _ _ "int st"] int_mod_pos_eq [of _ _ "cur div day_us + 1"]
      simp: algebra_simps)

lemma open_us_next_day:
  assumes "st < en" "int en \<le> day_us" "0 \<le> cur"
    and closed: "weekday cur \<notin> set wd \<or> int en \<le> cur mod day_us"
  shows "open_us st en wd (day_start cur + day_us + int st) = open_us st en wd cur"
proof -
  have "int st < day_us" using assms by simp
  note np = next_day_parts [OF this, of cur]
  have "0 \<le> cur div day_us" using assms(3) by (simp add: pos_imp_zdiv_nonneg_iff day_us_def)
  then have "open_days wd (cur div day_us + 1)
      = open_days wd (cur div day_us) + (if weekday cur \<in> set wd then 1 else 0)"
    by (simp add: open_days_Suc weekday_def)
  moreover have "open_us st en wd (day_start cur + day_us + int st)
      = open_days wd (cur div day_us + 1) * (int en - int st)"
    unfolding open_us_def np using assms(1) by simp
  ultimately show ?thesis using closed assms(1)
    by (auto simp: open_us_def algebra_simps)
qed

lemma open_us_advance:
  assumes "weekday cur \<in> set wd" "int st \<le> s" "s \<le> int en" "int en < day_us" "st < en"
    and "cur mod day_us \<le> s"
  shows "open_us st en wd (day_start cur + s) = open_us st en wd cur + (s - max (int st) (cur mod day_us))"
proof -
  have "0 \<le> s" "s < day_us" using assms by simp_all
  note wp = wall_of_parts [OF this, of cur]
  show ?thesis using assms by (simp add: open_us_def wp min_def max_def)
qed

lemma open_us_empty_day:
  assumes "st < en" "int en < day_us" "cur mod day_us \<le> int st"
  shows "open_us st en wd (day_start cur + int st) = open_us st en wd cur"
proof -
  have "0 \<le> int st" "int st < day_us" using assms by simp_all
  note wp = wall_of_parts [OF this, of cur]
  show ?thesis using assms by (simp add: open_us_def wp)
qed

lemma bh_turn_spec:
  assumes "bh_turn st en wd cur r = Inr (cur', r')" and "0 < r"
    and "st < en" "int en < day_us" "0 \<le> cur"
  shows "open_us st en wd cur' + r' = open_us st en wd cur + r"
    "r' < r \<Longrightarrow> in_office st en wd cur'"
proof -
  let ?start = "day_start cur" and ?mod = "cur mod day_us"
  let ?cur = "if cur < ?start + int st then ?start + int st else cur"
  let ?closed = "weekday cur \<notin> set wd \<or> ?start + int en \<le> ?cur"
  have cur: "?cur = ?start + max (int st) ?mod" using day_parts(1) [of cur] by auto
  have "open_us st en wd cur' + r' = open_us st en wd cur + r \<and> (r' < r \<longrightarrow> in_office st en wd cur')"
  proof (cases ?closed)
    case True
    then have "cur' = ?start + day_us + int st" "r' = r"
      using assms(1) by (auto simp: bh_turn_def Let_def split: if_splits)
    moreover have "weekday cur \<notin> set wd \<or> int en \<le> ?mod" using True cur assms(3) by auto
    ultimately show ?thesis using open_us_next_day [OF assms(3) _ assms(5), of wd] assms(4) by simp
  next
    case False
    define c where "c = min (?start + int en - ?cur) r"
    define s where "s = max (int st) ?mod + c"
    have run: "cur' = ?cur + c" "r' = r - c"
      using assms(1) False by (auto simp: bh_turn_def Let_def c_def split: if_splits)
    have c: "0 < c" "?cur + c \<le> ?start + int en" using False assms(2) by (auto simp: c_def)
    have s: "int st \<le> s" "s \<le> int en" "?mod \<le> s" "?cur + c = ?start + s" "int st < s"
      using c cur by (auto simp: s_def)
    have wd: "weekday cur \<in> set wd" using False by simp
    have cs: "cur' = ?start + s" using run(1) s(4) by linarith
    have "open_us st en wd cur' = open_us st en wd cur + (s - max (int st) ?mod)"
      unfolding cs by (rule open_us_advance [OF wd s(1,2) assms(4,3) s(3)])
    then have "open_us st en wd cur' = open_us st en wd cur + c" by (simp only: s_def)
    moreover have "0 \<le> s" "s < day_us" using s assms by auto
    from wall_of_parts [OF this, of cur] have "in_office st en wd cur'"
      unfolding cs using wd s by (simp only: in_office_def)
    ultimately show ?thesis using run by simp
  qed
  then show "open_us st en wd cur' + r' = open_us st en wd cur + r"
    "r' < r \<Longrightarrow> in_office st en wd cur'" by simp_all
qed

text \<open>
  Every run of the loop that returns has consumed exactly \<open>remaining\<close> of working time and stops
  inside working hours; the wall clock never goes back.
\<close>

lemma bh_loop_spec:
  assumes "bh_loop st en wd (cur, fd) r = Inr (w, f)" and "0 \<le> r"
    and "st < en" "int en < day_us" "0 \<le> cur"
  shows "open_us st en wd w = open_us st en wd cur + r \<and> cur \<le> w \<and> (0 < r \<longrightarrow> in_office st en wd w)"
  using assms
proof (induction st en wd "(cur, fd)" r arbitrary: cur fd rule: bh_loop.induct)
  case (1 st en wd cur fd r)
  show ?case
  proof (cases "r \<le> 0")
    case True
    then show ?thesis using "1.prems" by (simp add: bh_loop.simps)
  next
    case False
    then obtain cur' r' where turn: "bh_turn st en wd cur r = Inr (cur', r')"
      and rec: "bh_loop st en wd (cur', False) r' = Inr (w, f)"
      using "1.prems"(1) by (auto simp: bh_loop.simps [of st en wd cur] split: sum.splits)
    have r: "0 < r" using False by simp
    note pr = bh_turn_progress [OF turn r] and sp = bh_turn_spec [OF turn r "1.prems"(3-5)]
    have "0 \<le> cur'" using pr "1.prems"(5) by simp
    then have IH: "open_us st en wd w = open_us st en wd cur' + r' \<and> cur' \<le> w
        \<and> (0 < r' \<longrightarrow> in_office st en wd w)"
      using "1.hyps" [OF False turn refl rec pr(3) "1.prems"(3,4)] by simp
    have "in_office st en wd w"
    proof (cases "0 < r'")
      case False
      then show ?thesis using rec sp(2) pr(3) r by (simp add: bh_loop.simps)
    qed (use IH in simp)
    then show ?thesis using IH sp(1) pr(1) by simp
  qed
qed


section \<open>Termination with a deadline\<close>

text \<open>
  The only failure of the loop is running off the calendar, and it happens only when the working
  time left in it does not cover the request.
\<close>

lemma open_days_mono: "0 \<le> a \<Longrightarrow> open_days wd a \<le> open_days wd (a + int k)"
proof (induction k)
  case (Suc k)
  then show ?case using open_days_Suc [of "a + int k" wd] by (simp add: algebra_simps)
qed simp

lemma open_days_week:
  assumes "0 \<le> a" "d \<in> set wd" "0 \<le> d" "d < 7"
  shows "open_days wd a + 1 \<le> open_days wd (a + 7)"
proof -
  define k where "k = nat ((d - a) mod 7)"
  have k: "int k = (d - a) mod 7" "k < 7" by (auto simp: k_def)
  have "(a + int k) mod 7 = d" using assms(3,4) by (simp add: k mod_add_right_eq)
  then have "open_days wd (a + int k + 1) = open_days wd (a + int k) + 1"
    using open_days_Suc [of "a + int k" wd] assms by simp
  moreover have "open_days wd a \<le> open_days wd (a + int k)" by (rule open_days_mono [OF assms(1)])
  moreover have "open_days wd (a + int k + 1) \<le> open_days wd (a + 7)"
    using open_days_mono [of "a + int k + 1" wd "6 - k"] assms(1) k(2)
    by (simp add: of_nat_diff add.commute)
  ultimately show ?thesis by linarith
qed

lemma open_days_weeks:
  assumes "d \<in> set wd" "0 \<le> d" "d < 7" "0 \<le> a"
  shows "open_days wd a + int k \<le> open_days wd (a + 7 * int k)"
proof (induction k)
  case (Suc k)
  then show ?case using open_days_week [OF _ assms(1-3), of "a + 7 * int k"] assms(4)
    by (simp add: algebra_simps)
qed simp

lemma open_us_bounds:
  assumes "st < en" "int en < day_us"
  shows "open_days wd (w div day_us) * (int en - int st) \<le> open_us st en wd w"
    "open_us st en wd w \<le> (open_days wd (w div day_us) + 1) * (int en - int st)"
  using assms by (auto simp: open_us_def algebra_simps max_def min_def)

lemma bh_turn_fails:
  "bh_turn st en wd cur r = Inl e \<Longrightarrow> e = Overflow \<and> max_instant \<le> day_start cur + day_us"
  by (auto simp: bh_turn_def Let_def split: if_splits)

lemma day_number: "day_start w = w div day_us * day_us" "max_instant = 3652059 * day_us"
  by (simp_all add: day_start_def max_instant_def)

lemma last_day: "max_instant \<le> day_start w + day_us \<longleftrightarrow> 3652058 \<le> w div day_us"
  by (simp add: day_number day_us_def)

lemma bh_loop_fails:
  assumes "bh_loop st en wd (cur, fd) r = Inl e" and "0 \<le> r"
    and "st < en" "int en < day_us" "0 \<le> cur"
  shows "e = Overflow \<and> (\<exists>w \<ge> cur. 3652058 \<le> w div day_us
    \<and> open_us st en wd w < open_us st en wd cur + r)"
  using assms
proof (induction st en wd "(cur, fd)" r arbitrary: cur fd rule: bh_loop.induct)
  case (1 st en wd cur fd r)
  have r: "0 < r" using "1.prems"(1) by (cases "r \<le> 0") (auto simp: bh_loop.simps)
  show ?case
  proof (cases "bh_turn st en wd cur r")
    case (Inl e')
    then have "e = e'" using "1.prems"(1) r by (simp add: bh_loop.simps)
    then show ?thesis using bh_turn_fails [OF Inl] r by (auto simp: last_day)
  next
    case (Inr p)
    obtain cur' r' where p: "p = (cur', r')" by (cases p)
    note turn = Inr [unfolded p]
    have rec: "bh_loop st en wd (cur', False) r' = Inl e"
      using "1.prems"(1) r turn by (simp add: bh_loop.simps [of st en wd cur])
    note pr = bh_turn_progress [OF turn r] and sp = bh_turn_spec [OF turn r "1.prems"(3-5)]
    have "0 \<le> cur'" "\<not> r \<le> 0" using pr "1.prems"(5) r by simp_all
    then have "e = Overflow \<and> (\<exists>w \<ge> cur'. 3652058 \<le> w div day_us
        \<and> open_us st en wd w < open_us st en wd cur' + r')"
      using "1.hyps" [OF _ turn refl rec pr(3) "1.prems"(3,4)] by simp
    then show ?thesis using sp(1) pr(1) by (metis order.trans less_imp_le)
  qed
qed

lemma bh_loop_returns:
  assumes "st < en" "int en < day_us" "0 \<le> cur" "0 \<le> r"
    and "d \<in> set wd" "0 \<le> d" "d < 7"
    and room: "cur div day_us + 7 * (r div (int en - int st) + 2) \<le> 3652058"
  shows "\<exists>w f. bh_loop st en wd (cur, fd) r = Inr (w, f)"
proof (cases "bh_loop st en wd (cur, fd) r")
  case (Inl e)
  define L where "L = int en - int st"
  define k where "k = nat (r div L + 2)"
  have L: "0 < L" using assms(1) by (simp add: L_def)
  then have q: "0 \<le> r div L" using assms(4) by (simp add: pos_imp_zdiv_nonneg_iff)
  then have k: "int k = r div L + 2" by (simp add: k_def)
  obtain w where w: "3652058 \<le> w div day_us" "open_us st en wd w < open_us st en wd cur + r"
    using bh_loop_fails [OF Inl assms(4,1,2,3)] by blast
  define a where "a = cur div day_us"
  have a: "0 \<le> a" using assms(3) by (simp add: a_def pos_imp_zdiv_nonneg_iff day_us_def)
  have "open_days wd a + int k \<le> open_days wd (a + 7 * int k)"
    by (rule open_days_weeks [OF assms(5-7) a])
  also have "\<dots> \<le> open_days wd (w div day_us)"
    using open_days_mono [of "a + 7 * int k" wd "nat (w div day_us - (a + 7 * int k))"] a w(1) room k
    by (simp add: a_def L_def add_nonneg_nonneg)
  finally have "(open_days wd a + int k) * L \<le> open_days wd (w div day_us) * L"
    using L by simp
  also have "\<dots> \<le> open_us st en wd w" using open_us_bounds(1) [OF assms(1,2)] by (simp add: L_def)
  finally have "(open_days wd a + int k) * L < open_us st en wd cur + r" using w(2) by linarith
  also have "open_us st en wd cur \<le> (open_days wd a + 1) * L"
    using open_us_bounds(2) [OF assms(1,2)] by (simp add: L_def a_def)
  finally have "(r div L + 1) * L < r" by (simp add: k algebra_simps)
  moreover have "r < (r div L + 1) * L" using L
    by (metis add.commute distrib_right mult_1 mult.commute mult_div_mod_eq add_strict_left_mono pos_mod_bound)
  ultimately show ?thesis by simp
next
  case (Inr p)
  then show ?thesis by (cases p) simp
qed


section \<open>A validated policy\<close>

lemma read_nat_bound: "read_nat s = Some n \<Longrightarrow> n < 10 ^ length s"
proof -
  have "read_digits acc s = Some n \<Longrightarrow> n < (acc + 1) * 10 ^ length s" for acc
  proof (induction acc s rule: read_digits.induct)
    case (2 acc c cs)
    then have IH: "n < (10 * acc + digit_val c + 1) * 10 ^ length cs" and d: "is_digit c"
      by (simp_all split: if_splits)
    have "digit_val c < 10" using d by (auto simp: is_digit_def digit_val_def Let_def)
    then have "(10 * acc + digit_val c + 1) * 10 ^ length cs \<le> ((acc + 1) * 10) * 10 ^ length cs"
      by (intro mult_right_mono) simp_all
    with IH have "n < (acc + 1) * 10 * 10 ^ length cs" by (rule less_le_trans)
    then show ?case by (simp add: algebra_simps)
  qed simp
  from this [of 0] show "read_nat s = Some n \<Longrightarrow> n < 10 ^ length s"
    by (auto simp: read_nat_def split: if_splits)
qed

lemma parse_frac_bound: "parse_frac s = Some (us, r) \<Longrightarrow> 0 \<le> us \<and> us < 1000000"
proof -
  assume "parse_frac s = Some (us, r)"
  then consider "us = 0" | ds n where "read_nat (take 6 (ds @ replicate (6 - length ds) CHR ''0'')) = Some n"
    "us = int n"
    by (auto simp: parse_frac_def Let_def split: list.splits if_splits option.splits)
  then show ?thesis
  proof cases
    case 2
    have "length (take 6 (ds @ replicate (6 - length ds) CHR ''0'')) = 6" by simp
    then show ?thesis using read_nat_bound [OF 2(1)] 2(2) by simp
  qed simp
qed

lemma parse_clock_bound: "parse_clock s = Some (t, r) \<Longrightarrow> 0 \<le> t \<and> t < day_us"
  by (auto simp: parse_clock_def day_us_def hour_us_def split: option.splits if_splits
      dest!: parse_frac_bound)

lemma time_fromisoformat_bound: "time_fromisoformat s = Inr n \<Longrightarrow> int n < day_us"
  by (auto simp: time_fromisoformat_def split: option.splits list.splits dest: parse_clock_bound)

lemma validate_Inr:
  assumes "validate tz p = Inr q"
  obtains st en d where "q = p" "time_fromisoformat (bh_start p) = Inr st"
    "time_fromisoformat (bh_end p) = Inr en" "st < en" "int en < day_us"
    "d \<in> set (bh_weekdays p)" "0 \<le> d" "d < 7"
proof -
  have ne: "bh_weekdays p \<noteq> []" and wd: "\<forall>d \<in> set (bh_weekdays p). 0 \<le> d \<and> d < 7"
    using assms by (auto simp: validate_def bindR_eq_Inr list_ex_iff split: if_splits)
  then have d: "hd (bh_weekdays p) \<in> set (bh_weekdays p)" by simp
  from assms obtain st en where st: "q = p" "time_fromisoformat (bh_start p) = Inr st"
    "time_fromisoformat (bh_end p) = Inr en" "st < en"
    by (auto simp: validate_def bindR_eq_Inr split: if_splits)
  show ?thesis
    by (rule that [OF st time_fromisoformat_bound [OF st(3)] d]) (use d wd in auto)
qed

lemma add_business_hours_run:
  assumes "validate tz p = Inr p" "bh_enabled p" "0 \<le> hours"
    and "time_fromisoformat (bh_start p) = Inr st" "time_fromisoformat (bh_end p) = Inr en"
  shows "add_business_hours tz (Aware t) hours p =
    bindR (bh_loop st en (bh_weekdays p) (tz_wall tz (bh_timezone p) t) (hours * hour_us))
      (\<lambda>w. Inr (tz_utc tz (bh_timezone p) w))"
  using assms by (simp add: add_business_hours_def)

section \<open>Properties\<close>

text \<open>C6: When \<open>add_business_hours\<close> returns a deadline for an enabled policy, the deadline is the
  UTC instant of a wall reading, not before the anchor's, between which and the anchor exactly the
  requested hours of working time lie; for a positive amount it is within the working hours of a
  working day.\<close>

theorem add_business_hours_exact:
  assumes "add_business_hours tz (Aware t) hours p = Inr due" and "bh_enabled p"
    and "time_fromisoformat (bh_start p) = Inr st" "time_fromisoformat (bh_end p) = Inr en"
    and "0 \<le> fst (tz_wall tz (bh_timezone p) t)"
  shows "\<exists>w f. due = tz_utc tz (bh_timezone p) (w, f)
    \<and> fst (tz_wall tz (bh_timezone p) t) \<le> w
    \<and> open_us st en (bh_weekdays p) w
      = open_us st en (bh_weekdays p) (fst (tz_wall tz (bh_timezone p) t)) + hours * hour_us
    \<and> (0 < hours \<longrightarrow> in_office st en (bh_weekdays p) w)"
proof -
  obtain v where v: "validate tz p = Inr v" and hours: "0 \<le> hours"
    using assms(1,2) by (auto simp: add_business_hours_def bindR_eq_Inr split: if_splits)
  then have p: "validate tz p = Inr p" and st: "st < en" "int en < day_us"
    using validate_Inr [OF v] assms(3,4) by auto
  obtain cur fd where wall: "tz_wall tz (bh_timezone p) t = (cur, fd)" by fastforce
  obtain w f where run: "bh_loop st en (bh_weekdays p) (cur, fd) (hours * hour_us) = Inr (w, f)"
    and due: "due = tz_utc tz (bh_timezone p) (w, f)"
    using assms(1) by (auto simp: add_business_hours_run [OF p assms(2) hours assms(3,4)] wall bindR_eq_Inr)
  have h: "0 \<le> hours * hour_us" "0 < hours \<longrightarrow> 0 < hours * hour_us"
    using hours by (auto simp: hour_us_def)
  show ?thesis using bh_loop_spec [OF run h(1) st] assms(5) h(2) due by (auto simp: wall)
qed

text \<open>C7: \<open>add_business_hours\<close> terminates with a deadline for every validated, enabled policy, every
  aware anchor and every non-negative amount, as long as the calendar has the weeks for it: one
  working day per week at least, and two weeks of slack before 31 December 9999.\<close>

theorem add_business_hours_returns:
  assumes "validate tz p = Inr p" "bh_enabled p" "0 \<le> hours"
    and "time_fromisoformat (bh_start p) = Inr st" "time_fromisoformat (bh_end p) = Inr en"
    and "0 \<le> fst (tz_wall tz (bh_timezone p) t)"
    and "fst (tz_wall tz (bh_timezone p) t) div day_us
      + 7 * (hours * hour_us div (int en - int st) + 2) \<le> 3652058"
  shows "\<exists>due. add_business_hours tz (Aware t) hours p = Inr due"
proof -
  obtain d where st: "st < en" "int en < day_us" and d: "d \<in> set (bh_weekdays p)" "0 \<le> d" "d < 7"
    using validate_Inr [OF assms(1)] assms(4,5) by auto
  obtain cur fd where wall: "tz_wall tz (bh_timezone p) t = (cur, fd)" by fastforce
  have "0 \<le> hours * hour_us" using assms(3) by (simp add: hour_us_def)
  then show ?thesis
    using bh_loop_returns [OF st _ _ d, of cur "hours * hour_us" fd] assms(6,7)
    by (auto simp: add_business_hours_run [OF assms(1-5)] wall)
qed

lemma open_us_step:
  assumes "0 \<le> w" "st < en" "int en < day_us"
  shows "open_us st en wd (w + 1) = open_us st en wd w
    + (if weekday w \<in> set wd \<and> int st \<le> w mod day_us \<and> w mod day_us < int en then 1 else 0)"
proof (cases "w mod day_us + 1 < day_us")
  case True
  have w: "w + 1 = day_start w + (w mod day_us + 1)" using day_parts(1) [of w] by linarith
  have "0 \<le> w mod day_us + 1" using day_parts(2) [of w] by linarith
  note wp = wall_of_parts [OF this True, of w]
  have "(w + 1) div day_us = w div day_us" "(w + 1) mod day_us = w mod day_us + 1"
    "weekday (w + 1) = weekday w"
    unfolding w by (rule wp)+
  then show ?thesis using assms by (auto simp: open_us_def max_def min_def)
next
  case False
  then have m: "w mod day_us = day_us - 1" using day_parts(3) [of w] by linarith
  moreover have "w div day_us * day_us + w mod day_us = w" by (rule div_mult_mod_eq)
  ultimately have w: "w + 1 = (w div day_us + 1) * day_us"
    unfolding distrib_right mult_1 by linarith
  have wm: "(w + 1) mod day_us = 0" "(w + 1) div day_us = w div day_us + 1"
    unfolding w by (simp_all add: day_us_def)
  have "0 \<le> w div day_us" using assms(1) by (simp add: pos_imp_zdiv_nonneg_iff day_us_def)
  then have d: "open_days wd (w div day_us + 1)
      = open_days wd (w div day_us) + (if weekday w \<in> set wd then 1 else 0)"
    by (simp add: open_days_Suc weekday_def)
  have e: "open_us st en wd (w + 1) = open_days wd (w div day_us + 1) * (int en - int st)"
    unfolding open_us_def wm by (simp add: max_def min_def)
  show ?thesis unfolding e d using assms by (simp add: open_us_def [of st en wd w] m algebra_simps)
qed

text \<open>The two readings of the calendar agree: for an enabled, validated policy
  \<open>is_business_open\<close> holds at an instant exactly when the microsecond of wall time that starts there
  counts as working time for \<open>add_business_hours\<close>.\<close>

theorem is_business_open_iff:
  assumes "validate tz p = Inr p" "bh_enabled p"
    and "time_fromisoformat (bh_start p) = Inr st" "time_fromisoformat (bh_end p) = Inr en"
    and "0 \<le> fst (tz_wall tz (bh_timezone p) t)"
  shows "is_business_open tz t p = Inr (open_us st en (bh_weekdays p) (fst (tz_wall tz (bh_timezone p) t))
    < open_us st en (bh_weekdays p) (fst (tz_wall tz (bh_timezone p) t) + 1))"
proof -
  have st: "st < en" "int en < day_us" using validate_Inr [OF assms(1)] assms(3,4) by auto
  show ?thesis using assms(1-4) by (simp add: is_business_open_def Let_def open_us_step [OF assms(5) st])
qed


section \<open>The properties at a concrete calendar\<close>

definition utc_zone :: tzdb where
  "utc_zone = \<lparr>tz_known = (\<lambda>z. z = ''UTC''), tz_wall = (\<lambda>_ t. (t, False)), tz_utc = (\<lambda>_ w. fst w)\<rparr>"

definition utc_office :: business_hours_policy where
  "utc_office = default_business_hours\<lparr>bh_timezone := ''UTC''\<rparr>"

lemma office_times:
  "time_fromisoformat ''09:00'' = Inr 32400000000" "time_fromisoformat ''18:00'' = Inr 64800000000"
  by (simp_all add: time_fromisoformat_def parse_clock_def take_num_def read_nat_def is_digit_def
      digit_val_def hour_us_def numeral_2_eq_2)

lemma utc_office [simp]:
  "bh_enabled utc_office" "bh_timezone utc_office = ''UTC''" "bh_weekdays utc_office = [0, 1, 2, 3, 4]"
  "time_fromisoformat (bh_start utc_office) = Inr 32400000000"
  "time_fromisoformat (bh_end utc_office) = Inr 64800000000"
  "validate utc_zone utc_office = Inr utc_office"
  "tz_wall utc_zone z t = (t, False)" "tz_utc utc_zone z w = fst w"
  by (simp_all add: utc_office_def default_business_hours_def office_times validate_def utc_zone_def)

text \<open>Four hours from Friday, 17:00 of the first week of the calendar: Monday, 12:00.\<close>

lemma four_hours_from_friday:
  "add_business_hours utc_zone (Aware (4 * day_us + 17 * hour_us)) 4 utc_office
    = Inr (7 * day_us + 12 * hour_us)"
  by (simp add: add_business_hours_run [OF utc_office(6,1) _ utc_office(4,5)] bh_loop.simps
      bh_turn_def weekday_def day_start_def time_units)

lemma add_business_hours_exact_witness:
  "\<exists>w f. 7 * day_us + 12 * hour_us = tz_utc utc_zone ''UTC'' (w, f)
    \<and> 4 * day_us + 17 * hour_us \<le> w
    \<and> open_us 32400000000 64800000000 [0, 1, 2, 3, 4] w
      = open_us 32400000000 64800000000 [0, 1, 2, 3, 4] (4 * day_us + 17 * hour_us) + 4 * hour_us
    \<and> in_office 32400000000 64800000000 [0, 1, 2, 3, 4] w"
  using add_business_hours_exact [OF four_hours_from_friday utc_office(1,4,5)]
  by (simp add: time_units)

lemma add_business_hours_returns_witness:
  "\<exists>due. add_business_hours utc_zone (Aware (4 * day_us + 17 * hour_us)) 4 utc_office = Inr due"
  by (rule add_business_hours_returns [OF utc_office(6,1) _ utc_office(4,5)])
    (simp_all add: time_units)

lemma is_business_open_iff_witness:
  "is_business_open utc_zone (17 * hour_us) utc_office
    = Inr (open_us 32400000000 64800000000 [0, 1, 2, 3, 4] (17 * hour_us)
        < open_us 32400000000 64800000000 [0, 1, 2, 3, 4] (17 * hour_us + 1))"
  using is_business_open_iff [OF utc_office(6,1,4,5), of "17 * hour_us"] by (simp add: time_units)

end
