(* ===== verification/PyJson.thy ===== *)
theory PyJson
  imports PyText "HOL-Library.AList" "HOL-Library.Multiset"
begin

text \<open>
  JSON documents as the program sees them, \<open>json.dumps\<close> with sorted keys and compact separators,
  and \<open>json.loads\<close>. A Python dict is an association list with distinct keys in insertion order
  (\<open>AList.update\<close> is item assignment). A float is represented by its \<open>repr\<close> text, which
  determines it; the non-finite floats, escapes of code points above 255 and floats spelled
  otherwise than their \<open>repr\<close> are outside the model. \<open>loads_dumps\<close> is the round trip on which
  every JSON column of the SQLite stores relies.
\<close>

section \<open>Values\<close>

datatype json =
    JNull
  | JBool bool
  | JInt int
  | JFloat string
  | JStr string
  | JArr "json list"
  | JObj "(string \<times> json) list"

definition dict_of_pairs :: "(string \<times> json) list \<Rightarrow> (string \<times> json) list" where
  "dict_of_pairs ps = fold (\<lambda>(k, v) d. AList.update k v d) ps []"

text \<open>\<open>d.update(e)\<close>\<close>

definition dict_update :: "(string \<times> json) list \<Rightarrow> (string \<times> json) list \<Rightarrow> (string \<times> json) list" where
  "dict_update d ps = fold (\<lambda>(k, v) e. AList.update k v e) ps d"

fun is_obj :: "json \<Rightarrow> bool" where
  "is_obj (JObj _) = True"
| "is_obj _ = False"

fun entries :: "json \<Rightarrow> (string \<times> json) list" where
  "entries (JObj kvs) = kvs"
| "entries _ = []"

text \<open>\<open>d.get(k)\<close>: \<open>None\<close> is \<^const>\<open>JNull\<close>.\<close>

definition get_item :: "(string \<times> json) list \<Rightarrow> string \<Rightarrow> json" where
  "get_item d k = (case map_of d k of None \<Rightarrow> JNull | Some v \<Rightarrow> v)"

definition jget :: "json \<Rightarrow> string \<Rightarrow> json" where
  "jget j k = get_item (entries j) k"

section \<open>Serialisation\<close>

fun canon :: "json \<Rightarrow> json" where
  "canon (JArr xs) = JArr (map canon xs)"
| "canon (JObj kvs) = JObj (sort_key fst (map (\<lambda>(k, v). (k, canon v)) kvs))"
| "canon v = v"

definition hex_digit :: "nat \<Rightarrow> char" where
  "hex_digit d = (if d < 10 then char_of (48 + d) else char_of (87 + d))"

definition esc_char :: "bool \<Rightarrow> char \<Rightarrow> string" where
  "esc_char ea c = (let n = of_char c :: nat in
     if n = 34 \<or> n = 92 then [CHR 0x5C, c]
     else if n = 10 then [CHR 0x5C, CHR ''n'']
     else if n = 13 then [CHR 0x5C, CHR ''r'']
     else if n = 9 then [CHR 0x5C, CHR ''t'']
     else if n = 8 then [CHR 0x5C, CHR ''b'']
     else if n = 12 then [CHR 0x5C, CHR ''f'']
     else if n < 32 \<or> (ea \<and> 126 < n)
       then [CHR 0x5C, CHR ''u'', CHR ''0'', CHR ''0'', hex_digit (n div 16), hex_digit (n mod 16)]
     else [c])"

definition quote :: "bool \<Rightarrow> string \<Rightarrow> string" where
  "quote ea s = CHR 0x22 # concat (map (esc_char ea) s) @ [CHR 0x22]"

fun emit :: "bool \<Rightarrow> json \<Rightarrow> string" where
  "emit ea JNull = ''null''"
| "emit ea (JBool b) = (if b then ''true'' else ''false'')"
| "emit ea (JInt i) = show_int i"
| "emit ea (JFloat r) = r"
| "emit ea (JStr s) = quote ea s"
| "emit ea (JArr xs) = ''['' @ join '','' (map (emit ea) xs) @ '']''"
| "emit ea (JObj kvs) =
     ''{'' @ join '','' (map (\<lambda>(k, v). quote ea k @ '':'' @ emit ea v) kvs) @ ''}''"

text \<open>\<open>json.dumps(v, ensure_ascii=ea, sort_keys=True, separators=(",", ":"))\<close>\<close>

definition dumps :: "bool \<Rightarrow> json \<Rightarrow> string" where
  "dumps ea v = emit ea (canon v)"

section \<open>Conversion to text\<close>

text \<open>\<open>repr\<close> and \<open>str\<close> of a document, as CPython writes them.\<close>

definition repr_char :: "char \<Rightarrow> char \<Rightarrow> string" where
  "repr_char q c = (let n = of_char c :: nat in
     if c = q \<or> n = 92 then [CHR 0x5C, c]
     else if n = 9 then [CHR 0x5C, CHR ''t'']
     else if n = 10 then [CHR 0x5C, CHR ''n'']
     else if n = 13 then [CHR 0x5C, CHR ''r'']
     else if n < 32 \<or> 127 \<le> n \<and> n \<le> 160 \<or> n = 173
       then [CHR 0x5C, CHR ''x'', hex_digit (n div 16), hex_digit (n mod 16)]
     else [c])"

definition repr_str :: "string \<Rightarrow> string" where
  "repr_str s = (let q = (if CHR 0x27 \<in> set s \<and> CHR 0x22 \<notin> set s then CHR 0x22 else CHR 0x27)
     in q # concat (map (repr_char q) s) @ [q])"

fun py_repr :: "json \<Rightarrow> string" where
  "py_repr JNull = ''None''"
| "py_repr (JBool b) = (if b then ''True'' else ''False'')"
| "py_repr (JInt i) = show_int i"
| "py_repr (JFloat r) = r"
| "py_repr (JStr s) = repr_str s"
| "py_repr (JArr xs) = ''['' @ join '', '' (map py_repr xs) @ '']''"
| "py_repr (JObj kvs) =
     ''{'' @ join '', '' (map (\<lambda>(k, v). repr_str k @ '': '' @ py_repr v) kvs) @ ''}''"

definition py_str :: "json \<Rightarrow> string" where
  "py_str v = (case v of JStr s \<Rightarrow> s | _ \<Rightarrow> py_repr v)"

lemma py_str_simps [simp]: "py_str (JStr s) = s" "py_str (JInt i) = show_int i"
  by (simp_all add: py_str_def)

text \<open>Truth value.\<close>

fun truthy :: "json \<Rightarrow> bool" where
  "truthy JNull = False"
| "truthy (JBool b) = b"
| "truthy (JInt i) = (i \<noteq> 0)"
| "truthy (JFloat r) = (r \<notin> {''0.0'', ''-0.0''})"
| "truthy (JStr s) = (s \<noteq> [])"
| "truthy (JArr xs) = (xs \<noteq> [])"
| "truthy (JObj kvs) = (kvs \<noteq> [])"

section \<open>Parsing\<close>

definition json_ws :: "char \<Rightarrow> bool" where
  "json_ws c \<longleftrightarrow> c \<in> {CHR '' '', CHR 0x09, CHR 0x0A, CHR 0x0D}"

definition skip_ws :: "string \<Rightarrow> string" where
  "skip_ws s = dropWhile json_ws s"

definition hex_val :: "char \<Rightarrow> nat option" where
  "hex_val c = (let n = of_char c :: nat in
     if 48 \<le> n \<and> n \<le> 57 then Some (n - 48)
     else if 97 \<le> n \<and> n \<le> 102 then Some (n - 87)
     else if 65 \<le> n \<and> n \<le> 70 then Some (n - 55)
     else None)"

definition hex4 :: "char \<Rightarrow> char \<Rightarrow> char \<Rightarrow> char \<Rightarrow> nat option" where
  "hex4 a b c d = (case (hex_val a, hex_val b, hex_val c, hex_val d) of
     (Some i, Some j, Some k, Some l) \<Rightarrow> Some (((i * 16 + j) * 16 + k) * 16 + l)
   | _ \<Rightarrow> None)"

definition unescape :: "char \<Rightarrow> char option" where
  "unescape e =
     (if e = CHR 0x22 \<or> e = CHR 0x5C \<or> e = CHR ''/'' then Some e
      else if e = CHR ''n'' then Some (CHR 0x0A)
      else if e = CHR ''r'' then Some (CHR 0x0D)
      else if e = CHR ''t'' then Some (CHR 0x09)
      else if e = CHR ''b'' then Some (CHR 0x08)
      else if e = CHR ''f'' then Some (CHR 0x0C)
      else None)"

fun scan_str :: "string \<Rightarrow> (string \<times> string) option" where
  "scan_str [] = None"
| "scan_str (c # s) =
     (if c = CHR 0x22 then Some ([], s)
      else if c = CHR 0x5C then
        (case s of
           [] \<Rightarrow> None
         | e # s' \<Rightarrow>
             if e = CHR ''u'' then
               (case s' of
                  h1 # h2 # h3 # h4 # s'' \<Rightarrow>
                    (case hex4 h1 h2 h3 h4 of
                       None \<Rightarrow> None
                     | Some n \<Rightarrow>
                         if n < 256 then map_option (apfst ((#) (char_of n))) (scan_str s'')
                         else None)
                | _ \<Rightarrow> None)
             else
               (case unescape e of
                  None \<Rightarrow> None
                | Some x \<Rightarrow> map_option (apfst ((#) x)) (scan_str s')))
      else if (of_char c :: nat) < 32 then None
      else map_option (apfst ((#) c)) (scan_str s))"

definition is_numchar :: "char \<Rightarrow> bool" where
  "is_numchar c \<longleftrightarrow> is_digit c \<or> c \<in> set ''+-.eE''"

definition nat_lit :: "string \<Rightarrow> bool" where
  "nat_lit s \<longleftrightarrow> all_digits s \<and> (length s = 1 \<or> hd s \<noteq> CHR ''0'')"

definition unsigned :: "string \<Rightarrow> string" where
  "unsigned s = (case s of [] \<Rightarrow> [] | c # r \<Rightarrow> if c = CHR ''-'' then r else s)"

definition frac_rest :: "string \<Rightarrow> string option" where
  "frac_rest s = (case s of
     [] \<Rightarrow> Some []
   | c # r \<Rightarrow>
       if c = CHR ''.'' then
         (if takeWhile is_digit r = [] then None else Some (dropWhile is_digit r))
       else Some s)"

definition exp_ok :: "string \<Rightarrow> bool" where
  "exp_ok s = (case s of
     [] \<Rightarrow> True
   | c # r \<Rightarrow> c \<in> set ''eE'' \<and>
       all_digits (case r of [] \<Rightarrow> [] | d # r' \<Rightarrow> if d \<in> set ''+-'' then r' else r))"

definition float_lit :: "string \<Rightarrow> bool" where
  "float_lit s \<longleftrightarrow>
     (let u = unsigned s; r = dropWhile is_digit u
      in nat_lit (takeWhile is_digit u) \<and> r \<noteq> []
         \<and> (case frac_rest r of None \<Rightarrow> False | Some e \<Rightarrow> exp_ok e))"

definition number_of :: "string \<Rightarrow> json option" where
  "number_of s =
     (if nat_lit (unsigned s) then
        (case read_nat (unsigned s) of
           None \<Rightarrow> None
         | Some n \<Rightarrow> Some (JInt (if unsigned s = s then int n else - int n)))
      else if float_lit s then Some (JFloat s)
      else None)"

definition literal :: "string \<Rightarrow> json \<Rightarrow> string \<Rightarrow> (json \<times> string) option" where
  "literal p v s = (if prefix p s then Some (v, drop (length p) s) else None)"

definition scan_number :: "string \<Rightarrow> (json \<times> string) option" where
  "scan_number s = (case number_of (takeWhile is_numchar s) of
     None \<Rightarrow> None | Some v \<Rightarrow> Some (v, dropWhile is_numchar s))"

fun parse_value :: "nat \<Rightarrow> string \<Rightarrow> (json \<times> string) option"
  and parse_elems :: "nat \<Rightarrow> string \<Rightarrow> (json list \<times> string) option"
  and parse_members :: "nat \<Rightarrow> string \<Rightarrow> ((string \<times> json) list \<times> string) option" where
  "parse_value 0 s = None"
| "parse_value (Suc n) s =
     (case skip_ws s of
        [] \<Rightarrow> None
      | c # r \<Rightarrow>
          if c = CHR 0x22 then map_option (apfst JStr) (scan_str r)
          else if c = CHR ''['' then
            (case skip_ws r of
               [] \<Rightarrow> None
             | d # r' \<Rightarrow>
                 if d = CHR '']'' then Some (JArr [], r')
                 else map_option (apfst JArr) (parse_elems n (d # r')))
          else if c = CHR ''{'' then
            (case skip_ws r of
               [] \<Rightarrow> None
             | d # r' \<Rightarrow>
                 if d = CHR ''}'' then Some (JObj [], r')
                 else map_option (apfst (JObj \<circ> dict_of_pairs)) (parse_members n (d # r')))
          else if c = CHR ''n'' then literal ''null'' JNull (c # r)
          else if c = CHR ''t'' then literal ''true'' (JBool True) (c # r)
          else if c = CHR ''f'' then literal ''false'' (JBool False) (c # r)
          else scan_number (c # r))"
| "parse_elems 0 s = None"
| "parse_elems (Suc n) s =
     (case parse_value n s of
        None \<Rightarrow> None
      | Some (v, r) \<Rightarrow>
          (case skip_ws r of
             [] \<Rightarrow> None
           | c # r' \<Rightarrow>
               if c = CHR '','' then map_option (apfst ((#) v)) (parse_elems n r')
               else if c = CHR '']'' then Some ([v], r')
               else None))"
| "parse_members 0 s = None"
| "parse_members (Suc n) s =
     (case skip_ws s of
        [] \<Rightarrow> None
      | q # r0 \<Rightarrow>
          if q \<noteq> CHR 0x22 then None
          else
            (case scan_str r0 of
               None \<Rightarrow> None
             | Some (k, r1) \<Rightarrow>
                 (case skip_ws r1 of
                    [] \<Rightarrow> None
                  | d # r2 \<Rightarrow>
                      if d \<noteq> CHR '':'' then None
                      else
                        (case parse_value n r2 of
                           None \<Rightarrow> None
                         | Some (v, r) \<Rightarrow>
                             (case skip_ws r of
                                [] \<Rightarrow> None
                              | c # r' \<Rightarrow>
                                  if c = CHR '','' then
                                    map_option (apfst ((#) (k, v))) (parse_members n r')
                                  else if c = CHR ''}'' then Some ([(k, v)], r')
                                  else None)))))"

text \<open>\<open>json.loads\<close>; the fuel is the length of the text and one, which \<open>loads_emit\<close> shows enough.\<close>

definition loads :: "string \<Rightarrow> json option" where
  "loads s = (case parse_value (Suc (length s)) s of
     None \<Rightarrow> None
   | Some (v, r) \<Rightarrow> if skip_ws r = [] then Some v else None)"

section \<open>Parsing inverts serialisation\<close>

fun json_ok :: "json \<Rightarrow> bool" where
  "json_ok (JFloat r) = (number_of r = Some (JFloat r) \<and> list_all is_numchar r)"
| "json_ok (JArr xs) = (\<forall>x \<in> set xs. json_ok x)"
| "json_ok (JObj kvs) = (distinct (map fst kvs) \<and> (\<forall>(k, v) \<in> set kvs. json_ok v))"
| "json_ok _ = True"

fun jsize :: "json \<Rightarrow> nat" where
  "jsize (JArr xs) = Suc (sum_list (map (\<lambda>x. Suc (jsize x)) xs))"
| "jsize (JObj kvs) = Suc (sum_list (map (\<lambda>(k, v). Suc (jsize v)) kvs))"
| "jsize _ = 0"

lemma hex_val_digit: "d < 16 \<Longrightarrow> hex_val (hex_digit d) = Some d"
  by (cases "d < 10") (auto simp: hex_val_def hex_digit_def)

lemma char_code_eq:
  "((of_char c :: nat) = 34) = (c = CHR 0x22)" "((of_char c :: nat) = 92) = (c = CHR 0x5C)"
  "((of_char c :: nat) = 10) = (c = CHR 0x0A)" "((of_char c :: nat) = 13) = (c = CHR 0x0D)"
  "((of_char c :: nat) = 9) = (c = CHR 0x09)" "((of_char c :: nat) = 8) = (c = CHR 0x08)"
  "((of_char c :: nat) = 12) = (c = CHR 0x0C)"
  using of_char_eq_iff [where 'a = nat, of c "CHR 0x22"] of_char_eq_iff [where 'a = nat, of c "CHR 0x5C"]
    of_char_eq_iff [where 'a = nat, of c "CHR 0x0A"] of_char_eq_iff [where 'a = nat, of c "CHR 0x0D"]
    of_char_eq_iff [where 'a = nat, of c "CHR 0x09"] of_char_eq_iff [where 'a = nat, of c "CHR 0x08"]
    of_char_eq_iff [where 'a = nat, of c "CHR 0x0C"]
  by simp_all

lemma hex4_low:
  assumes "n < 256"
  shows "hex4 (CHR ''0'') (CHR ''0'') (hex_digit (n div 16)) (hex_digit (n mod 16)) = Some n"
  using assms by (simp add: hex4_def hex_val_digit less_mult_imp_div_less) (simp add: hex_val_def)

lemma scan_esc_char:
  "scan_str (esc_char ea c @ s) = map_option (apfst ((#) c)) (scan_str s)"
proof -
  let ?n = "of_char c :: nat"
  have h: "hex4 (CHR ''0'') (CHR ''0'') (hex_digit (?n div 16)) (hex_digit (?n mod 16)) = Some ?n"
    by (rule hex4_low) simp
  show ?thesis
    using h by (simp add: esc_char_def Let_def char_code_eq unescape_def)
qed

lemma scan_quote:
  "scan_str (concat (map (esc_char ea) t) @ CHR 0x22 # s) = Some (t, s)"
proof (induction t)
  case (Cons c t)
  then show ?case by (simp only: concat.simps list.map append_assoc scan_esc_char) simp
qed simp

lemma numchar_facts:
  assumes "is_numchar c"
  shows "\<not> json_ws c" "c \<noteq> CHR 0x22" "c \<noteq> CHR ''[''" "c \<noteq> CHR ''{''" "c \<noteq> CHR ''n''"
    "c \<noteq> CHR ''t''" "c \<noteq> CHR ''f''" "c \<noteq> CHR '']''" "c \<noteq> CHR ''}''"
  using assms by (auto simp: is_numchar_def is_digit_def json_ws_def)

definition delim :: "string \<Rightarrow> bool" where
  "delim s \<longleftrightarrow> s = [] \<or> \<not> is_numchar (hd s)"

lemma delim_simps [simp]:
  "delim []" "delim (CHR '','' # s)" "delim (CHR '']'' # s)" "delim (CHR ''}'' # s)"
  "delim (CHR 0x0A # s)"
  by (simp_all add: delim_def is_numchar_def is_digit_def)

lemma scan_number_append:
  assumes "list_all is_numchar r" and "number_of r = Some v" and "delim s"
  shows "scan_number (r @ s) = Some (v, s)"
proof -
  have r: "\<forall>c \<in> set r. is_numchar c" using assms(1) by (simp add: list_all_iff)
  have "takeWhile is_numchar (r @ s) = r @ takeWhile is_numchar s"
    using r by (simp add: takeWhile_append2)
  moreover have "takeWhile is_numchar s = []" using assms(3) by (cases s) (auto simp: delim_def)
  moreover have "dropWhile is_numchar (r @ s) = dropWhile is_numchar s"
    using r by (simp add: dropWhile_append2)
  moreover have "dropWhile is_numchar s = s" using assms(3) by (cases s) (auto simp: delim_def)
  ultimately show ?thesis using assms(2) by (simp add: scan_number_def)
qed

lemma number_of_nonempty: "number_of r = Some v \<Longrightarrow> r \<noteq> []"
  by (auto simp: number_of_def nat_lit_def unsigned_def all_digits_def float_lit_def)

lemma parse_number:
  assumes "list_all is_numchar r" and "number_of r = Some v" and "delim s"
  shows "parse_value (Suc n) (r @ s) = Some (v, s)"
proof -
  obtain c r' where r: "r = c # r'" using number_of_nonempty [OF assms(2)] by (cases r) auto
  then have c: "is_numchar c" using assms(1) by simp
  have "scan_number (c # r' @ s) = Some (v, s)" using scan_number_append [OF assms] r by simp
  then show ?thesis using r numchar_facts [OF c] by (simp add: skip_ws_def)
qed

lemma hd_show_nat_pos: "0 < n \<Longrightarrow> hd (show_nat n) \<noteq> CHR ''0''"
proof (induction n rule: show_nat.induct)
  case (1 n)
  have zero: "digit_char n = CHR ''0'' \<Longrightarrow> n < 10 \<Longrightarrow> n = 0"
    using of_char_digit_char [of n] by fastforce
  show ?case
    using 1 zero by (subst show_nat.simps) (auto simp: hd_append)
qed

lemma nat_lit_show: "nat_lit (show_nat n)"
proof (cases "n = 0")
  case True
  then show ?thesis by (simp add: nat_lit_def) (simp add: show_nat.simps)
qed (simp add: nat_lit_def hd_show_nat_pos)

lemma number_of_show_int: "number_of (show_int i) = Some (JInt i)"
proof -
  have hd: "hd (show_nat n) \<noteq> CHR ''-''" for n
    using show_nat_digits [of n] digit_not_minus by (metis hd_in_set show_nat_nonempty)
  have u: "unsigned (show_nat n) = show_nat n" for n
    using hd [of n] by (auto simp: unsigned_def split: list.split)
  have m: "unsigned (CHR ''-'' # s) = s" for s by (simp add: unsigned_def)
  have ne: "show_nat n \<noteq> CHR ''-'' # s" for n s using hd [of n] by (metis list.sel(1))
  show ?thesis
    using ne by (auto simp: number_of_def show_int_def u m nat_lit_show)
qed

lemma numchar_show_int: "list_all is_numchar (show_int i)"
  using show_nat_digits by (auto simp: show_int_def list_all_iff is_numchar_def)

lemma emit_start:
  assumes "json_ok v"
  obtains c r where "emit ea v = c # r" "\<not> json_ws c" "c \<noteq> CHR '']''" "c \<noteq> CHR ''}''"
proof -
  have num: "r \<noteq> [] \<Longrightarrow> list_all is_numchar r \<Longrightarrow>
      \<exists>c r'. r = c # r' \<and> \<not> json_ws c \<and> c \<noteq> CHR '']'' \<and> c \<noteq> CHR ''}''" for r
    by (cases r) (auto simp: numchar_facts)
  have "\<exists>c r. emit ea v = c # r \<and> \<not> json_ws c \<and> c \<noteq> CHR '']'' \<and> c \<noteq> CHR ''}''"
  proof (cases v)
    case (JInt i)
    then show ?thesis using num [of "show_int i"] numchar_show_int by (simp add: show_int_def)
  next
    case (JFloat r)
    then show ?thesis using assms num [of r] number_of_nonempty [of r] by simp
  qed (auto simp: json_ws_def quote_def)
  then show thesis using that by blast
qed

lemma skip_ws_emit: "json_ok v \<Longrightarrow> skip_ws (emit ea v @ s) = emit ea v @ s"
  by (rule emit_start [of v ea]) (auto simp: skip_ws_def)

lemma join_Cons: "join sep (x # xs) = x @ (if xs = [] then [] else sep @ join sep xs)"
  by (cases xs) auto

lemma dict_of_pairs_distinct: "distinct (map fst kvs) \<Longrightarrow> dict_of_pairs kvs = kvs"
proof -
  have "distinct (map fst (d @ ps)) \<Longrightarrow> fold (\<lambda>(k, v) d. AList.update k v d) ps d = d @ ps" for d ps
  proof (induction ps arbitrary: d)
    case (Cons p ps)
    obtain k v where p: "p = (k, v)" by force
    have "AList.update k v d = d @ [(k, v)]" using Cons.prems p
      by (induction d) (auto simp: image_iff)
    then show ?case using Cons.IH [of "d @ [p]"] Cons.prems p by simp
  qed simp
  from this [of "[]" kvs] show "distinct (map fst kvs) \<Longrightarrow> dict_of_pairs kvs = kvs"
    by (simp add: dict_of_pairs_def)
qed

definition parses :: "bool \<Rightarrow> json \<Rightarrow> bool" where
  "parses ea v \<longleftrightarrow> (\<forall>n s. jsize v < n \<longrightarrow> delim s \<longrightarrow> parse_value n (emit ea v @ s) = Some (v, s))"

lemma parse_elems_emit:
  assumes "xs \<noteq> []" and "\<forall>x \<in> set xs. json_ok x \<and> parses ea x"
    and "sum_list (map (\<lambda>x. Suc (jsize x)) xs) < n"
  shows "parse_elems n (join '','' (map (emit ea) xs) @ CHR '']'' # s) = Some (xs, s)"
  using assms
proof (induction xs arbitrary: n)
  case (Cons x xs)
  from Cons.prems obtain m where n: "n = Suc m" by (cases n) auto
  have x: "parse_value m (emit ea x @ t) = Some (x, t)" if "delim t" for t
    using Cons.prems n that by (auto simp: parses_def)
  show ?case
  proof (cases "xs = []")
    case True
    then show ?thesis using x n by (simp add: skip_ws_def json_ws_def)
  next
    case False
    then have "parse_elems m (join '','' (map (emit ea) xs) @ CHR '']'' # s) = Some (xs, s)"
      using Cons.IH [of m] Cons.prems n by auto
    then show ?thesis using x n False by (simp add: join_Cons skip_ws_def json_ws_def)
  qed
qed simp

lemma parse_members_emit:
  assumes "kvs \<noteq> []" and "\<forall>(k, v) \<in> set kvs. json_ok v \<and> parses ea v"
    and "sum_list (map (\<lambda>(k, v). Suc (jsize v)) kvs) < n"
  shows "parse_members n (join '','' (map (\<lambda>(k, v). quote ea k @ '':'' @ emit ea v) kvs) @ CHR ''}'' # s)
    = Some (kvs, s)"
  using assms
proof (induction kvs arbitrary: n)
  case (Cons p kvs)
  obtain k v where p: "p = (k, v)" by force
  from Cons.prems obtain m where n: "n = Suc m" by (cases n) auto
  have v: "parse_value m (emit ea v @ t) = Some (v, t)" if "delim t" for t
    using Cons.prems n p that by (auto simp: parses_def)
  have k: "skip_ws (quote ea k @ t) = CHR 0x22 # concat (map (esc_char ea) k) @ CHR 0x22 # t"
    "skip_ws (CHR '':'' # t) = CHR '':'' # t" "skip_ws (CHR '','' # t) = CHR '','' # t"
    "skip_ws (CHR ''}'' # t) = CHR ''}'' # t" for t
    by (simp_all add: skip_ws_def json_ws_def quote_def)
  show ?case
  proof (cases "kvs = []")
    case True
    then show ?thesis using v n p by (simp add: k scan_quote)
  next
    case False
    then have "parse_members m
        (join '','' (map (\<lambda>(k, v). quote ea k @ '':'' @ emit ea v) kvs) @ CHR ''}'' # s) = Some (kvs, s)"
      using Cons.IH [of m] Cons.prems n p by auto
    then show ?thesis using v n p False by (simp add: join_Cons k scan_quote)
  qed
qed simp

lemma parse_emit: "json_ok v \<Longrightarrow> parses ea v"
proof (induction v)
  case JNull
  then show ?case by (auto simp: parses_def skip_ws_def json_ws_def literal_def gr0_conv_Suc)
next
  case (JBool b)
  then show ?case
    by (cases b) (auto simp: parses_def skip_ws_def json_ws_def literal_def gr0_conv_Suc)
next
  case (JInt i)
  then show ?case
    using parse_number [OF numchar_show_int number_of_show_int]
    by (auto simp: parses_def gr0_conv_Suc simp del: parse_value.simps)
next
  case (JFloat r)
  then show ?case
    using parse_number [of r "JFloat r"]
    by (auto simp: parses_def gr0_conv_Suc simp del: parse_value.simps)
next
  case (JStr t)
  then show ?case
    by (auto simp: parses_def gr0_conv_Suc skip_ws_def json_ws_def quote_def scan_quote)
next
  case (JArr xs)
  then have xs: "\<forall>x \<in> set xs. json_ok x \<and> parses ea x" by simp
  show ?case unfolding parses_def
  proof (intro allI impI)
    fix n s assume "jsize (JArr xs) < n" and "delim s"
    then obtain m where n: "n = Suc m" and m: "sum_list (map (\<lambda>x. Suc (jsize x)) xs) < m"
      by (cases n) auto
    show "parse_value n (emit ea (JArr xs) @ s) = Some (JArr xs, s)"
    proof (cases xs)
      case Nil
      then show ?thesis by (simp add: n skip_ws_def json_ws_def)
    next
      case (Cons y ys)
      then have "json_ok y" using xs by simp
      then obtain c r where c: "emit ea y = c # r" "\<not> json_ws c" "c \<noteq> CHR '']''"
        by (rule emit_start)
      obtain r' where body: "join '','' (map (emit ea) xs) @ CHR '']'' # s = c # r'"
        using Cons c(1) by (auto simp: join_Cons)
      have ne: "xs \<noteq> []" using Cons by simp
      have "parse_elems m (c # r') = Some (xs, s)"
        using parse_elems_emit [OF ne xs m, of s] by (simp only: body)
      then show ?thesis
        using body c by (simp add: n skip_ws_def json_ws_def)
    qed
  qed
next
  case (JObj kvs)
  then have kvs: "\<forall>(k, v) \<in> set kvs. json_ok v \<and> parses ea v" and d: "distinct (map fst kvs)"
    by fastforce+
  show ?case unfolding parses_def
  proof (intro allI impI)
    fix n s assume "jsize (JObj kvs) < n" and "delim s"
    then obtain m where n: "n = Suc m" and m: "sum_list (map (\<lambda>(k, v). Suc (jsize v)) kvs) < m"
      by (cases n) auto
    show "parse_value n (emit ea (JObj kvs) @ s) = Some (JObj kvs, s)"
    proof (cases kvs)
      case Nil
      then show ?thesis by (simp add: n skip_ws_def json_ws_def)
    next
      case (Cons p ps)
      obtain k v where p: "p = (k, v)" by force
      obtain r' where body: "join '','' (map (\<lambda>(k, v). quote ea k @ '':'' @ emit ea v) kvs)
          @ CHR ''}'' # s = CHR 0x22 # r'"
        using Cons p by (auto simp: join_Cons quote_def)
      have ne: "kvs \<noteq> []" using Cons by simp
      have "parse_members m (CHR 0x22 # r') = Some (kvs, s)"
        using parse_members_emit [OF ne kvs m, of s] by (simp only: body)
      then show ?thesis
        using body d by (simp add: n skip_ws_def json_ws_def dict_of_pairs_distinct)
    qed
  qed
qed

lemma length_join: "length (join sep xs) = sum_list (map length xs) + (length xs - 1) * length sep"
  by (induction sep xs rule: join.induct) auto

lemma jsize_length: "json_ok v \<Longrightarrow> jsize v \<le> length (emit ea v)"
proof (induction v)
  case (JArr xs)
  then have "sum_list (map jsize xs) \<le> sum_list (map (\<lambda>x. length (emit ea x)) xs)"
    by (intro sum_list_mono) simp
  then show ?case by (simp add: sum_list_Suc length_join comp_def)
next
  case (JObj kvs)
  then have "sum_list (map (\<lambda>(k, v). Suc (jsize v)) kvs)
      \<le> sum_list (map (\<lambda>(k, v). length (quote ea k @ '':'' @ emit ea v)) kvs)"
    by (intro sum_list_mono) (fastforce split: prod.split)
  then show ?case by (simp add: length_join comp_def case_prod_unfold)
qed auto

lemma skip_ws_suffix: "skip_ws [] = []" "skip_ws [CHR 0x0A] = []"
  by (simp_all add: skip_ws_def json_ws_def)

lemma loads_emit:
  assumes "json_ok v" and "s = [] \<or> s = [CHR 0x0A]"
  shows "loads (emit ea v @ s) = Some v"
proof -
  have "jsize v < Suc (length (emit ea v @ s))" using jsize_length [OF assms(1), of ea] by simp
  moreover have "delim s" "skip_ws s = []" using assms(2) by (auto simp: skip_ws_suffix)
  ultimately show ?thesis
    using parse_emit [OF assms(1), of ea]
    unfolding parses_def loads_def by (simp del: parse_value.simps)
qed

section \<open>Canonical form\<close>

lemma canon_keys: "map fst (map (\<lambda>(k, v). (k, canon v)) kvs) = map fst kvs"
  by auto

lemma canon_idem [simp]: "canon (canon v) = canon v"
proof (induction v)
  case (JObj kvs)
  have "map (\<lambda>(k, v). (k, canon v)) (sort_key fst (map (\<lambda>(k, v). (k, canon v)) kvs))
      = sort_key fst (map (\<lambda>(k, v). (k, canon v)) kvs)"
    using JObj by (intro map_idI) (fastforce simp: image_iff)
  then show ?case by (simp add: sort_key_id_if_sorted)
qed auto

lemma json_ok_canon: "json_ok v \<Longrightarrow> json_ok (canon v)"
proof (induction v)
  case (JObj kvs)
  have "distinct (map fst (sort_key fst (map (\<lambda>(k, v). (k, canon v)) kvs)))"
  proof -
    have "mset (map fst (sort_key fst (map (\<lambda>(k, v). (k, canon v)) kvs)))
        = mset (map fst (map (\<lambda>(k, v). (k, canon v)) kvs))"
      by (simp only: mset_map mset_sort)
    also have "\<dots> = mset (map fst kvs)" by (simp only: canon_keys)
    finally show ?thesis using JObj.prems by (metis json_ok.simps(3) mset_eq_imp_distinct_iff)
  qed
  then show ?case using JObj by fastforce
qed auto

lemma loads_dumps:
  assumes "json_ok v"
  shows "loads (dumps ea v) = Some (canon v)" "loads (dumps ea v @ [CHR 0x0A]) = Some (canon v)"
  using loads_emit [OF json_ok_canon [OF assms], of "[]" ea]
    loads_emit [OF json_ok_canon [OF assms], of "[CHR 0x0A]" ea]
  by (simp_all add: dumps_def)

lemma dumps_canon [simp]: "dumps ea (canon v) = dumps ea v"
  by (simp add: dumps_def)

lemma dumps_inj:
  assumes "json_ok v" and "json_ok w"
  shows "dumps ea v = dumps ea w \<longleftrightarrow> canon v = canon w"
  using loads_dumps(1) [OF assms(1), of ea] loads_dumps(1) [OF assms(2), of ea]
  by (metis dumps_canon option.inject)

lemma map_of_canon:
  assumes "distinct (map fst kvs)"
  shows "map_of (entries (canon (JObj kvs))) k = map_option canon (map_of kvs k)"
proof -
  let ?m = "map (\<lambda>(k, v). (k, canon v)) kvs"
  have "map_of (sort_key fst ?m) = map_of ?m"
  proof (rule map_of_inject_set [THEN iffD2])
    show "distinct (map fst ?m)" using assms by (simp only: canon_keys)
    show "distinct (map fst (sort_key fst ?m))"
      using assms by (metis canon_keys mset_map mset_sort mset_eq_imp_distinct_iff)
  qed simp
  then show ?thesis by (simp add: map_of_map comp_def)
qed

lemma jget_canon:
  assumes "json_ok v" and "is_obj v"
  shows "jget (canon v) k = canon (jget v k)"
proof -
  obtain kvs where v: "v = JObj kvs" using assms(2) by (cases v) auto
  have "distinct (map fst kvs)" using assms(1) v by simp
  from map_of_canon [OF this] show ?thesis
    by (simp add: v jget_def get_item_def split: option.split)
qed


section \<open>Updating a dict\<close>

lemma set_AList_update: "(k', v') \<in> set (AList.update k v d) \<Longrightarrow> (k', v') = (k, v) \<or> (k', v') \<in> set d"
  by (induction d) (auto split: if_splits)

lemma json_ok_update:
  assumes "json_ok (JObj d)" "json_ok v"
  shows "json_ok (JObj (AList.update k v d))"
  using assms distinct_update [of d k v] by (auto dest!: set_AList_update)

lemma json_ok_dict_update: "json_ok (JObj d) \<Longrightarrow> json_ok (JObj e) \<Longrightarrow> json_ok (JObj (dict_update d e))"
proof -
  have "json_ok (JObj d) \<Longrightarrow> \<forall>(k, v) \<in> set e. json_ok v \<Longrightarrow> json_ok (JObj (dict_update d e))" for d
  proof (induction e arbitrary: d)
    case (Cons kv e)
    obtain k v where kv: "kv = (k, v)" by (cases kv)
    have "json_ok (JObj (AList.update k v d))"
      by (rule json_ok_update) (use Cons.prems kv in auto)
    then show ?case using Cons.IH [of "AList.update k v d"] Cons.prems(2) kv by (simp add: dict_update_def)
  qed (simp add: dict_update_def)
  then show "json_ok (JObj d) \<Longrightarrow> json_ok (JObj e) \<Longrightarrow> ?thesis" by simp
qed

lemma get_item_update [simp]: "get_item (AList.update k v d) k' = (if k' = k then v else get_item d k')"
  by (simp add: get_item_def update_conv')

section \<open>What the parser returns\<close>

lemma json_ok_dict_of_pairs: "\<forall>(k, v) \<in> set ps. json_ok v \<Longrightarrow> json_ok (JObj (dict_of_pairs ps))"
proof -
  have "json_ok (JObj d) \<Longrightarrow> \<forall>(k, v) \<in> set ps. json_ok v \<Longrightarrow>
      json_ok (JObj (fold (\<lambda>(k, v) d. AList.update k v d) ps d))" for d
  proof (induction ps arbitrary: d)
    case (Cons kv ps)
    obtain k v where kv: "kv = (k, v)" by (cases kv)
    have "json_ok (JObj (AList.update k v d))"
      by (rule json_ok_update [OF Cons.prems(1)]) (use Cons.prems(2) kv in simp)
    from Cons.IH [OF this] show ?case using Cons.prems(2) kv by simp
  qed simp
  from this [of "[]"] show "\<forall>(k, v) \<in> set ps. json_ok v \<Longrightarrow> ?thesis"
    unfolding dict_of_pairs_def by (simp del: json_ok.simps(3)) (simp add: json_ok.simps)
qed

lemma number_of_ok: "number_of r = Some v \<Longrightarrow> list_all is_numchar r \<Longrightarrow> json_ok v"
  by (auto simp: number_of_def split: if_splits option.splits)

lemma scan_number_ok: "scan_number s = Some (v, r) \<Longrightarrow> json_ok v"
  using number_of_ok [of "takeWhile is_numchar s"]
  by (auto simp: scan_number_def list_all_iff dest: set_takeWhileD split: option.splits)

lemma parse_ok:
  "parse_value n s = Some (v, r) \<Longrightarrow> json_ok v"
  "parse_elems n s = Some (vs, r) \<Longrightarrow> \<forall>v \<in> set vs. json_ok v"
  "parse_members n s = Some (kvs, r) \<Longrightarrow> \<forall>(k, v) \<in> set kvs. json_ok v"
proof (induction n s and n s and n s arbitrary: v r and vs r and kvs r
    rule: parse_value_parse_elems_parse_members.induct)
  case (2 n s)
  then show ?case
    using json_ok_dict_of_pairs scan_number_ok json_ok_dict_of_pairs [of "[]", simplified dict_of_pairs_def]
    by (auto simp: literal_def simp del: json_ok.simps(3) split: list.splits if_splits)
next
  case (4 n s)
  then show ?case by (fastforce split: option.splits list.splits if_splits)
next
  case (6 n s)
  then show ?case by (fastforce split: option.splits list.splits if_splits)
qed auto

lemma loads_ok: "loads s = Some v \<Longrightarrow> json_ok v"
  by (auto simp: loads_def simp del: parse_value.simps split: option.splits if_splits intro: parse_ok(1))

section \<open>Optional text\<close>

definition jopt :: "string option \<Rightarrow> json" where
  "jopt v = (case v of None \<Rightarrow> JNull | Some s \<Rightarrow> JStr s)"

definition text_opt :: "json \<Rightarrow> string option" where
  "text_opt v = (case v of JStr s \<Rightarrow> Some s | _ \<Rightarrow> None)"

lemma text_opt_simps [simp]:
  "text_opt (JStr s) = Some s" "text_opt JNull = None" "text_opt (jopt v) = v"
  "canon (jopt v) = jopt v" "json_ok (jopt v)"
  by (simp_all add: text_opt_def jopt_def split: option.split)

lemma jopt_simps [simp]: "jopt None = JNull" "jopt (Some s) = JStr s" "jopt v = jopt w \<longleftrightarrow> v = w"
  by (auto simp: jopt_def split: option.splits)

text \<open>Reading a member back from the stored text of a document.\<close>

definition stored_get :: "string \<Rightarrow> string \<Rightarrow> json" where
  "stored_get text k = (case loads text of None \<Rightarrow> JNull | Some v \<Rightarrow> jget v k)"

lemma stored_get_dumps:
  "json_ok (JObj kvs) \<Longrightarrow> stored_get (dumps False (JObj kvs)) k = canon (get_item kvs k)"
proof -
  assume ok: "json_ok (JObj kvs)"
  have "stored_get (dumps False (JObj kvs)) k = jget (canon (JObj kvs)) k"
    unfolding stored_get_def loads_dumps(1) [OF ok] by simp
  also have "\<dots> = canon (jget (JObj kvs) k)" by (rule jget_canon [OF ok]) simp
  finally show ?thesis by (simp only: jget_def entries.simps)
qed

section \<open>\<open>int(...)\<close> of a JSON value\<close>

text \<open>Single underscores may stand between the digits, as \<open>int("1_000")\<close> allows.\<close>

definition read_grouped :: "string \<Rightarrow> nat option" where
  "read_grouped s =
     (if prefix ''_'' s \<or> suffix ''_'' s \<or> list_ex (\<lambda>(a, b). a = CHR ''_'' \<and> b = CHR ''_'') (zip s (tl s)) then None
      else read_nat (filter (\<lambda>c. c \<noteq> CHR ''_'') s))"

lemma read_grouped_plain:
  assumes "CHR ''_'' \<notin> set s"
  shows "read_grouped s = read_nat s"
proof -
  have "filter (\<lambda>c. c \<noteq> CHR ''_'') s = s" using assms by (auto simp: filter_id_conv)
  moreover have "\<not> prefix ''_'' s" "\<not> suffix ''_'' s" using assms by (auto dest: set_mono_prefix set_mono_suffix)
  moreover have "\<not> list_ex (\<lambda>(a, b). a = CHR ''_'' \<and> b = CHR ''_'') (zip s (tl s))"
    using assms by (auto simp: list_ex_iff dest: set_zip_leftD)
  ultimately show ?thesis by (simp add: read_grouped_def)
qed

definition signed_digits :: "string \<Rightarrow> int option" where
  "signed_digits s = (case s of
     [] \<Rightarrow> None
   | c # r \<Rightarrow> if c = CHR ''-'' then map_option (\<lambda>n. - int n) (read_grouped r)
             else if c = CHR ''+'' then map_option int (read_grouped r)
             else map_option int (read_grouped s))"

lemma signed_digits_show [simp]: "signed_digits (show_int i) = Some i"
proof -
  have plain: "CHR ''_'' \<notin> set (show_nat n)" for n using show_nat_digits [of n] by (auto simp: is_digit_def)
  obtain c r where n: "show_nat (nat i) = c # r" using show_nat_nonempty by (metis list.exhaust)
  have "c \<noteq> CHR ''-''" "c \<noteq> CHR ''+''" using show_nat_digits [of "nat i"] by (auto simp: n is_digit_def)
  then show ?thesis
    by (cases "i < 0") (use plain [of "nat i"] n read_show_nat [of "nat i"]
      in \<open>auto simp: signed_digits_def show_int_def read_grouped_plain plain\<close>)
qed

definition float_trunc :: "string \<Rightarrow> int option" where
  "float_trunc r =
     (let neg = prefix ''-'' r; u = (if neg then drop 1 r else r);
          mant = takeWhile (\<lambda>c. c \<noteq> CHR ''e'') u;
          whole = takeWhile (\<lambda>c. c \<noteq> CHR ''.'') mant;
          frac = drop (length whole + 1) mant;
          ex = drop (length mant + 1) u
      in case (read_nat (whole @ frac), if ex = [] then Some 0 else signed_digits ex) of
           (Some m, Some e) \<Rightarrow>
             (let v = (if int (length frac) \<le> e then int m * 10 ^ nat (e - int (length frac))
                       else int m div 10 ^ nat (int (length frac) - e))
              in Some (if neg then - v else v))
         | _ \<Rightarrow> None)"

definition py_int :: "json \<Rightarrow> int option" where
  "py_int v = (case v of
     JInt i \<Rightarrow> Some i
   | JBool b \<Rightarrow> Some (if b then 1 else 0)
   | JFloat r \<Rightarrow> float_trunc r
   | JStr s \<Rightarrow> signed_digits (strip s)
   | _ \<Rightarrow> None)"

lemma jget_canon_ok: "json_ok v \<Longrightarrow> jget (canon v) k = canon (jget v k)"
  by (cases v) (simp_all add: jget_canon del: json_ok.simps canon.simps(2), simp_all add: jget_def get_item_def)

lemma is_obj_canon [simp]: "is_obj (canon v) = is_obj v"
  by (cases v) auto

lemma json_ok_item: "json_ok (JObj d) \<Longrightarrow> json_ok (get_item d k)"
  by (auto simp: get_item_def split: option.split dest: map_of_SomeD)

lemma json_ok_jget: "json_ok v \<Longrightarrow> json_ok (jget v k)"
  by (cases v) (auto simp: jget_def get_item_def split: option.splits dest!: map_of_SomeD)

lemma json_ok_entries: "json_ok v \<Longrightarrow> json_ok (JObj (entries v))"
  by (cases v) auto

end
