(* ===== verification/OperationalSettings.thy ===== *)
theory OperationalSettings
  imports BusinessHours PyJson
begin

text \<open>
  The settings store of \<open>src/dtlab/services/operational_settings.py\<close>: the table of JSON payloads
  (\<open>_get\<close>, \<open>_set\<close>), the business-hours policy and the Syslog receiver kept in it, and the operator
  table. The instant of the call and the digest that \<open>uuid5\<close> computes are parameters. Stored
  payloads whose members have another JSON type than the dataclass declares are reported as
  \<open>BadPayload\<close>; the code would carry them on untyped.
\<close>

section \<open>Rows\<close>

record setting_row =
  st_payload :: string
  st_updated_at :: string
  st_updated_by :: string

record operator_row =
  op_id :: string
  op_name :: string
  op_role :: string
  op_active :: bool
  op_created_at :: string
  op_updated_at :: string

record settings_db =
  settings :: "(string \<times> setting_row) list"
  operators :: "operator_row list"

datatype config_error =
    Calendar settings_error
  | BadPayload
  | NotAnInteger
  | BadPort
  | BadProtocol
  | ReceiverMissing
  | OperatorMissing
  | OperatorTooLong
  | UniqueViolation

definition insert_operator_or_ignore :: "operator_row \<Rightarrow> settings_db \<Rightarrow> settings_db" where
  "insert_operator_or_ignore op db =
     (if list_ex (\<lambda>o'. op_id o' = op_id op \<or> op_name o' = op_name op) (operators db) then db
      else db\<lparr>operators := operators db @ [op]\<rparr>)"

definition settings_initialize :: "int \<Rightarrow> settings_db \<Rightarrow> settings_db" where
  "settings_initialize now = insert_operator_or_ignore
     \<lparr>op_id = ''operator:dtlab'', op_name = ''Operatore DTLab'', op_role = ''Analista OT'',
      op_active = True, op_created_at = utc_text now, op_updated_at = utc_text now\<rparr>"

definition settings_get :: "string \<Rightarrow> (string \<times> json) list \<Rightarrow> settings_db \<Rightarrow> config_error + json" where
  "settings_get key dflt db =
     (case map_of (settings db) key of
        None \<Rightarrow> Inr (JObj dflt)
      | Some row \<Rightarrow> (case loads (st_payload row) of None \<Rightarrow> Inl BadPayload | Some v \<Rightarrow> Inr v))"

definition settings_set :: "int \<Rightarrow> string \<Rightarrow> (string \<times> json) list \<Rightarrow> string \<Rightarrow> settings_db \<Rightarrow> settings_db" where
  "settings_set now key payload actor db = db\<lparr>settings := AList.update key
     \<lparr>st_payload = dumps False (JObj payload), st_updated_at = utc_text now,
      st_updated_by = (if strip actor = [] then ''system'' else strip actor)\<rparr> (settings db)\<rparr>"

section \<open>Business hours\<close>

definition policy_payload :: "business_hours_policy \<Rightarrow> (string \<times> json) list" where
  "policy_payload p =
     [(''enabled'', JBool (bh_enabled p)), (''timezone'', JStr (bh_timezone p)),
      (''start'', JStr (bh_start p)), (''end'', JStr (bh_end p)),
      (''weekdays'', JArr (map JInt (bh_weekdays p)))]"

definition payload_bool :: "json option \<Rightarrow> bool \<Rightarrow> config_error + bool" where
  "payload_bool v d = (case v of None \<Rightarrow> Inr d | Some (JBool b) \<Rightarrow> Inr b | _ \<Rightarrow> Inl BadPayload)"

definition payload_text :: "json option \<Rightarrow> string \<Rightarrow> config_error + string" where
  "payload_text v d = (case v of None \<Rightarrow> Inr d | Some (JStr s) \<Rightarrow> Inr s | _ \<Rightarrow> Inl BadPayload)"

definition payload_days :: "json option \<Rightarrow> int list \<Rightarrow> config_error + int list" where
  "payload_days v d = (case v of
     None \<Rightarrow> Inr d
   | Some (JArr xs) \<Rightarrow> mapR (\<lambda>x. case py_int x of None \<Rightarrow> Inl NotAnInteger | Some i \<Rightarrow> Inr i) xs
   | _ \<Rightarrow> Inl BadPayload)"

definition policy_of_payload :: "json \<Rightarrow> config_error + business_hours_policy" where
  "policy_of_payload v =
     (if \<not> is_obj v \<or> \<not> set (map fst (entries v)) \<subseteq> {''enabled'', ''timezone'', ''start'', ''end'', ''weekdays''}
      then Inl BadPayload else
      bindR (payload_days (map_of (entries v) ''weekdays'') [0, 1, 2, 3, 4]) (\<lambda>days.
      bindR (payload_bool (map_of (entries v) ''enabled'') True) (\<lambda>en.
      bindR (payload_text (map_of (entries v) ''timezone'') ''Europe/Rome'') (\<lambda>zone.
      bindR (payload_text (map_of (entries v) ''start'') ''09:00'') (\<lambda>st.
      bindR (payload_text (map_of (entries v) ''end'') ''18:00'') (\<lambda>e.
      Inr \<lparr>bh_enabled = en, bh_timezone = zone, bh_start = st, bh_end = e, bh_weekdays = days\<rparr>))))))"

definition validated :: "tzdb \<Rightarrow> business_hours_policy \<Rightarrow> config_error + business_hours_policy" where
  "validated tz p = (case validate tz p of Inl e \<Rightarrow> Inl (Calendar e) | Inr q \<Rightarrow> Inr q)"

definition get_business_hours :: "tzdb \<Rightarrow> settings_db \<Rightarrow> config_error + business_hours_policy" where
  "get_business_hours tz db =
     bindR (settings_get ''business_hours'' (policy_payload default_business_hours) db) (\<lambda>v.
     bindR (policy_of_payload v) (validated tz))"

definition set_business_hours ::
  "tzdb \<Rightarrow> int \<Rightarrow> business_hours_policy \<Rightarrow> string \<Rightarrow> (settings_db, config_error, unit) act" where
  "set_business_hours tz now p actor =
     bindE (lift_res (validated tz p)) (\<lambda>_.
     modify (settings_set now ''business_hours'' (policy_payload p) actor))"

section \<open>Syslog\<close>

definition default_syslog :: "(string \<times> json) list" where
  "default_syslog =
     [(''enabled'', JBool False), (''host'', JStr []), (''port'', JInt 6514), (''protocol'', JStr ''TCP+TLS''),
      (''format'', JStr ''CEF Extended Time Precision''), (''include_cisco'', JBool True),
      (''include_host_ot'', JBool True), (''include_tickets'', JBool True)]"

definition get_syslog :: "settings_db \<Rightarrow> config_error + json" where
  "get_syslog = settings_get ''syslog'' default_syslog"

definition normalize_syslog :: "(string \<times> json) list \<Rightarrow> config_error + (string \<times> json) list" where
  "normalize_syslog payload =
     (let d = dict_update default_syslog payload;
          d1 = AList.update ''host'' (JStr (strip (py_str (get_item d ''host'')))) d
      in case py_int (get_item d1 ''port'') of
           None \<Rightarrow> Inl NotAnInteger
         | Some port \<Rightarrow>
             (let d2 = AList.update ''port'' (JInt port) d1 in
              if \<not> (1 \<le> port \<and> port \<le> 65535) then Inl BadPort
              else if get_item d2 ''protocol'' \<notin> {JStr ''UDP'', JStr ''TCP'', JStr ''TCP+TLS''} then Inl BadProtocol
              else if truthy (get_item d2 ''enabled'') \<and> \<not> truthy (get_item d2 ''host'') then Inl ReceiverMissing
              else Inr d2))"

definition set_syslog :: "int \<Rightarrow> (string \<times> json) list \<Rightarrow> string \<Rightarrow> (settings_db, config_error, unit) act" where
  "set_syslog now payload actor =
     bindE (lift_res (normalize_syslog payload)) (\<lambda>d. modify (settings_set now ''syslog'' d actor))"

section \<open>Operators\<close>

definition list_operators :: "bool \<Rightarrow> settings_db \<Rightarrow> operator_row list" where
  "list_operators active_only db =
     sort_key (\<lambda>o'. (if op_active o' then 0 else 1) :: nat)
       (sort_key op_name (filter (\<lambda>o'. active_only \<longrightarrow> op_active o') (operators db)))"

text \<open>\<open>str.casefold\<close> on the characters of the model (the micro sign folds outside them).\<close>

definition casefold :: "string \<Rightarrow> string" where
  "casefold s = concat (map (\<lambda>c. if c = CHR 0xDF then ''ss'' else [lower_char c]) s)"

definition upsert_operator :: "operator_row \<Rightarrow> (settings_db, config_error, unit) act" where
  "upsert_operator op db =
     (if list_ex (\<lambda>o'. op_name o' = op_name op) (operators db) then
        (Inr (), db\<lparr>operators := map (\<lambda>o'. if op_name o' = op_name op
           then o'\<lparr>op_role := op_role op, op_active := op_active op, op_updated_at := op_updated_at op\<rparr>
           else o') (operators db)\<rparr>)
      else if list_ex (\<lambda>o'. op_id o' = op_id op) (operators db) then (Inl UniqueViolation, db)
      else (Inr (), db\<lparr>operators := operators db @ [op]\<rparr>))"

definition save_operator ::
  "(string \<Rightarrow> string) \<Rightarrow> int \<Rightarrow> string \<Rightarrow> string \<Rightarrow> bool \<Rightarrow> (settings_db, config_error, operator_row) act" where
  "save_operator uuid5_hex now display_name role active =
     (let name = strip display_name; r = strip role in
      if name = [] \<or> r = [] then raise OperatorMissing
      else if 128 < length name \<or> 128 < length r then raise OperatorTooLong
      else bindE (upsert_operator
          \<lparr>op_id = ''operator:'' @ uuid5_hex (casefold name), op_name = name, op_role = r,
           op_active = active, op_created_at = utc_text now, op_updated_at = utc_text now\<rparr>) (\<lambda>_.
        gets (\<lambda>db. hd (filter (\<lambda>o'. op_name o' = name) (list_operators False db)))))"


section \<open>Properties\<close>

lemma settings_get_set:
  assumes "json_ok (JObj payload)"
  shows "settings_get key dflt (settings_set now key payload actor db) = Inr (canon (JObj payload))"
  using assms loads_dumps(1) [OF assms]
  by (simp add: settings_get_def settings_set_def update_conv' del: canon.simps)

lemma mapR_ints: "mapR (\<lambda>x. case py_int x of None \<Rightarrow> Inl NotAnInteger | Some i \<Rightarrow> Inr i) (map JInt ds) = Inr ds"
  by (induction ds) (simp_all add: py_int_def)

lemma policy_payload_ok: "json_ok (JObj (policy_payload p))"
  by (auto simp: policy_payload_def)

lemma policy_of_payload_canon: "policy_of_payload (canon (JObj (policy_payload p))) = Inr p"
proof -
  let ?v = "canon (JObj (policy_payload p))"
  have "distinct (map fst (policy_payload p))" by (simp add: policy_payload_def)
  note m = map_of_canon [OF this]
  have "is_obj ?v" "set (map fst (entries ?v)) = set (map fst (policy_payload p))"
    by (simp_all add: image_image case_prod_beta)
  then have "is_obj ?v" "set (map fst (entries ?v)) = {''enabled'', ''timezone'', ''start'', ''end'', ''weekdays''}"
    by (simp_all add: policy_payload_def)
  then show ?thesis
    unfolding policy_of_payload_def m
    by (simp add: policy_payload_def payload_bool_def payload_text_def payload_days_def mapR_ints comp_def
        del: canon.simps(2))
qed

text \<open>A business-hours policy that \<open>set_business_hours\<close> accepts is the policy that
  \<open>get_business_hours\<close> returns afterwards, whatever was stored before: the JSON encoding, the table
  row and the validation at reading lose nothing.\<close>

theorem business_hours_roundtrip:
  assumes "set_business_hours tz now p actor db = (Inr (), db')"
  shows "get_business_hours tz db' = Inr p"
proof -
  have v: "validate tz p = Inr p" "db' = settings_set now ''business_hours'' (policy_payload p) actor db"
    using assms by (auto simp: set_business_hours_def bindE_lift_res validated_def modify_def
        split: sum.splits elim: validate_Inr)
  then show ?thesis
    unfolding get_business_hours_def v(2) settings_get_set [OF policy_payload_ok]
    by (simp add: policy_of_payload_canon validated_def del: canon.simps)
qed


lemma normalize_syslog_ok:
  assumes "normalize_syslog payload = Inr d" and "json_ok (JObj payload)"
  shows "json_ok (JObj d)"
    "\<exists>port. get_item d ''port'' = JInt port \<and> 1 \<le> port \<and> port \<le> 65535"
    "get_item d ''protocol'' \<in> {JStr ''UDP'', JStr ''TCP'', JStr ''TCP+TLS''}"
    "\<exists>h. get_item d ''host'' = JStr h \<and> strip h = h \<and> (truthy (get_item d ''enabled'') \<longrightarrow> h \<noteq> [])"
proof -
  define d0 where "d0 = dict_update default_syslog payload"
  define h where "h = strip (py_str (get_item d0 ''host''))"
  define d1 where "d1 = AList.update ''host'' (JStr h) d0"
  obtain port where port: "py_int (get_item d1 ''port'') = Some port"
    and d: "d = AList.update ''port'' (JInt port) d1"
    and range: "1 \<le> port" "port \<le> 65535"
    and proto: "get_item d ''protocol'' \<in> {JStr ''UDP'', JStr ''TCP'', JStr ''TCP+TLS''}"
    and rec: "truthy (get_item d ''enabled'') \<longrightarrow> truthy (get_item d ''host'')"
    using assms(1) by (auto simp: normalize_syslog_def Let_def d0_def h_def d1_def split: option.splits if_splits)
  have "json_ok (JObj default_syslog)" by (auto simp: default_syslog_def)
  then show "json_ok (JObj d)"
    unfolding d d1_def d0_def by (intro json_ok_update json_ok_dict_update assms(2)) simp_all
  have h: "get_item d ''host'' = JStr h" by (simp add: d d1_def)
  show "\<exists>port. get_item d ''port'' = JInt port \<and> 1 \<le> port \<and> port \<le> 65535"
    using range by (simp add: d)
  show "get_item d ''protocol'' \<in> {JStr ''UDP'', JStr ''TCP'', JStr ''TCP+TLS''}" by (rule proto)
  show "\<exists>h. get_item d ''host'' = JStr h \<and> strip h = h \<and> (truthy (get_item d ''enabled'') \<longrightarrow> h \<noteq> [])"
    using h rec by (auto simp: h_def)
qed

lemma sort_key_Nil: "sort_key f xs = [] \<longleftrightarrow> xs = []"
  by (metis length_0_conv length_sort)

text \<open>The Syslog configuration that \<open>get_syslog\<close> returns after an accepted \<open>set_syslog\<close> is the
  defaults overlaid with the request; its port is an integer in 1..65535, its protocol one of the
  three supported, and an enabled configuration names a receiver.\<close>

theorem syslog_accepted:
  assumes "set_syslog now payload actor db = (Inr (), db')" and "json_ok (JObj payload)"
  shows "\<exists>v port h. get_syslog db' = Inr v
    \<and> jget v ''port'' = JInt port \<and> 1 \<le> port \<and> port \<le> 65535
    \<and> jget v ''protocol'' \<in> {JStr ''UDP'', JStr ''TCP'', JStr ''TCP+TLS''}
    \<and> jget v ''host'' = JStr h \<and> (truthy (jget v ''enabled'') \<longrightarrow> h \<noteq> [])
    \<and> (\<forall>k. k \<notin> {''host'', ''port''} \<longrightarrow>
        jget v k = canon (get_item (dict_update default_syslog payload) k))"
proof -
  obtain d where d: "normalize_syslog payload = Inr d" and db': "db' = settings_set now ''syslog'' d actor db"
    using assms(1) by (auto simp: set_syslog_def bindE_lift_res modify_def split: sum.splits)
  note ok = normalize_syslog_ok [OF d assms(2)]
  have g: "get_syslog db' = Inr (canon (JObj d))"
    unfolding get_syslog_def db' by (rule settings_get_set [OF ok(1)])
  have j: "jget (canon (JObj d)) k = canon (get_item d k)" for k
    using jget_canon [OF ok(1), of k] by (simp add: jget_def)
  have frame: "get_item d k = get_item (dict_update default_syslog payload) k"
    if "k \<notin> {''host'', ''port''}" for k
    using d that by (auto simp: normalize_syslog_def Let_def split: option.splits if_splits)
  obtain port h where port: "get_item d ''port'' = JInt port" "1 \<le> port" "port \<le> 65535"
    and h: "get_item d ''host'' = JStr h" "truthy (get_item d ''enabled'') \<longrightarrow> h \<noteq> []"
    using ok(2,4) by auto
  have t: "truthy (canon v) = truthy v" for v
    by (cases v) (simp_all only: canon.simps truthy.simps map_is_Nil_conv sort_key_Nil)
  show ?thesis
  proof (intro exI conjI allI impI)
    show "get_syslog db' = Inr (canon (JObj d))" by (rule g)
    show "jget (canon (JObj d)) ''port'' = JInt port" by (simp add: j port del: canon.simps(2))
    show "jget (canon (JObj d)) ''protocol'' \<in> {JStr ''UDP'', JStr ''TCP'', JStr ''TCP+TLS''}"
      using ok(3) unfolding j by auto
    show "jget (canon (JObj d)) ''host'' = JStr h" by (simp add: j h del: canon.simps(2))
    show "truthy (jget (canon (JObj d)) ''enabled'') \<Longrightarrow> h \<noteq> []" using h(2) unfolding j t by simp
    show "jget (canon (JObj d)) k = canon (get_item (dict_update default_syslog payload) k)"
      if "k \<notin> {''host'', ''port''}" for k
      using frame [OF that] unfolding j by simp
  qed (rule port)+
qed


subsection \<open>Operators\<close>

definition operators_wf :: "settings_db \<Rightarrow> bool" where
  "operators_wf db \<longleftrightarrow> distinct (map op_id (operators db)) \<and> distinct (map op_name (operators db))"

lemma op_update_key [simp]:
  "op_id (if b then o'\<lparr>op_role := r, op_active := a, op_updated_at := t\<rparr> else o') = op_id o'"
  "op_name (if b then o'\<lparr>op_role := r, op_active := a, op_updated_at := t\<rparr> else o') = op_name o'"
  by simp_all

lemma upsert_operator_wf: "operators_wf db \<Longrightarrow> operators_wf (snd (upsert_operator op db))"
  by (simp add: upsert_operator_def operators_wf_def comp_def list_ex_iff image_iff) metis

lemma save_operator_keeps_wf: "steps_within (keeps operators_wf) (save_operator u now name role active)"
proof -
  have "steps_within (keeps operators_wf) (upsert_operator op)" for op
    by (simp add: steps_within_def keeps_def upsert_operator_wf)
  then show ?thesis unfolding save_operator_def Let_def by (intro kept.rules) auto
qed

lemma list_operators_set: "set (list_operators False db) = set (operators db)"
  "distinct (map op_name (operators db)) \<Longrightarrow> distinct (map op_name (list_operators False db))"
  by (auto simp: list_operators_def distinct_map)

text \<open>Saving an operator on a store with unique ids and names, when it succeeds, returns the
  row of that (stripped) name with the requested role and activity, keeps ids and names unique, and
  leaves the row of every other name as it was.\<close>

theorem save_operator_effect:
  assumes "save_operator u now name role active db = (Inr op, db')" and "operators_wf db"
  shows "op \<in> set (operators db') \<and> op_name op = strip name \<and> op_role op = strip role
    \<and> op_active op = active \<and> operators_wf db'
    \<and> (\<forall>o'. op_name o' \<noteq> strip name \<longrightarrow> (o' \<in> set (operators db') \<longleftrightarrow> o' \<in> set (operators db)))"
proof -
  define row where "row = \<lparr>op_id = ''operator:'' @ u (casefold (strip name)), op_name = strip name,
    op_role = strip role, op_active = active, op_created_at = utc_text now, op_updated_at = utc_text now\<rparr>"
  have up: "upsert_operator row db = (Inr (), db')"
    and op: "op = hd (filter (\<lambda>o'. op_name o' = strip name) (list_operators False db'))"
    using assms(1) by (auto simp: save_operator_def Let_def bindE_Inr gets_def row_def split: if_splits)
  have wf: "operators_wf db'" using upsert_operator_wf [OF assms(2), of row] up by simp
  have row: "op_name row = strip name" "op_role row = strip role" "op_active row = active"
    by (simp_all add: row_def)
  obtain new where new: "new \<in> set (operators db')" "op_name new = strip name" "op_role new = strip role"
    "op_active new = active"
    using up by (fastforce simp: upsert_operator_def list_ex_iff row split: if_splits)
  have "filter (\<lambda>o'. op_name o' = strip name) (list_operators False db') = [new]"
    using wf new by (intro filter_unique_key) (simp_all add: list_operators_set operators_wf_def)
  then have "op = new" using op by simp
  moreover have "op_name o' \<noteq> strip name \<Longrightarrow> o' \<in> set (operators db') \<longleftrightarrow> o' \<in> set (operators db)" for o'
    using up by (auto simp: upsert_operator_def row image_iff split: if_splits)
  ultimately show ?thesis using new wf by simp
qed

text \<open>C9: Two operator names that differ only in case share the \<open>uuid5\<close> identifier, and the upsert
  resolves conflicts on the name only: saving the second name is an integrity error that no later
  call can avoid, and the store is unchanged.\<close>

theorem save_operator_case_variant:
  assumes "save_operator u now name role active db = (Inr op, db')"
    and "\<forall>o' \<in> set (operators db). op_name o' \<notin> {strip name, strip other}"
    and "strip other \<noteq> strip name" "casefold (strip other) = casefold (strip name)"
    and "0 < length (strip other)" "length (strip other) \<le> 128"
    and "0 < length (strip role')" "length (strip role') \<le> 128"
  shows "save_operator u now' other role' active' db' = (Inl UniqueViolation, db')"
proof -
  have new: "\<not> list_ex (\<lambda>o'. op_name o' = strip name) (operators db)"
    using assms(2) by (auto simp: list_ex_iff)
  obtain rest where "operators db' = operators db @ rest" "\<forall>o' \<in> set rest. op_name o' = strip name"
    "list_ex (\<lambda>o'. op_id o' = ''operator:'' @ u (casefold (strip name))) rest"
    using assms(1) new
    by (auto simp: save_operator_def Let_def bindE_Inr gets_def upsert_operator_def split: if_splits)
  then have "\<not> list_ex (\<lambda>o'. op_name o' = strip other) (operators db')"
    "list_ex (\<lambda>o'. op_id o' = ''operator:'' @ u (casefold (strip other))) (operators db')"
    using assms(2,3,4) by (auto simp: list_ex_iff)
  then show ?thesis using assms(5-8)
    by (simp add: save_operator_def Let_def bindE_def upsert_operator_def)
qed

subsection \<open>The properties on a concrete store\<close>

definition fresh_settings :: settings_db where
  "fresh_settings = settings_initialize 0 \<lparr>settings = [], operators = []\<rparr>"

lemma business_hours_roundtrip_witness:
  "get_business_hours utc_zone (snd (set_business_hours utc_zone 0 utc_office ''admin'' fresh_settings))
    = Inr utc_office"
proof (rule business_hours_roundtrip)
  show "set_business_hours utc_zone 0 utc_office ''admin'' fresh_settings
    = (Inr (), snd (set_business_hours utc_zone 0 utc_office ''admin'' fresh_settings))"
    by (simp add: set_business_hours_def bindE_lift_res validated_def modify_def)
qed

lemma normalize_probe: "normalize_syslog [(''host'', JStr ''siem''), (''port'', JInt 514), (''enabled'', JBool True)]
  = Inr (dict_update default_syslog [(''host'', JStr ''siem''), (''port'', JInt 514), (''enabled'', JBool True)])"
  by (simp add: normalize_syslog_def Let_def dict_update_def default_syslog_def get_item_def py_int_def
      strip_no_space is_space_def)


lemma syslog_accepted_witness:
  "\<exists>v port h. get_syslog (snd (set_syslog 0 [(''host'', JStr ''siem''), (''port'', JInt 514), (''enabled'', JBool True)]
      ''admin'' fresh_settings)) = Inr v
    \<and> jget v ''port'' = JInt port \<and> 1 \<le> port \<and> port \<le> 65535
    \<and> jget v ''protocol'' \<in> {JStr ''UDP'', JStr ''TCP'', JStr ''TCP+TLS''}
    \<and> jget v ''host'' = JStr h \<and> (truthy (jget v ''enabled'') \<longrightarrow> h \<noteq> [])
    \<and> (\<forall>k. k \<notin> {''host'', ''port''} \<longrightarrow> jget v k = canon (get_item (dict_update default_syslog
        [(''host'', JStr ''siem''), (''port'', JInt 514), (''enabled'', JBool True)]) k))"
  by (rule syslog_accepted [where now = 0 and actor = "''admin''" and db = fresh_settings])
    (simp_all add: set_syslog_def normalize_probe modify_def)

lemma mario:
  "strip ''Mario'' = ''Mario''" "strip ''MARIO'' = ''MARIO''" "strip ''OT'' = ''OT''"
  "casefold ''Mario'' = ''mario''" "casefold ''MARIO'' = ''mario''"
  by (simp_all add: strip_no_space is_space_def casefold_def lower_char_def char_of_def bit_Suc bit_0)

lemma save_mario: "\<exists>op db'. save_operator (\<lambda>s. s) 0 ''Mario'' ''OT'' True fresh_settings = (Inr op, db')"
  by (simp add: save_operator_def Let_def mario bindE_def upsert_operator_def fresh_settings_def
      settings_initialize_def insert_operator_or_ignore_def gets_def)

lemma save_operator_effect_witness:
  "\<exists>op db'. op \<in> set (operators db') \<and> op_name op = ''Mario'' \<and> op_role op = ''OT''
    \<and> op_active op = True \<and> operators_wf db'
    \<and> (\<forall>o'. op_name o' \<noteq> ''Mario'' \<longrightarrow> (o' \<in> set (operators db') \<longleftrightarrow> o' \<in> set (operators fresh_settings)))"
proof -
  obtain op db' where run: "save_operator (\<lambda>s. s) 0 ''Mario'' ''OT'' True fresh_settings = (Inr op, db')"
    using save_mario by blast
  have "operators_wf fresh_settings"
    by (simp add: operators_wf_def fresh_settings_def settings_initialize_def insert_operator_or_ignore_def)
  from save_operator_effect [OF run this] show ?thesis unfolding mario by blast
qed

lemma save_operator_case_variant_witness:
  "\<exists>db'. snd (save_operator (\<lambda>s. s) 0 ''Mario'' ''OT'' True fresh_settings) = db'
    \<and> save_operator (\<lambda>s. s) 1 ''MARIO'' ''OT'' True db' = (Inl UniqueViolation, db')"
proof -
  obtain op db' where run: "save_operator (\<lambda>s. s) 0 ''Mario'' ''OT'' True fresh_settings = (Inr op, db')"
    using save_mario by blast
  have "save_operator (\<lambda>s. s) 1 ''MARIO'' ''OT'' True db' = (Inl UniqueViolation, db')"
    by (rule save_operator_case_variant [OF run])
      (simp_all add: mario fresh_settings_def settings_initialize_def insert_operator_or_ignore_def)
  then show ?thesis using run by simp
qed

end
