(* ===== verification/TicketTypes.thy ===== *)
theory TicketTypes
  imports OperationalSettings
begin

text \<open>
  The vocabulary of \<open>src/dtlab/services/ticket_store.py\<close>: the three closed sets of words as
  datatypes with their texts, the exceptions, the normalisation of text arguments, timestamps, the
  SLA deadline and its derived state, the semantic payload and its digest, and the task definitions
  of a checklist. Arguments that the code takes as \<open>object\<close> are JSON values. The SHA-256 of a text
  (in UTF-8, in hexadecimal) is the parameter \<open>sha\<close>.
\<close>

section \<open>Closed vocabularies\<close>

datatype ticket_status =
    New | Acknowledged | Investigating | Remediating | WaitingOt
  | Resolved | Closed | FalsePositive | AcceptedRisk | Suppressed

datatype ticket_priority = P1 | P2 | P3 | P4

datatype task_status = Pending | Completed | Skipped

definition ticket_statuses :: "(string \<times> ticket_status) list" where
  "ticket_statuses =
     [(''new'', New), (''acknowledged'', Acknowledged), (''investigating'', Investigating),
      (''remediating'', Remediating), (''waiting_ot'', WaitingOt), (''resolved'', Resolved),
      (''closed'', Closed), (''false_positive'', FalsePositive), (''accepted_risk'', AcceptedRisk),
      (''suppressed'', Suppressed)]"

definition ticket_priorities :: "(string \<times> ticket_priority) list" where
  "ticket_priorities = [(''p1'', P1), (''p2'', P2), (''p3'', P3), (''p4'', P4)]"

definition task_statuses :: "(string \<times> task_status) list" where
  "task_statuses = [(''pending'', Pending), (''completed'', Completed), (''skipped'', Skipped)]"

fun status_text :: "ticket_status \<Rightarrow> string" where
  "status_text New = ''new''"
| "status_text Acknowledged = ''acknowledged''"
| "status_text Investigating = ''investigating''"
| "status_text Remediating = ''remediating''"
| "status_text WaitingOt = ''waiting_ot''"
| "status_text Resolved = ''resolved''"
| "status_text Closed = ''closed''"
| "status_text FalsePositive = ''false_positive''"
| "status_text AcceptedRisk = ''accepted_risk''"
| "status_text Suppressed = ''suppressed''"

fun priority_text :: "ticket_priority \<Rightarrow> string" where
  "priority_text P1 = ''p1''"
| "priority_text P2 = ''p2''"
| "priority_text P3 = ''p3''"
| "priority_text P4 = ''p4''"

fun task_status_text :: "task_status \<Rightarrow> string" where
  "task_status_text Pending = ''pending''"
| "task_status_text Completed = ''completed''"
| "task_status_text Skipped = ''skipped''"

lemma status_of_text [simp]: "map_of ticket_statuses (status_text s) = Some s"
  by (cases s) (simp_all add: ticket_statuses_def)

lemma priority_of_text [simp]: "map_of ticket_priorities (priority_text p) = Some p"
  by (cases p) (simp_all add: ticket_priorities_def)

lemma task_status_of_text [simp]: "map_of task_statuses (task_status_text t) = Some t"
  by (cases t) (simp_all add: task_statuses_def)

lemma vocabulary_inj [simp]:
  "status_text a = status_text b \<longleftrightarrow> a = b"
  "priority_text p = priority_text q \<longleftrightarrow> p = q"
  "task_status_text s = task_status_text t \<longleftrightarrow> s = t"
  by (metis option.inject status_of_text priority_of_text task_status_of_text)+

fun sla_policy_hours :: "ticket_priority \<Rightarrow> int" where
  "sla_policy_hours P1 = 4"
| "sla_policy_hours P2 = 8"
| "sla_policy_hours P3 = 24"
| "sla_policy_hours P4 = 72"

definition sla_stopped_statuses :: "ticket_status set" where
  "sla_stopped_statuses = {Closed, FalsePositive, AcceptedRisk, Suppressed}"

fun transitions :: "ticket_status \<Rightarrow> ticket_status set" where
  "transitions New = {Acknowledged, Investigating, FalsePositive, AcceptedRisk, Suppressed}"
| "transitions Acknowledged = {Investigating, FalsePositive, AcceptedRisk, Suppressed}"
| "transitions Investigating =
     {Remediating, WaitingOt, Resolved, FalsePositive, AcceptedRisk, Suppressed}"
| "transitions Remediating = {Investigating, WaitingOt, Resolved}"
| "transitions WaitingOt = {Investigating, Remediating, Resolved}"
| "transitions Resolved = {Closed, Investigating}"
| "transitions Closed = {Investigating}"
| "transitions FalsePositive = {Investigating}"
| "transitions AcceptedRisk = {Investigating}"
| "transitions Suppressed = {Investigating}"

text \<open>The statuses whose entry needs a decision note; with \<open>Closed\<close>, those that reopening leaves.\<close>

definition decision_statuses :: "ticket_status set" where
  "decision_statuses = {Resolved, FalsePositive, AcceptedRisk, Suppressed}"

section \<open>Errors\<close>

datatype validation_reason =
    Missing string
  | TooLong string nat
  | BadPriority
  | BadStatus
  | BadTaskStatus
  | BadTask
  | BadTimestamp string
  | NaiveTimestamp string
  | BadDigest
  | BadFingerprint
  | NoteRequired ticket_status
  | ForeignSnapshot
  | BadLimit
  | MemoryDatabase
  | PolicyScope

datatype ticket_error =
    Validation validation_reason
  | SignalNotFound string
  | TicketNotFound string
  | TaskNotFound string
  | InvalidTransition ticket_status ticket_status
  | IntegrityError
  | SettingsError config_error
  | CalendarError settings_error
  | TimeOverflow
  | BadStoredJson
  | AssertionError

section \<open>Text arguments\<close>

definition required_text :: "string \<Rightarrow> nat \<Rightarrow> json \<Rightarrow> ticket_error + string" where
  "required_text label max_length v =
     (let text = (if v = JNull then [] else strip (py_str v)) in
      if text = [] then Inl (Validation (Missing label))
      else if max_length < length text then Inl (Validation (TooLong label max_length))
      else Inr text)"

definition optional_text :: "nat \<Rightarrow> json \<Rightarrow> ticket_error + string option" where
  "optional_text max_length v =
     (if v = JNull then Inr None else
      let text = strip (py_str v) in
      if text = [] then Inr None
      else if max_length < length text then Inl (Validation (TooLong [] max_length))
      else Inr (Some text))"

definition normalize_priority :: "json \<Rightarrow> ticket_error + ticket_priority" where
  "normalize_priority v = bindR (required_text ''Priorita'' 2 v) (\<lambda>t.
     case map_of ticket_priorities (lower t) of
       None \<Rightarrow> Inl (Validation BadPriority) | Some p \<Rightarrow> Inr p)"

definition normalize_status :: "json \<Rightarrow> ticket_error + ticket_status" where
  "normalize_status v = bindR (required_text ''Stato'' 32 v) (\<lambda>t.
     case map_of ticket_statuses (lower t) of
       None \<Rightarrow> Inl (Validation BadStatus) | Some s \<Rightarrow> Inr s)"

lemma required_text_Inr:
  "required_text label n v = Inr t \<Longrightarrow> t \<noteq> [] \<and> length t \<le> n \<and> strip t = t \<and> v \<noteq> JNull"
  by (auto simp: required_text_def Let_def split: if_splits)

lemma optional_text_Inr:
  "optional_text n v = Inr (Some t) \<Longrightarrow> t \<noteq> [] \<and> length t \<le> n \<and> strip t = t"
  by (auto simp: optional_text_def Let_def split: if_splits)

lemma required_text_clean [simp]:
  "t \<noteq> [] \<Longrightarrow> strip t = t \<Longrightarrow> length t \<le> n \<Longrightarrow> required_text label n (JStr t) = Inr t"
  by (simp add: required_text_def)

lemma optional_text_None [simp]: "optional_text n JNull = Inr None"
  by (simp add: optional_text_def)

section \<open>Timestamps\<close>

definition utc_text_of :: "pydt \<Rightarrow> ticket_error + string" where
  "utc_text_of v = (case v of
     Naive _ \<Rightarrow> Inl (Validation (NaiveTimestamp ''clock''))
   | Aware t \<Rightarrow> if valid_instant t then Inr (utc_text t) else Inl TimeOverflow)"

definition utc_datetime :: "string \<Rightarrow> json \<Rightarrow> ticket_error + int" where
  "utc_datetime label v = bindR (required_text label 64 v) (\<lambda>text.
     case fromisoformat (replace_Z text) of
       None \<Rightarrow> Inl (Validation (BadTimestamp label))
     | Some (Naive _) \<Rightarrow> Inl (Validation (NaiveTimestamp label))
     | Some (Aware t) \<Rightarrow> if valid_instant t then Inr t else Inl TimeOverflow)"

definition sla_due_at ::
  "tzdb \<Rightarrow> business_hours_policy option \<Rightarrow> json \<Rightarrow> json \<Rightarrow> ticket_error + string" where
  "sla_due_at tz policy priority created_at =
     bindR (normalize_priority priority) (\<lambda>p.
     bindR (utc_datetime ''Data creazione ticket'' created_at) (\<lambda>anchor.
     case policy of
       Some hours \<Rightarrow>
         (case add_business_hours tz (Aware anchor) (sla_policy_hours p) hours of
            Inl e \<Rightarrow> Inl (CalendarError e) | Inr due \<Rightarrow> utc_text_of (Aware due))
     | None \<Rightarrow> utc_text_of (Aware (anchor + sla_policy_hours p * hour_us))))"

section \<open>The derived SLA state\<close>

datatype sla_state = OnTime | DueSoon | Overdue | Stopped

record sla_view =
  sv_state :: sla_state
  sv_due_at :: string
  sv_evaluated_at :: string
  sv_remaining_seconds :: int
  sv_policy_hours :: int
  sv_stopped_at :: "string option"
  sv_stop_reason :: "string option"

definition trunc_seconds :: "int \<Rightarrow> int" where
  "trunc_seconds d = (if 0 \<le> d then d div 1000000 else - ((- d) div 1000000))"

definition or_else :: "json \<Rightarrow> json \<Rightarrow> json" where
  "or_else v w = (if truthy v then v else w)"

definition running_state :: "ticket_priority \<Rightarrow> int \<Rightarrow> sla_state" where
  "running_state p remaining =
     (if remaining \<le> 0 then Overdue
      else if remaining \<le> sla_policy_hours p * hour_us div 4 then DueSoon
      else OnTime)"

definition derive_ticket_sla :: "tzdb \<Rightarrow> (string \<times> json) list \<Rightarrow> pydt \<Rightarrow> ticket_error + sla_view" where
  "derive_ticket_sla tz ticket now =
     bindR (normalize_priority (get_item ticket ''priority'')) (\<lambda>p.
     bindR (if truthy (get_item ticket ''sla_due_at'') then Inr (get_item ticket ''sla_due_at'')
            else bindR (sla_due_at tz None (JStr (priority_text p)) (get_item ticket ''created_at''))
                   (\<lambda>t. Inr (JStr t))) (\<lambda>raw_due.
     bindR (utc_datetime ''Deadline SLA'' raw_due) (\<lambda>due.
     case now of
       Naive _ \<Rightarrow> Inl (Validation (NaiveTimestamp ''evaluated_at''))
     | Aware ev \<Rightarrow>
         if \<not> valid_instant ev then Inl TimeOverflow else
         let status = lower (strip (py_str (or_else (get_item ticket ''status'') (JStr [])))) in
         if status \<in> status_text ` sla_stopped_statuses then
           let raw = or_else (if status = ''closed'' then get_item ticket ''closed_at''
                              else get_item ticket ''resolved_at'') (get_item ticket ''updated_at'')
           in bindR (utc_datetime ''Data arresto SLA'' raw) (\<lambda>stop.
              Inr \<lparr>sv_state = Stopped, sv_due_at = utc_text due, sv_evaluated_at = utc_text ev,
                sv_remaining_seconds = trunc_seconds (due - stop), sv_policy_hours = sla_policy_hours p,
                sv_stopped_at = Some (utc_text stop), sv_stop_reason = Some status\<rparr>)
         else
           Inr \<lparr>sv_state = running_state p (due - ev), sv_due_at = utc_text due,
             sv_evaluated_at = utc_text ev, sv_remaining_seconds = trunc_seconds (due - ev),
             sv_policy_hours = sla_policy_hours p, sv_stopped_at = None, sv_stop_reason = None\<rparr>)))"

section \<open>Payloads\<close>

fun semantic_payload :: "bool \<Rightarrow> json \<Rightarrow> json" where
  "semantic_payload inside (JObj kvs) =
     JObj (filter (\<lambda>(k, _). \<not> (inside \<and> k \<in> {''fetched_at'', ''observed_at''}))
       (map (\<lambda>(k, v). (k, semantic_payload (inside \<or> k = ''evidence'') v)) kvs))"
| "semantic_payload inside (JArr xs) = JArr (map (semantic_payload inside) xs)"
| "semantic_payload inside v = v"

definition payload_hash :: "(string \<Rightarrow> string) \<Rightarrow> json \<Rightarrow> string" where
  "payload_hash sha v = sha (dumps False (semantic_payload False v))"

section \<open>Task definitions\<close>

fun task_definitions_from :: "string list \<Rightarrow> json list \<Rightarrow> ticket_error + (string \<times> string option) list" where
  "task_definitions_from seen [] = Inr []"
| "task_definitions_from seen (t # ts) =
     (if \<not> is_obj t then Inl (Validation BadTask) else
      bindR (required_text ''Titolo task'' 1024 (jget t ''title'')) (\<lambda>title.
      if title \<in> set seen then task_definitions_from seen ts else
      bindR (optional_text 16384 (jget t ''description'')) (\<lambda>description.
      bindR (task_definitions_from (title # seen) ts) (\<lambda>rest.
      Inr ((title, description) # rest)))))"

definition task_definitions :: "json list \<Rightarrow> ticket_error + (string \<times> string option) list" where
  "task_definitions = task_definitions_from []"

lemma task_definitions_distinct:
  "task_definitions_from seen ts = Inr ds \<Longrightarrow> distinct (map fst ds) \<and> set (map fst ds) \<inter> set seen = {}"
proof (induction seen ts arbitrary: ds rule: task_definitions_from.induct)
  case (2 seen t ts)
  then show ?case by (fastforce simp: bindR_eq_Inr split: if_splits)
qed simp


section \<open>Lemmas\<close>

subsection \<open>Stored instants\<close>

lemma utc_datetime_text [simp]: "valid_instant t \<Longrightarrow> utc_datetime label (JStr (utc_text t)) = Inr t"
  by (simp add: utc_datetime_def utc_text_length utc_text_clean fromisoformat_utc_text)

lemma utc_text_of_Inr: "utc_text_of v = Inr s \<Longrightarrow> \<exists>t. v = Aware t \<and> valid_instant t \<and> s = utc_text t"
  by (auto simp: utc_text_of_def split: pydt.splits if_splits)

lemma normalize_priority_text [simp]: "normalize_priority (JStr (priority_text p)) = Inr p"
  by (cases p) (simp_all add: normalize_priority_def required_text_def strip_no_space is_space_def
      lower_def lower_char_def ticket_priorities_def)

subsection \<open>The semantic payload of a stored document\<close>

lemma sort_key_map_keys:
  "sort_key fst (map (\<lambda>(k, v). (k, g k v)) xs) = map (\<lambda>(k, v). (k, g k v)) (sort_key fst xs)"
proof -
  have "insort_key fst (case x of (k, v) \<Rightarrow> (k, g k v)) (map (\<lambda>(k, v). (k, g k v)) ys)
      = map (\<lambda>(k, v). (k, g k v)) (insort_key fst x ys)" for x ys
    by (induction ys) (auto split: prod.splits)
  then show ?thesis by (induction xs) simp_all
qed

lemma canon_semantic: "canon (semantic_payload b (canon v)) = canon (semantic_payload b v)"
proof (induction b v rule: semantic_payload.induct)
  case (1 b kvs)
  let ?P = "\<lambda>(k, _ :: json). \<not> (b \<and> k \<in> {''fetched_at'', ''observed_at''})"
  let ?sem = "\<lambda>(k, v). (k, semantic_payload (b \<or> k = ''evidence'') v)"
  let ?can = "\<lambda>(k, v). (k, canon v)"
  have pw: "map ?can (filter ?P (map ?sem (map ?can xs))) = map ?can (filter ?P (map ?sem xs))"
    if "set xs \<subseteq> set kvs" for xs
    using that 1 by (induction xs) (auto split: prod.splits)
  have "sort_key fst (map ?can (filter ?P (map ?sem (sort_key fst (map ?can kvs)))))
      = sort_key fst (map ?can (filter ?P (map ?sem (map ?can kvs))))"
    by (simp only: sort_key_map_keys [symmetric] filter_sort)
      (simp add: sort_key_id_if_sorted)
  also have "\<dots> = sort_key fst (map ?can (filter ?P (map ?sem kvs)))" by (simp only: pw [OF order.refl])
  finally show ?case by simp
qed auto

lemma semantic_noise: "k \<in> {''fetched_at'', ''observed_at''} \<Longrightarrow>
  semantic_payload True (JObj (AList.update k v e)) = semantic_payload True (JObj e)"
  by (induction e) auto


lemma semantic_update:
  "semantic_payload False (JObj (AList.update k v p))
    = JObj (AList.update k (semantic_payload (k = ''evidence'') v) (entries (semantic_payload False (JObj p))))"
  by (induction p) auto

section \<open>Properties\<close>

text \<open>The digest of a payload is the digest of the document read back from its stored text, and
  it does not depend on the polling times \<open>fetched_at\<close> and \<open>observed_at\<close> of the evidence envelope:
  the same fact observed again has the same digest.\<close>

theorem payload_hash_semantics:
  assumes "json_ok p" and "loads (dumps ea p) = Some q" and "k \<in> {''fetched_at'', ''observed_at''}"
  shows "payload_hash sha q = payload_hash sha p
    \<and> payload_hash sha (JObj (AList.update ''evidence'' (JObj (AList.update k v e)) d))
      = payload_hash sha (JObj (AList.update ''evidence'' (JObj e) d))"
proof
  have "q = canon p" using assms(2) loads_dumps(1) [OF assms(1), of ea] by simp
  then show "payload_hash sha q = payload_hash sha p"
    by (simp add: payload_hash_def dumps_def canon_semantic)
  show "payload_hash sha (JObj (AList.update ''evidence'' (JObj (AList.update k v e)) d))
      = payload_hash sha (JObj (AList.update ''evidence'' (JObj e) d))"
    using semantic_noise [OF assms(3), of v e] unfolding payload_hash_def semantic_update by simp
qed

lemma payload_hash_semantics_witness:
  "payload_hash (\<lambda>t. t) (JObj [(''a'', JInt 1), (''b'', JNull)]) = payload_hash (\<lambda>t. t) (JObj [(''b'', JNull), (''a'', JInt 1)])
    \<and> payload_hash (\<lambda>t. t) (JObj (AList.update ''evidence'' (JObj (AList.update ''fetched_at'' (JInt 1) [])) []))
      = payload_hash (\<lambda>t. t) (JObj (AList.update ''evidence'' (JObj []) []))"
proof (rule payload_hash_semantics [where ea = False])
  show ok: "json_ok (JObj [(''b'', JNull), (''a'', JInt 1)])" by simp
  have "canon (JObj [(''b'', JNull), (''a'', JInt 1)]) = JObj [(''a'', JInt 1), (''b'', JNull)]"
    by simp
  then show "loads (dumps False (JObj [(''b'', JNull), (''a'', JInt 1)])) = Some (JObj [(''a'', JInt 1), (''b'', JNull)])"
    using loads_dumps(1) [OF ok, of False] by simp
qed simp




text \<open>In a terminal status the SLA clock stands: the derived state is \<open>stopped\<close>, and two evaluations
  at different instants agree in everything but \<open>evaluated_at\<close>.\<close>

theorem sla_stopped_frozen:
  assumes "derive_ticket_sla tz ticket (Aware ev) = Inr v"
    and "derive_ticket_sla tz ticket (Aware ev') = Inr v'"
    and "get_item ticket ''status'' = JStr (status_text st)" "st \<in> sla_stopped_statuses"
  shows "sv_state v = Stopped \<and> v' = v\<lparr>sv_evaluated_at := utc_text ev'\<rparr>"
proof -
  have "lower (strip (py_str (or_else (JStr (status_text st)) (JStr [])))) = status_text st"
    by (cases st) (simp_all add: or_else_def strip_no_space is_space_def lower_def lower_char_def)
  then show ?thesis using assms
    by (auto simp: derive_ticket_sla_def bindR_eq_Inr Let_def split: if_splits)
qed

lemma sla_stopped_frozen_witness:
  "sv_state (projr (derive_ticket_sla utc_zone [(''priority'', JStr ''p1''), (''status'', JStr ''closed''),
      (''sla_due_at'', JStr (utc_text 0)), (''closed_at'', JStr (utc_text 7))] (Aware 8))) = Stopped
    \<and> projr (derive_ticket_sla utc_zone [(''priority'', JStr ''p1''), (''status'', JStr ''closed''),
      (''sla_due_at'', JStr (utc_text 0)), (''closed_at'', JStr (utc_text 7))] (Aware 9))
    = projr (derive_ticket_sla utc_zone [(''priority'', JStr ''p1''), (''status'', JStr ''closed''),
      (''sla_due_at'', JStr (utc_text 0)), (''closed_at'', JStr (utc_text 7))] (Aware 8))\<lparr>sv_evaluated_at := utc_text 9\<rparr>"
proof -
  let ?t = "[(''priority'', JStr ''p1''), (''status'', JStr ''closed''),
      (''sla_due_at'', JStr (utc_text 0)), (''closed_at'', JStr (utc_text 7))]"
  have p1: "normalize_priority (JStr ''p1'') = Inr P1"
    using normalize_priority_text [of P1] by simp
  have closed: "lower ''closed'' = ''closed''" "strip ''closed'' = ''closed''"
    "''closed'' \<in> status_text ` sla_stopped_statuses"
    by (simp_all add: strip_no_space is_space_def lower_def lower_char_def sla_stopped_statuses_def)
  have "\<exists>v. derive_ticket_sla utc_zone ?t (Aware ev) = Inr v" if "valid_instant ev" for ev
    using that by (simp add: derive_ticket_sla_def get_item_def p1 closed utc_text_clean or_else_def
        valid_instant_def time_units)
  then obtain v v' where "derive_ticket_sla utc_zone ?t (Aware 8) = Inr v" "derive_ticket_sla utc_zone ?t (Aware 9) = Inr v'"
    by (force simp: valid_instant_def time_units)
  then show ?thesis
    using sla_stopped_frozen [of utc_zone ?t 8 v 9 v' Closed] by (simp add: get_item_def sla_stopped_statuses_def)
qed

end
