(* ===== verification/TicketDb.thy ===== *)
theory TicketDb
  imports TicketTypes
begin

text \<open>
  The SQLite schema of \<open>TicketStore._initialize\<close>: one record per table row, the database, and the
  statements the store issues. An insert checks the PRIMARY KEY, UNIQUE, CHECK and REFERENCES
  constraints of its table and raises \<open>IntegrityError\<close>; the CHECK lists of words are the datatypes
  of \<open>TicketTypes\<close>. \<open>AUTOINCREMENT\<close> columns draw from a counter of the database. The two triggers
  on \<open>audit_events\<close> abort every UPDATE and DELETE of it; no statement here issues one. \<open>sla_due_at\<close>
  is nullable because a database older than the column is opened by adding it empty.
\<close>

section \<open>Rows\<close>

record signal_row =
  sg_id :: string
  sg_fingerprint :: string
  sg_type :: string
  sg_snapshot :: string
  sg_source_id :: "string option"
  sg_source_record_id :: "string option"
  sg_evidence_json :: string
  sg_severity :: string
  sg_title :: string
  sg_description :: string
  sg_occurred_at :: "string option"
  sg_first_observed :: string
  sg_last_observed :: string
  sg_asset_ids_json :: string
  sg_action :: "string option"
  sg_payload_json :: string
  sg_count :: nat
  sg_created_at :: string
  sg_updated_at :: string

record occurrence_row =
  oc_id :: nat
  oc_signal :: string
  oc_snapshot :: string
  oc_observed_at :: string
  oc_occurred_at :: "string option"
  oc_hash :: string
  oc_payload_json :: string
  oc_created_at :: string

record ingest_row =
  ig_snapshot :: string
  ig_snapshot_id :: string
  ig_generated_at :: string
  ig_signals_seen :: nat
  ig_ingested_at :: string

record ticket_row =
  tk_id :: string
  tk_signal :: string
  tk_title :: string
  tk_description :: string
  tk_status :: ticket_status
  tk_priority :: ticket_priority
  tk_owner :: "string option"
  tk_created_by :: string
  tk_created_at :: string
  tk_updated_at :: string
  tk_sla_due :: "string option"
  tk_resolved_at :: "string option"
  tk_closed_at :: "string option"

record comment_row =
  cm_id :: string
  cm_ticket :: string
  cm_author :: string
  cm_body :: string
  cm_created_at :: string

record task_row =
  ta_id :: string
  ta_ticket :: string
  ta_title :: string
  ta_description :: "string option"
  ta_status :: task_status
  ta_position :: nat
  ta_owner :: "string option"
  ta_due_at :: "string option"
  ta_completed_at :: "string option"
  ta_created_at :: string
  ta_updated_at :: string

record audit_row =
  au_sequence :: nat
  au_ticket :: string
  au_actor :: string
  au_action :: string
  au_occurred_at :: string
  au_details_json :: string

record ticket_db =
  signals :: "signal_row list"
  occurrences :: "occurrence_row list"
  ingests :: "ingest_row list"
  tickets :: "ticket_row list"
  comments :: "comment_row list"
  tasks :: "task_row list"
  audit :: "audit_row list"
  next_occurrence :: nat
  next_sequence :: nat

type_synonym 'a desk = "(ticket_db, ticket_error, 'a) act"

definition empty_db :: ticket_db where
  "empty_db = \<lparr>signals = [], occurrences = [], ingests = [], tickets = [], comments = [], tasks = [],
     audit = [], next_occurrence = 1, next_sequence = 1\<rparr>"

section \<open>Statements\<close>

definition signal_by_id :: "string \<Rightarrow> ticket_db \<Rightarrow> signal_row option" where
  "signal_by_id i db = find (\<lambda>r. sg_id r = i) (signals db)"

definition signal_by_fingerprint :: "string \<Rightarrow> ticket_db \<Rightarrow> signal_row option" where
  "signal_by_fingerprint f db = find (\<lambda>r. sg_fingerprint r = f) (signals db)"

definition ticket_by_id :: "string \<Rightarrow> ticket_db \<Rightarrow> ticket_row option" where
  "ticket_by_id i db = find (\<lambda>r. tk_id r = i) (tickets db)"

definition ticket_by_signal :: "string \<Rightarrow> ticket_db \<Rightarrow> ticket_row option" where
  "ticket_by_signal i db = find (\<lambda>r. tk_signal r = i) (tickets db)"

definition task_by_id :: "string \<Rightarrow> ticket_db \<Rightarrow> task_row option" where
  "task_by_id i db = find (\<lambda>r. ta_id r = i) (tasks db)"

definition ingested :: "string \<Rightarrow> ticket_db \<Rightarrow> bool" where
  "ingested d db \<longleftrightarrow> list_ex (\<lambda>r. ig_snapshot r = d) (ingests db)"

definition insert_signal :: "signal_row \<Rightarrow> unit desk" where
  "insert_signal r db =
     (if list_ex (\<lambda>q. sg_id q = sg_id r \<or> sg_fingerprint q = sg_fingerprint r) (signals db)
        \<or> sg_count r < 1
      then (Inl IntegrityError, db) else (Inr (), db\<lparr>signals := signals db @ [r]\<rparr>))"

definition update_signal :: "string \<Rightarrow> (signal_row \<Rightarrow> signal_row) \<Rightarrow> unit desk" where
  "update_signal i f =
     modify (\<lambda>db. db\<lparr>signals := map (\<lambda>r. if sg_id r = i then f r else r) (signals db)\<rparr>)"

text \<open>\<open>INSERT OR IGNORE\<close>: a duplicate is skipped, a missing signal still violates the foreign key.\<close>

definition insert_or_ignore_occurrence :: "occurrence_row \<Rightarrow> unit desk" where
  "insert_or_ignore_occurrence r db =
     (if list_ex (\<lambda>q. oc_signal q = oc_signal r \<and> oc_snapshot q = oc_snapshot r \<and> oc_hash q = oc_hash r)
           (occurrences db)
      then (Inr (), db)
      else if signal_by_id (oc_signal r) db = None then (Inl IntegrityError, db)
      else (Inr (), db\<lparr>occurrences := occurrences db @ [r\<lparr>oc_id := next_occurrence db\<rparr>],
                       next_occurrence := next_occurrence db + 1\<rparr>))"

definition insert_ingest :: "ingest_row \<Rightarrow> unit desk" where
  "insert_ingest r db =
     (if ingested (ig_snapshot r) db then (Inl IntegrityError, db)
      else (Inr (), db\<lparr>ingests := ingests db @ [r]\<rparr>))"

definition insert_ticket :: "ticket_row \<Rightarrow> unit desk" where
  "insert_ticket r db =
     (if list_ex (\<lambda>q. tk_id q = tk_id r \<or> tk_signal q = tk_signal r) (tickets db)
        \<or> signal_by_id (tk_signal r) db = None
      then (Inl IntegrityError, db) else (Inr (), db\<lparr>tickets := tickets db @ [r]\<rparr>))"

definition put_ticket :: "string \<Rightarrow> (ticket_row \<Rightarrow> ticket_row) \<Rightarrow> ticket_db \<Rightarrow> ticket_db" where
  "put_ticket i f db = db\<lparr>tickets := map (\<lambda>r. if tk_id r = i then f r else r) (tickets db)\<rparr>"

definition update_ticket :: "string \<Rightarrow> (ticket_row \<Rightarrow> ticket_row) \<Rightarrow> unit desk" where
  "update_ticket i f = modify (put_ticket i f)"

definition insert_comment :: "comment_row \<Rightarrow> unit desk" where
  "insert_comment r db =
     (if list_ex (\<lambda>q. cm_id q = cm_id r) (comments db) \<or> ticket_by_id (cm_ticket r) db = None
      then (Inl IntegrityError, db) else (Inr (), db\<lparr>comments := comments db @ [r]\<rparr>))"

definition insert_task :: "task_row \<Rightarrow> unit desk" where
  "insert_task r db =
     (if list_ex (\<lambda>q. ta_id q = ta_id r \<or> ta_ticket q = ta_ticket r \<and> ta_position q = ta_position r) (tasks db)
        \<or> ticket_by_id (ta_ticket r) db = None \<or> ta_position r < 1
      then (Inl IntegrityError, db) else (Inr (), db\<lparr>tasks := tasks db @ [r]\<rparr>))"

definition update_task :: "string \<Rightarrow> (task_row \<Rightarrow> task_row) \<Rightarrow> unit desk" where
  "update_task i f = modify (\<lambda>db. db\<lparr>tasks := map (\<lambda>r. if ta_id r = i then f r else r) (tasks db)\<rparr>)"

definition add_audit :: "string \<Rightarrow> string \<Rightarrow> string \<Rightarrow> string \<Rightarrow> (string \<times> json) list \<Rightarrow> ticket_db \<Rightarrow> ticket_db" where
  "add_audit ticket actor action now details db =
     db\<lparr>audit := audit db @ [\<lparr>au_sequence = next_sequence db, au_ticket = ticket, au_actor = actor,
            au_action = action, au_occurred_at = now, au_details_json = dumps False (JObj details)\<rparr>],
        next_sequence := next_sequence db + 1\<rparr>"

definition audit_event :: "string \<Rightarrow> string \<Rightarrow> string \<Rightarrow> string \<Rightarrow> (string \<times> json) list \<Rightarrow> unit desk" where
  "audit_event ticket actor action now details db =
     (if ticket_by_id ticket db = None then (Inl IntegrityError, db)
      else (Inr (), add_audit ticket actor action now details db))"

section \<open>Queries with an order\<close>

text \<open>\<open>ORDER BY k DESC\<close> of rows already in the order of the remaining keys.\<close>

definition sort_desc :: "('a \<Rightarrow> 'b :: linorder) \<Rightarrow> 'a list \<Rightarrow> 'a list" where
  "sort_desc k xs = rev (sort_key k (rev xs))"

lemma sort_desc_set [simp]: "set (sort_desc k xs) = set xs" "length (sort_desc k xs) = length xs"
  by (simp_all add: sort_desc_def)

lemma sort_desc_sorted: "sorted_wrt (\<lambda>x y. k y \<le> k x) (sort_desc k xs)"
proof -
  have "sorted_wrt (\<lambda>x y. k x \<le> k y) (sort_key k (rev xs))"
    using sorted_sort_key [of k "rev xs"] by (simp add: sorted_wrt_map)
  then show ?thesis by (simp add: sort_desc_def sorted_wrt_rev)
qed

end
