(* ===== verification/SignalStore.thy ===== *)
theory SignalStore
  imports TicketDb
begin

text \<open>
  The signal half of \<open>TicketStore\<close>: \<open>_upsert_signal\<close>, the two batch ingests and the queries. One
  call reads the clock once; what it reads from its surroundings is the record \<open>desk_env\<close>: the
  clock, the \<open>uuid4\<close> values the call draws in order, SHA-256, the zone database, and the settings
  store when operational settings are in use.
\<close>

section \<open>The surroundings of a call\<close>

record desk_env =
  en_clock :: pydt
  en_uuid :: "nat \<Rightarrow> string"
  en_sha :: "string \<Rightarrow> string"
  en_tz :: tzdb
  en_use_settings :: bool
  en_settings :: settings_db

definition now_text :: "desk_env \<Rightarrow> ticket_error + string" where
  "now_text env = utc_text_of (en_clock env)"

definition current_policy :: "desk_env \<Rightarrow> ticket_error + business_hours_policy option" where
  "current_policy env =
     (if \<not> en_use_settings env then Inr None
      else case get_business_hours (en_tz env) (en_settings env) of
             Inl e \<Rightarrow> Inl (SettingsError e) | Inr p \<Rightarrow> Inr (Some p))"

definition sla_due_at_for :: "desk_env \<Rightarrow> ticket_priority \<Rightarrow> string \<Rightarrow> ticket_error + string" where
  "sla_due_at_for env p created_at =
     bindR (current_policy env) (\<lambda>policy.
     sla_due_at (en_tz env) policy (JStr (priority_text p)) (JStr created_at))"

section \<open>Ingest\<close>

record signal_input =
  si_fingerprint :: string
  si_type :: string
  si_snapshot :: string
  si_evidence :: "(string \<times> json) list"
  si_severity :: string
  si_title :: string
  si_description :: string
  si_occurred_at :: "string option"
  si_observed_at :: string
  si_asset_ids :: "string list"
  si_action :: "string option"
  si_payload :: "(string \<times> json) list"

record ingest_stats =
  signals_seen :: nat
  signals_created :: nat
  occurrences_created :: nat

definition hex_argument :: "string \<Rightarrow> nat \<Rightarrow> validation_reason \<Rightarrow> string \<Rightarrow> ticket_error + string" where
  "hex_argument label max_length reason v =
     bindR (required_text label max_length (JStr v)) (\<lambda>t.
     if is_sha256_hex (lower t) then Inr (lower t) else Inl (Validation reason))"

text \<open>The row that a first occurrence of the signal inserts.\<close>

definition normalize_signal :: "string \<Rightarrow> signal_input \<Rightarrow> ticket_error + signal_row" where
  "normalize_signal now s =
     bindR (hex_argument ''Fingerprint'' 128 BadFingerprint (si_fingerprint s)) (\<lambda>fingerprint.
     bindR (hex_argument ''SHA snapshot'' 64 BadDigest (si_snapshot s)) (\<lambda>digest.
     bindR (required_text ''Tipo segnale'' 64 (JStr (si_type s))) (\<lambda>type.
     bindR (optional_text 512 (get_item (si_evidence s) ''source_id'')) (\<lambda>source_id.
     bindR (optional_text 1024 (get_item (si_evidence s) ''source_record_id'')) (\<lambda>source_record_id.
     bindR (required_text ''Severita'' 32 (JStr (si_severity s))) (\<lambda>severity.
     bindR (required_text ''Titolo'' 1024 (JStr (si_title s))) (\<lambda>title.
     bindR (required_text ''Descrizione'' 16384 (JStr (si_description s))) (\<lambda>description.
     bindR (optional_text 64 (jopt (si_occurred_at s))) (\<lambda>occurred_at.
     bindR (required_text ''Timestamp osservazione'' 64 (JStr (si_observed_at s))) (\<lambda>observed_at.
     bindR (mapR (\<lambda>a. required_text ''Asset ID'' 1024 (JStr a)) (si_asset_ids s)) (\<lambda>assets.
     bindR (optional_text 16384 (jopt (si_action s))) (\<lambda>action.
     Inr \<lparr>sg_id = ''signal:'' @ fingerprint, sg_fingerprint = fingerprint, sg_type = type,
       sg_snapshot = digest, sg_source_id = source_id, sg_source_record_id = source_record_id,
       sg_evidence_json = dumps False (JObj (si_evidence s)), sg_severity = lower severity,
       sg_title = title, sg_description = description, sg_occurred_at = occurred_at,
       sg_first_observed = observed_at, sg_last_observed = observed_at,
       sg_asset_ids_json = dumps False (JArr (map JStr (sort (remdups assets)))),
       sg_action = action, sg_payload_json = dumps False (JObj (si_payload s)), sg_count = 1,
       sg_created_at = now, sg_updated_at = now\<rparr>))))))))))))"

definition semantic_changed :: "desk_env \<Rightarrow> string \<Rightarrow> signal_row option \<Rightarrow> ticket_error + bool" where
  "semantic_changed env digest existing =
     (case existing of
        None \<Rightarrow> Inr True
      | Some r \<Rightarrow> (case loads (sg_payload_json r) of
            None \<Rightarrow> Inl BadStoredJson
          | Some v \<Rightarrow> Inr (digest \<noteq> payload_hash (en_sha env) v)))"

definition occurrence_of :: "signal_row \<Rightarrow> string \<Rightarrow> string \<Rightarrow> occurrence_row" where
  "occurrence_of n digest now =
     \<lparr>oc_id = 0, oc_signal = sg_id n, oc_snapshot = sg_snapshot n, oc_observed_at = sg_last_observed n,
      oc_occurred_at = sg_occurred_at n, oc_hash = digest, oc_payload_json = sg_payload_json n,
      oc_created_at = now\<rparr>"

definition refresh_signal :: "signal_row \<Rightarrow> signal_row \<Rightarrow> bool \<Rightarrow> string \<Rightarrow> signal_row \<Rightarrow> signal_row" where
  "refresh_signal n existing changed now r =
     r\<lparr>sg_snapshot := sg_snapshot n, sg_source_id := sg_source_id n,
       sg_source_record_id := sg_source_record_id n, sg_evidence_json := sg_evidence_json n,
       sg_severity := sg_severity n, sg_title := sg_title n, sg_description := sg_description n,
       sg_occurred_at := sg_occurred_at n,
       sg_first_observed := min (sg_first_observed existing) (sg_first_observed n),
       sg_last_observed := max (sg_last_observed existing) (sg_last_observed n),
       sg_asset_ids_json := sg_asset_ids_json n, sg_action := sg_action n,
       sg_payload_json := sg_payload_json n, sg_count := sg_count r + 1,
       sg_updated_at := (if changed then now else sg_updated_at r)\<rparr>"

definition upsert_signal :: "desk_env \<Rightarrow> string \<Rightarrow> signal_input \<Rightarrow> (bool \<times> bool) desk" where
  "upsert_signal env now s =
     bindE (lift_res (normalize_signal now s)) (\<lambda>n.
     let digest = payload_hash (en_sha env) (JObj (si_payload s)) in
     bindE (gets (signal_by_fingerprint (sg_fingerprint n))) (\<lambda>existing.
     bindE (whenE (existing = None) (insert_signal n)) (\<lambda>_.
     if existing \<noteq> None \<and> sg_snapshot (the existing) = sg_snapshot n then ret (False, False)
     else
       bindE (lift_res (semantic_changed env digest existing)) (\<lambda>changed.
       bindE (whenE changed (insert_or_ignore_occurrence (occurrence_of n digest now))) (\<lambda>_.
       bindE (case existing of None \<Rightarrow> ret ()
              | Some r \<Rightarrow> update_signal (sg_id n) (refresh_signal n r changed now)) (\<lambda>_.
       ret (existing = None, True)))))))"

definition upsert_counted :: "desk_env \<Rightarrow> string \<Rightarrow> nat \<times> nat \<Rightarrow> signal_input \<Rightarrow> (nat \<times> nat) desk" where
  "upsert_counted env now acc s =
     bindE (upsert_signal env now s) (\<lambda>(created, observed).
     ret (fst acc + (if created then 1 else 0), snd acc + (if observed then 1 else 0)))"

definition ingest_signals :: "desk_env \<Rightarrow> signal_input list \<Rightarrow> ingest_stats desk" where
  "ingest_signals env batch =
     (if batch = [] then ret \<lparr>signals_seen = 0, signals_created = 0, occurrences_created = 0\<rparr>
      else
        bindE (lift_res (now_text env)) (\<lambda>now.
        bindE (transaction (foldE (upsert_counted env now) (0, 0) batch)) (\<lambda>(created, observed).
        ret \<lparr>signals_seen = length batch, signals_created = created, occurrences_created = observed\<rparr>)))"

definition ingest_snapshot_signals ::
  "desk_env \<Rightarrow> signal_input list \<Rightarrow> string \<Rightarrow> string \<Rightarrow> string \<Rightarrow> ingest_stats desk" where
  "ingest_snapshot_signals env batch snapshot_sha256 snapshot_id generated_at =
     bindE (lift_res (hex_argument ''SHA snapshot'' 64 BadDigest snapshot_sha256)) (\<lambda>digest.
     bindE (lift_res (required_text ''Snapshot ID'' 1024 (JStr snapshot_id))) (\<lambda>sid.
     bindE (lift_res (required_text ''Timestamp snapshot'' 64 (JStr generated_at))) (\<lambda>generated.
     bindE (guardE (list_all (\<lambda>s. lower (si_snapshot s) = digest) batch) (Validation ForeignSnapshot)) (\<lambda>_.
     bindE (lift_res (now_text env)) (\<lambda>now.
     transaction (
       bindE (gets (ingested digest)) (\<lambda>already.
       if already then ret \<lparr>signals_seen = 0, signals_created = 0, occurrences_created = 0\<rparr>
       else
         bindE (foldE (upsert_counted env now) (0, 0) batch) (\<lambda>(created, observed).
         bindE (insert_ingest \<lparr>ig_snapshot = digest, ig_snapshot_id = sid, ig_generated_at = generated,
                  ig_signals_seen = length batch, ig_ingested_at = now\<rparr>) (\<lambda>_.
         ret \<lparr>signals_seen = length batch, signals_created = created,
              occurrences_created = observed\<rparr>)))))))))"

section \<open>Queries\<close>

definition snapshot_ingested :: "string \<Rightarrow> bool desk" where
  "snapshot_ingested snapshot_sha256 =
     bindE (lift_res (hex_argument ''SHA snapshot'' 64 BadDigest snapshot_sha256)) (\<lambda>digest.
     gets (ingested digest))"

definition list_snapshot_ingests :: "int \<Rightarrow> ingest_row list desk" where
  "list_snapshot_ingests limit =
     bindE (guardE (1 \<le> limit \<and> limit \<le> 10000) (Validation BadLimit)) (\<lambda>_.
     gets (\<lambda>db. take (nat limit) (sort_desc ig_generated_at (sort_desc ig_snapshot (ingests db)))))"

definition get_signal :: "string \<Rightarrow> signal_row desk" where
  "get_signal signal_id =
     bindE (lift_res (required_text ''Signal ID'' 128 (JStr signal_id))) (\<lambda>sid.
     bindE (gets (signal_by_id sid)) (\<lambda>row.
     case row of None \<Rightarrow> raise (SignalNotFound signal_id) | Some r \<Rightarrow> ret r))"

definition text_filter :: "string option \<Rightarrow> (json \<Rightarrow> ticket_error + string) \<Rightarrow> ticket_error + string option" where
  "text_filter v norm = (if v = None \<or> v = Some [] then Inr None
     else bindR (norm (jopt v)) (\<lambda>t. Inr (Some t)))"

definition list_signals :: "string option \<Rightarrow> string option \<Rightarrow> bool \<Rightarrow> int \<Rightarrow> signal_row list desk" where
  "list_signals signal_type severity without_ticket limit =
     bindE (guardE (1 \<le> limit \<and> limit \<le> 1000) (Validation BadLimit)) (\<lambda>_.
     bindE (lift_res (text_filter signal_type (required_text ''Tipo segnale'' 64))) (\<lambda>ty.
     bindE (lift_res (text_filter severity (\<lambda>v. bindR (required_text ''Severita'' 32 v) (\<lambda>t. Inr (lower t))))) (\<lambda>sev.
     gets (\<lambda>db. take (nat limit) (sort_desc sg_last_observed (sort_key sg_id
       (filter (\<lambda>r. (ty = None \<or> ty = Some (sg_type r)) \<and> (sev = None \<or> sev = Some (sg_severity r))
          \<and> (without_ticket \<longrightarrow> ticket_by_signal (sg_id r) db = None)) (signals db))))))))"

end
