(* ===== verification/TicketStore.thy ===== *)
theory TicketStore
  imports SignalStore
begin

text \<open>
  The ticket half of \<open>TicketStore\<close>: creation with and without a checklist, the lifecycle, assignment,
  priority and deadlines, comments, tasks, the queries, the evidence export and the migration of
  databases older than \<open>sla_due_at\<close>. Every writer validates its arguments, reads the clock, and runs
  its statements in one transaction, in the order of the code; the row it returns is read back
  before the commit.
\<close>

definition ticket_from_row :: "desk_env \<Rightarrow> ticket_row \<Rightarrow> ticket_error + ticket_row" where
  "ticket_from_row env r =
     (if tk_sla_due r = None \<or> tk_sla_due r = Some [] then
        bindR (sla_due_at (en_tz env) None (JStr (priority_text (tk_priority r))) (JStr (tk_created_at r)))
          (\<lambda>due. Inr (r\<lparr>tk_sla_due := Some due\<rparr>))
      else Inr r)"

definition row_result :: "desk_env \<Rightarrow> ticket_row option \<Rightarrow> ticket_row desk" where
  "row_result env r = (case r of None \<Rightarrow> raise AssertionError | Some t \<Rightarrow> lift_res (ticket_from_row env t))"

definition require_ticket :: "string \<Rightarrow> ticket_row desk" where
  "require_ticket tid = bindE (gets (ticket_by_id tid)) (\<lambda>row.
     case row of None \<Rightarrow> raise (TicketNotFound tid) | Some r \<Rightarrow> ret r)"

definition require_signal :: "string \<Rightarrow> signal_row desk" where
  "require_signal sid = bindE (gets (signal_by_id sid)) (\<lambda>row.
     case row of None \<Rightarrow> raise (SignalNotFound sid) | Some r \<Rightarrow> ret r)"

definition touch_ticket :: "string \<Rightarrow> string \<Rightarrow> unit desk" where
  "touch_ticket tid now = update_ticket tid (\<lambda>r. r\<lparr>tk_updated_at := now\<rparr>)"

section \<open>Creation\<close>

definition created_details :: "ticket_row \<Rightarrow> (string \<times> json) list" where
  "created_details t =
     [(''signal_id'', JStr (tk_signal t)), (''status'', JStr ''new''),
      (''priority'', JStr (priority_text (tk_priority t))), (''owner'', jopt (tk_owner t)),
      (''sla_due_at'', jopt (tk_sla_due t)), (''sla_policy_hours'', JInt (sla_policy_hours (tk_priority t)))]"

definition new_ticket ::
  "string \<Rightarrow> signal_row \<Rightarrow> string \<Rightarrow> ticket_priority \<Rightarrow> string option \<Rightarrow> string option \<Rightarrow> string option
   \<Rightarrow> string \<Rightarrow> string \<Rightarrow> ticket_row" where
  "new_ticket uuid signal actor priority owner title description now due =
     \<lparr>tk_id = ''ticket:'' @ uuid, tk_signal = sg_id signal,
      tk_title = (case title of None \<Rightarrow> sg_title signal | Some x \<Rightarrow> x),
      tk_description = (case description of None \<Rightarrow> sg_description signal | Some x \<Rightarrow> x),
      tk_status = New, tk_priority = priority, tk_owner = owner, tk_created_by = actor,
      tk_created_at = now, tk_updated_at = now, tk_sla_due = Some due,
      tk_resolved_at = None, tk_closed_at = None\<rparr>"

definition open_ticket ::
  "string \<Rightarrow> signal_row \<Rightarrow> string \<Rightarrow> ticket_priority \<Rightarrow> string option \<Rightarrow> string option \<Rightarrow> string option
   \<Rightarrow> string \<Rightarrow> string \<Rightarrow> string desk" where
  "open_ticket uuid signal actor priority owner title description now due =
     bindE (lift_res (optional_text 1024 (jopt title))) (\<lambda>title'.
     bindE (lift_res (optional_text 16384 (jopt description))) (\<lambda>description'.
     let t = new_ticket uuid signal actor priority owner title' description' now due in
     bindE (insert_ticket t) (\<lambda>_.
     bindE (audit_event (tk_id t) actor ''ticket.created'' now (created_details t)) (\<lambda>_.
     ret (tk_id t)))))"

definition create_body ::
  "string \<Rightarrow> string \<Rightarrow> string \<Rightarrow> ticket_priority \<Rightarrow> string option \<Rightarrow> string option \<Rightarrow> string option
   \<Rightarrow> string \<Rightarrow> string \<Rightarrow> ticket_row option desk" where
  "create_body uuid sid who p own title description now due =
     bindE (require_signal sid) (\<lambda>signal.
     bindE (gets (ticket_by_signal sid)) (\<lambda>existing.
     case existing of
       Some t \<Rightarrow> ret (Some t)
     | None \<Rightarrow>
         bindE (open_ticket uuid signal who p own title description now due) (\<lambda>tid.
         gets (ticket_by_id tid))))"

definition create_ticket_from_signal ::
  "desk_env \<Rightarrow> string \<Rightarrow> string \<Rightarrow> string \<Rightarrow> string option \<Rightarrow> string option \<Rightarrow> string option \<Rightarrow> ticket_row desk" where
  "create_ticket_from_signal env signal_id actor priority owner title description =
     bindE (lift_res (required_text ''Signal ID'' 128 (JStr signal_id))) (\<lambda>sid.
     bindE (lift_res (required_text ''Attore'' 256 (JStr actor))) (\<lambda>who.
     bindE (lift_res (normalize_priority (JStr priority))) (\<lambda>p.
     bindE (lift_res (optional_text 256 (jopt owner))) (\<lambda>own.
     bindE (lift_res (now_text env)) (\<lambda>now.
     bindE (lift_res (sla_due_at_for env p now)) (\<lambda>due.
     bindE (transaction (create_body (en_uuid env 0) sid who p own title description now due))
       (row_result env)))))))"

section \<open>Checklists\<close>

definition task_titles :: "string \<Rightarrow> ticket_db \<Rightarrow> string list" where
  "task_titles tid db = map ta_title (filter (\<lambda>r. ta_ticket r = tid) (tasks db))"

definition max_position :: "string \<Rightarrow> ticket_db \<Rightarrow> nat" where
  "max_position tid db = foldr (\<lambda>r m. max (ta_position r) m) (filter (\<lambda>r. ta_ticket r = tid) (tasks db)) 0"

definition task_added_details :: "string \<Rightarrow> nat \<Rightarrow> string \<Rightarrow> (string \<times> json) list" where
  "task_added_details task_id position title =
     [(''task_id'', JStr task_id), (''position'', JInt (int position)), (''title'', JStr title)]"

definition new_task ::
  "string \<Rightarrow> string \<Rightarrow> string \<Rightarrow> string option \<Rightarrow> nat \<Rightarrow> string option \<Rightarrow> string option \<Rightarrow> string \<Rightarrow> task_row" where
  "new_task uuid tid title description position owner due_at now =
     \<lparr>ta_id = ''task:'' @ uuid, ta_ticket = tid, ta_title = title, ta_description = description,
      ta_status = Pending, ta_position = position, ta_owner = owner, ta_due_at = due_at,
      ta_completed_at = None, ta_created_at = now, ta_updated_at = now\<rparr>"

text \<open>One turn of the loop over the definitions; the accumulator is the known titles, the last
  position and the number of tasks added, \<open>start\<close> the first unused \<open>uuid4\<close> draw.\<close>

definition add_missing_task ::
  "desk_env \<Rightarrow> nat \<Rightarrow> string \<Rightarrow> string \<Rightarrow> string option \<Rightarrow> string
   \<Rightarrow> string list \<times> nat \<times> nat \<Rightarrow> string \<times> string option \<Rightarrow> (string list \<times> nat \<times> nat) desk" where
  "add_missing_task env start tid actor owner now acc d =
     (case (acc, d) of ((titles, position, added), (title, description)) \<Rightarrow>
        if title \<in> set titles then ret acc
        else
          let t = new_task (en_uuid env (start + added)) tid title description (position + 1) owner None now in
          bindE (insert_task t) (\<lambda>_.
          bindE (audit_event tid actor ''ticket.task_added'' now
                   (task_added_details (ta_id t) (position + 1) title)) (\<lambda>_.
          ret (title # titles, position + 1, added + 1))))"

definition add_missing_tasks ::
  "desk_env \<Rightarrow> nat \<Rightarrow> string \<Rightarrow> string \<Rightarrow> string option \<Rightarrow> string \<Rightarrow> (string \<times> string option) list \<Rightarrow> nat desk" where
  "add_missing_tasks env start tid actor owner now defs =
     bindE (gets (task_titles tid)) (\<lambda>titles.
     bindE (gets (max_position tid)) (\<lambda>position.
     bindE (foldE (add_missing_task env start tid actor owner now) (titles, position, 0) defs) (\<lambda>(_, _, added).
     bindE (whenE (0 < added) (touch_ticket tid now)) (\<lambda>_.
     ret added))))"

definition create_with_tasks_body ::
  "desk_env \<Rightarrow> string \<Rightarrow> string \<Rightarrow> ticket_priority \<Rightarrow> string option \<Rightarrow> string option \<Rightarrow> string option
   \<Rightarrow> (string \<times> string option) list \<Rightarrow> string \<Rightarrow> string \<Rightarrow> (ticket_row option \<times> nat) desk" where
  "create_with_tasks_body env sid who p own title description defs now due =
     bindE (require_signal sid) (\<lambda>signal.
     bindE (gets (ticket_by_signal sid)) (\<lambda>existing.
     bindE (case existing of
              Some t \<Rightarrow> ret (tk_id t, 0)
            | None \<Rightarrow>
                bindE (open_ticket (en_uuid env 0) signal who p own title description now due)
                  (\<lambda>tid. ret (tid, 1))) (\<lambda>(tid, start).
     bindE (add_missing_tasks env start tid who own now defs) (\<lambda>added.
     bindE (gets (ticket_by_id tid)) (\<lambda>row.
     ret (row, added))))))"

definition create_ticket_with_tasks ::
  "desk_env \<Rightarrow> string \<Rightarrow> string \<Rightarrow> json list \<Rightarrow> string \<Rightarrow> string option \<Rightarrow> string option \<Rightarrow> string option
   \<Rightarrow> (ticket_row \<times> nat) desk" where
  "create_ticket_with_tasks env signal_id actor task_docs priority owner title description =
     bindE (lift_res (required_text ''Signal ID'' 128 (JStr signal_id))) (\<lambda>sid.
     bindE (lift_res (required_text ''Attore'' 256 (JStr actor))) (\<lambda>who.
     bindE (lift_res (normalize_priority (JStr priority))) (\<lambda>p.
     bindE (lift_res (optional_text 256 (jopt owner))) (\<lambda>own.
     bindE (lift_res (task_definitions task_docs)) (\<lambda>defs.
     bindE (lift_res (now_text env)) (\<lambda>now.
     bindE (lift_res (sla_due_at_for env p now)) (\<lambda>due.
     bindE (transaction (create_with_tasks_body env sid who p own title description defs now due)) (\<lambda>(row, added).
     bindE (row_result env row) (\<lambda>t.
     ret (t, added))))))))))"

section \<open>Lifecycle\<close>

definition transition_body ::
  "string \<Rightarrow> ticket_status \<Rightarrow> string \<Rightarrow> string option \<Rightarrow> string \<Rightarrow> ticket_row option desk" where
  "transition_body tid target who note now =
     bindE (require_ticket tid) (\<lambda>row.
     let current = tk_status row in
     bindE (guardE (target \<in> transitions current) (InvalidTransition current target)) (\<lambda>_.
     let resolved1 = (if target \<in> decision_statuses then Some now else tk_resolved_at row);
         closed1 = (if target = Closed then Some now else tk_closed_at row);
         reopened = (target = Investigating \<and> current \<in> insert Closed decision_statuses);
         resolved2 = (if reopened then None else resolved1);
         closed2 = (if reopened then None else closed1) in
     bindE (update_ticket tid (\<lambda>r. r\<lparr>tk_status := target, tk_updated_at := now,
              tk_resolved_at := resolved2, tk_closed_at := closed2\<rparr>)) (\<lambda>_.
     bindE (audit_event tid who ''ticket.status_changed'' now
              [(''from'', JStr (status_text current)), (''to'', JStr (status_text target)),
               (''note'', jopt note)]) (\<lambda>_.
     gets (ticket_by_id tid)))))"

definition transition_ticket ::
  "desk_env \<Rightarrow> string \<Rightarrow> string \<Rightarrow> string \<Rightarrow> string option \<Rightarrow> ticket_row desk" where
  "transition_ticket env ticket_id to_status actor note =
     bindE (lift_res (required_text ''Ticket ID'' 128 (JStr ticket_id))) (\<lambda>tid.
     bindE (lift_res (normalize_status (JStr to_status))) (\<lambda>target.
     bindE (lift_res (required_text ''Attore'' 256 (JStr actor))) (\<lambda>who.
     bindE (lift_res (optional_text 16384 (jopt note))) (\<lambda>note'.
     bindE (guardE (target \<in> decision_statuses \<longrightarrow> note' \<noteq> None) (Validation (NoteRequired target))) (\<lambda>_.
     bindE (lift_res (now_text env)) (\<lambda>now.
     bindE (transaction (transition_body tid target who note' now)) (row_result env)))))))"

section \<open>Owner, priority, deadline\<close>

datatype field_value = OwnerValue "string option" | PriorityValue ticket_priority

definition priority_details ::
  "ticket_row \<Rightarrow> ticket_priority \<Rightarrow> json \<Rightarrow> string \<Rightarrow> (string \<times> json) list" where
  "priority_details row p previous_due next_due =
     [(''from'', JStr (priority_text (tk_priority row))), (''to'', JStr (priority_text p)),
      (''from_sla_due_at'', previous_due), (''to_sla_due_at'', JStr next_due),
      (''sla_anchor'', JStr ''ticket.created_at''), (''sla_policy_hours'', JInt (sla_policy_hours p))]"

definition field_body ::
  "desk_env \<Rightarrow> business_hours_policy option \<Rightarrow> string \<Rightarrow> field_value \<Rightarrow> string \<Rightarrow> string \<Rightarrow> string
   \<Rightarrow> ticket_row option desk" where
  "field_body env policy tid field who action now =
     bindE (require_ticket tid) (\<lambda>row.
     bindE (case field of
         PriorityValue p \<Rightarrow>
           if tk_priority row = p then ret () else
           bindE (lift_res (sla_due_at (en_tz env) policy (JStr (priority_text p))
                    (JStr (tk_created_at row)))) (\<lambda>next_due.
           bindE (update_ticket tid (\<lambda>r. r\<lparr>tk_priority := p, tk_sla_due := Some next_due,
                    tk_updated_at := now\<rparr>)) (\<lambda>_.
           audit_event tid who action now (priority_details row p (jopt (tk_sla_due row)) next_due)))
       | OwnerValue v \<Rightarrow>
           if tk_owner row = v then ret () else
           bindE (update_ticket tid (\<lambda>r. r\<lparr>tk_owner := v, tk_updated_at := now\<rparr>)) (\<lambda>_.
           audit_event tid who action now [(''from'', jopt (tk_owner row)), (''to'', jopt v)])) (\<lambda>_.
     gets (ticket_by_id tid)))"

definition update_ticket_field ::
  "desk_env \<Rightarrow> string \<Rightarrow> field_value \<Rightarrow> string \<Rightarrow> string \<Rightarrow> ticket_row desk" where
  "update_ticket_field env ticket_id field actor action =
     bindE (lift_res (required_text ''Ticket ID'' 128 (JStr ticket_id))) (\<lambda>tid.
     bindE (lift_res (required_text ''Attore'' 256 (JStr actor))) (\<lambda>who.
     bindE (lift_res (now_text env)) (\<lambda>now.
     bindE (lift_res (case field of PriorityValue _ \<Rightarrow> current_policy env | OwnerValue _ \<Rightarrow> Inr None)) (\<lambda>policy.
     bindE (transaction (field_body env policy tid field who action now)) (row_result env)))))"

definition assign_ticket :: "desk_env \<Rightarrow> string \<Rightarrow> string option \<Rightarrow> string \<Rightarrow> ticket_row desk" where
  "assign_ticket env ticket_id owner actor =
     bindE (lift_res (optional_text 256 (jopt owner))) (\<lambda>own.
     update_ticket_field env ticket_id (OwnerValue own) actor ''ticket.assigned'')"

definition set_ticket_priority :: "desk_env \<Rightarrow> string \<Rightarrow> string \<Rightarrow> string \<Rightarrow> ticket_row desk" where
  "set_ticket_priority env ticket_id priority actor =
     bindE (lift_res (normalize_priority (JStr priority))) (\<lambda>p.
     update_ticket_field env ticket_id (PriorityValue p) actor ''ticket.priority_changed'')"

text \<open>\<open>str\<close> of a nullable column.\<close>

definition column_str :: "string option \<Rightarrow> string" where
  "column_str v = py_str (jopt v)"

definition recalculate_row ::
  "desk_env \<Rightarrow> business_hours_policy option \<Rightarrow> string \<Rightarrow> string \<Rightarrow> nat \<Rightarrow> ticket_row \<Rightarrow> nat desk" where
  "recalculate_row env policy who now changed row =
     bindE (lift_res (sla_due_at (en_tz env) policy (JStr (priority_text (tk_priority row)))
              (JStr (tk_created_at row)))) (\<lambda>next_due.
     if next_due = column_str (tk_sla_due row) then ret changed else
     bindE (update_ticket (tk_id row) (\<lambda>r. r\<lparr>tk_sla_due := Some next_due, tk_updated_at := now\<rparr>)) (\<lambda>_.
     bindE (audit_event (tk_id row) who ''ticket.sla_calendar_recalculated'' now
              [(''from_sla_due_at'', JStr (column_str (tk_sla_due row))), (''to_sla_due_at'', JStr next_due),
               (''sla_anchor'', JStr ''ticket.created_at''),
               (''sla_policy_hours'', JInt (sla_policy_hours (tk_priority row)))]) (\<lambda>_.
     ret (changed + 1))))"

definition recalculate_open_sla_deadlines :: "desk_env \<Rightarrow> string \<Rightarrow> nat desk" where
  "recalculate_open_sla_deadlines env actor =
     bindE (lift_res (required_text ''Attore'' 256 (JStr actor))) (\<lambda>who.
     bindE (lift_res (now_text env)) (\<lambda>now.
     bindE (lift_res (current_policy env)) (\<lambda>policy.
     transaction (
       bindE (gets (\<lambda>db. filter (\<lambda>r. tk_status r \<notin> sla_stopped_statuses) (tickets db))) (\<lambda>rows.
       foldE (recalculate_row env policy who now) 0 rows)))))"

definition governance_body ::
  "desk_env \<Rightarrow> business_hours_policy option \<Rightarrow> string \<Rightarrow> string option \<Rightarrow> ticket_priority \<Rightarrow> string \<Rightarrow> string
   \<Rightarrow> ticket_row option desk" where
  "governance_body env policy tid own p who now =
     bindE (require_ticket tid) (\<lambda>row.
     bindE (whenE (tk_owner row \<noteq> own) (
       bindE (update_ticket tid (\<lambda>r. r\<lparr>tk_owner := own\<rparr>)) (\<lambda>_.
       audit_event tid who ''ticket.assigned'' now [(''from'', jopt (tk_owner row)), (''to'', jopt own)]))) (\<lambda>_.
     bindE (whenE (tk_priority row \<noteq> p) (
       bindE (lift_res (sla_due_at (en_tz env) policy (JStr (priority_text p))
                (JStr (tk_created_at row)))) (\<lambda>next_due.
       bindE (update_ticket tid (\<lambda>r. r\<lparr>tk_priority := p, tk_sla_due := Some next_due\<rparr>)) (\<lambda>_.
       audit_event tid who ''ticket.priority_changed'' now
         (priority_details row p (JStr (column_str (tk_sla_due row))) next_due))))) (\<lambda>_.
     bindE (whenE (tk_owner row \<noteq> own \<or> tk_priority row \<noteq> p) (touch_ticket tid now)) (\<lambda>_.
     gets (ticket_by_id tid)))))"

definition update_ticket_governance ::
  "desk_env \<Rightarrow> string \<Rightarrow> string option \<Rightarrow> string \<Rightarrow> string \<Rightarrow> ticket_row desk" where
  "update_ticket_governance env ticket_id owner priority actor =
     bindE (lift_res (required_text ''Ticket ID'' 128 (JStr ticket_id))) (\<lambda>tid.
     bindE (lift_res (required_text ''Attore'' 256 (JStr actor))) (\<lambda>who.
     bindE (lift_res (optional_text 256 (jopt owner))) (\<lambda>own.
     bindE (lift_res (normalize_priority (JStr priority))) (\<lambda>p.
     bindE (lift_res (now_text env)) (\<lambda>now.
     bindE (lift_res (current_policy env)) (\<lambda>policy.
     bindE (transaction (governance_body env policy tid own p who now)) (row_result env)))))))"

section \<open>Comments and tasks\<close>

definition add_comment :: "desk_env \<Rightarrow> string \<Rightarrow> string \<Rightarrow> string \<Rightarrow> comment_row desk" where
  "add_comment env ticket_id author body =
     bindE (lift_res (required_text ''Ticket ID'' 128 (JStr ticket_id))) (\<lambda>tid.
     bindE (lift_res (required_text ''Autore'' 256 (JStr author))) (\<lambda>who.
     bindE (lift_res (required_text ''Commento'' 32768 (JStr body))) (\<lambda>text.
     bindE (lift_res (now_text env)) (\<lambda>now.
     let c = \<lparr>cm_id = ''comment:'' @ en_uuid env 0, cm_ticket = tid, cm_author = who, cm_body = text,
              cm_created_at = now\<rparr> in
     transaction (
       bindE (require_ticket tid) (\<lambda>_.
       bindE (insert_comment c) (\<lambda>_.
       bindE (touch_ticket tid now) (\<lambda>_.
       bindE (audit_event tid who ''ticket.comment_added'' now [(''comment_id'', JStr (cm_id c))]) (\<lambda>_.
       ret c)))))))))"

definition add_task ::
  "desk_env \<Rightarrow> string \<Rightarrow> string \<Rightarrow> string \<Rightarrow> string option \<Rightarrow> string option \<Rightarrow> string option \<Rightarrow> task_row desk" where
  "add_task env ticket_id actor title description owner due_at =
     bindE (lift_res (required_text ''Ticket ID'' 128 (JStr ticket_id))) (\<lambda>tid.
     bindE (lift_res (required_text ''Attore'' 256 (JStr actor))) (\<lambda>who.
     bindE (lift_res (required_text ''Titolo task'' 1024 (JStr title))) (\<lambda>title'.
     bindE (lift_res (optional_text 16384 (jopt description))) (\<lambda>description'.
     bindE (lift_res (optional_text 256 (jopt owner))) (\<lambda>own.
     bindE (lift_res (optional_text 64 (jopt due_at))) (\<lambda>due.
     bindE (lift_res (now_text env)) (\<lambda>now.
     transaction (
       bindE (require_ticket tid) (\<lambda>_.
       bindE (gets (max_position tid)) (\<lambda>last_position.
       let t = new_task (en_uuid env 0) tid title' description' (last_position + 1) own due now in
       bindE (insert_task t) (\<lambda>_.
       bindE (touch_ticket tid now) (\<lambda>_.
       bindE (audit_event tid who ''ticket.task_added'' now
                (task_added_details (ta_id t) (last_position + 1) title')) (\<lambda>_.
       ret t)))))))))))))"

definition ensure_tasks :: "desk_env \<Rightarrow> string \<Rightarrow> string \<Rightarrow> json list \<Rightarrow> string option \<Rightarrow> nat desk" where
  "ensure_tasks env ticket_id actor task_docs owner =
     bindE (lift_res (required_text ''Ticket ID'' 128 (JStr ticket_id))) (\<lambda>tid.
     bindE (lift_res (required_text ''Attore'' 256 (JStr actor))) (\<lambda>who.
     bindE (lift_res (optional_text 256 (jopt owner))) (\<lambda>own.
     bindE (lift_res (task_definitions task_docs)) (\<lambda>defs.
     bindE (lift_res (now_text env)) (\<lambda>now.
     transaction (
       bindE (require_ticket tid) (\<lambda>_.
       add_missing_tasks env 0 tid who own now defs)))))))"

definition task_status_body :: "string \<Rightarrow> task_status \<Rightarrow> string \<Rightarrow> string \<Rightarrow> task_row option desk" where
  "task_status_body i target who now =
     bindE (gets (task_by_id i)) (\<lambda>found.
     case found of None \<Rightarrow> raise (TaskNotFound i) | Some row \<Rightarrow>
     bindE (whenE (ta_status row \<noteq> target) (
       bindE (update_task i (\<lambda>r. r\<lparr>ta_status := target,
                ta_completed_at := (if target = Pending then None else Some now), ta_updated_at := now\<rparr>)) (\<lambda>_.
       bindE (touch_ticket (ta_ticket row) now) (\<lambda>_.
       audit_event (ta_ticket row) who ''ticket.task_status_changed'' now
         [(''task_id'', JStr i), (''from'', JStr (task_status_text (ta_status row))),
          (''to'', JStr (task_status_text target))])))) (\<lambda>_.
     gets (task_by_id i)))"

definition update_task_status :: "desk_env \<Rightarrow> string \<Rightarrow> string \<Rightarrow> string \<Rightarrow> task_row desk" where
  "update_task_status env task_id status actor =
     bindE (lift_res (required_text ''Task ID'' 128 (JStr task_id))) (\<lambda>i.
     bindE (lift_res (required_text ''Stato task'' 32 (JStr status))) (\<lambda>word.
     case map_of task_statuses (lower word) of
       None \<Rightarrow> raise (Validation BadTaskStatus)
     | Some target \<Rightarrow>
     bindE (lift_res (required_text ''Attore'' 256 (JStr actor))) (\<lambda>who.
     bindE (lift_res (now_text env)) (\<lambda>now.
     bindE (transaction (task_status_body i target who now)) (\<lambda>updated.
     case updated of None \<Rightarrow> raise AssertionError | Some t \<Rightarrow> ret t)))))"

section \<open>Queries\<close>

definition get_ticket :: "desk_env \<Rightarrow> string \<Rightarrow> ticket_row desk" where
  "get_ticket env ticket_id =
     bindE (lift_res (required_text ''Ticket ID'' 128 (JStr ticket_id))) (\<lambda>tid.
     bindE (gets (ticket_by_id tid)) (\<lambda>row.
     case row of None \<Rightarrow> raise (TicketNotFound ticket_id) | Some r \<Rightarrow> lift_res (ticket_from_row env r)))"

definition get_ticket_for_signal :: "desk_env \<Rightarrow> string \<Rightarrow> ticket_row option desk" where
  "get_ticket_for_signal env signal_id =
     bindE (lift_res (required_text ''Signal ID'' 128 (JStr signal_id))) (\<lambda>sid.
     bindE (gets (ticket_by_signal sid)) (\<lambda>row.
     case row of None \<Rightarrow> ret None
     | Some r \<Rightarrow> bindE (lift_res (ticket_from_row env r)) (\<lambda>t. ret (Some t))))"

definition list_tickets :: "desk_env \<Rightarrow> string option \<Rightarrow> string option \<Rightarrow> int \<Rightarrow> ticket_row list desk" where
  "list_tickets env status owner limit =
     bindE (guardE (1 \<le> limit \<and> limit \<le> 1000) (Validation BadLimit)) (\<lambda>_.
     bindE (lift_res (if status = None \<or> status = Some [] then Inr None
              else bindR (normalize_status (jopt status)) (\<lambda>s. Inr (Some s)))) (\<lambda>st.
     bindE (lift_res (text_filter owner (required_text ''Owner'' 256))) (\<lambda>own.
     bindE (gets (\<lambda>db. take (nat limit) (sort_desc tk_updated_at (sort_key tk_id
       (filter (\<lambda>r. (st = None \<or> st = Some (tk_status r)) \<and> (own = None \<or> own = tk_owner r))
          (tickets db)))))) (\<lambda>rows.
     lift_res (mapR (ticket_from_row env) rows)))))"

section \<open>Migration\<close>

definition blank_column :: "string option \<Rightarrow> bool" where
  "blank_column v = (case v of None \<Rightarrow> True | Some s \<Rightarrow> list_all (\<lambda>c. c = CHR '' '') s)"

definition backfill_sla :: "desk_env \<Rightarrow> unit \<Rightarrow> ticket_row \<Rightarrow> unit desk" where
  "backfill_sla env u row =
     bindE (lift_res (sla_due_at (en_tz env) None (JStr (priority_text (tk_priority row)))
              (JStr (tk_created_at row)))) (\<lambda>due.
     update_ticket (tk_id row) (\<lambda>r. r\<lparr>tk_sla_due := Some due\<rparr>))"

definition migrate_ticket_sla :: "desk_env \<Rightarrow> unit desk" where
  "migrate_ticket_sla env = transaction (
     bindE (gets (\<lambda>db. filter (\<lambda>r. blank_column (tk_sla_due r)) (tickets db))) (\<lambda>rows.
     foldE (backfill_sla env) () rows))"

end
