(* ===== verification/TicketSteps.thy ===== *)
theory TicketSteps
  imports TicketStore
begin

text \<open>
  The abstract desk: the atomic, audited changes of the operational database as an inductive step
  relation, the well-formedness of a database, and the proof that every step keeps it. The theory
  \<open>TicketRefinement\<close> shows that every operation of the store is a run of these steps.
\<close>

section \<open>Stamps and lifecycle\<close>

text \<open>A stored timestamp is the UTC text of a representable instant.\<close>

definition stamp :: "string \<Rightarrow> bool" where
  "stamp s \<longleftrightarrow> (\<exists>t. valid_instant t \<and> s = utc_text t)"

definition lifecycle_ok :: "ticket_row \<Rightarrow> bool" where
  "lifecycle_ok t \<longleftrightarrow>
     (tk_resolved_at t \<noteq> None \<longleftrightarrow> tk_status t \<in> insert Closed decision_statuses)
     \<and> (tk_closed_at t \<noteq> None \<longleftrightarrow> tk_status t = Closed)"

definition moved :: "ticket_status \<Rightarrow> string \<Rightarrow> ticket_row \<Rightarrow> ticket_row \<Rightarrow> ticket_row" where
  "moved target now row r =
     (let reopened = (target = Investigating \<and> tk_status row \<in> insert Closed decision_statuses) in
      r\<lparr>tk_status := target, tk_updated_at := now,
        tk_resolved_at := (if reopened then None else if target \<in> decision_statuses then Some now
                           else tk_resolved_at row),
        tk_closed_at := (if reopened then None else if target = Closed then Some now
                         else tk_closed_at row)\<rparr>)"

lemma moved_lifecycle:
  assumes "lifecycle_ok row" "target \<in> transitions (tk_status row)"
  shows "lifecycle_ok (moved target now row r)"
  using assms
  by (cases "tk_status row"; cases target)
    (simp_all add: lifecycle_ok_def moved_def decision_statuses_def Let_def)

section \<open>Steps\<close>

definition status_details :: "ticket_status \<Rightarrow> ticket_status \<Rightarrow> string option \<Rightarrow> (string \<times> json) list" where
  "status_details current target note =
     [(''from'', JStr (status_text current)), (''to'', JStr (status_text target)), (''note'', jopt note)]"

definition owner_details :: "string option \<Rightarrow> string option \<Rightarrow> (string \<times> json) list" where
  "owner_details previous v = [(''from'', jopt previous), (''to'', jopt v)]"

definition recalculated_details :: "string \<Rightarrow> string \<Rightarrow> ticket_priority \<Rightarrow> (string \<times> json) list" where
  "recalculated_details previous due p =
     [(''from_sla_due_at'', JStr previous), (''to_sla_due_at'', JStr due),
      (''sla_anchor'', JStr ''ticket.created_at''), (''sla_policy_hours'', JInt (sla_policy_hours p))]"

definition task_details :: "string \<Rightarrow> task_status \<Rightarrow> task_status \<Rightarrow> (string \<times> json) list" where
  "task_details i old new =
     [(''task_id'', JStr i), (''from'', JStr (task_status_text old)), (''to'', JStr (task_status_text new))]"

definition deadline :: "tzdb \<Rightarrow> ticket_priority \<Rightarrow> string \<Rightarrow> string \<Rightarrow> bool" where
  "deadline tz p created due \<longleftrightarrow>
     (\<exists>policy. sla_due_at tz policy (JStr (priority_text p)) (JStr created) = Inr due)"

inductive desk_step :: "tzdb \<Rightarrow> ticket_db \<Rightarrow> ticket_db \<Rightarrow> bool" for tz where
  st_open:
    "\<forall>q \<in> set (tickets db). tk_id q \<noteq> tk_id t \<and> tk_signal q \<noteq> tk_signal t \<Longrightarrow>
     signal_by_id (tk_signal t) db \<noteq> None \<Longrightarrow>
     tk_status t = New \<Longrightarrow> tk_resolved_at t = None \<Longrightarrow> tk_closed_at t = None \<Longrightarrow>
     stamp (tk_created_at t) \<Longrightarrow> tk_sla_due t = Some due \<Longrightarrow>
     deadline tz (tk_priority t) (tk_created_at t) due \<Longrightarrow>
     desk_step tz db (add_audit (tk_id t) who ''ticket.created'' now (created_details t)
       (db\<lparr>tickets := tickets db @ [t]\<rparr>))"
| st_status:
    "ticket_by_id tid db = Some row \<Longrightarrow> target \<in> transitions (tk_status row) \<Longrightarrow>
     (target \<in> decision_statuses \<longrightarrow> note \<noteq> None) \<Longrightarrow> stamp now \<Longrightarrow>
     desk_step tz db (add_audit tid who ''ticket.status_changed'' now
       (status_details (tk_status row) target note) (put_ticket tid (moved target now row) db))"
| st_owner:
    "ticket_by_id tid db = Some row \<Longrightarrow>
     desk_step tz db (add_audit tid who ''ticket.assigned'' now (owner_details (tk_owner row) v)
       (put_ticket tid (\<lambda>r. r\<lparr>tk_owner := v\<rparr>) db))"
| st_priority:
    "ticket_by_id tid db = Some row \<Longrightarrow> deadline tz p (tk_created_at row) due \<Longrightarrow>
     previous = JNull \<or> (\<exists>s. previous = JStr s) \<Longrightarrow>
     desk_step tz db (add_audit tid who ''ticket.priority_changed'' now
       (priority_details row p previous due)
       (put_ticket tid (\<lambda>r. r\<lparr>tk_priority := p, tk_sla_due := Some due\<rparr>) db))"
| st_recalculate:
    "ticket_by_id tid db = Some row \<Longrightarrow> tk_status row \<notin> sla_stopped_statuses \<Longrightarrow>
     deadline tz (tk_priority row) (tk_created_at row) due \<Longrightarrow>
     desk_step tz db (add_audit tid who ''ticket.sla_calendar_recalculated'' now
       (recalculated_details previous due (tk_priority row))
       (put_ticket tid (\<lambda>r. r\<lparr>tk_sla_due := Some due\<rparr>) db))"
| st_touch:
    "desk_step tz db (put_ticket tid (\<lambda>r. r\<lparr>tk_updated_at := now\<rparr>) db)"
| st_comment:
    "\<forall>q \<in> set (comments db). cm_id q \<noteq> cm_id c \<Longrightarrow> ticket_by_id (cm_ticket c) db \<noteq> None \<Longrightarrow>
     desk_step tz db (add_audit (cm_ticket c) who ''ticket.comment_added'' now
       [(''comment_id'', JStr (cm_id c))] (db\<lparr>comments := comments db @ [c]\<rparr>))"
| st_task:
    "\<forall>q \<in> set (tasks db). ta_id q \<noteq> ta_id t
        \<and> \<not> (ta_ticket q = ta_ticket t \<and> ta_position q = ta_position t) \<Longrightarrow>
     ticket_by_id (ta_ticket t) db \<noteq> None \<Longrightarrow> 1 \<le> ta_position t \<Longrightarrow>
     ta_status t = Pending \<Longrightarrow> ta_completed_at t = None \<Longrightarrow>
     desk_step tz db (add_audit (ta_ticket t) who ''ticket.task_added'' now
       (task_added_details (ta_id t) (ta_position t) (ta_title t)) (db\<lparr>tasks := tasks db @ [t]\<rparr>))"
| st_task_status:
    "task_by_id i db = Some row \<Longrightarrow> ticket_by_id (ta_ticket row) db \<noteq> None \<Longrightarrow> ta_status row \<noteq> target \<Longrightarrow>
     desk_step tz db (add_audit (ta_ticket row) who ''ticket.task_status_changed'' now
       (task_details i (ta_status row) target)
       (db\<lparr>tasks := map (\<lambda>r. if ta_id r = i then r\<lparr>ta_status := target,
          ta_completed_at := (if target = Pending then None else Some now), ta_updated_at := now\<rparr> else r)
          (tasks db)\<rparr>))"
| st_signal:
    "\<forall>q \<in> set (signals db). sg_id q \<noteq> sg_id n \<and> sg_fingerprint q \<noteq> sg_fingerprint n \<Longrightarrow>
     sg_id n = ''signal:'' @ sg_fingerprint n \<Longrightarrow> is_sha256_hex (sg_fingerprint n) \<Longrightarrow> sg_count n = 1 \<Longrightarrow>
     sg_first_observed n \<le> sg_last_observed n \<Longrightarrow>
     desk_step tz db (db\<lparr>signals := signals db @ [n]\<rparr>)"
| st_occurrence:
    "\<forall>q \<in> set (occurrences db). \<not> (oc_signal q = oc_signal o' \<and> oc_snapshot q = oc_snapshot o'
        \<and> oc_hash q = oc_hash o') \<Longrightarrow>
     signal_by_id (oc_signal o') db \<noteq> None \<Longrightarrow>
     desk_step tz db (db\<lparr>occurrences := occurrences db @ [o'\<lparr>oc_id := next_occurrence db\<rparr>],
       next_occurrence := next_occurrence db + 1\<rparr>)"
| st_refresh:
    "signal_by_fingerprint (sg_fingerprint n) db = Some row \<Longrightarrow> sg_snapshot row \<noteq> sg_snapshot n \<Longrightarrow>
     desk_step tz db (db\<lparr>signals := map (\<lambda>r. if sg_id r = sg_id row then refresh_signal n row changed now r
       else r) (signals db)\<rparr>)"
| st_ingest:
    "\<not> ingested (ig_snapshot g) db \<Longrightarrow> is_sha256_hex (ig_snapshot g) \<Longrightarrow>
     desk_step tz db (db\<lparr>ingests := ingests db @ [g]\<rparr>)"

section \<open>Well-formedness\<close>

text \<open>
  Numbers drawn from a counter: they rise and stay below it. Only a history without pruning leaves
  no gaps (\<open>gap_free\<close>).
\<close>

definition numbered :: "nat \<Rightarrow> nat list \<Rightarrow> bool" where
  "numbered n xs \<longleftrightarrow> sorted_wrt (<) xs \<and> (\<forall>x \<in> set xs. 1 \<le> x \<and> x < n)"

lemma numbered_nil [simp]: "numbered n []"
  by (simp add: numbered_def)

lemma numbered_one [simp]: "numbered n [x] \<longleftrightarrow> 1 \<le> x \<and> x < n"
  by (simp add: numbered_def)

lemma numbered_snoc [simp]: "1 \<le> n \<Longrightarrow> numbered n xs \<Longrightarrow> numbered (Suc n) (xs @ [n])"
  by (auto simp: numbered_def sorted_wrt_append)

lemma numbered_filter: "numbered n (map f xs) \<Longrightarrow> numbered n (map f (filter P xs))"
  by (auto simp: numbered_def sorted_wrt_map intro: sorted_wrt_filter)

definition signals_wf :: "ticket_db \<Rightarrow> bool" where
  "signals_wf db \<longleftrightarrow>
     distinct (map sg_id (signals db)) \<and> distinct (map sg_fingerprint (signals db))
     \<and> (\<forall>r \<in> set (signals db). sg_id r = ''signal:'' @ sg_fingerprint r \<and> is_sha256_hex (sg_fingerprint r)
          \<and> 1 \<le> sg_count r \<and> sg_first_observed r \<le> sg_last_observed r)
     \<and> distinct (map (\<lambda>q. (oc_signal q, oc_snapshot q, oc_hash q)) (occurrences db))
     \<and> numbered (next_occurrence db) (map oc_id (occurrences db)) \<and> 1 \<le> next_occurrence db
     \<and> oc_signal ` set (occurrences db) \<subseteq> sg_id ` set (signals db)
     \<and> distinct (map ig_snapshot (ingests db))"

definition tickets_wf :: "tzdb \<Rightarrow> ticket_db \<Rightarrow> bool" where
  "tickets_wf tz db \<longleftrightarrow>
     distinct (map tk_id (tickets db)) \<and> distinct (map tk_signal (tickets db))
     \<and> tk_signal ` set (tickets db) \<subseteq> sg_id ` set (signals db)
     \<and> (\<forall>t \<in> set (tickets db). lifecycle_ok t \<and> stamp (tk_created_at t)
          \<and> (\<exists>due. tk_sla_due t = Some due \<and> deadline tz (tk_priority t) (tk_created_at t) due))"

definition children_wf :: "ticket_db \<Rightarrow> bool" where
  "children_wf db \<longleftrightarrow>
     distinct (map cm_id (comments db)) \<and> distinct (map ta_id (tasks db))
     \<and> distinct (map (\<lambda>r. (ta_ticket r, ta_position r)) (tasks db))
     \<and> cm_ticket ` set (comments db) \<union> ta_ticket ` set (tasks db) \<union> au_ticket ` set (audit db)
         \<subseteq> tk_id ` set (tickets db)
     \<and> (\<forall>r \<in> set (tasks db). 1 \<le> ta_position r \<and> (ta_completed_at r = None \<longleftrightarrow> ta_status r = Pending))
     \<and> numbered (next_sequence db) (map au_sequence (audit db)) \<and> 1 \<le> next_sequence db"

definition desk_wf :: "tzdb \<Rightarrow> ticket_db \<Rightarrow> bool" where
  "desk_wf tz db \<longleftrightarrow> signals_wf db \<and> tickets_wf tz db \<and> children_wf db"

lemma empty_db_wf: "desk_wf tz empty_db"
  by (simp add: desk_wf_def signals_wf_def tickets_wf_def children_wf_def empty_db_def)


section \<open>Steps keep well-formedness\<close>

lemma add_audit_fields [simp]:
  "tickets (add_audit i a b c d db) = tickets db" "signals (add_audit i a b c d db) = signals db"
  "occurrences (add_audit i a b c d db) = occurrences db" "ingests (add_audit i a b c d db) = ingests db"
  "comments (add_audit i a b c d db) = comments db" "tasks (add_audit i a b c d db) = tasks db"
  "next_occurrence (add_audit i a b c d db) = next_occurrence db"
  "next_sequence (add_audit i a b c d db) = Suc (next_sequence db)"
  "map au_sequence (audit (add_audit i a b c d db)) = map au_sequence (audit db) @ [next_sequence db]"
  "au_ticket ` set (audit (add_audit i a b c d db)) = insert i (au_ticket ` set (audit db))"
  by (simp_all add: add_audit_def)

lemma put_ticket_fields [simp]:
  "signals (put_ticket i f db) = signals db" "occurrences (put_ticket i f db) = occurrences db"
  "ingests (put_ticket i f db) = ingests db" "comments (put_ticket i f db) = comments db"
  "tasks (put_ticket i f db) = tasks db" "audit (put_ticket i f db) = audit db"
  "next_occurrence (put_ticket i f db) = next_occurrence db"
  "next_sequence (put_ticket i f db) = next_sequence db"
  by (simp_all add: put_ticket_def)

lemma put_ticket_ids [simp]:
  "(\<And>r. tk_id (f r) = tk_id r) \<Longrightarrow> map tk_id (tickets (put_ticket i f db)) = map tk_id (tickets db)"
  by (simp add: put_ticket_def)

lemma put_ticket_id_set [simp]:
  "(\<And>r. tk_id (f r) = tk_id r) \<Longrightarrow> tk_id ` set (tickets (put_ticket i f db)) = tk_id ` set (tickets db)"
  using put_ticket_ids [of f i db] by (metis list.set_map)

lemma moved_keys [simp]:
  "tk_id (moved s now row r) = tk_id r" "tk_signal (moved s now row r) = tk_signal r"
  "tk_created_at (moved s now row r) = tk_created_at r" "tk_sla_due (moved s now row r) = tk_sla_due r"
  "tk_priority (moved s now row r) = tk_priority r" "tk_status (moved s now row r) = s"
  "tk_owner (moved s now row r) = tk_owner r"
  by (simp_all add: moved_def Let_def)

lemma refresh_keys [simp]:
  "sg_id (refresh_signal n e b now r) = sg_id r"
  "sg_fingerprint (refresh_signal n e b now r) = sg_fingerprint r"
  "sg_count (refresh_signal n e b now r) = sg_count r + 1"
  by (simp_all add: refresh_signal_def)

lemma found:
  "ticket_by_id i db = Some row \<Longrightarrow> row \<in> set (tickets db) \<and> tk_id row = i"
  "ticket_by_signal g db = Some row \<Longrightarrow> row \<in> set (tickets db) \<and> tk_signal row = g"
  "signal_by_id i db = Some sg \<Longrightarrow> sg \<in> set (signals db) \<and> sg_id sg = i"
  "signal_by_fingerprint f db = Some sg \<Longrightarrow> sg \<in> set (signals db) \<and> sg_fingerprint sg = f"
  "task_by_id i db = Some tk \<Longrightarrow> tk \<in> set (tasks db) \<and> ta_id tk = i"
  by (auto simp: ticket_by_id_def ticket_by_signal_def signal_by_id_def signal_by_fingerprint_def
      task_by_id_def dest: find_Some_set)

lemma not_found:
  "ticket_by_id i db = None \<longleftrightarrow> i \<notin> tk_id ` set (tickets db)"
  "ticket_by_signal g db = None \<longleftrightarrow> g \<notin> tk_signal ` set (tickets db)"
  "signal_by_id i db = None \<longleftrightarrow> i \<notin> sg_id ` set (signals db)"
  by (auto simp: ticket_by_id_def ticket_by_signal_def signal_by_id_def find_None_iff)

text \<open>In a well-formed database the row that a key finds is the only one with that key.\<close>

lemma the_ticket:
  "tickets_wf tz db \<Longrightarrow> ticket_by_id i db = Some row \<Longrightarrow> r \<in> set (tickets db) \<Longrightarrow> tk_id r = i \<Longrightarrow> r = row"
  by (metis find_unique_key option.inject ticket_by_id_def tickets_wf_def)

lemma the_ticket_found: "tickets_wf tz db \<Longrightarrow> r \<in> set (tickets db) \<Longrightarrow> ticket_by_id (tk_id r) db = Some r"
  by (auto simp: ticket_by_id_def tickets_wf_def intro: find_unique_key)

lemma the_signal:
  "signals_wf db \<Longrightarrow> r \<in> set (signals db) \<Longrightarrow> r' \<in> set (signals db) \<Longrightarrow> sg_id r = sg_id r' \<Longrightarrow> r = r'"
  by (auto simp: signals_wf_def distinct_map inj_on_def)

lemma put_ticket_wf:
  assumes "tickets_wf tz db"
    and "\<And>r. tk_id (f r) = tk_id r" "\<And>r. tk_signal (f r) = tk_signal r"
      "\<And>r. tk_created_at (f r) = tk_created_at r"
    and "\<And>r. r \<in> set (tickets db) \<Longrightarrow> tk_id r = i \<Longrightarrow> lifecycle_ok (f r)
      \<and> (\<exists>due. tk_sla_due (f r) = Some due \<and> deadline tz (tk_priority (f r)) (tk_created_at r) due)"
  shows "tickets_wf tz (put_ticket i f db)"
proof -
  have m: "map tk_id (tickets (put_ticket i f db)) = map tk_id (tickets db)"
    "map tk_signal (tickets (put_ticket i f db)) = map tk_signal (tickets db)"
    using assms(2,3) by (simp_all add: put_ticket_def)
  then have "tk_signal ` set (tickets (put_ticket i f db)) = tk_signal ` set (tickets db)"
    by (metis list.set_map)
  moreover have "\<forall>t \<in> set (tickets (put_ticket i f db)). lifecycle_ok t \<and> stamp (tk_created_at t)
      \<and> (\<exists>due. tk_sla_due t = Some due \<and> deadline tz (tk_priority t) (tk_created_at t) due)"
    using assms(1,4,5) by (auto simp: put_ticket_def tickets_wf_def)
  ultimately show ?thesis using assms(1) m by (simp add: tickets_wf_def)
qed

lemma tickets_wf_cong:
  "tickets db' = tickets db \<Longrightarrow> sg_id ` set (signals db') = sg_id ` set (signals db) \<Longrightarrow>
   tickets_wf tz db' = tickets_wf tz db"
  by (simp add: tickets_wf_def)

lemma step_tickets_wf:
  assumes "desk_step tz db db'" "tickets_wf tz db"
  shows "tickets_wf tz db'"
  using assms
proof cases
  case (st_open t due who now)
  then show ?thesis using assms(2)
    by (auto simp: tickets_wf_def lifecycle_ok_def decision_statuses_def not_found(3))
next
  case (st_status tid row target remark now who)
  have "tickets_wf tz (put_ticket tid (moved target now row) db)"
    using assms(2) found(1) [OF st_status(2)] the_ticket [OF assms(2) st_status(2)] st_status(3)
    by (intro put_ticket_wf) (auto intro!: moved_lifecycle simp: tickets_wf_def)
  then show ?thesis unfolding st_status(1) by (simp add: tickets_wf_def)
next
  case (st_owner tid row who now v)
  have "tickets_wf tz (put_ticket tid (\<lambda>r. r\<lparr>tk_owner := v\<rparr>) db)"
    using assms(2) by (intro put_ticket_wf) (auto simp: tickets_wf_def lifecycle_ok_def)
  then show ?thesis unfolding st_owner(1) by (simp add: tickets_wf_def)
next
  case (st_priority tid row p due previous who now)
  have "tickets_wf tz (put_ticket tid (\<lambda>r. r\<lparr>tk_priority := p, tk_sla_due := Some due\<rparr>) db)"
    using assms(2) the_ticket [OF assms(2) st_priority(2)] st_priority(3)
    by (intro put_ticket_wf) (auto simp: tickets_wf_def lifecycle_ok_def)
  then show ?thesis unfolding st_priority(1) by (simp add: tickets_wf_def)
next
  case (st_recalculate tid row due who now previous)
  have "tickets_wf tz (put_ticket tid (\<lambda>r. r\<lparr>tk_sla_due := Some due\<rparr>) db)"
    using assms(2) the_ticket [OF assms(2) st_recalculate(2)] st_recalculate(4)
    by (intro put_ticket_wf) (auto simp: tickets_wf_def lifecycle_ok_def)
  then show ?thesis unfolding st_recalculate(1) by (simp add: tickets_wf_def)
next
  case (st_touch tid now)
  show ?thesis unfolding st_touch(1)
    using assms(2) by (intro put_ticket_wf) (auto simp: tickets_wf_def lifecycle_ok_def)
next
  case (st_refresh n row changed now)
  have "sg_id ` set (map (\<lambda>r. if sg_id r = sg_id row then refresh_signal n row changed now r else r) (signals db))
      = sg_id ` set (signals db)"
    by (rule image_map_if) simp
  then show ?thesis unfolding st_refresh(1) using assms(2) by (simp add: tickets_wf_def del: set_map)
qed (auto simp: tickets_wf_def)

lemma step_children_wf:
  assumes "desk_step tz db db'" "children_wf db"
  shows "children_wf db'"
  using assms
proof cases
  case (st_comment c who now)
  then show ?thesis using assms(2) by (auto simp: children_wf_def not_found)
next
  case (st_task t who now)
  then show ?thesis using assms(2) by (auto simp: children_wf_def not_found)
next
  case (st_task_status i row target who now)
  let ?f = "\<lambda>r. r\<lparr>ta_status := target, ta_completed_at := (if target = Pending then None else Some now),
    ta_updated_at := now\<rparr>"
  let ?ts = "map (\<lambda>r. if ta_id r = i then ?f r else r) (tasks db)"
  have keys: "map ta_id ?ts = map ta_id (tasks db)"
    "map (\<lambda>r. (ta_ticket r, ta_position r)) ?ts = map (\<lambda>r. (ta_ticket r, ta_position r)) (tasks db)"
    "ta_ticket ` set ?ts = ta_ticket ` set (tasks db)"
    by (simp, simp, rule image_map_if, simp)
  have "\<forall>r \<in> set ?ts. 1 \<le> ta_position r \<and> (ta_completed_at r = None \<longleftrightarrow> ta_status r = Pending)"
    using assms(2) by (auto simp: children_wf_def)
  moreover have "ta_ticket row \<in> tk_id ` set (tickets db)" using st_task_status(3) by (simp add: not_found)
  ultimately show ?thesis unfolding st_task_status(1) using assms(2)
    by (simp add: children_wf_def keys del: map_map set_map)
qed (auto simp: children_wf_def not_found dest!: found(1))


lemma signals_wf_replace:
  assumes "signals_wf db" and "map sg_id ss = map sg_id (signals db)"
    and "map sg_fingerprint ss = map sg_fingerprint (signals db)"
    and "\<forall>r \<in> set ss. sg_id r = ''signal:'' @ sg_fingerprint r \<and> is_sha256_hex (sg_fingerprint r)
      \<and> 1 \<le> sg_count r \<and> sg_first_observed r \<le> sg_last_observed r"
  shows "signals_wf (db\<lparr>signals := ss\<rparr>)"
proof -
  have "sg_id ` set ss = sg_id ` set (signals db)" using assms(2) by (metis list.set_map)
  then show ?thesis using assms unfolding signals_wf_def ticket_db.simps by (elim conjE, intro conjI) auto
qed

lemma step_signals_wf:
  assumes "desk_step tz db db'" "signals_wf db"
  shows "signals_wf db'"
  using assms
proof cases
  case (st_signal n)
  then show ?thesis using assms(2) by (auto simp: signals_wf_def)
next
  case (st_occurrence o')
  then show ?thesis using assms(2) by (auto simp: signals_wf_def not_found)
next
  case (st_refresh n row changed now)
  let ?f = "refresh_signal n row changed now"
  let ?ss = "map (\<lambda>r. if sg_id r = sg_id row then ?f r else r) (signals db)"
  have keys: "map sg_id ?ss = map sg_id (signals db)" "map sg_fingerprint ?ss = map sg_fingerprint (signals db)"
    by simp_all
  have row: "row \<in> set (signals db)" using found(4) [OF st_refresh(2)] by simp
  then have "sg_first_observed row \<le> sg_last_observed row" using assms(2) by (simp add: signals_wf_def)
  then have "sg_first_observed (?f r) \<le> sg_last_observed (?f r)" for r
    by (simp add: refresh_signal_def min_le_iff_disj le_max_iff_disj)
  then have "\<forall>r \<in> set ?ss. sg_id r = ''signal:'' @ sg_fingerprint r \<and> is_sha256_hex (sg_fingerprint r)
      \<and> 1 \<le> sg_count r \<and> sg_first_observed r \<le> sg_last_observed r"
    using assms(2) by (auto simp: signals_wf_def)
  then show ?thesis unfolding st_refresh(1) by (rule signals_wf_replace [OF assms(2) keys])
next
  case (st_ingest g)
  then show ?thesis using assms(2) by (auto simp: signals_wf_def ingested_def list_ex_iff)
qed (auto simp: signals_wf_def)

lemma step_wf: "desk_step tz db db' \<Longrightarrow> desk_wf tz db \<Longrightarrow> desk_wf tz db'"
  by (simp add: desk_wf_def step_signals_wf step_tickets_wf step_children_wf)

lemma steps_wf: "(desk_step tz)\<^sup>*\<^sup>* db db' \<Longrightarrow> desk_wf tz db \<Longrightarrow> desk_wf tz db'"
  by (induction rule: rtranclp_induct) (auto intro: step_wf)

text \<open>No step leaves a gap in the numbers it draws.\<close>

definition gap_free :: "ticket_db \<Rightarrow> bool" where
  "gap_free db \<longleftrightarrow> 1 \<le> next_occurrence db \<and> map oc_id (occurrences db) = [1..<next_occurrence db]
     \<and> 1 \<le> next_sequence db \<and> map au_sequence (audit db) = [1..<next_sequence db]"

lemma step_gap_free: "desk_step tz db db' \<Longrightarrow> gap_free db \<Longrightarrow> gap_free db'"
  by (induction rule: desk_step.induct) (auto simp: gap_free_def)

lemma steps_gap_free: "(desk_step tz)\<^sup>*\<^sup>* db db' \<Longrightarrow> gap_free db \<Longrightarrow> gap_free db'"
  by (induction rule: rtranclp_induct) (auto intro: step_gap_free)

lemma empty_gap_free: "gap_free empty_db"
  by (simp add: gap_free_def empty_db_def)

section \<open>What steps never undo\<close>

definition may_follow :: "ticket_status \<Rightarrow> ticket_status \<Rightarrow> bool" where
  "may_follow = (\<lambda>a b. b \<in> transitions a)\<^sup>*\<^sup>*"

definition ticket_continues :: "ticket_row \<Rightarrow> ticket_row \<Rightarrow> bool" where
  "ticket_continues t t' \<longleftrightarrow> tk_id t' = tk_id t \<and> tk_signal t' = tk_signal t
     \<and> tk_created_at t' = tk_created_at t \<and> tk_created_by t' = tk_created_by t
     \<and> tk_title t' = tk_title t \<and> tk_description t' = tk_description t
     \<and> may_follow (tk_status t) (tk_status t')"

definition desk_extends :: "ticket_db \<Rightarrow> ticket_db \<Rightarrow> bool" where
  "desk_extends db db' \<longleftrightarrow>
     prefix (audit db) (audit db') \<and> prefix (occurrences db) (occurrences db')
     \<and> prefix (ingests db) (ingests db') \<and> prefix (comments db) (comments db')
     \<and> (\<forall>t \<in> set (tickets db). \<exists>t' \<in> set (tickets db'). ticket_continues t t')
     \<and> (\<forall>r \<in> set (signals db). \<exists>r' \<in> set (signals db'). sg_id r' = sg_id r \<and> sg_count r \<le> sg_count r')"

lemma continues_refl: "ticket_continues t t"
  by (simp add: ticket_continues_def may_follow_def)

lemma continues_trans: "ticket_continues t u \<Longrightarrow> ticket_continues u v \<Longrightarrow> ticket_continues t v"
  by (auto simp: ticket_continues_def may_follow_def)

lemma continues_updates [simp]:
  "ticket_continues r (r\<lparr>tk_owner := v\<rparr>)" "ticket_continues r (r\<lparr>tk_updated_at := now\<rparr>)"
  "ticket_continues r (r\<lparr>tk_sla_due := due\<rparr>)"
  "ticket_continues r (r\<lparr>tk_priority := p, tk_sla_due := due\<rparr>)"
  by (simp_all add: ticket_continues_def may_follow_def)

lemma continues_same: "t \<in> T \<Longrightarrow> \<exists>t' \<in> T. ticket_continues t t'"
  using continues_refl by blast

lemma desk_extends_refl: "desk_extends db db"
  by (auto simp: desk_extends_def continues_same)

lemma desk_extends_trans:
  assumes "desk_extends a b" "desk_extends b c"
  shows "desk_extends a c"
proof -
  have "\<exists>t' \<in> set (tickets c). ticket_continues t t'" if "t \<in> set (tickets a)" for t
    using assms that unfolding desk_extends_def by (meson continues_trans)
  moreover have "\<exists>r' \<in> set (signals c). sg_id r' = sg_id r \<and> sg_count r \<le> sg_count r'"
    if r: "r \<in> set (signals a)" for r
  proof -
    obtain r1 where "r1 \<in> set (signals b)" "sg_id r1 = sg_id r" "sg_count r \<le> sg_count r1"
      using assms(1) r unfolding desk_extends_def by blast
    moreover from this obtain r2 where "r2 \<in> set (signals c)" "sg_id r2 = sg_id r1" "sg_count r1 \<le> sg_count r2"
      using assms(2) unfolding desk_extends_def by blast
    ultimately show ?thesis by (auto intro!: bexI [of _ r2])
  qed
  ultimately show ?thesis using assms unfolding desk_extends_def by (auto intro: prefix_order.trans)
qed

lemma put_ticket_continues:
  assumes "\<And>r. r \<in> set (tickets db) \<Longrightarrow> tk_id r = i \<Longrightarrow> ticket_continues r (f r)" "t \<in> set (tickets db)"
  shows "\<exists>t' \<in> set (tickets (put_ticket i f db)). ticket_continues t t'"
proof
  show "ticket_continues t (if tk_id t = i then f t else t)" using assms by (simp add: continues_refl)
qed (use assms(2) in \<open>simp add: put_ticket_def\<close>)

lemma audit_prefix [simp]: "prefix (audit db) (audit (add_audit i a b c d db'))  \<longleftrightarrow> prefix (audit db) (audit db')
    \<or> audit db = audit (add_audit i a b c d db')"
  by (auto simp: add_audit_def)

lemma step_extends:
  assumes "desk_step tz db db'" "desk_wf tz db"
  shows "desk_extends db db'"
  using assms
proof cases
  case (st_status tid row target remark now who)
  have "ticket_continues r (moved target now row r)" if "r \<in> set (tickets db)" "tk_id r = tid" for r
    using that st_status(3) the_ticket [OF _ st_status(2) that] assms(2)
    by (auto simp: desk_wf_def ticket_continues_def may_follow_def moved_def Let_def)
  from put_ticket_continues [OF this] show ?thesis
    unfolding st_status(1) by (auto simp: desk_extends_def)
next
  case (st_task_status i row target who now)
  show ?thesis unfolding st_task_status(1) by (auto simp: desk_extends_def continues_same)
next
  case (st_refresh n row changed now)
  have "\<exists>r' \<in> set (map (\<lambda>r. if sg_id r = sg_id row then refresh_signal n row changed now r else r) (signals db)).
      sg_id r' = sg_id r \<and> sg_count r \<le> sg_count r'" if r: "r \<in> set (signals db)" for r
  proof
    show "(if sg_id r = sg_id row then refresh_signal n row changed now r else r)
        \<in> set (map (\<lambda>r. if sg_id r = sg_id row then refresh_signal n row changed now r else r) (signals db))"
      using r by simp
  qed simp
  then show ?thesis unfolding st_refresh(1) by (auto simp: desk_extends_def continues_same)
qed (auto simp: desk_extends_def continues_same intro!: put_ticket_continues)

lemma steps_extend: "(desk_step tz)\<^sup>*\<^sup>* db db' \<Longrightarrow> desk_wf tz db \<Longrightarrow> desk_extends db db'"
proof (induction rule: rtranclp_induct)
  case (step u v)
  then show ?case using step_extends [OF step(2)] steps_wf [OF step(1)] desk_extends_trans by blast
qed (rule desk_extends_refl)

end
