(* ===== verification/AuditTrail.thy ===== *)
theory AuditTrail
  imports TicketSteps
begin

text \<open>
  The audit trail as an event log: \<open>replay\<close> rebuilds the governed part of a ticket (status, priority,
  owner, deadline) from its \<open>audit_events\<close> rows alone, reading the stored JSON details back. Every
  step of the desk keeps the rebuilt view equal to the ticket row.
\<close>

record desk_view =
  vw_status :: ticket_status
  vw_priority :: ticket_priority
  vw_owner :: "string option"
  vw_sla_due :: "string option"

definition view_of :: "ticket_row \<Rightarrow> desk_view" where
  "view_of t = \<lparr>vw_status = tk_status t, vw_priority = tk_priority t, vw_owner = tk_owner t,
     vw_sla_due = tk_sla_due t\<rparr>"

definition word_in :: "(string \<times> 'a) list \<Rightarrow> json \<Rightarrow> 'a option" where
  "word_in table v = Option.bind (text_opt v) (map_of table)"

definition apply_details :: "string \<Rightarrow> (string \<Rightarrow> json) \<Rightarrow> desk_view option \<Rightarrow> desk_view option" where
  "apply_details action get v =
     (if action = ''ticket.created'' then
        map_option (\<lambda>p. \<lparr>vw_status = New, vw_priority = p, vw_owner = text_opt (get ''owner''),
          vw_sla_due = text_opt (get ''sla_due_at'')\<rparr>) (word_in ticket_priorities (get ''priority''))
      else case v of None \<Rightarrow> None | Some w \<Rightarrow>
        if action = ''ticket.status_changed'' then
          map_option (\<lambda>s. w\<lparr>vw_status := s\<rparr>) (word_in ticket_statuses (get ''to''))
        else if action = ''ticket.assigned'' then Some (w\<lparr>vw_owner := text_opt (get ''to'')\<rparr>)
        else if action = ''ticket.priority_changed'' then
          map_option (\<lambda>p. w\<lparr>vw_priority := p, vw_sla_due := text_opt (get ''to_sla_due_at'')\<rparr>)
            (word_in ticket_priorities (get ''to''))
        else if action = ''ticket.sla_calendar_recalculated'' then
          Some (w\<lparr>vw_sla_due := text_opt (get ''to_sla_due_at'')\<rparr>)
        else Some w)"

definition apply_event :: "string \<Rightarrow> desk_view option \<Rightarrow> audit_row \<Rightarrow> desk_view option" where
  "apply_event tid v e =
     (if au_ticket e = tid then apply_details (au_action e) (stored_get (au_details_json e)) v else v)"

definition replay :: "string \<Rightarrow> audit_row list \<Rightarrow> desk_view option" where
  "replay tid = foldl (apply_event tid) None"

definition audit_explains :: "ticket_db \<Rightarrow> bool" where
  "audit_explains db \<longleftrightarrow> (\<forall>t \<in> set (tickets db). replay (tk_id t) (audit db) = Some (view_of t))"

definition doc_ok :: "(string \<times> json) list \<Rightarrow> bool" where
  "doc_ok d \<longleftrightarrow> json_ok (JObj d)"

lemma stored_details: "doc_ok d \<Longrightarrow> stored_get (dumps False (JObj d)) = (\<lambda>k. canon (get_item d k))"
  unfolding doc_ok_def by (rule ext) (rule stored_get_dumps)

lemma replay_add_audit:
  assumes "doc_ok d"
  shows "replay tid (audit (add_audit i who action now d db)) =
    (if i = tid then apply_details action (\<lambda>k. canon (get_item d k)) (replay tid (audit db))
     else replay tid (audit db))"
  by (simp add: replay_def add_audit_def apply_event_def stored_details [OF assms])

lemma details_ok [simp]:
  "doc_ok (created_details t)" "doc_ok (status_details s s' r)" "doc_ok (owner_details a b)"
  "p' = JNull \<or> (\<exists>s. p' = JStr s) \<Longrightarrow> doc_ok (priority_details row p p' due)"
  "doc_ok (recalculated_details x due p)" "doc_ok (task_details i a' b')"
  "doc_ok (task_added_details i n title)" "doc_ok [(k, JStr v)]"
  by (auto simp: doc_ok_def created_details_def status_details_def owner_details_def priority_details_def
      recalculated_details_def task_details_def task_added_details_def)

lemma word_in_simps [simp]:
  "word_in ticket_statuses (JStr (status_text s)) = Some s"
  "word_in ticket_priorities (JStr (priority_text p)) = Some p"
  by (simp_all add: word_in_def)

lemma apply_created:
  "tk_status t = New \<Longrightarrow>
   apply_details ''ticket.created'' (\<lambda>k. canon (get_item (created_details t) k)) v = Some (view_of t)"
  by (simp add: apply_details_def created_details_def get_item_def view_of_def)

lemma apply_status:
  "apply_details ''ticket.status_changed'' (\<lambda>k. canon (get_item (status_details s s' r) k)) (Some w)
    = Some (w\<lparr>vw_status := s'\<rparr>)"
  by (simp add: apply_details_def status_details_def get_item_def)

lemma apply_owner:
  "apply_details ''ticket.assigned'' (\<lambda>k. canon (get_item (owner_details a b) k)) (Some w)
    = Some (w\<lparr>vw_owner := b\<rparr>)"
  by (simp add: apply_details_def owner_details_def get_item_def)

lemma apply_priority:
  "apply_details ''ticket.priority_changed'' (\<lambda>k. canon (get_item (priority_details row p x due) k)) (Some w)
    = Some (w\<lparr>vw_priority := p, vw_sla_due := Some due\<rparr>)"
  by (simp add: apply_details_def priority_details_def get_item_def)

lemma apply_recalculated:
  "apply_details ''ticket.sla_calendar_recalculated''
     (\<lambda>k. canon (get_item (recalculated_details x due p) k)) (Some w) = Some (w\<lparr>vw_sla_due := Some due\<rparr>)"
  by (simp add: apply_details_def recalculated_details_def get_item_def)

lemma apply_other:
  "action \<in> {''ticket.comment_added'', ''ticket.task_added'', ''ticket.task_status_changed''} \<Longrightarrow>
   apply_details action get (Some w) = Some w"
  by (auto simp: apply_details_def)

lemma view_of_moved [simp]: "view_of (moved s now row r) = (view_of r)\<lparr>vw_status := s\<rparr>"
  by (simp add: view_of_def)

lemma explains_update:
  assumes "audit_explains db" "\<And>r. tk_id (f r) = tk_id r"
    and "\<And>r. r \<in> set (tickets db) \<Longrightarrow> tk_id r = i \<Longrightarrow>
      apply_details action (\<lambda>k. canon (get_item d k)) (Some (view_of r)) = Some (view_of (f r))"
    and "doc_ok d"
  shows "audit_explains (add_audit i who action now d (put_ticket i f db))"
  unfolding audit_explains_def
proof
  fix t assume "t \<in> set (tickets (add_audit i who action now d (put_ticket i f db)))"
  then obtain r where r: "r \<in> set (tickets db)" and t: "t = (if tk_id r = i then f r else r)"
    by (auto simp: put_ticket_def)
  have "replay (tk_id r) (audit db) = Some (view_of r)"
    using assms(1) r by (simp add: audit_explains_def)
  then show "replay (tk_id t) (audit (add_audit i who action now d (put_ticket i f db))) = Some (view_of t)"
    using assms(3) [OF r] unfolding replay_add_audit [OF assms(4)] put_ticket_fields
    by (cases "tk_id r = i") (simp_all add: t assms(2))
qed

lemma explains_no_ticket_change:
  assumes "audit_explains db" "tickets db' = tickets db" "audit db' = audit db"
    and "action \<in> {''ticket.comment_added'', ''ticket.task_added'', ''ticket.task_status_changed''}"
    and "doc_ok d"
  shows "audit_explains (add_audit i who action now d db')"
proof -
  have "replay tid (audit (add_audit i who action now d db')) = Some v"
    if "replay tid (audit db) = Some v" for tid v
    unfolding replay_add_audit [OF assms(5)] assms(3) that apply_other [OF assms(4)] by simp
  then show ?thesis using assms(1,2) unfolding audit_explains_def by simp
qed

lemma step_audit_explains:
  assumes "desk_step tz db db'" "audit_explains db"
  shows "audit_explains db'"
  using assms
proof cases
  case (st_open t due who now)
  then show ?thesis using assms(2)
    by (auto simp: audit_explains_def replay_add_audit apply_created)
next
  case (st_status tid row target remark now who)
  show ?thesis unfolding st_status(1)
    by (rule explains_update [OF assms(2)]) (simp_all add: apply_status)
next
  case (st_owner tid row who now v)
  show ?thesis unfolding st_owner(1)
    by (rule explains_update [OF assms(2)]) (simp_all add: apply_owner view_of_def)
next
  case (st_priority tid row p due previous who now)
  show ?thesis unfolding st_priority(1)
    by (rule explains_update [OF assms(2)])
      (use st_priority(4) in \<open>simp_all add: apply_priority view_of_def\<close>)
next
  case (st_recalculate tid row due who now previous)
  show ?thesis unfolding st_recalculate(1)
    by (rule explains_update [OF assms(2)]) (simp_all add: apply_recalculated view_of_def)
next
  case (st_touch tid now)
  then show ?thesis using assms(2) by (auto simp: audit_explains_def put_ticket_def view_of_def)
next
  case (st_comment c who now)
  show ?thesis unfolding st_comment(1)
    by (rule explains_no_ticket_change [OF assms(2)]) (simp_all)
next
  case (st_task t who now)
  show ?thesis unfolding st_task(1)
    by (rule explains_no_ticket_change [OF assms(2)]) (simp_all)
next
  case (st_task_status i row target who now)
  show ?thesis unfolding st_task_status(1)
    by (rule explains_no_ticket_change [OF assms(2)]) (simp_all)
qed (simp_all add: audit_explains_def)

lemma steps_audit_explain: "(desk_step tz)\<^sup>*\<^sup>* db db' \<Longrightarrow> audit_explains db \<Longrightarrow> audit_explains db'"
  by (induction rule: rtranclp_induct) (auto intro: step_audit_explains)

end
