(* ===== verification/TicketRefinement.thy ===== *)
theory TicketRefinement
  imports AuditTrail
begin

text \<open>
  The refinement: from a well-formed database every operation of the store, whether it returns or
  raises, is a finite run of desk steps (none, when it raises). The interface of the rest of the
  development to the store is the locale \<open>desk_operation\<close> below: what any operation with that
  property guarantees, proved once and interpreted on every writer.
\<close>

definition desk_run :: "tzdb \<Rightarrow> ticket_db \<Rightarrow> ticket_db \<Rightarrow> bool" where
  "desk_run tz s t \<longleftrightarrow> (desk_wf tz s \<longrightarrow> (desk_step tz)\<^sup>*\<^sup>* s t)"

lemma desk_run_order: "state_order (desk_run tz)"
  by unfold_locales (auto simp: desk_run_def dest: steps_wf)

interpretation run: state_order "desk_run tz" for tz
  by (rule desk_run_order)

lemma desk_run_step: "(desk_wf tz s \<Longrightarrow> desk_step tz s t) \<Longrightarrow> desk_run tz s t"
  by (auto simp: desk_run_def)

section \<open>Statements that succeed\<close>

lemma require_Inr [simp]:
  "require_ticket i s = (Inr row, t) \<longleftrightarrow> ticket_by_id i s = Some row \<and> t = s"
  "require_signal i s = (Inr sg, t) \<longleftrightarrow> signal_by_id i s = Some sg \<and> t = s"
  by (auto simp: require_ticket_def require_signal_def act_Inr split: option.splits)

lemma statement_Inr:
  "update_ticket i f s = (Inr u, t) \<longleftrightarrow> t = put_ticket i f s"
  "touch_ticket i now s = (Inr u, t) \<longleftrightarrow> t = put_ticket i (\<lambda>r. r\<lparr>tk_updated_at := now\<rparr>) s"
  "audit_event i who action now d s = (Inr u, t)
    \<longleftrightarrow> ticket_by_id i s \<noteq> None \<and> t = add_audit i who action now d s"
  "insert_ticket tk s = (Inr u, t) \<longleftrightarrow>
    (\<forall>q \<in> set (tickets s). tk_id q \<noteq> tk_id tk \<and> tk_signal q \<noteq> tk_signal tk)
    \<and> signal_by_id (tk_signal tk) s \<noteq> None \<and> t = s\<lparr>tickets := tickets s @ [tk]\<rparr>"
  "insert_comment c s = (Inr u, t) \<longleftrightarrow> (\<forall>q \<in> set (comments s). cm_id q \<noteq> cm_id c)
    \<and> ticket_by_id (cm_ticket c) s \<noteq> None \<and> t = s\<lparr>comments := comments s @ [c]\<rparr>"
  "insert_task ta s = (Inr u, t) \<longleftrightarrow>
    (\<forall>q \<in> set (tasks s). ta_id q \<noteq> ta_id ta \<and> \<not> (ta_ticket q = ta_ticket ta \<and> ta_position q = ta_position ta))
    \<and> ticket_by_id (ta_ticket ta) s \<noteq> None \<and> 1 \<le> ta_position ta \<and> t = s\<lparr>tasks := tasks s @ [ta]\<rparr>"
  "insert_signal n s = (Inr u, t) \<longleftrightarrow>
    (\<forall>q \<in> set (signals s). sg_id q \<noteq> sg_id n \<and> sg_fingerprint q \<noteq> sg_fingerprint n) \<and> 1 \<le> sg_count n
    \<and> t = s\<lparr>signals := signals s @ [n]\<rparr>"
  "insert_ingest g s = (Inr u, t) \<longleftrightarrow> \<not> ingested (ig_snapshot g) s \<and> t = s\<lparr>ingests := ingests s @ [g]\<rparr>"
  by (auto simp: update_ticket_def touch_ticket_def act_Inr audit_event_def insert_ticket_def
      insert_comment_def insert_task_def insert_signal_def insert_ingest_def list_ex_iff not_less)

lemmas run_simps = bindE_Inr act_Inr whenE_Inr statement_Inr

lemma stamp_now: "now_text env = Inr now \<Longrightarrow> stamp now"
  by (auto simp: now_text_def stamp_def dest: utc_text_of_Inr)

lemma commits_touch: "commits (desk_run tz) (touch_ticket i now)"
  by (rule commitsI) (auto simp: statement_Inr intro: desk_run_step st_touch)

lemma found_put:
  assumes "\<And>r. tk_id (f r) = tk_id r"
  shows "ticket_by_id j (put_ticket i f db) = map_option (\<lambda>r. if j = i then f r else r) (ticket_by_id j db)"
proof -
  have "find (\<lambda>r. tk_id r = j) (map (\<lambda>r. if tk_id r = i then f r else r) rs)
      = map_option (\<lambda>r. if j = i then f r else r) (find (\<lambda>r. tk_id r = j) rs)" for rs
    by (induction rs) (auto simp: assms)
  then show ?thesis by (simp add: ticket_by_id_def put_ticket_def)
qed

lemma found_audit [simp]: "ticket_by_id j (add_audit i w a n d db) = ticket_by_id j db"
  by (simp add: ticket_by_id_def)

section \<open>Creation and checklists\<close>

lemma open_pair:
  assumes "tid = tk_id t" "stamp (tk_created_at t)" "tk_sla_due t = Some due"
    and "deadline tz (tk_priority t) (tk_created_at t) due"
    and "tk_status t = New" "tk_resolved_at t = None" "tk_closed_at t = None"
  shows "commits (desk_run tz) (bindE (insert_ticket t) (\<lambda>_.
    audit_event tid who ''ticket.created'' now (created_details t)))"
  using st_open [of _ t due tz who now] assms
  by (intro commitsI desk_run_step) (auto simp: run_simps)

lemma task_pair:
  assumes "tid = ta_ticket t" "ta_status t = Pending" "ta_completed_at t = None"
    and "d = task_added_details (ta_id t) (ta_position t) (ta_title t)"
  shows "commits (desk_run tz) (bindE (insert_task t) (\<lambda>_.
    audit_event tid who ''ticket.task_added'' now d))"
  using st_task [of _ t tz who now] assms
  by (intro commitsI desk_run_step) (auto simp: run_simps)

lemma open_ticket_run:
  assumes "stamp now" "deadline tz p now due"
  shows "commits (desk_run tz) (open_ticket u signal who p own title descr now due)"
  unfolding open_ticket_def Let_def
  by (intro run.commits_checked run.commits_pair run.commits_ret open_pair [where due = due])
    (simp_all add: assms new_ticket_def)

lemma add_missing_task_run: "commits (desk_run tz) (add_missing_task env start tid who own now acc d)"
  unfolding add_missing_task_def Let_def
  by (intro run.commits_case_prod run.commits_if_split run.commits_pair run.commits_ret task_pair)
    (simp_all add: new_task_def)

lemma add_missing_tasks_run: "commits (desk_run tz) (add_missing_tasks env start tid who own now defs)"
  unfolding add_missing_tasks_def
  by (intro run.commit_rules commits_touch add_missing_task_run)

lemma deadline_for: "sla_due_at_for env p now = Inr due \<Longrightarrow> deadline (en_tz env) p now due"
  by (auto simp: sla_due_at_for_def deadline_def bindR_eq_Inr)

lemma create_body_run:
  assumes "stamp now" "deadline tz p now due"
  shows "commits (desk_run tz) (create_body u sid who p own title descr now due)"
  unfolding create_body_def require_signal_def
  by (intro run.commit_rules open_ticket_run assms)

lemma create_with_tasks_body_run:
  assumes "stamp now" "deadline tz p now due"
  shows "commits (desk_run tz) (create_with_tasks_body env sid who p own title descr defs now due)"
  unfolding create_with_tasks_body_def require_signal_def
  by (intro run.commit_rules open_ticket_run add_missing_tasks_run assms)

lemma within_row_result: "steps_within (desk_run tz) (row_result env r)"
  unfolding row_result_def by (intro run.rules)

lemmas writer_rules = run.within_checked run.within_guarded run.within_bindE run.commits_transaction
  run.within_case_prod within_row_result run.within_ret

lemma create_ticket_from_signal_run:
  "steps_within (desk_run (en_tz env))
     (create_ticket_from_signal env signal_id actor priority owner title description)"
  unfolding create_ticket_from_signal_def
  by (intro writer_rules create_body_run) (auto dest: stamp_now deadline_for)

lemma create_ticket_with_tasks_run:
  "steps_within (desk_run (en_tz env))
     (create_ticket_with_tasks env signal_id actor docs priority owner title description)"
  unfolding create_ticket_with_tasks_def
  by (intro writer_rules create_with_tasks_body_run) (auto dest: stamp_now deadline_for)

lemma ensure_tasks_run:
  "steps_within (desk_run (en_tz env)) (ensure_tasks env ticket_id actor docs owner)"
  unfolding ensure_tasks_def require_ticket_def
  by (intro run.within_checked run.commits_transaction run.commit_rules add_missing_tasks_run)


section \<open>Lifecycle, owner, priority\<close>

lemma transition_body_Inr:
  "transition_body tid target who note' now s = (Inr x, t) \<longleftrightarrow>
    (\<exists>row. ticket_by_id tid s = Some row \<and> target \<in> transitions (tk_status row)
      \<and> t = add_audit tid who ''ticket.status_changed'' now (status_details (tk_status row) target note')
              (put_ticket tid (moved target now row) s)
      \<and> x = ticket_by_id tid t)"
proof -
  have m: "(\<lambda>r. r\<lparr>tk_status := target, tk_updated_at := now,
      tk_resolved_at := (if target = Investigating \<and> tk_status row \<in> insert Closed decision_statuses
        then None else if target \<in> decision_statuses then Some now else tk_resolved_at row),
      tk_closed_at := (if target = Investigating \<and> tk_status row \<in> insert Closed decision_statuses
        then None else if target = Closed then Some now else tk_closed_at row)\<rparr>) = moved target now row" for row
    by (simp add: moved_def fun_eq_iff Let_def)
  show ?thesis
    unfolding transition_body_def Let_def m status_details_def [symmetric]
    by (auto simp: run_simps found_put)
qed

lemma transition_body_run:
  assumes "stamp now" "target \<in> decision_statuses \<longrightarrow> note' \<noteq> None"
  shows "commits (desk_run tz) (transition_body tid target who note' now)"
proof (rule commitsI)
  fix s x t assume "transition_body tid target who note' now s = (Inr x, t)"
  then obtain row where "ticket_by_id tid s = Some row" "target \<in> transitions (tk_status row)"
    "t = add_audit tid who ''ticket.status_changed'' now (status_details (tk_status row) target note')
      (put_ticket tid (moved target now row) s)"
    by (auto simp: transition_body_Inr)
  then show "desk_run tz s t" using st_status [of tid s row target note' now tz who] assms
    by (auto intro: desk_run_step)
qed

lemma transition_ticket_run:
  "steps_within (desk_run (en_tz env)) (transition_ticket env ticket_id to_status actor remark)"
  unfolding transition_ticket_def
  by (intro writer_rules transition_body_run) (auto dest: stamp_now)

text \<open>Setting the owner and stamping the ticket in one UPDATE is the owner step and a touch.\<close>

lemma put_ticket_twice: "(\<And>r. tk_id (f r) = tk_id r) \<Longrightarrow> put_ticket i g (put_ticket i f db) = put_ticket i (g \<circ> f) db"
  by (simp add: put_ticket_def)

lemma put_ticket_audit: "put_ticket i f (add_audit j w a n d db) = add_audit j w a n d (put_ticket i f db)"
  by (simp add: put_ticket_def add_audit_def)

lemma two_steps: "desk_step tz s u \<Longrightarrow> desk_step tz u t \<Longrightarrow> desk_run tz s t"
  by (auto simp: desk_run_def)

lemma owner_touch_run:
  assumes "ticket_by_id tid s = Some row"
  shows "desk_run tz s (add_audit tid who ''ticket.assigned'' now (owner_details (tk_owner row) v)
    (put_ticket tid (\<lambda>r. r\<lparr>tk_owner := v, tk_updated_at := now\<rparr>) s))"
  using two_steps [OF st_owner [OF assms, of tz who now v] st_touch [of tz _ tid now]]
  by (simp add: put_ticket_audit put_ticket_twice comp_def)

lemma priority_touch_run:
  assumes "ticket_by_id tid s = Some row" "deadline tz p (tk_created_at row) due"
    "previous = JNull \<or> (\<exists>x. previous = JStr x)"
  shows "desk_run tz s (add_audit tid who ''ticket.priority_changed'' now (priority_details row p previous due)
    (put_ticket tid (\<lambda>r. r\<lparr>tk_priority := p, tk_sla_due := Some due, tk_updated_at := now\<rparr>) s))"
  using two_steps [OF st_priority [OF assms, of who now] st_touch [of tz _ tid now]]
  by (simp add: put_ticket_audit put_ticket_twice comp_def)

lemma recalculate_touch_run:
  assumes "ticket_by_id tid s = Some row" "tk_status row \<notin> sla_stopped_statuses"
    "deadline tz (tk_priority row) (tk_created_at row) due"
  shows "desk_run tz s (add_audit tid who ''ticket.sla_calendar_recalculated'' now
    (recalculated_details previous due (tk_priority row))
    (put_ticket tid (\<lambda>r. r\<lparr>tk_sla_due := Some due, tk_updated_at := now\<rparr>) s))"
  using two_steps [OF st_recalculate [OF assms, of who now previous] st_touch [of tz _ tid now]]
  by (simp add: put_ticket_audit put_ticket_twice comp_def)

lemma jopt_cases: "jopt v = JNull \<or> (\<exists>x. jopt v = JStr x)"
  by (cases v) simp_all

definition field_action :: "field_value \<Rightarrow> string" where
  "field_action f = (case f of OwnerValue _ \<Rightarrow> ''ticket.assigned'' | PriorityValue _ \<Rightarrow> ''ticket.priority_changed'')"

lemma field_body_run:
  "commits (desk_run (en_tz env)) (field_body env policy tid field who (field_action field) now)"
proof (rule commitsI)
  fix s x t assume run: "field_body env policy tid field who (field_action field) now s = (Inr x, t)"
  obtain row where row: "ticket_by_id tid s = Some row"
    using run by (auto simp: field_body_def run_simps)
  show "desk_run (en_tz env) s t"
  proof (cases field)
    case (OwnerValue v)
    then have "t = s \<or> t = add_audit tid who ''ticket.assigned'' now (owner_details (tk_owner row) v)
        (put_ticket tid (\<lambda>r. r\<lparr>tk_owner := v, tk_updated_at := now\<rparr>) s)"
      using run row by (auto simp: field_body_def run_simps field_action_def owner_details_def split: if_splits)
    then show ?thesis using owner_touch_run [OF row] run.le_refl by auto
  next
    case (PriorityValue p)
    then have "t = s \<or> (\<exists>due. deadline (en_tz env) p (tk_created_at row) due
        \<and> t = add_audit tid who ''ticket.priority_changed'' now (priority_details row p (jopt (tk_sla_due row)) due)
          (put_ticket tid (\<lambda>r. r\<lparr>tk_priority := p, tk_sla_due := Some due, tk_updated_at := now\<rparr>) s))"
      using run row by (auto simp: field_body_def run_simps field_action_def deadline_def split: if_splits)
    then show ?thesis using priority_touch_run [OF row _ jopt_cases] run.le_refl by auto
  qed
qed

lemma update_ticket_field_run:
  "steps_within (desk_run (en_tz env)) (update_ticket_field env ticket_id field actor (field_action field))"
  unfolding update_ticket_field_def
  by (intro writer_rules field_body_run)

lemma assign_ticket_run:
  "steps_within (desk_run (en_tz env)) (assign_ticket env ticket_id owner actor)"
  unfolding assign_ticket_def
  using update_ticket_field_run [of env ticket_id "OwnerValue _"]
  by (intro run.within_checked) (simp add: field_action_def)

lemma set_ticket_priority_run:
  "steps_within (desk_run (en_tz env)) (set_ticket_priority env ticket_id priority actor)"
  unfolding set_ticket_priority_def
  using update_ticket_field_run [of env ticket_id "PriorityValue _"]
  by (intro run.within_checked) (simp add: field_action_def)


lemma governance_body_run: "commits (desk_run (en_tz env)) (governance_body env policy tid own p who now)"
proof (rule commitsI)
  fix s x t assume "governance_body env policy tid own p who now s = (Inr x, t)"
  then obtain row s1 s2 where row: "ticket_by_id tid s = Some row"
    and s1: "s1 = s \<or> s1 = add_audit tid who ''ticket.assigned'' now (owner_details (tk_owner row) own)
        (put_ticket tid (\<lambda>r. r\<lparr>tk_owner := own\<rparr>) s)"
    and s2: "s2 = s1 \<or> (\<exists>due. sla_due_at (en_tz env) policy (JStr (priority_text p)) (JStr (tk_created_at row)) = Inr due
        \<and> s2 = add_audit tid who ''ticket.priority_changed'' now
           (priority_details row p (JStr (column_str (tk_sla_due row))) due)
           (put_ticket tid (\<lambda>r. r\<lparr>tk_priority := p, tk_sla_due := Some due\<rparr>) s1))"
    and t: "t = s2 \<or> t = put_ticket tid (\<lambda>r. r\<lparr>tk_updated_at := now\<rparr>) s2"
    by (auto simp: governance_body_def run_simps owner_details_def split: if_splits)
  have r1: "desk_run (en_tz env) s s1"
    using s1 st_owner [OF row] run.le_refl by (auto intro: desk_run_step)
  have row1: "ticket_by_id tid s1 = Some row \<or> ticket_by_id tid s1 = Some (row\<lparr>tk_owner := own\<rparr>)"
    using s1 row by (auto simp: found_put)
  have pd: "priority_details (row\<lparr>tk_owner := own\<rparr>) = priority_details row"
    by (simp add: priority_details_def fun_eq_iff)
  have r2: "desk_run (en_tz env) s1 s2"
    using s2
  proof (elim disjE exE conjE)
    fix due assume due: "sla_due_at (en_tz env) policy (JStr (priority_text p)) (JStr (tk_created_at row)) = Inr due"
      and s2: "s2 = add_audit tid who ''ticket.priority_changed'' now
           (priority_details row p (JStr (column_str (tk_sla_due row))) due)
           (put_ticket tid (\<lambda>r. r\<lparr>tk_priority := p, tk_sla_due := Some due\<rparr>) s1)"
    then have dl: "deadline (en_tz env) p (tk_created_at row) due" by (auto simp: deadline_def)
    show ?thesis using row1
    proof (elim disjE)
      assume "ticket_by_id tid s1 = Some row"
      from st_priority [OF this dl] show ?thesis unfolding s2 by (intro desk_run_step) simp
    next
      assume "ticket_by_id tid s1 = Some (row\<lparr>tk_owner := own\<rparr>)"
      from st_priority [OF this, of _ p due] dl show ?thesis unfolding s2 by (intro desk_run_step) (simp add: pd)
    qed
  qed (simp add: run.le_refl)
  have "desk_run (en_tz env) s2 t" using t st_touch run.le_refl by (auto intro: desk_run_step)
  then show "desk_run (en_tz env) s t" using r1 r2 run.le_trans by blast
qed

lemma update_ticket_governance_run:
  "steps_within (desk_run (en_tz env)) (update_ticket_governance env ticket_id owner priority actor)"
  unfolding update_ticket_governance_def
  by (intro writer_rules governance_body_run)

section \<open>Recalculation\<close>

lemma foldE_commits_while:
  assumes "state_order le"
    and step: "\<And>a x s y t. x \<in> set xs \<Longrightarrow> J s \<Longrightarrow> f a x s = (Inr y, t) \<Longrightarrow> le s t \<and> J t"
  shows "J s \<Longrightarrow> foldE f a xs s = (Inr y, t) \<Longrightarrow> le s t \<and> J t"
  using step
proof (induction xs arbitrary: a s)
  case Nil
  then show ?case using state_order.le_refl [OF assms(1)] by (simp add: act_Inr)
next
  case (Cons x xs)
  then obtain b u where "f a x s = (Inr b, u)" "foldE f b xs u = (Inr y, t)" by (auto simp: bindE_Inr)
  moreover from this have "le s u \<and> J u" using Cons.prems(3) [of x s a b u] Cons.prems(1) by simp
  moreover have "J u \<Longrightarrow> foldE f b xs u = (Inr y, t) \<Longrightarrow> le u t \<and> J t"
    by (rule Cons.IH) (simp_all add: Cons.prems(3) [OF list.set_intros(2)])
  ultimately show ?case using state_order.le_trans [OF assms(1)] by blast
qed

text \<open>What recalculation relies on while it walks the rows it has read: each is still there with the
  same status, priority and creation instant.\<close>

definition still_open :: "ticket_row list \<Rightarrow> ticket_db \<Rightarrow> bool" where
  "still_open rows db \<longleftrightarrow> (\<forall>r \<in> set rows. \<exists>r'. ticket_by_id (tk_id r) db = Some r'
     \<and> tk_status r' = tk_status r \<and> tk_priority r' = tk_priority r \<and> tk_created_at r' = tk_created_at r)"

lemma still_open_put:
  assumes "\<And>r. tk_id (f r) = tk_id r" "\<And>r. tk_status (f r) = tk_status r"
    "\<And>r. tk_priority (f r) = tk_priority r" "\<And>r. tk_created_at (f r) = tk_created_at r"
    and "still_open rows db"
  shows "still_open rows (put_ticket i f db)"
  unfolding still_open_def
proof
  fix r assume "r \<in> set rows"
  then obtain r' where r': "ticket_by_id (tk_id r) db = Some r'" "tk_status r' = tk_status r"
    "tk_priority r' = tk_priority r" "tk_created_at r' = tk_created_at r"
    using assms(5) by (auto simp: still_open_def)
  then show "\<exists>r'. ticket_by_id (tk_id r) (put_ticket i f db) = Some r' \<and> tk_status r' = tk_status r
      \<and> tk_priority r' = tk_priority r \<and> tk_created_at r' = tk_created_at r"
    by (intro exI [of _ "if tk_id r = i then f r' else r'"]) (simp add: found_put assms(1-4))
qed

lemma recalculate_row_step:
  assumes "row \<in> set rows" "still_open rows s" "tk_status row \<notin> sla_stopped_statuses"
    and "recalculate_row env policy who now a row s = (Inr y, t)"
  shows "desk_run (en_tz env) s t \<and> still_open rows t"
proof -
  let ?f = "\<lambda>due r. r\<lparr>tk_sla_due := Some due, tk_updated_at := now\<rparr>"
  obtain row' where row': "ticket_by_id (tk_id row) s = Some row'" "tk_status row' = tk_status row"
    "tk_priority row' = tk_priority row" "tk_created_at row' = tk_created_at row"
    using assms(1,2) by (auto simp: still_open_def)
  obtain due where due: "sla_due_at (en_tz env) policy (JStr (priority_text (tk_priority row)))
      (JStr (tk_created_at row)) = Inr due"
    and t: "t = s \<or> t = add_audit (tk_id row) who ''ticket.sla_calendar_recalculated'' now
      (recalculated_details (column_str (tk_sla_due row)) due (tk_priority row)) (put_ticket (tk_id row) (?f due) s)"
    using assms(4) by (auto simp: recalculate_row_def run_simps recalculated_details_def split: if_splits)
  have dl: "deadline (en_tz env) (tk_priority row') (tk_created_at row') due"
    using due row' by (auto simp: deadline_def)
  have "desk_run (en_tz env) s t"
    using t recalculate_touch_run [OF row'(1) _ dl] assms(3) run.le_refl row'(2,3) by auto
  moreover have "still_open rows (put_ticket (tk_id row) (?f due) s)"
    by (rule still_open_put [OF _ _ _ _ assms(2)]) simp_all
  then have "still_open rows t" using t assms(2) by (auto simp: still_open_def)
  ultimately show ?thesis ..
qed

lemma recalculate_rows_run:
  assumes "foldE (recalculate_row env policy who now) 0 rows s = (Inr x, t)" "still_open rows s"
    and "\<forall>r \<in> set rows. tk_status r \<notin> sla_stopped_statuses"
  shows "desk_run (en_tz env) s t \<and> still_open rows t"
proof (rule foldE_commits_while [where J = "still_open rows", OF desk_run_order _ assms(2,1)])
  fix a r u y v
  assume "r \<in> set rows" "still_open rows u" "recalculate_row env policy who now a r u = (Inr y, v)"
  then show "desk_run (en_tz env) u v \<and> still_open rows v"
    using recalculate_row_step assms(3) by blast
qed

lemma recalculate_open_sla_deadlines_run:
  "steps_within (desk_run (en_tz env)) (recalculate_open_sla_deadlines env actor)"
  unfolding recalculate_open_sla_deadlines_def
proof (intro run.within_checked run.commits_transaction commitsI)
  fix who now policy x t and s :: ticket_db
  let ?rows = "filter (\<lambda>r. tk_status r \<notin> sla_stopped_statuses) (tickets s)"
  assume "bindE (gets (\<lambda>db. filter (\<lambda>r. tk_status r \<notin> sla_stopped_statuses) (tickets db)))
    (\<lambda>rows. foldE (recalculate_row env policy who now) 0 rows) s = (Inr x, t)"
  then have run: "foldE (recalculate_row env policy who now) 0 ?rows s = (Inr x, t)"
    by simp
  have "still_open ?rows s" if "desk_wf (en_tz env) s"
    using that the_ticket_found by (auto simp: still_open_def desk_wf_def)
  from recalculate_rows_run [OF run this] show "desk_run (en_tz env) s t"
    by (auto simp: desk_run_def)
qed


section \<open>Comments and tasks\<close>

lemma touch_between:
  "put_ticket i (\<lambda>r. r\<lparr>tk_updated_at := now\<rparr>) (db\<lparr>comments := cs\<rparr>)
    = (put_ticket i (\<lambda>r. r\<lparr>tk_updated_at := now\<rparr>) db)\<lparr>comments := cs\<rparr>"
  "put_ticket i (\<lambda>r. r\<lparr>tk_updated_at := now\<rparr>) (db\<lparr>tasks := ts\<rparr>)
    = (put_ticket i (\<lambda>r. r\<lparr>tk_updated_at := now\<rparr>) db)\<lparr>tasks := ts\<rparr>"
  by (simp_all add: put_ticket_def)

lemma found_touch: "ticket_by_id j (put_ticket i (\<lambda>r. r\<lparr>tk_updated_at := now\<rparr>) db) = None \<longleftrightarrow> ticket_by_id j db = None"
  by (simp add: found_put)

lemma found_fields [simp]:
  "ticket_by_id j (db\<lparr>comments := cs\<rparr>) = ticket_by_id j db"
  "ticket_by_id j (db\<lparr>tasks := ts\<rparr>) = ticket_by_id j db"
  by (simp_all add: ticket_by_id_def)

lemma add_comment_run:
  "steps_within (desk_run (en_tz env)) (add_comment env ticket_id author body)"
  unfolding add_comment_def Let_def
proof (intro run.within_checked run.commits_transaction commitsI)
  fix tid who content now x t and s :: ticket_db
  let ?c = "\<lparr>cm_id = ''comment:'' @ en_uuid env 0, cm_ticket = tid, cm_author = who, cm_body = content,
    cm_created_at = now\<rparr>"
  assume "bindE (require_ticket tid) (\<lambda>_. bindE (insert_comment ?c) (\<lambda>_. bindE (touch_ticket tid now) (\<lambda>_.
    bindE (audit_event tid who ''ticket.comment_added'' now [(''comment_id'', JStr (cm_id ?c))]) (\<lambda>_.
    ret ?c)))) s = (Inr x, t)"
  then have fresh: "\<forall>q \<in> set (comments s). cm_id q \<noteq> cm_id ?c" "ticket_by_id tid s \<noteq> None"
    and t: "t = add_audit tid who ''ticket.comment_added'' now [(''comment_id'', JStr (cm_id ?c))]
      (put_ticket tid (\<lambda>r. r\<lparr>tk_updated_at := now\<rparr>) (s\<lparr>comments := comments s @ [?c]\<rparr>))"
    by (auto simp: run_simps)
  let ?u = "put_ticket tid (\<lambda>r. r\<lparr>tk_updated_at := now\<rparr>) s"
  have "desk_step (en_tz env) ?u t"
    using st_comment [of ?u ?c "en_tz env" who now] fresh
    by (simp add: t touch_between found_touch)
  then show "desk_run (en_tz env) s t" using two_steps [OF st_touch] by blast
qed

lemma add_task_run:
  "steps_within (desk_run (en_tz env)) (add_task env ticket_id actor title descr owner due_at)"
  unfolding add_task_def Let_def
proof (intro run.within_checked run.commits_transaction commitsI)
  fix tid who title' descr' own due now x t and s :: ticket_db
  let ?t = "\<lambda>n. new_task (en_uuid env 0) tid title' descr' (n + 1) own due now"
  assume "bindE (require_ticket tid) (\<lambda>_. bindE (gets (max_position tid)) (\<lambda>n. bindE (insert_task (?t n)) (\<lambda>_.
    bindE (touch_ticket tid now) (\<lambda>_. bindE (audit_event tid who ''ticket.task_added'' now
      (task_added_details (ta_id (?t n)) (n + 1) title')) (\<lambda>_. ret (?t n)))))) s = (Inr x, t)"
  then obtain n where fresh: "\<forall>q \<in> set (tasks s). ta_id q \<noteq> ta_id (?t n)
        \<and> \<not> (ta_ticket q = tid \<and> ta_position q = n + 1)" "ticket_by_id tid s \<noteq> None"
    and t: "t = add_audit tid who ''ticket.task_added'' now (task_added_details (ta_id (?t n)) (n + 1) title')
      (put_ticket tid (\<lambda>r. r\<lparr>tk_updated_at := now\<rparr>) (s\<lparr>tasks := tasks s @ [?t n]\<rparr>))"
    by (auto simp: run_simps new_task_def)
  let ?u = "put_ticket tid (\<lambda>r. r\<lparr>tk_updated_at := now\<rparr>) s"
  have "desk_step (en_tz env) ?u t"
    using st_task [of ?u "?t n" "en_tz env" who now] fresh
    by (simp add: t touch_between found_touch new_task_def)
  then show "desk_run (en_tz env) s t" using two_steps [OF st_touch] by blast
qed

lemma task_row_touch [simp]: "task_by_id i (put_ticket j f db) = task_by_id i db"
  by (simp add: task_by_id_def)

lemma task_status_body_run: "commits (desk_run tz) (task_status_body i target who now)"
proof (rule commitsI)
  fix x t and s :: ticket_db
  let ?f = "\<lambda>r. r\<lparr>ta_status := target, ta_completed_at := (if target = Pending then None else Some now),
    ta_updated_at := now\<rparr>"
  let ?ts = "map (\<lambda>r. if ta_id r = i then ?f r else r) (tasks s)"
  assume "task_status_body i target who now s = (Inr x, t)"
  then obtain row where row: "task_by_id i s = Some row"
    and t: "t = s \<or> (ta_status row \<noteq> target \<and> ticket_by_id (ta_ticket row) s \<noteq> None
      \<and> t = add_audit (ta_ticket row) who ''ticket.task_status_changed'' now (task_details i (ta_status row) target)
        (put_ticket (ta_ticket row) (\<lambda>r. r\<lparr>tk_updated_at := now\<rparr>) (s\<lparr>tasks := ?ts\<rparr>)))"
    by (auto simp: task_status_body_def run_simps update_task_def task_details_def found_put split: option.splits if_splits)
  let ?u = "put_ticket (ta_ticket row) (\<lambda>r. r\<lparr>tk_updated_at := now\<rparr>) s"
  have "desk_step tz ?u t" if "t \<noteq> s"
    using st_task_status [of i ?u row target tz who now] row t that
    by (auto simp: touch_between found_touch)
  then show "desk_run tz s t" using two_steps [OF st_touch] run.le_refl by metis
qed

lemma update_task_status_run:
  "steps_within (desk_run (en_tz env)) (update_task_status env task_id status actor)"
  unfolding update_task_status_def
  by (intro writer_rules run.within_case_option run.within_raise task_status_body_run)

section \<open>Ingest\<close>

lemma normalize_signal_Inr:
  assumes "normalize_signal now s = Inr n"
  shows "sg_id n = ''signal:'' @ sg_fingerprint n" "is_sha256_hex (sg_fingerprint n)" "sg_count n = 1"
    "sg_first_observed n = sg_last_observed n" "is_sha256_hex (sg_snapshot n)"
    "sg_payload_json n = dumps False (JObj (si_payload s))" "sg_created_at n = now" "sg_updated_at n = now"
  using assms by (auto simp: normalize_signal_def bindR_eq_Inr hex_argument_def split: if_splits)

lemma insert_occurrence_Inr:
  "insert_or_ignore_occurrence r s = (Inr u, t) \<longleftrightarrow>
    (if \<exists>q \<in> set (occurrences s). oc_signal q = oc_signal r \<and> oc_snapshot q = oc_snapshot r \<and> oc_hash q = oc_hash r
     then t = s
     else signal_by_id (oc_signal r) s \<noteq> None
       \<and> t = s\<lparr>occurrences := occurrences s @ [r\<lparr>oc_id := next_occurrence s\<rparr>],
               next_occurrence := next_occurrence s + 1\<rparr>)"
  by (auto simp: insert_or_ignore_occurrence_def list_ex_iff)

lemma commits_occurrence: "commits (desk_run tz) (insert_or_ignore_occurrence r)"
proof (rule commitsI)
  fix s x t assume "insert_or_ignore_occurrence r s = (Inr x, t)"
  then show "desk_run tz s t"
    using st_occurrence [of s r tz] run.le_refl
    by (auto simp: insert_occurrence_Inr intro!: desk_run_step split: if_splits)
qed

lemma commits_insert_signal:
  "normalize_signal now s = Inr n \<Longrightarrow> commits (desk_run tz) (insert_signal n)"
  using normalize_signal_Inr [of now s n]
  by (intro commitsI desk_run_step) (auto simp: statement_Inr intro!: st_signal)

lemma upsert_signal_run: "commits (desk_run tz) (upsert_signal env now s)"
proof (rule commitsI)
  fix d x t assume run: "upsert_signal env now s d = (Inr x, t)"
  let ?digest = "payload_hash (en_sha env) (JObj (si_payload s))"
  obtain n where n: "normalize_signal now s = Inr n"
    using run by (auto simp: upsert_signal_def run_simps)
  note ids = normalize_signal_Inr [OF n]
  show "desk_run tz d t"
  proof (cases "signal_by_fingerprint (sg_fingerprint n) d")
    case None
    have "commits (desk_run tz) (bindE (insert_signal n) (\<lambda>_.
        bindE (insert_or_ignore_occurrence (occurrence_of n ?digest now)) (\<lambda>_. ret (True, True))))"
      by (intro run.commits_bindE run.commits_ret commits_occurrence commits_insert_signal [OF n])
    moreover have "bindE (insert_signal n) (\<lambda>_.
        bindE (insert_or_ignore_occurrence (occurrence_of n ?digest now)) (\<lambda>_. ret (True, True))) d = (Inr x, t)"
      using run n None by (simp add: upsert_signal_def Let_def semantic_changed_def whenE_def del: ret_run)
    ultimately show ?thesis unfolding commits_def by blast
  next
    case (Some r)
    show ?thesis
    proof (cases "sg_snapshot r = sg_snapshot n")
      case True
      then show ?thesis using run n Some run.le_refl
        by (simp add: upsert_signal_def Let_def whenE_def)
    next
      case False
      obtain changed u where u: "whenE changed (insert_or_ignore_occurrence (occurrence_of n ?digest now)) d = (Inr (), u)"
        and t: "t = u\<lparr>signals := map (\<lambda>q. if sg_id q = sg_id n then refresh_signal n r changed now q else q) (signals u)\<rparr>"
        using run n Some False
        by (auto simp: upsert_signal_def Let_def whenE_def [of False] run_simps update_signal_def)
      have du: "desk_run tz d u"
        using u run.commits_whenE [OF commits_occurrence] unfolding commits_def by blast
      have su: "signals u = signals d"
        using u by (auto simp: whenE_Inr insert_occurrence_Inr split: if_splits)
      have "signal_by_fingerprint (sg_fingerprint n) u = Some r"
        using Some su by (simp add: signal_by_fingerprint_def)
      then have "desk_step tz u (u\<lparr>signals := map (\<lambda>q. if sg_id q = sg_id r then refresh_signal n r changed now q
          else q) (signals u)\<rparr>)"
        using False by (rule st_refresh)
      moreover have "desk_wf tz d \<Longrightarrow> sg_id r = sg_id n"
        using found(4) [OF Some] ids(1) by (auto simp: desk_wf_def signals_wf_def)
      ultimately have "desk_wf tz d \<Longrightarrow> desk_step tz u t" using t by simp
      then show ?thesis using du by (auto simp: desk_run_def)
    qed
  qed
qed

lemma upsert_counted_run: "commits (desk_run tz) (upsert_counted env now acc s)"
  unfolding upsert_counted_def
  by (intro run.commits_bindE upsert_signal_run run.commits_case_prod run.commits_ret)

lemma ingest_signals_run: "steps_within (desk_run tz) (ingest_signals env batch)"
  unfolding ingest_signals_def
  by (intro run.rules(9-) run.within_checked run.within_bindE [OF run.commits_transaction] run.within_ret
      run.within_case_prod run.commits_foldE upsert_counted_run)

lemma ingest_snapshot_signals_run:
  "steps_within (desk_run tz) (ingest_snapshot_signals env batch digest sid generated)"
  unfolding ingest_snapshot_signals_def
proof (intro run.within_checked run.within_guarded run.commits_transaction run.commits_bindE
    run.commits_if_split run.commits_gets run.commits_ret run.commits_case_prod run.commits_foldE
    upsert_counted_run)
  fix dg sid' gen now
  assume "hex_argument ''SHA snapshot'' 64 BadDigest digest = Inr dg"
  then show "commits (desk_run tz) (insert_ingest \<lparr>ig_snapshot = dg, ig_snapshot_id = sid',
      ig_generated_at = gen, ig_signals_seen = length batch, ig_ingested_at = now\<rparr>)"
    by (intro commitsI desk_run_step) (auto simp: statement_Inr hex_argument_def bindR_eq_Inr
        split: if_splits intro!: st_ingest)
qed

end
