(* ===== verification/TicketDesk.thy ===== *)
theory TicketDesk
  imports TicketRefinement
begin

text \<open>
  The store as its clients see it. The locale \<open>desk_operation\<close> is the contract of a writer: whatever
  it does is a run of desk steps, and when it raises, the database is as it was. Its consequences
  are proved once; every writer of the store is an interpretation. \<open>desk_call\<close> gathers the writers
  in one type, so that the invariants are statements about arbitrary histories of calls.
\<close>

section \<open>All or nothing\<close>

definition atomic_on :: "('s \<Rightarrow> bool) \<Rightarrow> ('s, 'e, 'a) act \<Rightarrow> bool" where
  "atomic_on I m \<longleftrightarrow> (\<forall>s e t. I s \<longrightarrow> m s = (Inl e, t) \<longrightarrow> t = s)"

lemma atomic_checked: "(\<And>x. r = Inr x \<Longrightarrow> atomic_on I (k x)) \<Longrightarrow> atomic_on I (bindE (lift_res r) k)"
  by (cases r) (simp_all add: atomic_on_def)

lemma atomic_guarded: "(b \<Longrightarrow> atomic_on I (k ())) \<Longrightarrow> atomic_on I (bindE (guardE b e) k)"
  by (cases b) (simp_all add: atomic_on_def bindE_guardE)

lemma atomic_raise: "atomic_on I (raise e)"
  by (simp add: atomic_on_def)

lemma atomic_ret: "atomic_on I (ret x)"
  by (simp add: atomic_on_def)

lemma atomic_transaction: "atomic_on I (transaction m)"
  by (simp add: atomic_on_def transaction_rollback)

lemma atomic_then:
  assumes "\<And>s x t. I s \<Longrightarrow> m s = (Inr x, t) \<Longrightarrow> \<exists>y u. k x t = (Inr y, u)"
  shows "atomic_on I (bindE (transaction m) k)"
  unfolding atomic_on_def
proof (intro allI impI)
  fix s e t assume I: "I s" and run: "bindE (transaction m) k s = (Inl e, t)"
  show "t = s"
  proof (cases "m s")
    case (Pair r u)
    then show ?thesis
      using run assms [OF I] by (cases r) (auto simp: bindE_def transaction_def)
  qed
qed

section \<open>The contract of a writer\<close>

locale desk_operation =
  fixes tz :: tzdb and op :: "'a desk"
  assumes op_run: "steps_within (desk_run tz) op"
    and op_atomic: "atomic_on (desk_wf tz) op"
begin

lemma steps: "op db = (r, db') \<Longrightarrow> desk_wf tz db \<Longrightarrow> (desk_step tz)\<^sup>*\<^sup>* db db'"
  using steps_withinD [OF op_run] by (auto simp: desk_run_def)

lemma keeps_wf: "op db = (r, db') \<Longrightarrow> desk_wf tz db \<Longrightarrow> desk_wf tz db'"
  using steps steps_wf by blast

lemma extends: "op db = (r, db') \<Longrightarrow> desk_wf tz db \<Longrightarrow> desk_extends db db'"
  using steps steps_extend by blast

lemma explains: "op db = (r, db') \<Longrightarrow> desk_wf tz db \<Longrightarrow> audit_explains db \<Longrightarrow> audit_explains db'"
  using steps steps_audit_explain by blast

lemma rolls_back: "op db = (Inl e, db') \<Longrightarrow> desk_wf tz db \<Longrightarrow> db' = db"
  using op_atomic by (auto simp: atomic_on_def)

end

section \<open>The writers\<close>

lemma sla_due_at_stamp: "sla_due_at tz policy p created = Inr due \<Longrightarrow> stamp due"
proof -
  assume run: "sla_due_at tz policy p created = Inr due"
  have "\<exists>v. utc_text_of v = Inr due"
  proof (cases policy)
    case None
    then show ?thesis using run by (auto simp: sla_due_at_def bindR_eq_Inr)
  next
    case (Some hours)
    from run obtain h anchor where "(case add_business_hours tz (Aware anchor) (sla_policy_hours h) hours of
        Inl e \<Rightarrow> Inl (CalendarError e) | Inr due' \<Rightarrow> utc_text_of (Aware due')) = Inr due"
      unfolding sla_due_at_def Some bindR_eq_Inr by auto
    then show ?thesis by (cases "add_business_hours tz (Aware anchor) (sla_policy_hours h) hours") auto
  qed
  then show ?thesis by (auto simp: stamp_def dest: utc_text_of_Inr)
qed

lemma deadline_nonempty: "deadline tz p created due \<Longrightarrow> due \<noteq> []"
  using utc_text_clean(2) by (auto simp: deadline_def stamp_def dest!: sla_due_at_stamp) metis

text \<open>In a well-formed database the row read back has its deadline, so reading it never raises.\<close>

lemma ticket_from_row_wf: "tickets_wf tz db \<Longrightarrow> r \<in> set (tickets db) \<Longrightarrow> ticket_from_row env r = Inr r"
  by (fastforce simp: ticket_from_row_def tickets_wf_def dest: deadline_nonempty)

lemma row_result_wf:
  assumes "desk_wf tz db" "ticket_by_id tid db = Some r"
  shows "row_result env (Some r) db = (Inr r, db)"
  using found(1) [OF assms(2)] ticket_from_row_wf [of tz db r env] assms(1)
  by (auto simp: row_result_def desk_wf_def lift_res_def)

lemma atomic_row_result:
  assumes "commits (desk_run tz) m"
    and "\<And>s x t. desk_wf tz s \<Longrightarrow> m s = (Inr x, t) \<Longrightarrow> \<exists>i. x = ticket_by_id i t \<and> x \<noteq> None"
  shows "atomic_on (desk_wf tz) (bindE (transaction m) (row_result env))"
proof (rule atomic_then)
  fix s x t assume wf: "desk_wf tz s" and run: "m s = (Inr x, t)"
  then have "desk_run tz s t" using assms(1) unfolding commits_def by blast
  then have "desk_wf tz t" using wf steps_wf by (auto simp: desk_run_def)
  then show "\<exists>y u. row_result env x t = (Inr y, u)"
    using assms(2) [OF wf run] row_result_wf by fastforce
qed

lemma find_appended: "(\<forall>q \<in> set xs. \<not> P q) \<Longrightarrow> P r \<Longrightarrow> find P (xs @ [r]) = Some r"
  by (induction xs) auto

lemma open_ticket_Inr:
  assumes "open_ticket u signal who p own title descr now due s = (Inr tid, t)"
  shows "ticket_by_signal (sg_id signal) s = None
    \<and> (\<exists>title' descr'. let r = new_ticket u signal who p own title' descr' now due in
        tid = tk_id r \<and> ticket_by_id tid t = Some r
        \<and> t = add_audit tid who ''ticket.created'' now (created_details r) (s\<lparr>tickets := tickets s @ [r]\<rparr>))"
proof -
  obtain title' descr' r where r: "r = new_ticket u signal who p own title' descr' now due"
    and fresh: "\<forall>q \<in> set (tickets s). tk_id q \<noteq> tk_id r \<and> tk_signal q \<noteq> tk_signal r"
    and t: "tid = tk_id r" "t = add_audit tid who ''ticket.created'' now (created_details r) (s\<lparr>tickets := tickets s @ [r]\<rparr>)"
    using assms by (auto simp: open_ticket_def Let_def run_simps)
  have "ticket_by_id tid t = Some r" using fresh t by (simp add: ticket_by_id_def find_appended)
  moreover have "tk_signal r = sg_id signal" by (simp add: r new_ticket_def)
  then have "ticket_by_signal (sg_id signal) s = None" using fresh by (auto simp: not_found)
  ultimately show ?thesis using r t by (auto simp: Let_def)
qed

lemma create_body_returns:
  assumes "create_body u sid who p own title descr now due s = (Inr x, t)" "desk_wf tz s"
  shows "\<exists>i. x = ticket_by_id i t \<and> x \<noteq> None"
proof (cases "ticket_by_signal sid s")
  case (Some r)
  then have "x = Some r \<and> t = s" using assms(1) by (auto simp: create_body_def run_simps)
  moreover have "ticket_by_id (tk_id r) s = Some r"
    using found(2) [OF Some] assms(2) the_ticket_found by (auto simp: desk_wf_def)
  ultimately show ?thesis by (metis option.distinct(1))
next
  case None
  then obtain signal tid where "open_ticket u signal who p own title descr now due s = (Inr tid, t)"
    "x = ticket_by_id tid t"
    using assms(1) by (auto simp: create_body_def run_simps)
  then show ?thesis using open_ticket_Inr by (fastforce simp: Let_def)
qed

text \<open>No statement between the first lookup and the final one makes a ticket appear or vanish.\<close>

definition same_ticket :: "string \<Rightarrow> ticket_db \<Rightarrow> ticket_db \<Rightarrow> bool" where
  "same_ticket j s t \<longleftrightarrow> (ticket_by_id j t = None \<longleftrightarrow> ticket_by_id j s = None)"

interpretation presence: state_order "same_ticket j" for j
  by unfold_locales (auto simp: same_ticket_def)

lemma presence_statements:
  "(\<And>r. tk_id (f r) = tk_id r) \<Longrightarrow> commits (same_ticket j) (update_ticket i f)"
  "commits (same_ticket j) (audit_event i who action now d)"
  "commits (same_ticket j) (touch_ticket i now)"
  "commits (same_ticket j) (require_ticket i)"
  "commits (same_ticket j) (insert_task ta)"
  by (auto intro!: commitsI simp: statement_Inr same_ticket_def found_put)

lemma add_missing_tasks_presence:
  "commits (same_ticket j) (add_missing_tasks env start tid who own now defs)"
  unfolding add_missing_tasks_def add_missing_task_def Let_def
  by (intro presence.commit_rules presence_statements)

lemma add_missing_tasks_found:
  "add_missing_tasks env start tid who own now defs s = (Inr y, t) \<Longrightarrow>
   ticket_by_id j t = None \<longleftrightarrow> ticket_by_id j s = None"
  using add_missing_tasks_presence [of j] unfolding commits_def same_ticket_def by blast

lemma create_with_tasks_body_returns:
  assumes "create_with_tasks_body env sid who p own title descr defs now due s = (Inr x, t)" "desk_wf tz s"
  shows "\<exists>i. fst x = ticket_by_id i t \<and> fst x \<noteq> None"
proof -
  have "\<exists>tid start u added. ticket_by_id tid u \<noteq> None
    \<and> add_missing_tasks env start tid who own now defs u = (Inr added, t) \<and> x = (ticket_by_id tid t, added)"
  proof (cases "ticket_by_signal sid s")
    case (Some r)
    then have "ticket_by_id (tk_id r) s = Some r"
      using found(2) [OF Some] assms(2) the_ticket_found by (auto simp: desk_wf_def)
    then show ?thesis using assms(1) Some
      by (auto simp: create_with_tasks_body_def run_simps intro!: exI [of _ "tk_id r"])
  next
    case None
    then obtain signal tid u added where "open_ticket (en_uuid env 0) signal who p own title descr now due s = (Inr tid, u)"
      and tasks: "add_missing_tasks env 1 tid who own now defs u = (Inr added, t)" "x = (ticket_by_id tid t, added)"
      using assms(1) by (auto simp: create_with_tasks_body_def run_simps)
    then have "ticket_by_id tid u \<noteq> None" using open_ticket_Inr by (fastforce simp: Let_def)
    then show ?thesis using tasks by blast
  qed
  then show ?thesis by (metis add_missing_tasks_found fst_conv)
qed

definition ends_with :: "('s \<Rightarrow> 'a) \<Rightarrow> ('s, 'e, 'a) act \<Rightarrow> bool" where
  "ends_with f m \<longleftrightarrow> (\<forall>s x t. m s = (Inr x, t) \<longrightarrow> x = f t)"

lemma ends_with_rules:
  "ends_with f (gets f)"
  "(\<And>x. ends_with f (k x)) \<Longrightarrow> ends_with f (bindE m k)"
  by (auto simp: ends_with_def run_simps)

lemma returns_required:
  assumes "commits (same_ticket tid) m" "ends_with (ticket_by_id tid) m"
    and "\<And>s x t. m s = (Inr x, t) \<Longrightarrow> ticket_by_id tid s \<noteq> None"
    and "m s = (Inr x, t)"
  shows "\<exists>i. x = ticket_by_id i t \<and> x \<noteq> None"
  using assms unfolding commits_def ends_with_def same_ticket_def by metis

lemma requires_ticket: "bindE (require_ticket tid) k s = (Inr x, t) \<Longrightarrow> ticket_by_id tid s \<noteq> None"
  by (auto simp: run_simps)

lemma transition_body_returns:
  "transition_body tid target who note' now s = (Inr x, t) \<Longrightarrow> \<exists>i. x = ticket_by_id i t \<and> x \<noteq> None"
proof (rule returns_required)
  show "commits (same_ticket tid) (transition_body tid target who note' now)"
    unfolding transition_body_def Let_def
    by (intro presence.commits_bindE presence_statements presence.commits_gets presence.commits_guardE) simp
next
  show "ends_with (ticket_by_id tid) (transition_body tid target who note' now)"
    unfolding transition_body_def Let_def by (intro ends_with_rules)
  show "transition_body tid target who note' now s = (Inr x, t) \<Longrightarrow> ticket_by_id tid s \<noteq> None" for s x t
    unfolding transition_body_def by (rule requires_ticket)
qed

lemma field_body_returns:
  "field_body env policy tid field who action now s = (Inr x, t) \<Longrightarrow> \<exists>i. x = ticket_by_id i t \<and> x \<noteq> None"
proof (rule returns_required)
  show "commits (same_ticket tid) (field_body env policy tid field who action now)"
    unfolding field_body_def
    by (intro presence.commits_bindE presence_statements presence.commits_gets, cases field)
      (auto intro!: presence.commit_rules presence_statements)
next
  show "ends_with (ticket_by_id tid) (field_body env policy tid field who action now)"
    unfolding field_body_def by (intro ends_with_rules)
  show "field_body env policy tid field who action now s = (Inr x, t) \<Longrightarrow> ticket_by_id tid s \<noteq> None" for s x t
    unfolding field_body_def by (rule requires_ticket)
qed

lemma governance_body_returns:
  "governance_body env policy tid own p who now s = (Inr x, t) \<Longrightarrow> \<exists>i. x = ticket_by_id i t \<and> x \<noteq> None"
proof (rule returns_required)
  show "commits (same_ticket tid) (governance_body env policy tid own p who now)"
    unfolding governance_body_def
    by (intro presence.commit_rules presence_statements) simp_all
next
  show "ends_with (ticket_by_id tid) (governance_body env policy tid own p who now)"
    unfolding governance_body_def by (intro ends_with_rules)
  show "governance_body env policy tid own p who now s = (Inr x, t) \<Longrightarrow> ticket_by_id tid s \<noteq> None" for s x t
    unfolding governance_body_def by (rule requires_ticket)
qed

lemma task_not_found: "task_by_id i db = None \<longleftrightarrow> i \<notin> ta_id ` set (tasks db)"
  by (auto simp: task_by_id_def find_None_iff)

lemma update_task_ids:
  assumes "update_task i f s = (Inr u, t)" "\<And>r. ta_id (f r) = ta_id r"
  shows "ta_id ` set (tasks t) = ta_id ` set (tasks s)"
proof -
  have "ta_id ` set (map (\<lambda>r. if ta_id r = i then f r else r) (tasks s)) = ta_id ` set (tasks s)"
    by (rule image_map_if) (rule assms(2))
  then show ?thesis using assms(1) by (simp add: update_task_def act_Inr del: set_map)
qed

lemma other_task_ids:
  "touch_ticket j now s = (Inr u, t) \<Longrightarrow> tasks t = tasks s"
  "audit_event j who action now d s = (Inr u, t) \<Longrightarrow> tasks t = tasks s"
  by (auto simp: statement_Inr)

lemma task_status_body_returns:
  assumes "task_status_body i target who now s = (Inr x, t)"
  shows "x = task_by_id i t \<and> x \<noteq> None"
proof -
  obtain row where row: "task_by_id i s = Some row" and x: "x = task_by_id i t"
    and "ta_id ` set (tasks t) = ta_id ` set (tasks s)"
    using assms
    by (auto simp: task_status_body_def bindE_Inr whenE_Inr act_Inr split: option.splits if_splits
        dest!: update_task_ids other_task_ids)
  then have "task_by_id i t \<noteq> None" using task_not_found [of i s] by (simp add: task_not_found)
  then show ?thesis using x by simp
qed


lemmas atomic_rules = atomic_checked atomic_guarded atomic_transaction atomic_raise atomic_ret

lemma create_ticket_from_signal_atomic:
  "atomic_on (desk_wf (en_tz env)) (create_ticket_from_signal env signal_id actor priority owner title descr)"
  unfolding create_ticket_from_signal_def
  by (intro atomic_rules atomic_row_result create_body_run)
    (auto dest: stamp_now deadline_for create_body_returns)

lemma create_ticket_with_tasks_atomic:
  "atomic_on (desk_wf (en_tz env)) (create_ticket_with_tasks env signal_id actor docs priority owner title descr)"
  unfolding create_ticket_with_tasks_def
proof (intro atomic_checked atomic_then)
  fix sid who p own defs now due s x t
  assume now: "now_text env = Inr now" and due: "sla_due_at_for env p now = Inr due"
    and wf: "desk_wf (en_tz env) s"
    and run: "create_with_tasks_body env sid who p own title descr defs now due s = (Inr x, t)"
  have "commits (desk_run (en_tz env)) (create_with_tasks_body env sid who p own title descr defs now due)"
    by (rule create_with_tasks_body_run [OF stamp_now [OF now] deadline_for [OF due]])
  then have "desk_run (en_tz env) s t" using run unfolding commits_def by blast
  then have "desk_wf (en_tz env) t" using wf steps_wf by (auto simp: desk_run_def)
  moreover obtain i r where "fst x = Some r" "ticket_by_id i t = Some r"
    using create_with_tasks_body_returns [OF run wf] by fastforce
  ultimately show "\<exists>y u. (case x of (row, added) \<Rightarrow> bindE (row_result env row) (\<lambda>t. ret (t, added))) t = (Inr y, u)"
    by (cases x) (auto simp: bindE_def row_result_wf)
qed

lemma transition_ticket_atomic:
  "atomic_on (desk_wf (en_tz env)) (transition_ticket env ticket_id to_status actor remark)"
  unfolding transition_ticket_def
  by (intro atomic_rules atomic_row_result transition_body_run)
    (auto dest: stamp_now transition_body_returns)

lemma update_ticket_field_atomic:
  "atomic_on (desk_wf (en_tz env)) (update_ticket_field env ticket_id field actor (field_action field))"
  unfolding update_ticket_field_def
  by (intro atomic_rules atomic_row_result field_body_run) (rule field_body_returns)

lemma assign_ticket_atomic: "atomic_on (desk_wf (en_tz env)) (assign_ticket env ticket_id owner actor)"
  unfolding assign_ticket_def
  using update_ticket_field_atomic [of env ticket_id "OwnerValue _"]
  by (intro atomic_checked) (simp add: field_action_def)

lemma set_ticket_priority_atomic:
  "atomic_on (desk_wf (en_tz env)) (set_ticket_priority env ticket_id priority actor)"
  unfolding set_ticket_priority_def
  using update_ticket_field_atomic [of env ticket_id "PriorityValue _"]
  by (intro atomic_checked) (simp add: field_action_def)

lemma update_ticket_governance_atomic:
  "atomic_on (desk_wf (en_tz env)) (update_ticket_governance env ticket_id owner priority actor)"
  unfolding update_ticket_governance_def
  by (intro atomic_rules atomic_row_result governance_body_run) (rule governance_body_returns)

lemma update_task_status_atomic:
  "atomic_on (desk_wf (en_tz env)) (update_task_status env task_id status actor)"
  unfolding update_task_status_def
  by (auto intro!: atomic_rules atomic_then split: option.splits dest!: task_status_body_returns)

lemma simple_writers_atomic:
  "atomic_on I (recalculate_open_sla_deadlines env actor)"
  "atomic_on I (add_comment env ticket_id author body)"
  "atomic_on I (add_task env ticket_id actor title descr owner due_at)"
  "atomic_on I (ensure_tasks env ticket_id actor docs owner)"
  "atomic_on I (ingest_snapshot_signals env batch digest sid generated)"
  unfolding recalculate_open_sla_deadlines_def add_comment_def add_task_def ensure_tasks_def
    ingest_snapshot_signals_def Let_def
  by (intro atomic_rules)+

lemma ingest_signals_atomic: "atomic_on I (ingest_signals env batch)"
  unfolding ingest_signals_def
  by (auto intro!: atomic_rules atomic_then)


section \<open>Every writer keeps the contract\<close>

interpretation create: desk_operation "en_tz env" "create_ticket_from_signal env sid who p own title descr"
  for env sid who p own title descr
  by unfold_locales (rule create_ticket_from_signal_run create_ticket_from_signal_atomic)+

interpretation create_tasks: desk_operation "en_tz env" "create_ticket_with_tasks env sid who docs p own title descr"
  for env sid who docs p own title descr
  by unfold_locales (rule create_ticket_with_tasks_run create_ticket_with_tasks_atomic)+

interpretation transition: desk_operation "en_tz env" "transition_ticket env tid target who remark"
  for env tid target who remark
  by unfold_locales (rule transition_ticket_run transition_ticket_atomic)+

interpretation assign: desk_operation "en_tz env" "assign_ticket env tid own who" for env tid own who
  by unfold_locales (rule assign_ticket_run assign_ticket_atomic)+

interpretation reprioritise: desk_operation "en_tz env" "set_ticket_priority env tid p who" for env tid p who
  by unfold_locales (rule set_ticket_priority_run set_ticket_priority_atomic)+

interpretation recalculate: desk_operation "en_tz env" "recalculate_open_sla_deadlines env who" for env who
  by unfold_locales (rule recalculate_open_sla_deadlines_run simple_writers_atomic)+

interpretation govern: desk_operation "en_tz env" "update_ticket_governance env tid own p who" for env tid own p who
  by unfold_locales (rule update_ticket_governance_run update_ticket_governance_atomic)+

interpretation comment: desk_operation "en_tz env" "add_comment env tid who body" for env tid who body
  by unfold_locales (rule add_comment_run simple_writers_atomic)+

interpretation task: desk_operation "en_tz env" "add_task env tid who title descr own due"
  for env tid who title descr own due
  by unfold_locales (rule add_task_run simple_writers_atomic)+

interpretation ensure: desk_operation "en_tz env" "ensure_tasks env tid who docs own" for env tid who docs own
  by unfold_locales (rule ensure_tasks_run simple_writers_atomic)+

interpretation task_status: desk_operation "en_tz env" "update_task_status env i status who" for env i status who
  by unfold_locales (rule update_task_status_run update_task_status_atomic)+

interpretation ingest: desk_operation tz "ingest_signals env batch" for tz env batch
  by unfold_locales (rule ingest_signals_run ingest_signals_atomic)+

interpretation ingest_snapshot: desk_operation tz "ingest_snapshot_signals env batch digest sid generated"
  for tz env batch digest sid generated
  by unfold_locales (rule ingest_snapshot_signals_run simple_writers_atomic)+

section \<open>Histories\<close>

datatype desk_call =
    Ingest "signal_input list"
  | IngestSnapshot "signal_input list" string string string
  | Create string string string "string option" "string option" "string option"
  | CreateWithTasks string string "json list" string "string option" "string option" "string option"
  | Transition string string string "string option"
  | Assign string "string option" string
  | SetPriority string string string
  | Recalculate string
  | Govern string "string option" string string
  | Comment string string string
  | AddTask string string string "string option" "string option" "string option"
  | EnsureTasks string string "json list" "string option"
  | SetTaskStatus string string string

definition discard :: "'a desk \<Rightarrow> unit desk" where
  "discard m = bindE m (\<lambda>_. ret ())"

fun run_call :: "desk_env \<Rightarrow> desk_call \<Rightarrow> unit desk" where
  "run_call env (Ingest batch) = discard (ingest_signals env batch)"
| "run_call env (IngestSnapshot batch digest sid generated) =
     discard (ingest_snapshot_signals env batch digest sid generated)"
| "run_call env (Create sid who p own title descr) =
     discard (create_ticket_from_signal env sid who p own title descr)"
| "run_call env (CreateWithTasks sid who docs p own title descr) =
     discard (create_ticket_with_tasks env sid who docs p own title descr)"
| "run_call env (Transition tid target who note) = discard (transition_ticket env tid target who note)"
| "run_call env (Assign tid own who) = discard (assign_ticket env tid own who)"
| "run_call env (SetPriority tid p who) = discard (set_ticket_priority env tid p who)"
| "run_call env (Recalculate who) = discard (recalculate_open_sla_deadlines env who)"
| "run_call env (Govern tid own p who) = discard (update_ticket_governance env tid own p who)"
| "run_call env (Comment tid who body) = discard (add_comment env tid who body)"
| "run_call env (AddTask tid who title descr own due) = discard (add_task env tid who title descr own due)"
| "run_call env (EnsureTasks tid who docs own) = discard (ensure_tasks env tid who docs own)"
| "run_call env (SetTaskStatus i status who) = discard (update_task_status env i status who)"

definition run_calls :: "(desk_env \<times> desk_call) list \<Rightarrow> ticket_db \<Rightarrow> ticket_db" where
  "run_calls calls db = foldl (\<lambda>d (env, c). snd (run_call env c d)) db calls"

lemma discard_operation: "desk_operation tz op \<Longrightarrow> desk_operation tz (discard op)"
  unfolding desk_operation_def discard_def
  by (auto simp: steps_within_def atomic_on_def bindE_def split: prod.split sum.split)
    (metis prod.collapse snd_conv)+

interpretation call: desk_operation "en_tz env" "run_call env c" for env c
  by (cases c) (auto intro!: discard_operation create.desk_operation_axioms create_tasks.desk_operation_axioms
      transition.desk_operation_axioms assign.desk_operation_axioms reprioritise.desk_operation_axioms
      recalculate.desk_operation_axioms govern.desk_operation_axioms comment.desk_operation_axioms
      task.desk_operation_axioms ensure.desk_operation_axioms task_status.desk_operation_axioms
      ingest.desk_operation_axioms ingest_snapshot.desk_operation_axioms)

lemma run_calls_Cons: "run_calls ((env, c) # calls) db = run_calls calls (snd (run_call env c db))"
  by (simp add: run_calls_def)

lemma run_calls_steps:
  "\<forall>(env, c) \<in> set calls. en_tz env = tz \<Longrightarrow> desk_wf tz db \<Longrightarrow> (desk_step tz)\<^sup>*\<^sup>* db (run_calls calls db)"
proof (induction calls arbitrary: db)
  case (Cons ec calls)
  obtain env c where ec: "ec = (env, c)" by (cases ec)
  then have tz: "en_tz env = tz" using Cons.prems(1) by simp
  let ?d = "snd (run_call env c db)"
  have one: "(desk_step tz)\<^sup>*\<^sup>* db ?d" using call.steps [of env c db "fst (run_call env c db)" ?d] Cons.prems(2) tz by simp
  have "desk_wf tz ?d" by (rule steps_wf [OF one Cons.prems(2)])
  then have "(desk_step tz)\<^sup>*\<^sup>* ?d (run_calls calls ?d)" using Cons.IH Cons.prems(1) by simp
  with one show ?case unfolding ec run_calls_Cons by (rule rtranclp_trans)
qed (simp add: run_calls_def)

end
