(* ===== verification/TicketProperties.thy ===== *)
theory TicketProperties
  imports TicketDesk
begin

text \<open>
  The properties of the ticket desk: refinement and invariants over arbitrary histories of calls,
  the audit trail, the exact behaviour of the lifecycle, creation, governance and recalculation, and
  a concrete database on which they are applied.
\<close>

section \<open>A concrete desk\<close>

definition demo_env :: "int \<Rightarrow> desk_env" where
  "demo_env t = \<lparr>en_clock = Aware t, en_uuid = show_nat, en_sha = (\<lambda>s. s), en_tz = utc_zone,
     en_use_settings = False, en_settings = fresh_settings\<rparr>"

definition demo_fingerprint :: string where
  "demo_fingerprint = replicate 64 CHR ''a''"

definition demo_signal :: signal_row where
  "demo_signal = \<lparr>sg_id = ''signal:'' @ demo_fingerprint, sg_fingerprint = demo_fingerprint,
     sg_type = ''event'', sg_snapshot = demo_fingerprint, sg_source_id = None, sg_source_record_id = None,
     sg_evidence_json = ''{}'', sg_severity = ''high'', sg_title = ''t'', sg_description = ''d'',
     sg_occurred_at = None, sg_first_observed = ''o'', sg_last_observed = ''o'',
     sg_asset_ids_json = ''[]'', sg_action = None, sg_payload_json = ''{}'', sg_count = 1,
     sg_created_at = utc_text 0, sg_updated_at = utc_text 0\<rparr>"

definition demo_ticket :: ticket_row where
  "demo_ticket = \<lparr>tk_id = ''ticket:0'', tk_signal = sg_id demo_signal, tk_title = ''t'',
     tk_description = ''d'', tk_status = New, tk_priority = P1, tk_owner = None,
     tk_created_by = ''a'', tk_created_at = utc_text 0, tk_updated_at = utc_text 0,
     tk_sla_due = Some (utc_text (4 * hour_us)), tk_resolved_at = None, tk_closed_at = None\<rparr>"

definition demo_db :: ticket_db where
  "demo_db = add_audit (tk_id demo_ticket) ''a'' ''ticket.created'' (utc_text 0) (created_details demo_ticket)
     (empty_db\<lparr>signals := [demo_signal], tickets := [demo_ticket]\<rparr>)"

lemma demo_env_simps [simp]:
  "en_tz (demo_env t) = utc_zone" "current_policy (demo_env t) = Inr None"
  "valid_instant t \<Longrightarrow> now_text (demo_env t) = Inr (utc_text t)"
  by (simp_all add: demo_env_def current_policy_def now_text_def utc_text_of_def)

lemma plain_deadline:
  "valid_instant t \<Longrightarrow> valid_instant (t + sla_policy_hours p * hour_us) \<Longrightarrow>
   sla_due_at tz None (JStr (priority_text p)) (JStr (utc_text t))
     = Inr (utc_text (t + sla_policy_hours p * hour_us))"
  by (simp add: sla_due_at_def utc_text_of_def)

lemma demo_wf: "desk_wf utc_zone demo_db"
proof -
  have "valid_instant 0" "valid_instant (0 + sla_policy_hours P1 * hour_us)"
    by (simp_all add: valid_instant_def time_units)
  then have "deadline utc_zone P1 (utc_text 0) (utc_text (4 * hour_us))" "stamp (utc_text 0)"
    using plain_deadline [of 0 P1 utc_zone] by (auto simp: deadline_def stamp_def)
  moreover have "is_sha256_hex demo_fingerprint"
    by (simp add: is_sha256_hex_def demo_fingerprint_def list_all_iff is_hex_lower_def is_digit_def)
  ultimately show ?thesis
    by (simp add: desk_wf_def signals_wf_def tickets_wf_def children_wf_def demo_db_def empty_db_def
        add_audit_def demo_signal_def demo_ticket_def lifecycle_ok_def decision_statuses_def)
qed

lemma demo_explained: "audit_explains demo_db"
proof -
  have "replay (tk_id demo_ticket) (audit demo_db) = Some (view_of demo_ticket)"
    unfolding demo_db_def replay_add_audit [OF details_ok(1)]
    using apply_created [of demo_ticket] by (simp add: demo_ticket_def)
  then show ?thesis by (simp add: audit_explains_def demo_db_def)
qed

section \<open>Histories of calls\<close>

text \<open>C1: Refinement. Every call of the store on a well-formed database is a finite run of the desk's
  atomic, audited steps; a call that raises has changed nothing.\<close>

theorem call_refines_desk:
  assumes "run_call env c db = (r, db')" and "desk_wf (en_tz env) db"
  shows "(desk_step (en_tz env))\<^sup>*\<^sup>* db db' \<and> (\<forall>e. r = Inl e \<longrightarrow> db' = db)"
  using call.steps [OF assms] call.rolls_back [of env c db _ db'] assms by blast

lemma call_refines_desk_witness:
  "(desk_step utc_zone)\<^sup>*\<^sup>* demo_db (snd (run_call (demo_env 7) (Transition ''ticket:0'' ''closed'' ''a'' None) demo_db))"
  using call_refines_desk [of "demo_env 7" "Transition ''ticket:0'' ''closed'' ''a'' None" demo_db] demo_wf
  by (metis demo_env_simps(1) prod.collapse)

text \<open>C2: The invariant. After any history of calls on an empty database, failed ones included, the
  database is well-formed: keys and references are sound, there is one ticket per signal at most,
  resolution and closure timestamps match the status, task completion matches the task status, every
  deadline is one that the SLA policy yields for the ticket's priority and creation instant, and
  audit sequence numbers run from 1 without gaps.\<close>

theorem history_well_formed:
  assumes "\<forall>(env, c) \<in> set calls. en_tz env = tz"
  shows "desk_wf tz (run_calls calls empty_db) \<and> gap_free (run_calls calls empty_db)"
  using run_calls_steps [OF assms empty_db_wf] steps_wf empty_db_wf steps_gap_free empty_gap_free by blast

lemma history_well_formed_witness:
  "desk_wf utc_zone (run_calls [(demo_env 0, Create ''s'' ''a'' ''p1'' None None None), (demo_env 1, Recalculate ''a'')] empty_db)"
  using history_well_formed [of "[(demo_env 0, Create ''s'' ''a'' ''p1'' None None None), (demo_env 1, Recalculate ''a'')]" utc_zone] by simp

text \<open>C3: The audit trail is complete. If the audit trail explains a database (as it does the empty
  one), it explains it after any history of calls: replaying the audit events of any ticket, read
  back from their stored JSON, yields its current status, priority, owner and deadline.\<close>

theorem audit_trail_complete:
  assumes "\<forall>(env, c) \<in> set calls. en_tz env = tz" and "desk_wf tz db" and "audit_explains db"
  shows "\<forall>t \<in> set (tickets (run_calls calls db)).
    replay (tk_id t) (audit (run_calls calls db)) = Some (view_of t)"
  using steps_audit_explain [OF run_calls_steps [OF assms(1,2)] assms(3)]
  unfolding audit_explains_def .

lemma audit_trail_complete_witness:
  "audit_explains (run_calls [(demo_env 7, Transition ''ticket:0'' ''acknowledged'' ''a'' None)] demo_db)"
  unfolding audit_explains_def
  by (rule audit_trail_complete [OF _ demo_wf demo_explained]) simp

text \<open>C4: Nothing is lost. Along any history of calls the audit trail, the occurrences, the ingest markers
  and the comments only grow at their end, every ticket stays with its identity, signal and creation
  data, its status moves along permitted transitions only, and no signal disappears or loses
  observations.\<close>

theorem history_extends:
  assumes "\<forall>(env, c) \<in> set calls. en_tz env = tz" and "desk_wf tz db"
  shows "desk_extends db (run_calls calls db)"
  using run_calls_steps [OF assms] steps_extend assms(2) by blast

lemma history_extends_witness:
  "desk_extends demo_db (run_calls [(demo_env 7, Transition ''ticket:0'' ''suppressed'' ''a'' (Some ''n''))] demo_db)"
  by (rule history_extends [OF _ demo_wf]) simp


section \<open>The lifecycle\<close>

text \<open>A normalised text argument: what the validators return unchanged.\<close>

definition clean :: "nat \<Rightarrow> string \<Rightarrow> bool" where
  "clean n s \<longleftrightarrow> s \<noteq> [] \<and> strip s = s \<and> length s \<le> n"

lemma clean_required [simp]: "clean n s \<Longrightarrow> required_text label n (JStr s) = Inr s"
  by (simp add: clean_def)

lemma clean_optional: "v = None \<or> (\<exists>s. v = Some s \<and> clean n s) \<Longrightarrow> optional_text n (jopt v) = Inr v"
  by (auto simp: clean_def optional_text_def)

lemma normalize_status_text [simp]: "normalize_status (JStr (status_text st)) = Inr st"
  by (cases st) (simp_all add: normalize_status_def required_text_def strip_no_space is_space_def
      lower_def lower_char_def ticket_statuses_def)

lemma transaction_cases: "transaction m s = (case m s of (Inl e, t) \<Rightarrow> (Inl e, s) | (Inr x, t) \<Rightarrow> (Inr x, t))"
  by (simp add: transaction_def)

text \<open>C5: The lifecycle, on every branch: a decision without a note, an unknown ticket and a move that
  the transition table does not contain are rejected, in this order, without a change; any other
  move sets the status, the resolution and closure timestamps and the update time, and appends one
  audit event with the old status, the new one and the note.\<close>

theorem transition_ticket_exact:
  assumes "desk_wf (en_tz env) db" and "clean 128 tid" and "clean 256 who"
    and "remark = None \<or> (\<exists>s. remark = Some s \<and> clean 16384 s)" and "now_text env = Inr now"
  shows "transition_ticket env tid (status_text target) who remark db =
    (if target \<in> decision_statuses \<and> remark = None then (Inl (Validation (NoteRequired target)), db)
     else case ticket_by_id tid db of
       None \<Rightarrow> (Inl (TicketNotFound tid), db)
     | Some row \<Rightarrow>
         if target \<notin> transitions (tk_status row)
         then (Inl (InvalidTransition (tk_status row) target), db)
         else (Inr (moved target now row row),
               add_audit tid who ''ticket.status_changed'' now (status_details (tk_status row) target remark)
                 (put_ticket tid (moved target now row) db)))"
proof -
  let ?body = "transition_body tid target who remark now"
  have op: "transition_ticket env tid (status_text target) who remark db =
      (if target \<in> decision_statuses \<and> remark = None then (Inl (Validation (NoteRequired target)), db)
       else bindE (transaction ?body) (row_result env) db)"
    using assms(2,3,5) clean_optional [OF assms(4)]
    by (auto simp: transition_ticket_def bindE_guardE)
  show ?thesis
  proof (cases "target \<in> decision_statuses \<and> remark = None")
    case False
    show ?thesis
    proof (cases "ticket_by_id tid db")
      case None
      then show ?thesis using False
        by (simp add: op transition_body_def require_ticket_def bindE_def transaction_def gets_def)
    next
      case (Some row)
      show ?thesis
      proof (cases "target \<in> transitions (tk_status row)")
        case True
        let ?t = "add_audit tid who ''ticket.status_changed'' now (status_details (tk_status row) target remark)
          (put_ticket tid (moved target now row) db)"
        have run: "?body db = (Inr (ticket_by_id tid ?t), ?t)"
          using Some True by (simp add: transition_body_Inr)
        have readback: "ticket_by_id tid ?t = Some (moved target now row row)"
          using Some by (simp add: found_put)
        have "transition_ticket env tid (status_text target) who remark db = bindE (transaction ?body) (row_result env) db"
          unfolding op using False by (simp only: if_False)
        also have "\<dots> = row_result env (Some (moved target now row row)) ?t"
          unfolding bindE_def transaction_def run prod.case sum.case readback ..
        finally have "transition_ticket env tid (status_text target) who remark db = row_result env (Some (moved target now row row)) ?t" .
        moreover have "desk_wf (en_tz env) ?t"
          using step_wf [OF st_status [OF Some True _ stamp_now [OF assms(5)]] assms(1)] False by blast
        ultimately show ?thesis using False Some True row_result_wf [OF _ readback] by simp
      next
        case no: False
        then show ?thesis using False Some
          by (simp add: op transition_body_def require_ticket_def bindE_def transaction_def gets_def
              guardE_def Let_def)
      qed
    qed
  next
    case True
    show ?thesis unfolding op by (simp only: if_P [OF True])
  qed
qed

lemma transition_ticket_exact_witness:
  "transition_ticket (demo_env 7) ''ticket:0'' (status_text Acknowledged) ''a'' None demo_db =
    (Inr (moved Acknowledged (utc_text 7) demo_ticket demo_ticket),
     add_audit ''ticket:0'' ''a'' ''ticket.status_changed'' (utc_text 7) (status_details New Acknowledged None)
       (put_ticket ''ticket:0'' (moved Acknowledged (utc_text 7) demo_ticket) demo_db))"
proof -
  have "clean 128 ''ticket:0''" "clean 256 ''a''"
    by (simp_all add: clean_def strip_no_space is_space_def)
  moreover have "now_text (demo_env 7) = Inr (utc_text 7)" by (simp add: valid_instant_def time_units)
  moreover have "ticket_by_id ''ticket:0'' demo_db = Some demo_ticket" "tk_status demo_ticket = New"
    by (simp_all add: ticket_by_id_def demo_db_def demo_ticket_def)
  ultimately show ?thesis
    using transition_ticket_exact [of "demo_env 7" demo_db "''ticket:0''" "''a''" None "utc_text 7" Acknowledged] demo_wf
    by (simp add: decision_statuses_def)
qed

end
