(* ===== verification/Utf8.thy ===== *)
theory Utf8
  imports PyJson
begin

text \<open>
  \<open>str.encode("utf-8")\<close> and \<open>bytes.decode("utf-8")\<close> on the code points of the model (below 256). A byte
  string is a list of characters read as bytes; a multi-byte sequence for a code point outside the
  model is not decoded. The search for credential material of \<open>contract.py\<close> is here as well.
\<close>

definition utf8_char :: "char \<Rightarrow> string" where
  "utf8_char c = (let n = of_char c :: nat in
     if n < 128 then [c] else [char_of (192 + n div 64), char_of (128 + n mod 64)])"

definition utf8 :: "string \<Rightarrow> string" where
  "utf8 s = concat (map utf8_char s)"

fun utf8_decode :: "string \<Rightarrow> string option" where
  "utf8_decode [] = Some []"
| "utf8_decode (b # s) =
     (let n = of_char b :: nat in
      if n < 128 then map_option ((#) b) (utf8_decode s)
      else if n = 194 \<or> n = 195 then
        (case s of
           [] \<Rightarrow> None
         | b' # s' \<Rightarrow>
             (let m = of_char b' :: nat in
              if 128 \<le> m \<and> m < 192 then map_option ((#) (char_of ((n - 192) * 64 + (m - 128)))) (utf8_decode s')
              else None))
      else None)"

lemma decode_char: "utf8_decode (utf8_char c @ s) = map_option ((#) c) (utf8_decode s)"
proof -
  let ?n = "of_char c :: nat"
  have n: "?n < 256" by (rule nat_of_char_less_256)
  show ?thesis
  proof (cases "?n < 128")
    case True
    then show ?thesis by (simp add: utf8_char_def Let_def)
  next
    case False
    then have q: "?n div 64 = 2 \<or> ?n div 64 = 3" using n by linarith
    obtain b b' :: char where b: "b = char_of (192 + ?n div 64)" "b' = char_of (128 + ?n mod 64)" by blast
    have m: "?n mod 64 < 64" by simp
    have vb: "(of_char b :: nat) = 192 + ?n div 64" using q by (auto simp: b)
    have vb': "(of_char b' :: nat) = 128 + ?n mod 64" using m unfolding b(2) of_char_of by simp
    have "(of_char b :: nat) = 194 \<or> (of_char b :: nat) = 195" "\<not> (of_char b :: nat) < 128" using q vb by auto
    moreover have "128 \<le> (of_char b' :: nat) \<and> (of_char b' :: nat) < 192" using vb' m by simp
    moreover have "((of_char b :: nat) - 192) * 64 + ((of_char b' :: nat) - 128) = ?n" unfolding vb vb' by simp
    moreover have "utf8_char c = [b, b']" using False by (simp add: utf8_char_def Let_def b)
    ultimately show ?thesis by (simp only: append.simps utf8_decode.simps Let_def if_False if_True list.case char_of_char simp_thms)
  qed
qed

lemma decode_encode [simp]: "utf8_decode (utf8 s) = Some s"
  by (induction s) (simp_all add: utf8_def decode_char)

lemma utf8_inj: "utf8 s = utf8 t \<Longrightarrow> s = t"
  by (metis decode_encode option.inject)

lemma utf8_append: "utf8 (s @ t) = utf8 s @ utf8 t"
  by (simp add: utf8_def)

section \<open>Credential material\<close>

text \<open>\<open>re.search\<close> for one of a list of words, and the two patterns of URLs.\<close>

definition contains_any :: "string list \<Rightarrow> string \<Rightarrow> bool" where
  "contains_any ws s \<longleftrightarrow> list_ex (\<lambda>w. list_ex (prefix w) (suffixes s)) ws"

definition joined :: "string list \<Rightarrow> string list" where
  "joined parts = foldl (\<lambda>acc p. concat (map (\<lambda>a. [a @ p, a @ ''_'' @ p, a @ ''-'' @ p]) acc)) [hd parts] (tl parts)"

definition forbidden_keys :: "string list" where
  "forbidden_keys = [''password'', ''passwd'', ''authorization'', ''credential'']
     @ joined [''api'', ''key''] @ joined [''x'', ''token'', ''id''] @ joined [''access'', ''token'']
     @ joined [''refresh'', ''token''] @ joined [''client'', ''secret''] @ joined [''private'', ''key'']"

definition forbidden_key :: "string \<Rightarrow> bool" where
  "forbidden_key k \<longleftrightarrow> contains_any forbidden_keys (lower k)"

text \<open>The remainder behind one of the given prefixes.\<close>

definition behind :: "string list \<Rightarrow> string \<Rightarrow> string list" where
  "behind ws s = concat (map (\<lambda>w. if prefix w s then [drop (length w) s] else []) ws)"

definition userinfo_at :: "string \<Rightarrow> bool" where
  "userinfo_at s \<longleftrightarrow> list_ex (\<lambda>r.
     let first = (\<lambda>c. \<not> is_space c \<and> c \<notin> {CHR ''/'', CHR '':'', CHR ''@''});
         second = (\<lambda>c. \<not> is_space c \<and> c \<notin> {CHR ''/'', CHR ''@''});
         user = takeWhile first r; rest = dropWhile first r in
     user \<noteq> [] \<and> prefix '':'' rest \<and> takeWhile second (tl rest) \<noteq> []
       \<and> prefix ''@'' (dropWhile second (tl rest))) (behind [''http://'', ''https://''] (lower s))"

definition secret_query_at :: "string \<Rightarrow> bool" where
  "secret_query_at s \<longleftrightarrow> (prefix ''?'' s \<or> prefix ''&'' s) \<and> list_ex (\<lambda>r.
     case r of [] \<Rightarrow> False | c # _ \<Rightarrow> c \<notin> {CHR ''&'', CHR ''#''} \<and> \<not> is_space c)
     (behind (map (\<lambda>w. w @ ''='') ([''token''] @ joined [''api'', ''key''] @ [''password'', ''secret'', ''authorization'']))
        (lower (tl s)))"

definition text_leaks :: "string \<Rightarrow> string \<Rightarrow> string list" where
  "text_leaks path s =
     (if list_ex userinfo_at (suffixes s) then [path @ '': URL con credenziali incorporate''] else [])
     @ (if list_ex secret_query_at (suffixes s) then [path @ '': parametro segreto in URL''] else [])"

lemma enumerated_smaller [termination_simp]: "(i, x) \<in> set (enumerate n xs) \<Longrightarrow> size x < Suc (size_list size xs)"
proof -
  assume "(i, x) \<in> set (enumerate n xs)"
  then have "x \<in> set xs" by (metis map_snd_enumerate list.set_map image_eqI snd_conv)
  then have "size x \<le> size_list size xs" by (induction xs) auto
  then show ?thesis by simp
qed

fun find_secret_leaks :: "json \<Rightarrow> string \<Rightarrow> string list" where
  "find_secret_leaks (JObj kvs) path =
     concat (map (\<lambda>(k, v). (if forbidden_key k then [path @ ''.'' @ k @ '': nome campo sensibile''] else [])
       @ find_secret_leaks v (path @ ''.'' @ k)) kvs)"
| "find_secret_leaks (JArr xs) path =
     concat (map (\<lambda>(i, x). find_secret_leaks x (path @ ''['' @ show_nat i @ '']'')) (enumerate 0 xs))"
| "find_secret_leaks (JStr s) path = text_leaks path s"
| "find_secret_leaks v path = []"

end
