(* ===== verification/PlcWrite.thy ===== *)
theory PlcWrite
  imports Complex_Main PyJson PyTime
begin

text \<open>
  The first half of the endpoint sensor's \<open>core.py\<close>: what it takes from a decoded Modbus request.
  A request object of the Modbus library is the association list of its attributes
  (\<open>getattr(request, k, None)\<close> is \<open>get_item\<close>), whose values are JSON-like; the sensor's
  configuration is the JSON object it was loaded from. \<open>BadArgument\<close> is the \<open>TypeError\<close> or
  \<open>ValueError\<close> of \<open>int(...)\<close> and of iterating over a value that is not a collection.
\<close>

type_synonym attributes = "(string \<times> json) list"

datatype sensor_error = BadArgument

definition write_function_codes :: "int set" where
  "write_function_codes = {5, 6, 15, 16, 22, 23}"

section \<open>Numbers and values\<close>

text \<open>\<open>_integer(value, default)\<close>\<close>

definition integer_or :: "json \<Rightarrow> int option \<Rightarrow> int option" where
  "integer_or v d = (case py_int v of None \<Rightarrow> d | Some i \<Rightarrow> Some i)"

text \<open>The slice \<open>xs[:n]\<close>.\<close>

definition slice_to :: "int \<Rightarrow> 'a list \<Rightarrow> 'a list" where
  "slice_to n xs = (if 0 \<le> n then take (nat n) xs else take (nat (int (length xs) + n)) xs)"

text \<open>A value that is not a list stands for the list of itself.\<close>

definition as_list :: "json \<Rightarrow> json list" where
  "as_list v = (case v of JArr xs \<Rightarrow> xs | _ \<Rightarrow> [v])"

definition bounded_values :: "json \<Rightarrow> int \<Rightarrow> int list \<times> bool" where
  "bounded_values values maximum =
     (if values = JNull then ([], False)
      else let normalized = List.map_filter py_int (as_list values)
           in (slice_to maximum normalized, maximum < int (length normalized)))"

section \<open>One write\<close>

record operation =
  op_function :: int
  op_unit :: int
  op_address :: int
  op_quantity :: int
  op_values :: "int list"
  op_values_sha :: string
  op_truncated :: bool

text \<open>Where the request keeps its values: \<open>write_registers\<close> or \<open>values\<close> for function 23, \<open>values\<close>
  or a single \<open>value\<close> for the others.\<close>

definition raw_values :: "int \<Rightarrow> attributes \<Rightarrow> json" where
  "raw_values fc req =
     (if fc = 23 then
        (if get_item req ''write_registers'' = JNull then get_item req ''values''
         else get_item req ''write_registers'')
      else if get_item req ''values'' = JNull \<and> map_of req ''value'' \<noteq> None
        then JArr [get_item req ''value'']
      else get_item req ''values'')"

definition write_quantity :: "int \<Rightarrow> attributes \<Rightarrow> int list \<Rightarrow> int" where
  "write_quantity fc req values =
     (let q = integer_or (get_item req ''count'') None;
          q' = (if fc = 23 then integer_or (get_item req ''write_count'') q else q)
      in case q' of Some n \<Rightarrow> n | None \<Rightarrow> if values = [] then 1 else int (length values))"

definition extract_modbus_write :: "(string \<Rightarrow> string) \<Rightarrow> attributes \<Rightarrow> int \<Rightarrow> operation option" where
  "extract_modbus_write sha req max_values =
     (case integer_or (get_item req ''function_code'') None of
        None \<Rightarrow> None
      | Some fc \<Rightarrow>
          if fc \<notin> write_function_codes then None
          else
            let unit = integer_or (get_item req ''unit_id'') (Some 0);
                address = integer_or (get_item req (if fc = 23 then ''write_address'' else ''address'')) None;
                raw = raw_values fc req;
                values = bounded_values raw max_values;
                full = (if raw = JNull then [] else as_list raw)
            in Some \<lparr>op_function = fc, op_unit = the unit,
                 op_address = (case address of None \<Rightarrow> 0 | Some a \<Rightarrow> a),
                 op_quantity = max 1 (write_quantity fc req (fst values)),
                 op_values = fst values, op_values_sha = sha (dumps True (JArr full)),
                 op_truncated = snd values\<rparr>)"

section \<open>The source of a write\<close>

datatype source_class = PlcSelf | AuthorizedHmi | SecurityTest | UnknownSource

fun source_class_text :: "source_class \<Rightarrow> string" where
  "source_class_text PlcSelf = ''plc_self''"
| "source_class_text AuthorizedHmi = ''authorized_hmi''"
| "source_class_text SecurityTest = ''security_test''"
| "source_class_text UnknownSource = ''unknown''"

text \<open>\<open>set(str(item) for item in config.get(k, []))\<close>\<close>

definition address_list :: "attributes \<Rightarrow> string \<Rightarrow> sensor_error + string list" where
  "address_list cfg k = (case map_of cfg k of
     None \<Rightarrow> Inr []
   | Some (JArr xs) \<Rightarrow> Inr (map py_str xs)
   | Some (JStr s) \<Rightarrow> Inr (map (\<lambda>c. [c]) s)
   | Some (JObj kvs) \<Rightarrow> Inr (map fst kvs)
   | Some _ \<Rightarrow> Inl BadArgument)"

definition classify_source :: "string \<Rightarrow> string \<Rightarrow> attributes \<Rightarrow> sensor_error + source_class" where
  "classify_source source_ip destination_ip cfg =
     bindR (address_list cfg ''local_ips'') (\<lambda>local_ips.
     if source_ip \<noteq> [] \<and> (source_ip = destination_ip \<or> source_ip \<in> set local_ips) then Inr PlcSelf else
     bindR (address_list cfg ''authorized_hmi_ips'') (\<lambda>hmi.
     if source_ip \<in> set hmi then Inr AuthorizedHmi else
     bindR (address_list cfg ''security_test_ips'') (\<lambda>tests.
     if source_ip \<in> set tests then Inr SecurityTest else Inr UnknownSource)))"

section \<open>Observations\<close>

datatype outcome_state = Processed | Rejected | UnknownOutcome

fun outcome_text :: "outcome_state \<Rightarrow> string" where
  "outcome_text Processed = ''processed''"
| "outcome_text Rejected = ''rejected''"
| "outcome_text UnknownOutcome = ''unknown''"

definition outcome_of :: "string \<Rightarrow> outcome_state" where
  "outcome_of s = (if s = ''processed'' then Processed
     else if s = ''rejected'' then Rejected else UnknownOutcome)"

record plc_source =
  so_ip :: string
  so_port :: "int option"
  so_class :: source_class

record plc_destination =
  de_asset :: string
  de_ip :: string
  de_port :: int
  de_unit :: int

record observation =
  ob_at :: string
  ob_epoch :: rat
  ob_source :: plc_source
  ob_destination :: plc_destination
  ob_operation :: operation
  ob_outcome :: outcome_state

definition text_or_empty :: "json \<Rightarrow> string" where
  "text_or_empty v = (if truthy v then py_str v else [])"

definition config_int :: "attributes \<Rightarrow> string \<Rightarrow> int \<Rightarrow> sensor_error + int" where
  "config_int cfg k d = (case map_of cfg k of
     None \<Rightarrow> Inr d
   | Some v \<Rightarrow> (case py_int v of None \<Rightarrow> Inl BadArgument | Some i \<Rightarrow> Inr i))"

text \<open>\<open>make_observation\<close>, with the two clock readings as arguments; the endpoints are the
  dictionaries with \<open>ip\<close> and \<open>port\<close>.\<close>

definition make_observation ::
  "(string \<Rightarrow> string) \<Rightarrow> attributes \<Rightarrow> attributes \<Rightarrow> attributes \<Rightarrow> string \<Rightarrow> attributes \<Rightarrow> string \<Rightarrow> rat
   \<Rightarrow> sensor_error + observation option" where
  "make_observation sha req source destination outcome cfg observed_at epoch =
     bindR (config_int cfg ''max_values_per_write'' 32) (\<lambda>max_values.
     case extract_modbus_write sha req max_values of
       None \<Rightarrow> Inr None
     | Some op \<Rightarrow>
         let source_ip = text_or_empty (get_item source ''ip'');
             configured = get_item cfg ''destination_ip'';
             destination_ip = text_or_empty (if truthy configured then configured else get_item destination ''ip'')
         in bindR (classify_source source_ip destination_ip cfg) (\<lambda>cls.
            Inr (Some \<lparr>ob_at = observed_at, ob_epoch = epoch,
              ob_source = \<lparr>so_ip = source_ip, so_port = integer_or (get_item source ''port'') None,
                so_class = cls\<rparr>,
              ob_destination = \<lparr>de_asset = text_or_empty (get_item cfg ''destination_asset_id''),
                de_ip = destination_ip, de_port = 502, de_unit = op_unit op\<rparr>,
              ob_operation = op, ob_outcome = outcome_of outcome\<rparr>)))"

section \<open>What an extracted write satisfies\<close>

lemma slice_to_length: "0 \<le> n \<Longrightarrow> int (length (slice_to n xs)) \<le> n"
  by (simp add: slice_to_def)

lemma extract_facts:
  assumes "extract_modbus_write sha req m = Some op"
  shows "op_function op \<in> write_function_codes" "1 \<le> op_quantity op"
    "0 \<le> m \<Longrightarrow> int (length (op_values op)) \<le> m"
  using assms slice_to_length
  by (auto simp: extract_modbus_write_def bounded_values_def Let_def split: option.splits if_splits)

end
