(* ===== verification/PlcState.thy ===== *)
theory PlcState
  imports PlcWrite
begin

text \<open>
  \<open>StateStore\<close> of the endpoint sensor's \<open>spool.py\<close>: the boot identity and the next episode
  sequence, kept in a small JSON file that is replaced atomically. The file is its content, \<open>None\<close>
  while it does not exist; failures of the file system are outside the model.
\<close>

datatype spool_error =
    StateUnreadable | StateVersion | LastRecordInvalid | SpoolFull
  | EnvelopeSchema | EnvelopeIncomplete | EnvelopeAlgorithm | EnvelopePayload | ChainBroken
  | EnvelopeSignature | EnvelopeRecordHash | EnvelopeRecordId | EnvelopeJson
  | SpoolTypeError | KeyInvalid | KeyTooShort

record state_store =
  ss_boot :: string
  ss_next :: int
  ss_file :: "string option"

definition canonical_json :: "json \<Rightarrow> string" where
  "canonical_json v = dumps True v"

definition state_payload :: "string \<Rightarrow> int \<Rightarrow> json" where
  "state_payload boot n = JObj [(''schema_version'', JStr ''dtlab-plc-endpoint-state-v1''),
     (''boot_id'', JStr boot), (''next_episode_sequence'', JInt n)]"

definition save_state :: "state_store \<Rightarrow> state_store" where
  "save_state s = s\<lparr>ss_file := Some (canonical_json (state_payload (ss_boot s) (ss_next s)) @ [CHR 0x0A])\<rparr>"

text \<open>\<open>StateStore(path, boot_id)\<close>: the constructor and \<open>_load\<close>.\<close>

definition open_state :: "string \<Rightarrow> string option \<Rightarrow> spool_error + state_store" where
  "open_state boot file =
     (let fresh = \<lparr>ss_boot = boot, ss_next = 0, ss_file = file\<rparr> in
      case file of
        None \<Rightarrow> Inr (save_state fresh)
      | Some content \<Rightarrow>
          (case loads content of
             None \<Rightarrow> Inl StateUnreadable
           | Some value \<Rightarrow>
               if \<not> is_obj value then Inl SpoolTypeError
               else if jget value ''schema_version'' \<noteq> JStr ''dtlab-plc-endpoint-state-v1'' then Inl StateVersion
               else if text_or_empty (jget value ''boot_id'') = boot then
                 (case map_of (entries value) ''next_episode_sequence'' of
                    None \<Rightarrow> Inr fresh
                  | Some v \<Rightarrow> (case py_int v of
                      None \<Rightarrow> Inl SpoolTypeError | Some n \<Rightarrow> Inr (fresh\<lparr>ss_next := n\<rparr>)))
               else Inr (save_state fresh)))"

definition allocate_episode_sequence :: "state_store \<Rightarrow> int \<times> state_store" where
  "allocate_episode_sequence s = (ss_next s, save_state (s\<lparr>ss_next := ss_next s + 1\<rparr>))"

section \<open>Sequences survive a restart\<close>

text \<open>What every store holds from its creation on: the file is the image of the memory.\<close>

definition state_synced :: "state_store \<Rightarrow> bool" where
  "state_synced s \<longleftrightarrow> ss_boot s \<noteq> [] \<and>
     ss_file s = Some (canonical_json (state_payload (ss_boot s) (ss_next s)) @ [CHR 0x0A])"

lemma allocate_simps [simp]:
  "fst (allocate_episode_sequence s) = ss_next s"
  "ss_next (snd (allocate_episode_sequence s)) = ss_next s + 1"
  "ss_boot (snd (allocate_episode_sequence s)) = ss_boot s"
  by (simp_all add: allocate_episode_sequence_def save_state_def)

lemma allocate_synced: "ss_boot s \<noteq> [] \<Longrightarrow> state_synced (snd (allocate_episode_sequence s))"
  by (simp add: state_synced_def allocate_episode_sequence_def save_state_def)

lemma open_fresh: "open_state boot None = Inr s \<Longrightarrow> boot \<noteq> [] \<Longrightarrow> state_synced s \<and> ss_next s = 0"
  by (auto simp: open_state_def save_state_def state_synced_def Let_def)

lemma open_saved:
  assumes "boot \<noteq> []"
  shows "open_state boot' (Some (canonical_json (state_payload boot n) @ [CHR 0x0A])) =
    Inr (if boot = boot' then \<lparr>ss_boot = boot', ss_next = n,
           ss_file = Some (canonical_json (state_payload boot n) @ [CHR 0x0A])\<rparr>
         else save_state \<lparr>ss_boot = boot', ss_next = 0,
           ss_file = Some (canonical_json (state_payload boot n) @ [CHR 0x0A])\<rparr>)"
proof -
  have ok: "json_ok (state_payload boot n)" by (simp add: state_payload_def)
  have ld: "loads (canonical_json (state_payload boot n) @ [CHR 0x0A]) = Some (canon (state_payload boot n))"
    unfolding canonical_json_def by (rule loads_dumps(2) [OF ok])
  have obj: "is_obj (state_payload boot n)" by (simp add: state_payload_def)
  have get: "jget (canon (state_payload boot n)) k = canon (jget (state_payload boot n) k)" for k
    by (rule jget_canon [OF ok obj])
  have mp: "map_of (entries (canon (state_payload boot n))) ''next_episode_sequence'' = Some (JInt n)"
    unfolding state_payload_def by (subst map_of_canon) simp_all
  have fields: "jget (canon (state_payload boot n)) ''schema_version'' = JStr ''dtlab-plc-endpoint-state-v1''"
    "jget (canon (state_payload boot n)) ''boot_id'' = JStr boot"
    unfolding get by (simp_all add: state_payload_def jget_def get_item_def)
  have obj': "is_obj (canon (state_payload boot n))" by (simp add: state_payload_def)
  have boottext: "text_or_empty (JStr boot) = boot" using assms by (simp add: text_or_empty_def)
  show ?thesis
    unfolding open_state_def Let_def option.case ld fields mp boottext using obj' by (simp add: py_int_def)
qed

text \<open>Reopening during the same boot continues the numbering; a new boot starts again from zero.\<close>

lemma reopen_state:
  assumes "state_synced s"
  shows "open_state boot (ss_file s) =
    Inr (if ss_boot s = boot then s else save_state \<lparr>ss_boot = boot, ss_next = 0, ss_file = ss_file s\<rparr>)"
  using assms open_saved [of "ss_boot s" boot "ss_next s"] by (cases s) (auto simp: state_synced_def)

end
