(* ===== verification/PlcEpisodes.thy ===== *)
theory PlcEpisodes
  imports PlcState "HOL-Library.Product_Lexorder"
begin

text \<open>
  \<open>EpisodeAggregator\<close> of the endpoint sensor's \<open>core.py\<close>: writes of one peer to one unit are merged
  into an episode, and an episode is reported in numbered revisions. The dictionaries of episodes
  and of operation buckets are association lists in insertion order. Epoch seconds are exact
  rationals (the code subtracts floats). An emitted revision is the episode as it was rendered;
  \<open>event_json\<close> is the document that \<open>_render\<close> builds from it.
\<close>

section \<open>Episodes\<close>

record bucket =
  bk_function :: int
  bk_address :: int
  bk_quantity :: int
  bk_values :: "int list"
  bk_sha :: string
  bk_truncated :: bool
  bk_count :: nat

type_synonym write_key = "int \<times> int \<times> int \<times> string"
type_synonym episode_key = "string \<times> int option \<times> string \<times> int \<times> int"

record outcome_counts =
  oc_processed :: nat
  oc_rejected :: nat
  oc_unknown :: nat

record episode =
  ep_id :: string
  ep_sequence :: int
  ep_revision :: nat
  ep_first_at :: string
  ep_last_at :: string
  ep_first_epoch :: rat
  ep_last_epoch :: rat
  ep_last_emit :: "rat option"
  ep_source :: plc_source
  ep_destination :: plc_destination
  ep_codes :: "int list"
  ep_writes :: "(write_key \<times> bucket) list"
  ep_requests :: nat
  ep_dropped :: nat
  ep_states :: outcome_counts
  ep_last_outcome :: outcome_state
  ep_seen :: "(int \<times> rat) list"
  ep_shutdown :: bool
  ep_dirty :: bool

record agg_params =
  ap_sensor :: string
  ap_version :: string
  ap_boot :: string
  ap_emit :: rat
  ap_quiet :: rat
  ap_window :: rat
  ap_buckets :: int
  ap_sha :: "string \<Rightarrow> string"

record aggregator =
  ag_episodes :: "(episode_key \<times> episode) list"
  ag_state :: state_store

definition shutdown_addresses :: "int list" where
  "shutdown_addresses = [3, 4, 16]"

definition episode_key :: "observation \<Rightarrow> episode_key" where
  "episode_key ob = (so_ip (ob_source ob), so_port (ob_source ob),
     de_ip (ob_destination ob), de_port (ob_destination ob), de_unit (ob_destination ob))"

definition episode_identity :: "agg_params \<Rightarrow> int \<Rightarrow> string" where
  "episode_identity P n = ''episode:dtlab-host-ot:''
     @ ap_sha P (ap_sensor P @ ''|'' @ ap_boot P @ ''|'' @ show_int n)"

definition new_episode :: "agg_params \<Rightarrow> int \<Rightarrow> observation \<Rightarrow> episode" where
  "new_episode P n ob = \<lparr>ep_id = episode_identity P n, ep_sequence = n, ep_revision = 0,
     ep_first_at = ob_at ob, ep_last_at = ob_at ob, ep_first_epoch = ob_epoch ob,
     ep_last_epoch = ob_epoch ob, ep_last_emit = None, ep_source = ob_source ob,
     ep_destination = ob_destination ob, ep_codes = [], ep_writes = [], ep_requests = 0,
     ep_dropped = 0, ep_states = \<lparr>oc_processed = 0, oc_rejected = 0, oc_unknown = 0\<rparr>,
     ep_last_outcome = UnknownOutcome, ep_seen = [], ep_shutdown = False, ep_dirty = False\<rparr>"

definition write_key :: "operation \<Rightarrow> write_key" where
  "write_key op = (op_function op, op_address op, op_quantity op, op_values_sha op)"

definition new_bucket :: "operation \<Rightarrow> bucket" where
  "new_bucket op = \<lparr>bk_function = op_function op, bk_address = op_address op,
     bk_quantity = op_quantity op, bk_values = op_values op, bk_sha = op_values_sha op,
     bk_truncated = op_truncated op, bk_count = 0\<rparr>"

section \<open>Consuming one observation\<close>

definition shutdown_write :: "operation \<Rightarrow> bool" where
  "shutdown_write op \<longleftrightarrow> op_function op = 6 \<and> op_quantity op = 1 \<and> op_values op = [0]
     \<and> op_address op \<in> set shutdown_addresses"

definition span_within :: "rat \<Rightarrow> rat list \<Rightarrow> bool" where
  "span_within window ts \<longleftrightarrow> fold max ts (hd ts) - fold min ts (hd ts) \<le> window"

definition update_shutdown_correlation :: "agg_params \<Rightarrow> operation \<Rightarrow> rat \<Rightarrow> episode \<Rightarrow> bool \<times> episode" where
  "update_shutdown_correlation P op now ep =
     (if \<not> shutdown_write op then (False, ep)
      else
        let seen = AList.update (op_address op) now (ep_seen ep);
            ep' = ep\<lparr>ep_seen := seen\<rparr> in
        if set (map fst seen) \<noteq> set shutdown_addresses then (False, ep')
        else
          let stamps = map (\<lambda>a. the (map_of seen a)) shutdown_addresses;
              matched = span_within (ap_window P) stamps
          in (matched \<and> \<not> ep_shutdown ep, ep'\<lparr>ep_shutdown := matched\<rparr>))"

definition count_outcome :: "outcome_state \<Rightarrow> outcome_counts \<Rightarrow> outcome_counts" where
  "count_outcome st c = (case st of
     Processed \<Rightarrow> c\<lparr>oc_processed := oc_processed c + 1\<rparr>
   | Rejected \<Rightarrow> c\<lparr>oc_rejected := oc_rejected c + 1\<rparr>
   | UnknownOutcome \<Rightarrow> c\<lparr>oc_unknown := oc_unknown c + 1\<rparr>)"

definition count_write :: "agg_params \<Rightarrow> operation \<Rightarrow> episode \<Rightarrow> episode" where
  "count_write P op ep =
     (case map_of (ep_writes ep) (write_key op) of
        Some b \<Rightarrow> ep\<lparr>ep_writes := AList.update (write_key op) (b\<lparr>bk_count := bk_count b + 1\<rparr>) (ep_writes ep)\<rparr>
      | None \<Rightarrow>
          if ap_buckets P \<le> int (length (ep_writes ep)) then ep\<lparr>ep_dropped := ep_dropped ep + 1\<rparr>
          else ep\<lparr>ep_writes := AList.update (write_key op) ((new_bucket op)\<lparr>bk_count := 1\<rparr>) (ep_writes ep)\<rparr>)"

definition update_episode :: "agg_params \<Rightarrow> observation \<Rightarrow> episode \<Rightarrow> bool \<times> episode" where
  "update_episode P ob ep =
     (let op = ob_operation ob;
          ep1 = ep\<lparr>ep_last_at := ob_at ob, ep_last_epoch := ob_epoch ob,
                  ep_requests := ep_requests ep + 1, ep_codes := List.insert (op_function op) (ep_codes ep),
                  ep_states := count_outcome (ob_outcome ob) (ep_states ep),
                  ep_last_outcome := ob_outcome ob\<rparr>;
          ep2 = count_write P op ep1;
          (escalated, ep3) = update_shutdown_correlation P op (ob_epoch ob) ep2
      in (escalated, ep3\<lparr>ep_dirty := True\<rparr>))"

section \<open>Revisions\<close>

definition rendered :: "episode \<Rightarrow> episode" where
  "rendered ep = ep\<lparr>ep_revision := ep_revision ep + 1, ep_last_emit := Some (ep_last_epoch ep),
     ep_dirty := False\<rparr>"

definition truth_text :: "outcome_state \<Rightarrow> string" where
  "truth_text st = (case st of Processed \<Rightarrow> ''endpoint_server_processed''
     | Rejected \<Rightarrow> ''endpoint_server_rejected'' | UnknownOutcome \<Rightarrow> ''endpoint_request_observed'')"

definition port_json :: "int option \<Rightarrow> json" where
  "port_json p = (case p of None \<Rightarrow> JNull | Some n \<Rightarrow> JInt n)"

definition source_json :: "plc_source \<Rightarrow> json" where
  "source_json s = JObj [(''ip'', JStr (so_ip s)), (''port'', port_json (so_port s)),
     (''classification'', JStr (source_class_text (so_class s)))]"

definition destination_json :: "plc_destination \<Rightarrow> json" where
  "destination_json d = JObj [(''asset_id'', JStr (de_asset d)), (''ip'', JStr (de_ip d)),
     (''port'', JInt (de_port d)), (''unit_id'', JInt (de_unit d))]"

definition bucket_json :: "bucket \<Rightarrow> json" where
  "bucket_json b = JObj [(''function_code'', JInt (bk_function b)), (''address'', JInt (bk_address b)),
     (''quantity'', JInt (bk_quantity b)), (''values'', JArr (map JInt (bk_values b))),
     (''values_sha256'', JStr (bk_sha b)), (''values_truncated'', JBool (bk_truncated b)),
     (''count'', JInt (int (bk_count b)))]"

definition bucket_order :: "bucket \<Rightarrow> write_key" where
  "bucket_order b = (bk_function b, bk_address b, bk_quantity b, bk_sha b)"

definition sorted_buckets :: "episode \<Rightarrow> bucket list" where
  "sorted_buckets ep = sort_key bucket_order (map snd (ep_writes ep))"

definition modbus_json :: "episode \<Rightarrow> json" where
  "modbus_json ep = JObj [(''operation'', JStr ''write''),
     (''function_codes'', JArr (map JInt (sort (ep_codes ep)))),
     (''writes'', JArr (map bucket_json (sorted_buckets ep))),
     (''request_count'', JInt (int (ep_requests ep))),
     (''dropped_operation_buckets'', JInt (int (ep_dropped ep)))]"

definition outcome_json :: "episode \<Rightarrow> json" where
  "outcome_json ep = JObj [(''states'', JObj [(''processed'', JInt (int (oc_processed (ep_states ep)))),
       (''rejected'', JInt (int (oc_rejected (ep_states ep)))),
       (''unknown'', JInt (int (oc_unknown (ep_states ep))))]),
     (''last_state'', JStr (outcome_text (ep_last_outcome ep)))]"

definition detection_json :: "bool \<Rightarrow> json" where
  "detection_json shutdown = JObj [
     (''rule_id'', JStr (if shutdown then ''DTLAB-MODBUS-SHUTDOWN-SEQUENCE'' else ''DTLAB-MODBUS-WRITE-OBSERVED'')),
     (''classification'', JStr (if shutdown then ''process_shutdown_sequence'' else ''modbus_write'')),
     (''severity'', JStr (if shutdown then ''critical'' else ''high'')),
     (''priority'', JStr (if shutdown then ''p1'' else ''p2'')),
     (''policy_decision'', JStr ''alert''),
     (''reason'', JStr (if shutdown then ''FC06 3=0, 4=0 e 16=0 osservati nella finestra di correlazione.''
        else ''Scrittura Modbus/TCP osservata dal sensore endpoint PLC.''))]"

definition sensor_json :: "string \<Rightarrow> string \<Rightarrow> json" where
  "sensor_json i v = JObj [(''id'', JStr i), (''version'', JStr v), (''capture_kind'', JStr ''server_hook'')]"

definition host_ot_source_id :: string where
  "host_ot_source_id = ''src:dtlab-host-ot:plc-desktop''"

definition evidence_json :: "string \<Rightarrow> string \<Rightarrow> string list \<Rightarrow> json" where
  "evidence_json truth event_id notes = JObj [(''truth'', JStr truth), (''source_id'', JStr host_ot_source_id),
     (''source_record_id'', JStr event_id), (''notes'', JArr (map JStr notes))]"

definition episode_notes :: "string list" where
  "episode_notes = [''Evidenza prodotta dal sensore endpoint PLC, non da Cisco Cyber Vision.'',
     ''L'indirizzo IP non identifica il processo o l'intento dell'operatore.'']"

definition event_fields :: "agg_params \<Rightarrow> episode \<Rightarrow> (string \<times> json) list" where
  "event_fields P ep =
     [(''schema_version'', JStr ''dtlab-host-ot-event-v1''), (''event_type'', JStr ''modbus_write''),
      (''event_id'', JStr (ep_id ep)), (''episode_id'', JStr (ep_id ep)),
      (''revision'', JInt (int (ep_revision ep))), (''episode_sequence'', JInt (ep_sequence ep)),
      (''boot_id'', JStr (ap_boot P)), (''first_observed_at'', JStr (ep_first_at ep)),
      (''last_observed_at'', JStr (ep_last_at ep)), (''timestamp_basis'', JStr ''endpoint_utc''),
      (''sensor'', sensor_json (ap_sensor P) (ap_version P)), (''source'', source_json (ep_source ep)),
      (''destination'', destination_json (ep_destination ep)), (''modbus'', modbus_json ep),
      (''outcome'', outcome_json ep), (''detection'', detection_json (ep_shutdown ep)),
      (''evidence'', evidence_json (truth_text (ep_last_outcome ep)) (ep_id ep) episode_notes),
      (''process'', JNull)]"

definition event_json :: "agg_params \<Rightarrow> episode \<Rightarrow> json" where
  "event_json P ep = JObj (event_fields P ep)"

section \<open>The aggregator\<close>

text \<open>The loops of the three flushes: every selected episode is rendered if it is dirty, then removed.\<close>

definition close_where ::
  "(episode_key \<Rightarrow> episode \<Rightarrow> bool) \<Rightarrow> aggregator \<Rightarrow> episode list \<times> aggregator" where
  "close_where sel ag =
     (map (\<lambda>(k, ep). rendered ep) (filter (\<lambda>(k, ep). sel k ep \<and> ep_dirty ep) (ag_episodes ag)),
      ag\<lparr>ag_episodes := filter (\<lambda>(k, ep). \<not> sel k ep) (ag_episodes ag)\<rparr>)"

definition flush_expired :: "agg_params \<Rightarrow> rat \<Rightarrow> aggregator \<Rightarrow> episode list \<times> aggregator" where
  "flush_expired P now = close_where (\<lambda>k ep. \<not> now - ep_last_epoch ep < ap_quiet P)"

definition flush_source :: "string \<Rightarrow> int option \<Rightarrow> aggregator \<Rightarrow> episode list \<times> aggregator" where
  "flush_source ip port = close_where (\<lambda>k ep. fst k = ip \<and> fst (snd k) = port)"

definition flush_all :: "aggregator \<Rightarrow> episode list \<times> aggregator" where
  "flush_all = close_where (\<lambda>k ep. True)"

definition emission_due :: "agg_params \<Rightarrow> rat \<Rightarrow> episode \<Rightarrow> bool" where
  "emission_due P now ep = (case ep_last_emit ep of None \<Rightarrow> True | Some t \<Rightarrow> ap_emit P \<le> now - t)"

definition observe :: "agg_params \<Rightarrow> observation \<Rightarrow> aggregator \<Rightarrow> episode list \<times> aggregator" where
  "observe P ob ag =
     (let (emitted, ag1) = flush_expired P (ob_epoch ob) ag;
          key = episode_key ob;
          (ep, ag2) = (case map_of (ag_episodes ag1) key of
             Some ep \<Rightarrow> (ep, ag1)
           | None \<Rightarrow> (let (n, st) = allocate_episode_sequence (ag_state ag1)
                      in (new_episode P n ob, ag1\<lparr>ag_state := st\<rparr>)));
          (escalated, ep') = update_episode P ob ep;
          due = emission_due P (ob_epoch ob) ep' \<or> escalated;
          ep'' = (if due then rendered ep' else ep')
      in (if due then emitted @ [ep''] else emitted,
          ag2\<lparr>ag_episodes := AList.update key ep'' (ag_episodes ag2)\<rparr>))"

section \<open>Heartbeats\<close>

definition make_heartbeat ::
  "(string \<Rightarrow> string) \<Rightarrow> string \<Rightarrow> string \<Rightarrow> string \<Rightarrow> string \<Rightarrow> int \<Rightarrow> string \<Rightarrow> json" where
  "make_heartbeat sha sensor version boot ip sequence seen_at =
     (let eid = ''episode:dtlab-host-ot:''
            @ sha (sensor @ ''|'' @ boot @ ''|heartbeat|'' @ show_int sequence)
      in JObj [(''schema_version'', JStr ''dtlab-host-ot-event-v1''), (''event_type'', JStr ''heartbeat''),
        (''event_id'', JStr eid), (''episode_id'', JStr eid), (''revision'', JInt 1),
        (''episode_sequence'', JInt sequence), (''boot_id'', JStr boot),
        (''first_observed_at'', JStr seen_at), (''last_observed_at'', JStr seen_at),
        (''timestamp_basis'', JStr ''endpoint_utc''), (''sensor'', sensor_json sensor version),
        (''source'', JObj [(''ip'', JStr ip), (''port'', JNull), (''classification'', JStr ''plc_self'')]),
        (''destination'', JNull), (''modbus'', JNull), (''outcome'', JNull), (''detection'', JNull),
        (''evidence'', evidence_json ''endpoint_heartbeat'' eid
           [''Heartbeat del sensore endpoint PLC; non '' @ [CHR 0xE8] @ '' un evento Cisco.'']),
        (''process'', JNull)])"

end
