(* ===== verification/HostOtEvents.thy ===== *)
theory HostOtEvents
  imports Utf8 TicketDesk PlcEpisodes
begin

text \<open>
  \<open>host_ot_events.py\<close>: the content contract of an authenticated endpoint event and its conversion to a
  signal. The JSON-schema validator is third-party code and its schema a data file: the formatted
  errors it reports are the parameter \<open>he_schema\<close>. The semantic checks run on documents without
  schema errors only, whose members therefore have the types of the schema. The characters U+2192
  and U+2026 of the presentation texts lie outside the model's code points and are the parameters
  \<open>he_arrow\<close> and \<open>he_dots\<close>.
\<close>

record event_env =
  he_sha :: "string \<Rightarrow> string"
  he_schema :: "json \<Rightarrow> string list"
  he_arrow :: string
  he_dots :: string

datatype ot_problem =
    NotAnObject | TooLarge nat | SchemaProblem string | Leak string
  | EpisodeIdMismatch | SourceRecordMismatch | NaiveTimestamp string | TimesReversed
  | CodesMismatch | RequestCountMismatch | OutcomeCountMismatch
  | WrongDetection string string
  | TruthRequestObserved | TruthProcessed | TruthRejected
  | BadDocumentSha | OtherDocumentSha | OldRevision | OtherRevisionDocument

section \<open>Canonical bytes\<close>

definition max_event_bytes :: nat where
  "max_event_bytes = 512 * 1024"

definition canonical_event :: "json \<Rightarrow> string" where
  "canonical_event event = dumps False event"

definition event_bytes :: "json \<Rightarrow> string" where
  "event_bytes event = utf8 (canonical_event event @ [CHR 0x0A])"

section \<open>Semantic checks\<close>

text \<open>\<open>isinstance(v, int)\<close>, which a bool passes.\<close>

definition int_like :: "json \<Rightarrow> int option" where
  "int_like v = (case v of JInt i \<Rightarrow> Some i | JBool b \<Rightarrow> Some (if b then 1 else 0) | _ \<Rightarrow> None)"

definition elements :: "json \<Rightarrow> json list" where
  "elements v = (case v of JArr xs \<Rightarrow> xs | _ \<Rightarrow> [])"

text \<open>\<open>int(v or 0)\<close>\<close>

definition count_of :: "json \<Rightarrow> int" where
  "count_of v = (if truthy v then (case py_int v of None \<Rightarrow> 0 | Some i \<Rightarrow> i) else 0)"

text \<open>The pairs of register and value that complete writes show.\<close>

definition write_registers :: "json \<Rightarrow> (int \<times> int) list" where
  "write_registers w =
     (if \<not> is_obj w \<or> jget w ''values_truncated'' = JBool True then []
      else case (int_like (jget w ''address''), jget w ''values'') of
        (Some address, JArr vs) \<Rightarrow>
          concat (map (\<lambda>(offset, v). case int_like v of None \<Rightarrow> [] | Some i \<Rightarrow> [(address + int offset, i)]) (enumerate 0 vs))
      | _ \<Rightarrow> [])"

definition register_values :: "json \<Rightarrow> (int \<times> int) list" where
  "register_values event = concat (map write_registers (elements (jget (jget event ''modbus'') ''writes'')))"

definition is_shutdown_sequence :: "json \<Rightarrow> bool" where
  "is_shutdown_sequence event \<longleftrightarrow> list_all (\<lambda>a. (a, 0) \<in> set (register_values event)) [3, 4, 16]"

definition parse_time :: "json \<Rightarrow> string \<Rightarrow> ot_problem list \<times> int option" where
  "parse_time v label = (case fromisoformat (replace_Z (py_str v)) of
     None \<Rightarrow> ([], None) | Some (Naive _) \<Rightarrow> ([NaiveTimestamp label], None) | Some (Aware t) \<Rightarrow> ([], Some t))"

definition identity_problems :: "json \<Rightarrow> ot_problem list" where
  "identity_problems event =
     (if jget event ''episode_id'' \<noteq> jget event ''event_id'' then [EpisodeIdMismatch] else [])
     @ (if is_obj (jget event ''evidence'')
           \<and> jget (jget event ''evidence'') ''source_record_id'' \<noteq> jget event ''event_id''
        then [SourceRecordMismatch] else [])"

definition time_problems :: "json \<Rightarrow> ot_problem list" where
  "time_problems event =
     (let (p1, first) = parse_time (jget event ''first_observed_at'') ''first_observed_at'';
          (p2, second) = parse_time (jget event ''last_observed_at'') ''last_observed_at''
      in p1 @ p2 @ (case (first, second) of (Some a, Some b) \<Rightarrow> if b < a then [TimesReversed] else [] | _ \<Rightarrow> []))"

definition code_problems :: "json \<Rightarrow> ot_problem list" where
  "code_problems event =
     (let modbus = jget event ''modbus'';
          writes = filter is_obj (elements (jget modbus ''writes'')) in
      if set (elements (jget modbus ''function_codes'')) \<noteq> (\<lambda>w. jget w ''function_code'') ` set writes
      then [CodesMismatch] else [])"

definition count_problems :: "json \<Rightarrow> ot_problem list" where
  "count_problems event =
     (let modbus = jget event ''modbus''; states = jget (jget event ''outcome'') ''states'';
          writes = filter is_obj (elements (jget modbus ''writes''));
          requests = count_of (jget modbus ''request_count'') in
      (if sum_list (map (\<lambda>w. count_of (jget w ''count'')) writes)
            + count_of (jget modbus ''dropped_operation_buckets'') \<noteq> requests then [RequestCountMismatch] else [])
      @ (if is_obj states \<and> sum_list (map (\<lambda>k. count_of (jget states k)) [''processed'', ''rejected'', ''unknown'']) \<noteq> requests
         then [OutcomeCountMismatch] else []))"

definition expected_detection :: "bool \<Rightarrow> (string \<times> string) list" where
  "expected_detection shutdown =
     [(''classification'', if shutdown then ''process_shutdown_sequence'' else ''modbus_write''),
      (''severity'', if shutdown then ''critical'' else ''high''),
      (''priority'', if shutdown then ''p1'' else ''p2'')]"

definition detection_problems :: "json \<Rightarrow> ot_problem list" where
  "detection_problems event =
     concat (map (\<lambda>(field, v). if jget (jget event ''detection'') field \<noteq> JStr v then [WrongDetection field v] else [])
       (expected_detection (is_shutdown_sequence event)))"

definition truth_problems :: "json \<Rightarrow> ot_problem list" where
  "truth_problems event =
     (let evidence = jget event ''evidence''; states = jget (jget event ''outcome'') ''states'';
          truth = jget evidence ''truth'';
          processed = truthy (jget states ''processed''); rejected = truthy (jget states ''rejected'') in
      (if truth = JStr ''endpoint_request_observed'' \<and> (processed \<or> rejected) then [TruthRequestObserved] else [])
      @ (if truth = JStr ''endpoint_server_processed'' \<and> \<not> processed then [TruthProcessed] else [])
      @ (if truth = JStr ''endpoint_server_rejected'' \<and> \<not> rejected then [TruthRejected] else []))"

definition semantic_errors :: "json \<Rightarrow> ot_problem list" where
  "semantic_errors event =
     identity_problems event @ time_problems event
     @ (if jget event ''event_type'' = JStr ''heartbeat''
           \<or> \<not> list_all (\<lambda>k. is_obj (jget event k)) [''modbus'', ''outcome'', ''detection''] then []
        else code_problems event @ count_problems event @ detection_problems event @ truth_problems event)"

section \<open>Validation\<close>

definition event_problems :: "event_env \<Rightarrow> json \<Rightarrow> ot_problem list" where
  "event_problems H event =
     (if \<not> is_obj event then [NotAnObject]
      else
        let size = length (event_bytes event);
            first = (if max_event_bytes < size then [TooLarge size] else []) @ map SchemaProblem (he_schema H event)
        in first @ (if first = [] then semantic_errors event else []) @ map Leak (find_secret_leaks event ''$''))"

definition validate_host_ot_event :: "event_env \<Rightarrow> json \<Rightarrow> ot_problem list + json" where
  "validate_host_ot_event H event =
     (let ps = event_problems H event in if ps \<noteq> [] then Inl (rev (remdups (rev ps))) else Inr event)"

section \<open>The signal\<close>

definition event_fingerprint :: "event_env \<Rightarrow> json \<Rightarrow> string" where
  "event_fingerprint H event = he_sha H (utf8 (canonical_event (JObj [(''signal_type'', JStr ''host_modbus_write''),
     (''source_id'', JStr host_ot_source_id), (''source_record_id'', jget event ''episode_id'')])))"

definition source_path_label :: "event_env \<Rightarrow> json \<Rightarrow> string" where
  "source_path_label H event =
     (let source = jget event ''source''; cls = jget source ''classification'' in
      if cls = JStr ''plc_self'' \<or> jget source ''ip'' = jget (jget event ''destination'') ''ip'' then ''PLC'' @ he_arrow H @ ''PLC''
      else if cls = JStr ''security_test'' then ''Kali/test di sicurezza'' @ he_arrow H @ ''PLC''
      else if cls = JStr ''authorized_hmi'' then ''HMI autorizzata'' @ he_arrow H @ ''PLC''
      else ''sorgente sconosciuta'' @ he_arrow H @ ''PLC'')"

definition register_texts :: "json \<Rightarrow> string list" where
  "register_texts w =
     (let address = count_of (jget w ''address'') in
      if truthy (jget w ''values_truncated'') then [show_int address @ ''=<valori troncati>'']
      else map (\<lambda>(offset, v). show_int (address + int offset) @ ''='' @ py_str v) (enumerate 0 (take 8 (elements (jget w ''values'')))))"

definition event_description :: "event_env \<Rightarrow> json \<Rightarrow> bool \<Rightarrow> string" where
  "event_description H event shutdown =
     (let source = jget event ''source''; destination = jget event ''destination''; modbus = jget event ''modbus'';
          pairs = concat (map register_texts (elements (jget modbus ''writes'')));
          shown = (if 16 < length pairs then take 16 pairs @ [he_dots H] else pairs);
          peer = py_str (jget source ''ip'') @ (if jget source ''port'' = JNull then [] else '':'' @ py_str (jget source ''port''))
      in ''Rilevata '' @ (if shutdown then ''sequenza di arresto'' else ''scrittura Modbus'') @ '' ''
         @ source_path_label H event @ '' da '' @ peer @ '' verso '' @ py_str (jget destination ''ip'')
         @ '':502, Unit ID '' @ py_str (jget destination ''unit_id'') @ '', FC ''
         @ join '','' (map py_str (elements (jget modbus ''function_codes''))) @ '', registri '' @ join '', '' shown
         @ ''. Stato evidenza: '' @ py_str (jget (jget event ''evidence'') ''truth'') @ ''.'')"

definition non_cisco_note :: string where
  "non_cisco_note = ''Rilevazione host-side DTLab; non restituita da Cisco Cyber Vision.''"

definition signal_evidence :: "json \<Rightarrow> attributes" where
  "signal_evidence event =
     (let raw = jget event ''evidence''; notes = map py_str (elements (jget raw ''notes'')) in
      [(''source_id'', JStr host_ot_source_id), (''source_record_id'', JStr (py_str (jget event ''episode_id''))),
       (''truth'', JStr ''observed''), (''observed_at'', JStr (py_str (jget event ''last_observed_at''))),
       (''fetched_at'', JStr (py_str (jget event ''last_observed_at''))),
       (''completeness'', JFloat (if jget raw ''truth'' \<in> {JStr ''endpoint_server_processed'', JStr ''endpoint_server_rejected''}
          then ''1.0'' else ''0.8'')),
       (''notes'', JArr (map JStr (if non_cisco_note \<in> set notes then notes else notes @ [non_cisco_note])))])"

definition signal_of_event :: "event_env \<Rightarrow> json \<Rightarrow> string \<Rightarrow> signal_input" where
  "signal_of_event H event digest =
     (let shutdown = is_shutdown_sequence event; label = source_path_label H event in
      \<lparr>si_fingerprint = event_fingerprint H event, si_type = ''host_modbus_write'', si_snapshot = digest,
       si_evidence = signal_evidence event, si_severity = (if shutdown then ''critical'' else ''high''),
       si_title = (if shutdown then ''Sequenza Modbus di arresto '' @ label @ '' rilevata''
          else ''Scrittura Modbus '' @ label @ '' rilevata''),
       si_description = event_description H event shutdown,
       si_occurred_at = Some (py_str (jget event ''first_observed_at'')),
       si_observed_at = py_str (jget event ''last_observed_at''),
       si_asset_ids = [py_str (jget (jget event ''destination'') ''asset_id'')],
       si_action = Some ''Confermare autorizzazione, stato del processo e rollback con il referente OT; non eseguire remediation automatica.'',
       si_payload = [(''source_scope'', JStr ''plc_host_side''), (''source_attribution'', JStr ''dtlab_host_sensor_not_cisco''),
         (''event'', event)]\<rparr>)"

definition signal_from_host_ot_event ::
  "event_env \<Rightarrow> json \<Rightarrow> string option \<Rightarrow> ot_problem list + (string \<times> signal_input option)" where
  "signal_from_host_ot_event H event document_sha =
     bindR (validate_host_ot_event H event) (\<lambda>_.
     let digest = he_sha H (event_bytes event);
         claimed = map_option (\<lambda>s. lower (strip s)) document_sha in
     if claimed \<noteq> None \<and> \<not> is_sha256_hex (the claimed) then Inl [BadDocumentSha]
     else if claimed \<noteq> None \<and> the claimed \<noteq> digest then Inl [OtherDocumentSha]
     else if jget event ''event_type'' = JStr ''heartbeat'' then Inr (digest, None)
     else Inr (digest, Some (signal_of_event H event digest)))"

end
