(* ===== verification/PlcLedger.thy ===== *)
theory PlcLedger
  imports PlcEpisodes
begin

text \<open>
  What the aggregator guarantees over any run: every emitted revision balances its counters, the
  revisions of an episode are numbered 1, 2, 3, ... in the order of emission, and no write is lost:
  once the episodes are flushed, the last revisions of all episodes together count every write
  that was observed. \<open>ledger\<close> is the invariant that carries these facts through a run, with the
  events emitted and the writes observed so far.
\<close>

section \<open>Runs\<close>

datatype agg_op = Observe observation | FlushExpired rat | FlushSource string "int option" | FlushAll

fun agg_step :: "agg_params \<Rightarrow> agg_op \<Rightarrow> aggregator \<Rightarrow> episode list \<times> aggregator" where
  "agg_step P (Observe ob) ag = observe P ob ag"
| "agg_step P (FlushExpired now) ag = flush_expired P now ag"
| "agg_step P (FlushSource ip port) ag = flush_source ip port ag"
| "agg_step P FlushAll ag = flush_all ag"

fun agg_run :: "agg_params \<Rightarrow> agg_op list \<Rightarrow> aggregator \<Rightarrow> episode list \<times> aggregator" where
  "agg_run P [] ag = ([], ag)"
| "agg_run P (op # ops) ag =
     (let (es, ag1) = agg_step P op ag; (es', ag2) = agg_run P ops ag1 in (es @ es', ag2))"

fun is_observe :: "agg_op \<Rightarrow> bool" where
  "is_observe (Observe ob) = True"
| "is_observe _ = False"

definition observed :: "agg_op list \<Rightarrow> nat" where
  "observed ops = length (filter is_observe ops)"

definition fresh_aggregator :: "state_store \<Rightarrow> aggregator" where
  "fresh_aggregator st = \<lparr>ag_episodes = [], ag_state = st\<rparr>"

section \<open>One episode\<close>

definition bucket_total :: "episode \<Rightarrow> nat" where
  "bucket_total ep = sum_list (map (bk_count \<circ> snd) (ep_writes ep))"

definition outcome_total :: "outcome_counts \<Rightarrow> nat" where
  "outcome_total c = oc_processed c + oc_rejected c + oc_unknown c"

definition outcome_count :: "outcome_state \<Rightarrow> outcome_counts \<Rightarrow> nat" where
  "outcome_count st c = (case st of Processed \<Rightarrow> oc_processed c | Rejected \<Rightarrow> oc_rejected c
     | UnknownOutcome \<Rightarrow> oc_unknown c)"

definition writes_ok :: "episode \<Rightarrow> bool" where
  "writes_ok ep \<longleftrightarrow> distinct (map fst (ep_writes ep)) \<and> distinct (ep_codes ep)
     \<and> (\<forall>(k, b) \<in> set (ep_writes ep). k = bucket_order b \<and> 1 \<le> bk_count b \<and> bk_function b \<in> set (ep_codes ep))
     \<and> (ep_dropped ep = 0 \<longrightarrow> set (ep_codes ep) \<subseteq> (bk_function \<circ> snd) ` set (ep_writes ep))"

definition episode_ok :: "agg_params \<Rightarrow> episode \<Rightarrow> bool" where
  "episode_ok P ep \<longleftrightarrow> writes_ok ep \<and> ep_id ep = episode_identity P (ep_sequence ep)
     \<and> bucket_total ep + ep_dropped ep = ep_requests ep
     \<and> outcome_total (ep_states ep) = ep_requests ep
     \<and> (0 \<le> ap_buckets P \<longrightarrow> int (length (ep_writes ep)) \<le> ap_buckets P)
     \<and> (0 < ep_requests ep \<longrightarrow> 0 < outcome_count (ep_last_outcome ep) (ep_states ep))"

lemma sum_list_update:
  assumes "distinct (map fst xs)" "map_of xs k = Some b"
  shows "sum_list (map (f \<circ> snd) (AList.update k b' xs)) + f b = sum_list (map (f \<circ> snd) xs) + (f b' :: nat)"
  using assms by (induction xs) (auto split: if_splits)

lemma update_absent: "map_of xs k = None \<Longrightarrow> AList.update k v xs = xs @ [(k, v)]"
  by (induction xs) (auto split: if_splits)

lemma update_last: "map_of xs k = None \<Longrightarrow> AList.update k v (xs @ [(k, w)]) = AList.update k v xs"
  by (induction xs) (auto split: if_splits)

lemma length_update_present: "map_of xs k = Some b \<Longrightarrow> length (AList.update k v xs) = length xs"
  by (induction xs) (auto split: if_splits)

lemma in_update: "(k', v') \<in> set (AList.update k v xs) \<Longrightarrow> k' = k \<and> v' = v \<or> (k', v') \<in> set xs"
  by (induction xs) (auto split: if_splits)

lemma image_update_present:
  assumes "map_of xs k = Some b" "f v = f b"
  shows "(f \<circ> snd) ` set xs \<subseteq> (f \<circ> snd) ` set (AList.update k v xs)"
  using assms by (induction xs) (auto split: if_splits)

lemma new_bucket_facts [simp]:
  "bucket_order ((new_bucket op)\<lparr>bk_count := n\<rparr>) = write_key op"
  "bucket_order (new_bucket op) = write_key op"
  "bucket_order (b\<lparr>bk_count := n\<rparr>) = bucket_order b"
  "bk_function (new_bucket op) = op_function op"
  by (simp_all add: bucket_order_def new_bucket_def write_key_def)

text \<open>Recording the function code and counting the write keeps the books.\<close>

lemma count_write_ok:
  assumes ok: "writes_ok ep"
    and ep1: "ep_writes ep1 = ep_writes ep" "ep_dropped ep1 = ep_dropped ep"
      "ep_codes ep1 = List.insert (op_function op) (ep_codes ep)"
  shows "writes_ok (count_write P op ep1)"
    and "bucket_total (count_write P op ep1) + ep_dropped (count_write P op ep1)
      = Suc (bucket_total ep + ep_dropped ep)"
    and "0 \<le> ap_buckets P \<Longrightarrow> int (length (ep_writes ep)) \<le> ap_buckets P \<Longrightarrow>
      int (length (ep_writes (count_write P op ep1))) \<le> ap_buckets P"
proof -
  let ?k = "write_key op" and ?e = "count_write P op ep1"
  have d: "distinct (map fst (ep_writes ep))" using ok by (simp add: writes_ok_def)
  have keys: "\<And>k b. (k, b) \<in> set (ep_writes ep) \<Longrightarrow> k = bucket_order b \<and> 1 \<le> bk_count b \<and> bk_function b \<in> set (ep_codes ep)"
    using ok by (auto simp: writes_ok_def)
  have "writes_ok ?e \<and> bucket_total ?e + ep_dropped ?e = Suc (bucket_total ep + ep_dropped ep) \<and>
    (0 \<le> ap_buckets P \<longrightarrow> int (length (ep_writes ep)) \<le> ap_buckets P \<longrightarrow> int (length (ep_writes ?e)) \<le> ap_buckets P)"
  proof (cases "map_of (ep_writes ep) ?k")
    case (Some b)
    let ?b = "b\<lparr>bk_count := bk_count b + 1\<rparr>"
    have b: "(?k, b) \<in> set (ep_writes ep)" using Some by (rule map_of_SomeD)
    have e: "?e = ep1\<lparr>ep_writes := AList.update ?k ?b (ep_writes ep)\<rparr>" using Some by (simp add: count_write_def ep1)
    have "?k = bucket_order b" using keys [OF b] by simp
    then have fn: "bk_function b = op_function op" by (simp add: bucket_order_def write_key_def)
    have sub: "(bk_function \<circ> snd) ` set (ep_writes ep) \<subseteq> (bk_function \<circ> snd) ` set (AList.update ?k ?b (ep_writes ep))"
      by (rule image_update_present [OF Some]) simp
    have "bk_function b \<in> (bk_function \<circ> snd) ` set (ep_writes ep)" using b by force
    have "writes_ok ?e" unfolding writes_ok_def
    proof (intro conjI)
      show "distinct (map fst (ep_writes ?e))" using d by (simp add: e distinct_update)
      show "distinct (ep_codes ?e)" using ok by (simp add: e ep1 writes_ok_def)
      show "\<forall>(k, b) \<in> set (ep_writes ?e). k = bucket_order b \<and> 1 \<le> bk_count b \<and> bk_function b \<in> set (ep_codes ?e)"
      proof (intro ballI, clarify)
        fix k c assume "(k, c) \<in> set (ep_writes ?e)"
        then consider "k = ?k" "c = ?b" | "(k, c) \<in> set (ep_writes ep)" by (auto simp: e dest: in_update)
        then show "k = bucket_order c \<and> 1 \<le> bk_count c \<and> bk_function c \<in> set (ep_codes ?e)"
          by cases (use keys \<open>?k = bucket_order b\<close> fn in \<open>auto simp: e ep1\<close>)
      qed
      have "op_function op \<in> (bk_function \<circ> snd) ` set (ep_writes ep)"
        using \<open>bk_function b \<in> _\<close> unfolding fn .
      then show "ep_dropped ?e = 0 \<longrightarrow> set (ep_codes ?e) \<subseteq> (bk_function \<circ> snd) ` set (ep_writes ?e)"
        using sub ok by (auto simp: e ep1 writes_ok_def)
    qed
    then show ?thesis using sum_list_update [OF d Some, of bk_count ?b] length_update_present [OF Some]
      by (simp add: e bucket_total_def ep1)
  next
    case None
    show ?thesis
    proof (cases "ap_buckets P \<le> int (length (ep_writes ep))")
      case True
      then have e: "?e = ep1\<lparr>ep_dropped := ep_dropped ep + 1\<rparr>" using None by (simp add: count_write_def ep1)
      show ?thesis using ok keys by (auto simp: e writes_ok_def bucket_total_def ep1)
    next
      case False
      then have e: "?e = ep1\<lparr>ep_writes := ep_writes ep @ [(?k, (new_bucket op)\<lparr>bk_count := 1\<rparr>)]\<rparr>"
        using None by (simp add: count_write_def ep1 update_absent)
      have "?k \<notin> fst ` set (ep_writes ep)" using None by (simp add: map_of_eq_None_iff)
      then show ?thesis using ok keys False
        by (auto simp: e writes_ok_def bucket_total_def ep1)
    qed
  qed
  then show "writes_ok ?e" "bucket_total ?e + ep_dropped ?e = Suc (bucket_total ep + ep_dropped ep)"
    "0 \<le> ap_buckets P \<Longrightarrow> int (length (ep_writes ep)) \<le> ap_buckets P \<Longrightarrow> int (length (ep_writes ?e)) \<le> ap_buckets P"
    by auto
qed

lemma correlation_keeps [simp]:
  assumes "update_shutdown_correlation P op now ep = (esc, ep')"
  shows "ep_writes ep' = ep_writes ep" "ep_codes ep' = ep_codes ep" "ep_dropped ep' = ep_dropped ep"
    "ep_requests ep' = ep_requests ep" "ep_states ep' = ep_states ep" "ep_sequence ep' = ep_sequence ep"
    "ep_revision ep' = ep_revision ep" "ep_last_outcome ep' = ep_last_outcome ep" "ep_id ep' = ep_id ep"
    "ep_last_emit ep' = ep_last_emit ep"
  using assms by (auto simp: update_shutdown_correlation_def Let_def split: if_splits)

lemma count_write_keeps [simp]:
  "ep_requests (count_write P op ep) = ep_requests ep" "ep_states (count_write P op ep) = ep_states ep"
  "ep_sequence (count_write P op ep) = ep_sequence ep" "ep_revision (count_write P op ep) = ep_revision ep"
  "ep_last_outcome (count_write P op ep) = ep_last_outcome ep" "ep_codes (count_write P op ep) = ep_codes ep"
  "ep_id (count_write P op ep) = ep_id ep" "ep_seen (count_write P op ep) = ep_seen ep"
  "ep_shutdown (count_write P op ep) = ep_shutdown ep" "ep_last_emit (count_write P op ep) = ep_last_emit ep"
  by (simp_all add: count_write_def split: option.split)

lemma count_outcome_totals:
  "outcome_total (count_outcome st c) = Suc (outcome_total c)"
  "0 < outcome_count st (count_outcome st c)"
  by (cases st; simp add: outcome_total_def outcome_count_def count_outcome_def)+

lemma books_cong:
  "ep_writes ep' = ep_writes ep \<Longrightarrow> ep_codes ep' = ep_codes ep \<Longrightarrow> ep_dropped ep' = ep_dropped ep \<Longrightarrow>
   writes_ok ep' = writes_ok ep \<and> bucket_total ep' = bucket_total ep"
  by (simp add: writes_ok_def bucket_total_def)

lemma update_episode_ok:
  assumes ok: "episode_ok P ep" and up: "update_episode P ob ep = (esc, ep')"
  shows "episode_ok P ep'" "ep_requests ep' = Suc (ep_requests ep)" "ep_sequence ep' = ep_sequence ep"
    "ep_revision ep' = ep_revision ep" "ep_dirty ep'" "ep_last_emit ep' = ep_last_emit ep"
proof -
  let ?op = "ob_operation ob"
  let ?ep1 = "ep\<lparr>ep_last_at := ob_at ob, ep_last_epoch := ob_epoch ob,
      ep_requests := ep_requests ep + 1, ep_codes := List.insert (op_function ?op) (ep_codes ep),
      ep_states := count_outcome (ob_outcome ob) (ep_states ep), ep_last_outcome := ob_outcome ob\<rparr>"
  let ?ep2 = "count_write P ?op ?ep1"
  obtain ep3 where cor: "update_shutdown_correlation P ?op (ob_epoch ob) ?ep2 = (esc, ep3)"
    and ep': "ep' = ep3\<lparr>ep_dirty := True\<rparr>"
    using up by (auto simp: update_episode_def Let_def split: prod.splits)
  note same = correlation_keeps [OF cor]
  have books: "writes_ok ep' = writes_ok ?ep2 \<and> bucket_total ep' = bucket_total ?ep2"
    by (rule books_cong) (simp_all add: ep' same)
  have w: "writes_ok ep" using ok by (simp add: episode_ok_def)
  note counted = count_write_ok [OF w, of ?ep1 ?op P]
  show "ep_requests ep' = Suc (ep_requests ep)" "ep_sequence ep' = ep_sequence ep"
    "ep_revision ep' = ep_revision ep" "ep_dirty ep'" "ep_last_emit ep' = ep_last_emit ep"
    by (simp_all add: ep' same)
  show "episode_ok P ep'"
    using ok books counted count_outcome_totals by (simp add: episode_ok_def ep' same)
qed

lemma new_episode_ok: "episode_ok P (new_episode P n ob)"
  by (simp add: episode_ok_def writes_ok_def bucket_total_def new_episode_def outcome_total_def)

lemma rendered_simps [simp]:
  "ep_sequence (rendered ep) = ep_sequence ep" "ep_revision (rendered ep) = Suc (ep_revision ep)"
  "ep_requests (rendered ep) = ep_requests ep" "ep_dirty (rendered ep) = False"
  "episode_ok P (rendered ep) = episode_ok P ep"
  by (simp_all add: rendered_def episode_ok_def writes_ok_def bucket_total_def)

section \<open>The stream of one episode\<close>

definition of_sequence :: "int \<Rightarrow> episode list \<Rightarrow> episode list" where
  "of_sequence n evs = filter (\<lambda>e. ep_sequence e = n) evs"

text \<open>What the last revision of an episode has counted.\<close>

definition final_count :: "int \<Rightarrow> episode list \<Rightarrow> nat" where
  "final_count n evs = (if of_sequence n evs = [] then 0 else ep_requests (last (of_sequence n evs)))"

lemma of_sequence_append [simp]: "of_sequence n (xs @ ys) = of_sequence n xs @ of_sequence n ys"
  by (simp add: of_sequence_def)

lemma of_sequence_single [simp]: "of_sequence n [] = []" "of_sequence n [e] = (if ep_sequence e = n then [e] else [])"
  by (simp_all add: of_sequence_def)

lemma final_count_append:
  "final_count n (xs @ ys) = (if of_sequence n ys = [] then final_count n xs else final_count n ys)"
  by (simp add: final_count_def)

lemma final_count_single [simp]: "ep_sequence e = n \<Longrightarrow> final_count n [e] = ep_requests e"
  by (simp add: final_count_def)

text \<open>The live episode of a sequence number.\<close>

definition row :: "int \<Rightarrow> ('k \<times> episode) list \<Rightarrow> ('k \<times> episode) option" where
  "row n E = find (\<lambda>(k, ep). ep_sequence ep = n) E"

definition weight :: "episode list \<Rightarrow> ('k \<times> episode) list \<Rightarrow> int \<Rightarrow> nat" where
  "weight evs E n = (case row n E of Some (k, ep) \<Rightarrow> ep_requests ep | None \<Rightarrow> final_count n evs)"

definition sequences :: "('k \<times> episode) list \<Rightarrow> int list" where
  "sequences E = map (ep_sequence \<circ> snd) E"

lemma row_Some: "row n E = Some (k, ep) \<Longrightarrow> (k, ep) \<in> set E \<and> ep_sequence ep = n"
  by (auto simp: row_def dest: find_Some_set)

lemma row_None: "row n E = None \<longleftrightarrow> n \<notin> set (sequences E)"
  by (force simp: row_def sequences_def find_None_iff)

lemma row_Cons [simp]:
  "row n [] = None"
  "row n ((k, ep) # E) = (if ep_sequence ep = n then Some (k, ep) else row n E)"
  by (simp_all add: row_def)

lemma sequences_Cons [simp]: "sequences [] = []" "sequences ((k, ep) # E) = ep_sequence ep # sequences E"
  by (simp_all add: sequences_def)

lemma in_sequences: "(k, ep) \<in> set E \<Longrightarrow> ep_sequence ep \<in> set (sequences E)"
  by (induction E) auto

lemma sequence_unique:
  assumes "distinct (sequences E)" "(k, e) \<in> set E" "(k', e') \<in> set E" "ep_sequence e = ep_sequence e'"
  shows "e = e'"
proof -
  have "inj_on (ep_sequence \<circ> snd) (set E)" using assms(1) by (simp add: sequences_def distinct_map)
  from inj_onD [OF this, of "(k, e)" "(k', e')"] assms(2-4) show ?thesis by simp
qed

lemma row_absent: "n \<notin> set (sequences E) \<Longrightarrow> row n E = None"
  by (simp add: row_None)

lemma row_close:
  assumes "distinct (sequences E)"
  shows "row n (filter (\<lambda>(k, ep). \<not> sel k ep) E) =
    (case row n E of Some (k, ep) \<Rightarrow> if sel k ep then None else Some (k, ep) | None \<Rightarrow> None)"
  using assms
proof (induction E)
  case (Cons kv E)
  obtain k ep where kv: "kv = (k, ep)" by (cases kv)
  show ?case using Cons row_absent [of "ep_sequence ep" E] by (auto simp: kv)
qed simp

lemma closed_stream:
  assumes "distinct (sequences E)"
  shows "of_sequence n (map (\<lambda>(k, ep). rendered ep) (filter (\<lambda>(k, ep). sel k ep \<and> ep_dirty ep) E)) =
    (case row n E of Some (k, ep) \<Rightarrow> if sel k ep \<and> ep_dirty ep then [rendered ep] else [] | None \<Rightarrow> [])"
  using assms
proof (induction E)
  case (Cons kv E)
  obtain k ep where kv: "kv = (k, ep)" by (cases kv)
  show ?case using Cons row_absent [of "ep_sequence ep" E] by (auto simp: kv of_sequence_def)
qed (simp add: of_sequence_def)

lemma row_update:
  assumes "distinct (sequences E)" "map_of E key = Some ep" "ep_sequence ep' = ep_sequence ep"
  shows "row n (AList.update key ep' E) = (if n = ep_sequence ep then Some (key, ep') else row n E)"
    and "sequences (AList.update key ep' E) = sequences E"
  using assms
proof (induction E)
  case (Cons kv E)
  obtain k e where kv: "kv = (k, e)" by (cases kv)
  have mem: "map_of E key = Some ep \<Longrightarrow> ep_sequence ep \<in> set (sequences E)"
    by (force simp: sequences_def dest: map_of_SomeD)
  { case 1 then show ?case using Cons.IH(1) mem by (auto simp: kv split: if_splits) }
  { case 2 then show ?case using Cons.IH(2) by (auto simp: kv split: if_splits) }
qed simp_all

section \<open>The ledger\<close>

definition numbered :: "int \<Rightarrow> episode list \<Rightarrow> nat \<Rightarrow> bool" where
  "numbered n evs r \<longleftrightarrow> map ep_revision (of_sequence n evs) = [1..<Suc r]"

definition tracked :: "episode list \<Rightarrow> episode \<Rightarrow> bool" where
  "tracked evs ep \<longleftrightarrow> numbered (ep_sequence ep) evs (ep_revision ep)
     \<and> (\<not> ep_dirty ep \<longrightarrow> final_count (ep_sequence ep) evs = ep_requests ep)"

definition ledger :: "agg_params \<Rightarrow> int \<Rightarrow> nat \<Rightarrow> episode list \<Rightarrow> aggregator \<Rightarrow> bool" where
  "ledger P s n evs ag \<longleftrightarrow>
     (let E = ag_episodes ag; next_seq = ss_next (ag_state ag) in
       s \<le> next_seq \<and> distinct (sequences E) \<and> set (sequences E) \<subseteq> {s..<next_seq}
       \<and> (\<forall>(k, ep) \<in> set E. episode_ok P ep \<and> tracked evs ep)
       \<and> (\<forall>e \<in> set evs. episode_ok P e \<and> ep_sequence e \<in> {s..<next_seq})
       \<and> (\<forall>m. \<exists>r. numbered m evs r)
       \<and> (\<Sum>m \<in> {s..<next_seq}. weight evs E m) = n)"

lemma numbered_append:
  "numbered n evs r \<Longrightarrow> of_sequence n es = [] \<Longrightarrow> numbered n (evs @ es) r"
  "numbered n evs r \<Longrightarrow> of_sequence n es = [e] \<Longrightarrow> ep_revision e = Suc r \<Longrightarrow> numbered n (evs @ es) (Suc r)"
  by (simp_all add: numbered_def)

lemma unseen: "\<forall>e \<in> set evs. ep_sequence e < m \<Longrightarrow> of_sequence m evs = []"
  by (auto simp: of_sequence_def filter_empty_conv)

lemma ledger_fresh: "ledger P (ss_next st) 0 [] (fresh_aggregator st)"
  by (auto simp: ledger_def fresh_aggregator_def Let_def numbered_def of_sequence_def intro: exI [of _ 0])

lemma ledger_close:
  assumes led: "ledger P s n evs ag" and close: "close_where sel ag = (es, ag')"
  shows "ledger P s n (evs @ es) ag'" "\<forall>(k, ep) \<in> set (ag_episodes ag'). \<not> sel k ep"
    "ag_state ag' = ag_state ag"
proof -
  let ?E = "ag_episodes ag" and ?E' = "filter (\<lambda>(k, ep). \<not> sel k ep) (ag_episodes ag)"
  have es: "es = map (\<lambda>(k, ep). rendered ep) (filter (\<lambda>(k, ep). sel k ep \<and> ep_dirty ep) ?E)"
    and ag': "ag' = ag\<lparr>ag_episodes := ?E'\<rparr>"
    using close by (simp_all add: close_where_def)
  have d: "distinct (sequences ?E)" and rng: "set (sequences ?E) \<subseteq> {s..<ss_next (ag_state ag)}"
    and live: "\<And>k ep. (k, ep) \<in> set ?E \<Longrightarrow> episode_ok P ep \<and> tracked evs ep"
    and out: "\<And>e. e \<in> set evs \<Longrightarrow> episode_ok P e \<and> ep_sequence e \<in> {s..<ss_next (ag_state ag)}"
    and num: "\<And>m. \<exists>r. numbered m evs r"
    and sum: "(\<Sum>m \<in> {s..<ss_next (ag_state ag)}. weight evs ?E m) = n"
    using led unfolding ledger_def Let_def by auto
  note closed = closed_stream [OF d, of _ sel, folded es]
  have d': "distinct (sequences ?E')" using d unfolding sequences_def by (rule distinct_map_filter)
  have sub: "set (sequences ?E') \<subseteq> set (sequences ?E)" by (auto simp: sequences_def)
  have kept: "of_sequence (ep_sequence ep) es = []" if "(k, ep) \<in> set ?E'" for k ep
  proof -
    have "row (ep_sequence ep) ?E' \<noteq> None" unfolding row_None using in_sequences [OF that] by simp
    then show ?thesis using closed [of "ep_sequence ep"] row_close [OF d, of "ep_sequence ep" sel]
      by (auto split: option.splits if_splits)
  qed
  have w: "weight (evs @ es) ?E' m = weight evs ?E m" for m
  proof (cases "row m ?E")
    case (Some p)
    obtain k ep where p: "p = (k, ep)" by (cases p)
    have kep: "(k, ep) \<in> set ?E" "ep_sequence ep = m" using row_Some [of m ?E k ep] Some p by simp_all
    then have ep: "tracked evs ep" "ep_sequence ep = m" using live [OF kep(1)] by simp_all
    show ?thesis
      using Some p ep closed [of m] row_close [OF d, of m sel]
      by (auto simp: weight_def tracked_def final_count_def split: if_splits)
  qed (use closed [of m] row_close [OF d, of m sel] in \<open>simp add: weight_def final_count_append\<close>)
  have num': "\<exists>r. numbered m (evs @ es) r" for m
  proof (cases "of_sequence m es")
    case Nil
    then show ?thesis using num [of m] numbered_append(1) by blast
  next
    case (Cons e rest)
    then obtain k ep where row: "row m ?E = Some (k, ep)" and e: "of_sequence m es = [rendered ep]"
      using closed [of m] by (auto split: option.splits if_splits)
    have "numbered m evs (ep_revision ep)" using row_Some [OF row] live [of k ep] by (simp add: tracked_def)
    from numbered_append(2) [OF this e] show ?thesis by auto
  qed
  have out': "episode_ok P e \<and> ep_sequence e \<in> {s..<ss_next (ag_state ag)}" if "e \<in> set (evs @ es)" for e
  proof (cases "e \<in> set evs")
    case False
    then have "e \<in> set es" using that by simp
    then obtain x where "x \<in> set ?E" "e = rendered (snd x)" unfolding es by auto
    then obtain k ep where kep: "(k, ep) \<in> set ?E" "e = rendered ep" by (metis prod.collapse)
    then have "ep_sequence ep \<in> set (sequences ?E)" by (simp add: in_sequences)
    then show ?thesis using kep live [of k ep] rng by auto
  qed (use out in blast)
  have eq: "ag_episodes ag' = ?E'" "ag_state ag' = ag_state ag" by (simp_all add: ag')
  show "ledger P s n (evs @ es) ag'"
    unfolding ledger_def Let_def eq
  proof (intro conjI)
    show "s \<le> ss_next (ag_state ag)" using led by (simp add: ledger_def Let_def)
    show "distinct (sequences ?E')" by (rule d')
    show "set (sequences ?E') \<subseteq> {s..<ss_next (ag_state ag)}" using sub rng by blast
    show "\<forall>(k, ep) \<in> set ?E'. episode_ok P ep \<and> tracked (evs @ es) ep"
    proof (rule ballI)
      fix x assume x: "x \<in> set ?E'"
      then have "(fst x, snd x) \<in> set ?E" "(fst x, snd x) \<in> set ?E'" by auto
      then have "of_sequence (ep_sequence (snd x)) es = []" "episode_ok P (snd x)" "tracked evs (snd x)"
        using kept [of "fst x" "snd x"] live [of "fst x" "snd x"] by simp_all
      then show "case x of (k, ep) \<Rightarrow> episode_ok P ep \<and> tracked (evs @ es) ep"
        by (cases x) (simp add: tracked_def final_count_append numbered_append)
    qed
    show "\<forall>e \<in> set (evs @ es). episode_ok P e \<and> ep_sequence e \<in> {s..<ss_next (ag_state ag)}"
      using out' by blast
    show "\<forall>m. \<exists>r. numbered m (evs @ es) r" using num' by blast
    show "(\<Sum>m \<in> {s..<ss_next (ag_state ag)}. weight (evs @ es) ?E' m) = n" using w sum by simp
  qed
  show "\<forall>(k, ep) \<in> set (ag_episodes ag'). \<not> sel k ep" "ag_state ag' = ag_state ag" by (auto simp: ag')
qed

lemma row_append: "row n (E @ [(k, ep)]) = (case row n E of None \<Rightarrow> if ep_sequence ep = n then Some (k, ep) else None | r \<Rightarrow> r)"
  by (induction E) (auto simp: row_def split: option.split)

lemma sequences_append [simp]: "sequences (E @ [(k, ep)]) = sequences E @ [ep_sequence ep]"
  by (simp add: sequences_def)

lemma ledger_open:
  assumes led: "ledger P s n evs ag"
  shows "ledger P s n evs (ag\<lparr>ag_episodes := ag_episodes ag @ [(key, new_episode P (ss_next (ag_state ag)) ob)],
    ag_state := snd (allocate_episode_sequence (ag_state ag))\<rparr>)"
proof -
  let ?E = "ag_episodes ag" and ?m = "ss_next (ag_state ag)" and ?ep = "new_episode P (ss_next (ag_state ag)) ob"
  have d: "distinct (sequences ?E)" and rng: "set (sequences ?E) \<subseteq> {s..<?m}" and le: "s \<le> ?m"
    and live: "\<forall>(k, ep) \<in> set ?E. episode_ok P ep \<and> tracked evs ep"
    and out: "\<forall>e \<in> set evs. episode_ok P e \<and> ep_sequence e \<in> {s..<?m}"
    and num: "\<forall>m. \<exists>r. numbered m evs r" and sum: "(\<Sum>m \<in> {s..<?m}. weight evs ?E m) = n"
    using led unfolding ledger_def Let_def by blast+
  have seq: "ep_sequence ?ep = ?m" "ep_requests ?ep = 0" "ep_revision ?ep = 0" by (simp_all add: new_episode_def)
  have none: "of_sequence ?m evs = []" by (rule unseen) (use out in auto)
  have fresh: "?m \<notin> set (sequences ?E)" using rng by auto
  have w: "weight evs (?E @ [(key, ?ep)]) m = (if m = ?m then 0 else weight evs ?E m)" for m
    using row_absent [OF fresh] by (auto simp: weight_def row_append seq split: option.split)
  have rng': "{s..<?m + 1} = insert ?m {s..<?m}" using le by auto
  have "(\<Sum>m \<in> {s..<?m + 1}. weight evs (?E @ [(key, ?ep)]) m) = (\<Sum>m \<in> {s..<?m}. weight evs (?E @ [(key, ?ep)]) m)"
    unfolding rng' by (simp add: w)
  also have "\<dots> = n" unfolding sum [symmetric] by (rule sum.cong) (auto simp: w)
  finally have sum': "(\<Sum>m \<in> {s..<?m + 1}. weight evs (?E @ [(key, ?ep)]) m) = n" .
  have tr: "tracked evs ?ep" by (simp add: tracked_def numbered_def final_count_def seq none)
  let ?ag = "ag\<lparr>ag_episodes := ?E @ [(key, ?ep)], ag_state := snd (allocate_episode_sequence (ag_state ag))\<rparr>"
  have eq: "ag_episodes ?ag = ?E @ [(key, ?ep)]" "ss_next (ag_state ?ag) = ?m + 1" by simp_all
  show ?thesis
    unfolding ledger_def Let_def eq
  proof (intro conjI)
    show "s \<le> ?m + 1" using le by simp
    show "distinct (sequences (?E @ [(key, ?ep)]))" using d fresh by (simp add: seq)
    show "set (sequences (?E @ [(key, ?ep)])) \<subseteq> {s..<?m + 1}" using rng le by (force simp: seq)
    show "\<forall>(k, ep) \<in> set (?E @ [(key, ?ep)]). episode_ok P ep \<and> tracked evs ep"
      using live tr new_episode_ok by auto
    show "\<forall>e \<in> set evs. episode_ok P e \<and> ep_sequence e \<in> {s..<?m + 1}" using out by auto
    show "\<forall>m. \<exists>r. numbered m evs r" by (fact num)
    show "(\<Sum>m \<in> {s..<?m + 1}. weight evs (?E @ [(key, ?ep)]) m) = n" by (fact sum')
  qed
qed

lemma ledger_touch:
  assumes led: "ledger P s n evs ag" and found: "map_of (ag_episodes ag) key = Some ep"
    and up: "update_episode P ob ep = (esc, ep')"
  shows "ledger P s (Suc n) (evs @ (if due then [rendered ep'] else []))
    (ag\<lparr>ag_episodes := AList.update key (if due then rendered ep' else ep') (ag_episodes ag)\<rparr>)"
proof -
  let ?E = "ag_episodes ag" and ?m = "ep_sequence ep" and ?new = "if due then rendered ep' else ep'"
  let ?es = "if due then [rendered ep'] else []"
  let ?E' = "AList.update key ?new ?E"
  have d: "distinct (sequences ?E)" and rng: "set (sequences ?E) \<subseteq> {s..<ss_next (ag_state ag)}"
    and live: "\<forall>x \<in> set ?E. case x of (k, ep) \<Rightarrow> episode_ok P ep \<and> tracked evs ep"
    and out: "\<forall>e \<in> set evs. episode_ok P e \<and> ep_sequence e \<in> {s..<ss_next (ag_state ag)}"
    and num: "\<forall>m. \<exists>r. numbered m evs r" and sum: "(\<Sum>m \<in> {s..<ss_next (ag_state ag)}. weight evs ?E m) = n"
    using led unfolding ledger_def Let_def by blast+
  have mem: "(key, ep) \<in> set ?E" using found by (rule map_of_SomeD)
  then have ok: "episode_ok P ep" "tracked evs ep" using live by auto
  note upd = update_episode_ok [OF ok(1) up]
  have m: "?m \<in> {s..<ss_next (ag_state ag)}" using in_sequences [OF mem] rng by blast
  have new: "episode_ok P ?new" "ep_sequence ?new = ?m" "ep_requests ?new = Suc (ep_requests ep)"
    using upd by simp_all
  note upd_row = row_update [OF d found new(2)]
  have row_m: "\<exists>k e. row ?m ?E = Some (k, e) \<and> (k, e) \<in> set ?E \<and> ep_sequence e = ?m"
    using in_sequences [OF mem] row_None [of ?m ?E] row_Some by fastforce
  have es: "of_sequence j ?es = (if due \<and> j = ?m then [rendered ep'] else [])" for j using upd by auto
  have numbered': "numbered ?m (evs @ ?es) (ep_revision ?new)"
    using ok(2) es [of ?m] upd by (auto simp: tracked_def intro: numbered_append)
  have tracked': "tracked (evs @ ?es) ?new"
    using numbered' upd new(2) es [of ?m] by (auto simp: tracked_def final_count_append)
  have w: "weight (evs @ ?es) ?E' j = (if j = ?m then Suc (weight evs ?E j) else weight evs ?E j)" for j
  proof (cases "j = ?m")
    case True
    obtain k e where "row ?m ?E = Some (k, e)" "e = ep" using row_m sequence_unique [OF d _ mem] by blast
    then show ?thesis using True new(3) by (simp add: weight_def upd_row)
  next
    case False
    then have "final_count j (evs @ ?es) = final_count j evs"
      unfolding final_count_append es by simp
    then show ?thesis using False unfolding weight_def upd_row(1) by (simp only: if_False)
  qed
  have "(\<Sum>j \<in> {s..<ss_next (ag_state ag)}. weight (evs @ ?es) ?E' j)
      = (\<Sum>j \<in> {s..<ss_next (ag_state ag)}. weight evs ?E j + (if j = ?m then 1 else 0))"
    by (rule sum.cong) (auto simp: w)
  also have "\<dots> = Suc n" using m by (simp add: sum.distrib sum)
  finally have sum': "(\<Sum>j \<in> {s..<ss_next (ag_state ag)}. weight (evs @ ?es) ?E' j) = Suc n" .
  have live': "case x of (k, e) \<Rightarrow> episode_ok P e \<and> tracked (evs @ ?es) e" if x: "x \<in> set ?E'" for x
  proof -
    obtain k e where xe: "x = (k, e)" by (cases x)
    have "(key, ?new) \<in> set ?E'" using upd_row(1) [of ?m] row_Some [of ?m ?E' key ?new] by simp
    then have "ep_sequence e = ?m \<Longrightarrow> e = ?new"
      using sequence_unique [of ?E' k e key ?new] x xe upd_row(2) d new(2) by simp
    then consider "e = ?new" | "(k, e) \<in> set ?E" "ep_sequence e \<noteq> ?m"
      using in_update [of k e key ?new ?E] x xe by blast
    then show ?thesis
    proof cases
      case 2
      then have "episode_ok P e" "tracked evs e" "of_sequence (ep_sequence e) ?es = []" using live es by auto
      then show ?thesis by (simp add: xe tracked_def final_count_append numbered_append)
    qed (use new(1) tracked' xe in simp)
  qed
  let ?ag = "ag\<lparr>ag_episodes := ?E'\<rparr>"
  have eq: "ag_episodes ?ag = ?E'" "ag_state ?ag = ag_state ag" by simp_all
  show ?thesis
    unfolding ledger_def Let_def eq
  proof (intro conjI)
    show "s \<le> ss_next (ag_state ag)" using m by auto
    show "distinct (sequences ?E')" "set (sequences ?E') \<subseteq> {s..<ss_next (ag_state ag)}" using d rng upd_row(2) by simp_all
    show "\<forall>x \<in> set ?E'. case x of (k, ep) \<Rightarrow> episode_ok P ep \<and> tracked (evs @ ?es) ep" using live' by blast
    show "\<forall>e \<in> set (evs @ ?es). episode_ok P e \<and> ep_sequence e \<in> {s..<ss_next (ag_state ag)}"
      using out new m by (auto split: if_splits)
    show "\<forall>j. \<exists>r. numbered j (evs @ ?es) r"
    proof
      fix j show "\<exists>r. numbered j (evs @ ?es) r"
      proof (cases "j = ?m")
        case False
        then have "of_sequence j ?es = []" unfolding es by simp
        then show ?thesis using num numbered_append(1) by blast
      qed (use numbered' in blast)
    qed
    show "(\<Sum>j \<in> {s..<ss_next (ag_state ag)}. weight (evs @ ?es) ?E' j) = Suc n" by (fact sum')
  qed
qed

lemma ledger_observe:
  assumes led: "ledger P s n evs ag" and run: "observe P ob ag = (es, ag')"
  shows "ledger P s (Suc n) (evs @ es) ag'"
proof -
  let ?key = "episode_key ob"
  obtain es1 ag1 where flush: "flush_expired P (ob_epoch ob) ag = (es1, ag1)" by fastforce
  have led1: "ledger P s n (evs @ es1) ag1" using ledger_close(1) [OF led] flush by (simp add: flush_expired_def)
  show ?thesis
  proof (cases "map_of (ag_episodes ag1) ?key")
    case (Some ep)
    obtain esc ep' where up: "update_episode P ob ep = (esc, ep')" by fastforce
    show ?thesis
      using ledger_touch [OF led1 Some up, of "emission_due P (ob_epoch ob) ep' \<or> esc"] run
      by (auto simp: observe_def flush Some up Let_def)
  next
    case None
    let ?ep = "new_episode P (ss_next (ag_state ag1)) ob"
    let ?ag = "ag1\<lparr>ag_episodes := ag_episodes ag1 @ [(?key, ?ep)], ag_state := snd (allocate_episode_sequence (ag_state ag1))\<rparr>"
    have led2: "ledger P s n (evs @ es1) ?ag" by (rule ledger_open [OF led1])
    have found: "map_of (ag_episodes ?ag) ?key = Some ?ep" using None by (simp add: map_add_def)
    obtain esc ep' where up: "update_episode P ob ?ep = (esc, ep')" by fastforce
    have "AList.update ?key e (ag_episodes ag1 @ [(?key, ?ep)]) = AList.update ?key e (ag_episodes ag1)" for e
      using update_last [OF None] .
    then show ?thesis
      using ledger_touch [OF led2 found up, of "emission_due P (ob_epoch ob) ep' \<or> esc"] run
      by (auto simp: observe_def flush None up Let_def allocate_episode_sequence_def)
  qed
qed

lemma ledger_step:
  assumes "ledger P s n evs ag" and "agg_step P op ag = (es, ag')"
  shows "ledger P s (n + (if is_observe op then 1 else 0)) (evs @ es) ag'"
  using assms ledger_observe ledger_close(1)
  by (cases op) (auto simp: flush_expired_def flush_source_def flush_all_def)

lemma ledger_run:
  assumes "ledger P s n evs ag" and "agg_run P ops ag = (es, ag')"
  shows "ledger P s (n + observed ops) (evs @ es) ag'"
  using assms
proof (induction ops arbitrary: n evs ag es)
  case (Cons op ops)
  obtain es1 ag1 es2 where "agg_step P op ag = (es1, ag1)" "agg_run P ops ag1 = (es2, ag')" "es = es1 @ es2"
    using Cons.prems(2) by (auto simp: Let_def split: prod.splits)
  with ledger_step [OF Cons.prems(1)] Cons.IH show ?case by (fastforce simp: observed_def)
qed (simp add: observed_def)

section \<open>A concrete sensor\<close>

definition demo_params :: agg_params where
  "demo_params = \<lparr>ap_sensor = ''sensor:plc'', ap_version = ''1'', ap_boot = ''boot'', ap_emit = 30,
     ap_quiet = 15, ap_window = 2, ap_buckets = 64, ap_sha = (\<lambda>s. s)\<rparr>"

definition demo_state :: state_store where
  "demo_state = \<lparr>ss_boot = ''boot'', ss_next = 0, ss_file = None\<rparr>"

text \<open>Function 6 writes one register at an instant.\<close>

definition demo_write :: "int \<Rightarrow> int \<Rightarrow> outcome_state \<Rightarrow> rat \<Rightarrow> observation" where
  "demo_write address value outcome t =
     \<lparr>ob_at = ''2026-09-01T10:00:00.000000Z'', ob_epoch = t,
      ob_source = \<lparr>so_ip = ''10.0.0.1'', so_port = Some 41000, so_class = UnknownSource\<rparr>,
      ob_destination = \<lparr>de_asset = ''asset:plc'', de_ip = ''10.0.0.2'', de_port = 502, de_unit = 1\<rparr>,
      ob_operation = \<lparr>op_function = 6, op_unit = 1, op_address = address, op_quantity = 1, op_values = [value],
        op_values_sha = dumps True (JArr [JInt value]), op_truncated = False\<rparr>,
      ob_outcome = outcome\<rparr>"

definition demo_emitted :: episode where
  "demo_emitted = rendered (snd (update_episode demo_params (demo_write 3 0 Processed 0)
     (new_episode demo_params 0 (demo_write 3 0 Processed 0))))"

lemma demo_run:
  "fst (agg_run demo_params [Observe (demo_write 3 0 Processed 0)] (fresh_aggregator demo_state)) = [demo_emitted]"
proof -
  obtain esc ep where up: "update_episode demo_params (demo_write 3 0 Processed 0)
      (new_episode demo_params 0 (demo_write 3 0 Processed 0)) = (esc, ep)" by fastforce
  have "ep_last_emit ep = None"
    using update_episode_ok(6) [OF new_episode_ok up] by (simp add: new_episode_def)
  then show ?thesis
    by (simp add: demo_emitted_def observe_def flush_expired_def close_where_def fresh_aggregator_def
        demo_state_def allocate_episode_sequence_def up emission_due_def Let_def)
qed

section \<open>The guarantees of a run\<close>

lemma run_ledger:
  "agg_run P ops (fresh_aggregator st) = (es, ag') \<Longrightarrow> ledger P (ss_next st) (observed ops) es ag'"
  using ledger_run [OF ledger_fresh] by force

lemma run_numbered:
  assumes "agg_run P ops (fresh_aggregator st) = (es, ag')"
  shows "map ep_revision (of_sequence n es) = [1..<Suc (length (of_sequence n es))]"
proof -
  obtain r where r: "map ep_revision (of_sequence n es) = [1..<Suc r]"
    using run_ledger [OF assms] unfolding ledger_def Let_def numbered_def by blast
  from arg_cong [OF r, of length] have "length (of_sequence n es) = r" by simp
  with r show ?thesis by simp
qed

lemma distinct_pairs:
  assumes "\<And>n. distinct (map ep_revision (of_sequence n es))"
  shows "distinct (map (\<lambda>e. (ep_sequence e, ep_revision e)) es)"
  using assms
proof (induction es)
  case (Cons e es)
  have seq: "of_sequence n (e # es) = (if ep_sequence e = n then e # of_sequence n es else of_sequence n es)" for n
    by (simp add: of_sequence_def)
  have "distinct (map ep_revision (of_sequence n es))" for n
    using Cons.prems [of n] unfolding seq by (cases "ep_sequence e = n") simp_all
  then have "distinct (map (\<lambda>e. (ep_sequence e, ep_revision e)) es)" by (rule Cons.IH)
  moreover have "(ep_sequence e, ep_revision e) \<notin> set (map (\<lambda>e. (ep_sequence e, ep_revision e)) es)"
  proof
    assume "(ep_sequence e, ep_revision e) \<in> set (map (\<lambda>e. (ep_sequence e, ep_revision e)) es)"
    then obtain e' where "e' \<in> set es" "ep_sequence e' = ep_sequence e" "ep_revision e' = ep_revision e" by auto
    then have "e' \<in> set (of_sequence (ep_sequence e) es)" by (simp add: of_sequence_def)
    then have "ep_revision e \<in> set (map ep_revision (of_sequence (ep_sequence e) es))"
      using imageI [of e' _ ep_revision] \<open>ep_revision e' = ep_revision e\<close> by simp
    then show False using Cons.prems [of "ep_sequence e"] unfolding seq by simp
  qed
  ultimately show ?case by simp
qed simp

lemma identity_inj:
  "inj sha \<Longrightarrow> ap_sha P = sha \<Longrightarrow> episode_identity P m = episode_identity P n \<Longrightarrow> m = n"
  by (auto simp: episode_identity_def dest!: injD show_int_inj)

text \<open>The revisions of an episode reach the spool numbered 1, 2, 3, ... in this order, whatever
  writes and flushes the sensor sees and however the episodes interleave.\<close>

theorem revisions_consecutive:
  "let es = of_sequence n (fst (agg_run P ops (fresh_aggregator st)))
   in map ep_revision es = [1..<Suc (length es)]"
  using run_numbered [of P ops st] by (simp add: prod_eq_iff)

text \<open>C10: No write is lost or counted twice. When the sensor has flushed its episodes, the request
  counters in the last revisions of all episodes together equal the number of writes observed.\<close>

theorem every_write_counted:
  "let (es, ag) = agg_run P (ops @ [FlushAll]) (fresh_aggregator st)
   in (\<Sum>n \<in> {ss_next st..<ss_next (ag_state ag)}. final_count n es) = observed ops"
proof -
  obtain es ag where run: "agg_run P (ops @ [FlushAll]) (fresh_aggregator st) = (es, ag)" by fastforce
  have split: "agg_run P (xs @ [FlushAll]) a = (fst (agg_run P xs a) @ fst (flush_all (snd (agg_run P xs a))),
      snd (flush_all (snd (agg_run P xs a))))" for xs a
    by (induction xs arbitrary: a) (auto simp: Let_def split: prod.split)
  have empty: "ag_episodes ag = []" using run by (auto simp: split flush_all_def close_where_def)
  have "observed (ops @ [FlushAll]) = observed ops" by (simp add: observed_def)
  then show ?thesis using run_ledger [OF run] empty by (simp add: run ledger_def Let_def weight_def)
qed

text \<open>C11: The books of every emitted revision balance: the bucket counters and the dropped writes add up
  to the requests, so do the outcomes, there are at most \<open>max_operation_buckets\<close> buckets, each
  counted at least once and with its function code listed, and the identifier is that of its sequence.\<close>

theorem emitted_books_balance:
  assumes "e \<in> set (fst (agg_run P ops (fresh_aggregator st)))"
  shows "episode_ok P e"
proof -
  obtain es ag where "agg_run P ops (fresh_aggregator st) = (es, ag)" by fastforce
  from run_ledger [OF this] show ?thesis using assms \<open>agg_run _ _ _ = _\<close> by (auto simp: ledger_def Let_def)
qed

lemma emitted_books_balance_witness: "episode_ok demo_params demo_emitted"
  by (rule emitted_books_balance [of _ _ "[Observe (demo_write 3 0 Processed 0)]" demo_state])
    (simp del: agg_run.simps add: demo_run)

text \<open>With a collision-free digest, no two emitted revisions share their event identifier and
  revision number, which is what the receiver recognises a repetition by.\<close>

theorem event_revision_unique:
  assumes "inj (ap_sha P)"
  shows "distinct (map (\<lambda>e. (ep_id e, ep_revision e)) (fst (agg_run P ops (fresh_aggregator st))))"
proof -
  obtain es ag where run: "agg_run P ops (fresh_aggregator st) = (es, ag)" by fastforce
  have ok: "\<forall>e \<in> set es. episode_ok P e" using run_ledger [OF run] by (auto simp: ledger_def Let_def)
  have "distinct (map (\<lambda>e. (ep_sequence e, ep_revision e)) es)"
    by (rule distinct_pairs) (simp add: run_numbered [OF run])
  then have "distinct (map (\<lambda>e. (episode_identity P (ep_sequence e), ep_revision e)) es)"
    using identity_inj [OF assms refl] by (auto simp: distinct_map inj_on_def)
  moreover have eq: "map (\<lambda>e. (ep_id e, ep_revision e)) es = map (\<lambda>e. (episode_identity P (ep_sequence e), ep_revision e)) es"
    by (rule map_cong) (use ok in \<open>simp_all add: episode_ok_def\<close>)
  ultimately show ?thesis by (simp only: run fst_conv eq)
qed

lemma event_revision_unique_witness:
  "distinct (map (\<lambda>e. (ep_id e, ep_revision e))
     (fst (agg_run demo_params [Observe (demo_write 3 0 Processed 0), FlushAll] (fresh_aggregator demo_state))))"
  by (rule event_revision_unique) (simp add: demo_params_def)

end
