(* ===== verification/EventSpool.thy ===== *)
theory EventSpool
  imports PlcLedger
begin

text \<open>
  The signed spool of the endpoint sensor (\<open>spool.py\<close>): envelopes that carry an event with its
  payload hash, the hash of the preceding record, an HMAC and their own hash; verification; and the
  append-only file, one line of JSON per envelope. The file is its text. SHA-256 of a text and
  HMAC-SHA256 under the sensor's key are the functions \<open>cr_sha\<close> and \<open>cr_mac\<close>, both rendered in
  hexadecimal; lines end at LF. Failures of the file system are outside the model.
\<close>

record crypto =
  cr_sha :: "string \<Rightarrow> string"
  cr_mac :: "string \<Rightarrow> string"

definition zero_hash :: string where
  "zero_hash = replicate 64 CHR ''0''"

section \<open>Envelopes\<close>

definition unsigned_envelope :: "crypto \<Rightarrow> json \<Rightarrow> json \<Rightarrow> string \<Rightarrow> json" where
  "unsigned_envelope C event key_id previous_hash =
     JObj [(''schema_version'', JStr ''dtlab-plc-endpoint-envelope-v1''), (''event'', event),
       (''integrity'', JObj [(''algorithm'', JStr ''HMAC-SHA256''), (''key_id'', JStr (py_str key_id)),
          (''payload_sha256'', JStr (cr_sha C (canonical_json event))),
          (''previous_record_sha256'', JStr previous_hash)])]"

text \<open>\<open>d["integrity"][k] = v\<close>\<close>

definition set_integrity :: "string \<Rightarrow> json \<Rightarrow> json \<Rightarrow> json" where
  "set_integrity k v env = JObj (AList.update ''integrity''
     (JObj (AList.update k v (entries (jget env ''integrity'')))) (entries env))"

definition with_signature :: "crypto \<Rightarrow> json \<Rightarrow> spool_error + json" where
  "with_signature C u = (case loads (canonical_json u) of
     None \<Rightarrow> Inl SpoolTypeError
   | Some v \<Rightarrow> Inr (set_integrity ''signature'' (JStr (cr_mac C (canonical_json u))) v))"

definition record_name :: "json \<Rightarrow> json \<Rightarrow> string \<Rightarrow> string" where
  "record_name event_id revision record_hash =
     py_str event_id @ '':r'' @ py_str revision @ '':'' @ take 16 record_hash"

definition build_envelope :: "crypto \<Rightarrow> json \<Rightarrow> string \<Rightarrow> string \<Rightarrow> spool_error + json" where
  "build_envelope C event key_id previous_hash =
     bindR (with_signature C (unsigned_envelope C event (JStr key_id) previous_hash)) (\<lambda>signed.
     let record_hash = cr_sha C (canonical_json signed);
         full = set_integrity ''record_sha256'' (JStr record_hash) signed
     in case (map_of (entries event) ''event_id'', map_of (entries event) ''revision'') of
          (Some i, Some r) \<Rightarrow>
            (case py_int r of
               None \<Rightarrow> Inl SpoolTypeError
             | Some n \<Rightarrow> Inr (JObj (AList.update ''record_id''
                 (JStr (record_name (JStr (py_str i)) (JInt n) record_hash)) (entries full))))
        | _ \<Rightarrow> Inl SpoolTypeError)"

definition verify_envelope :: "crypto \<Rightarrow> json \<Rightarrow> string option \<Rightarrow> spool_error + string" where
  "verify_envelope C env expected_previous =
     (if \<not> is_obj env then Inl SpoolTypeError else
      if jget env ''schema_version'' \<noteq> JStr ''dtlab-plc-endpoint-envelope-v1'' then Inl EnvelopeSchema else
      let event = jget env ''event''; integrity = jget env ''integrity'' in
      if \<not> is_obj event \<or> \<not> is_obj integrity then Inl EnvelopeIncomplete else
      if jget integrity ''algorithm'' \<noteq> JStr ''HMAC-SHA256'' then Inl EnvelopeAlgorithm else
      if cr_sha C (canonical_json event) \<noteq> py_str (jget integrity ''payload_sha256'') then Inl EnvelopePayload else
      let previous_hash = text_or_empty (jget integrity ''previous_record_sha256'') in
      if expected_previous \<noteq> None \<and> expected_previous \<noteq> Some previous_hash then Inl ChainBroken else
      let u = unsigned_envelope C event (jget integrity ''key_id'') previous_hash in
      if cr_mac C (canonical_json u) \<noteq> text_or_empty (jget integrity ''signature'') then Inl EnvelopeSignature else
      bindR (with_signature C u) (\<lambda>signed.
      let record_hash = cr_sha C (canonical_json signed) in
      if record_hash \<noteq> text_or_empty (jget integrity ''record_sha256'') then Inl EnvelopeRecordHash else
      if text_or_empty (jget env ''record_id'')
           \<noteq> record_name (jget event ''event_id'') (jget event ''revision'') record_hash
        then Inl EnvelopeRecordId
      else Inr record_hash))"

section \<open>The file\<close>

definition newline :: char where "newline = CHR 0x0A"

fun file_lines :: "string \<Rightarrow> string list" where
  "file_lines [] = []"
| "file_lines (c # s) =
     (if c = newline then [c] # file_lines s
      else case file_lines s of [] \<Rightarrow> [[c]] | l # ls \<Rightarrow> (c # l) # ls)"

record signed_spool =
  sp_key_id :: string
  sp_max_bytes :: int
  sp_file :: string
  sp_previous :: string

definition last_record_hash :: "string \<Rightarrow> spool_error + string" where
  "last_record_hash file =
     (let ls = filter (\<lambda>l. strip l \<noteq> []) (file_lines file) in
      if ls = [] then Inr zero_hash
      else case loads (last ls) of
             None \<Rightarrow> Inl LastRecordInvalid
           | Some env \<Rightarrow>
               (case map_of (entries (jget env ''integrity'')) ''record_sha256'' of
                  None \<Rightarrow> Inl LastRecordInvalid | Some h \<Rightarrow> Inr (py_str h)))"

definition open_spool :: "string \<Rightarrow> int \<Rightarrow> string \<Rightarrow> spool_error + signed_spool" where
  "open_spool key_id max_bytes file =
     bindR (last_record_hash file) (\<lambda>h.
     Inr \<lparr>sp_key_id = key_id, sp_max_bytes = max_bytes, sp_file = file, sp_previous = h\<rparr>)"

definition envelope_line :: "json \<Rightarrow> string" where
  "envelope_line env = canonical_json env @ [newline]"

definition append_event :: "crypto \<Rightarrow> json \<Rightarrow> (signed_spool, spool_error, json) act" where
  "append_event C event = (\<lambda>sp.
     case build_envelope C event (sp_key_id sp) (sp_previous sp) of
       Inl e \<Rightarrow> (Inl e, sp)
     | Inr env \<Rightarrow>
         let line = envelope_line env in
         if sp_max_bytes sp < int (length (sp_file sp)) + int (length line) then (Inl SpoolFull, sp)
         else (Inr env, sp\<lparr>sp_file := sp_file sp @ line,
                 sp_previous := py_str (jget (jget env ''integrity'') ''record_sha256'')\<rparr>))"

section \<open>Reading records back\<close>

text \<open>The loop of \<open>pending_envelopes\<close> over the lines from the cursor on: at most \<open>n\<close> records, an
  incomplete last line is left alone.\<close>

definition ascii :: "string \<Rightarrow> bool" where
  "ascii s \<longleftrightarrow> list_all (\<lambda>c. (of_char c :: nat) < 128) s"

definition decode_line :: "string \<Rightarrow> spool_error + json" where
  "decode_line l = (if ascii l then case loads l of None \<Rightarrow> Inl EnvelopeJson | Some v \<Rightarrow> Inr v else Inl EnvelopeJson)"

fun read_records ::
  "crypto \<Rightarrow> string \<Rightarrow> nat \<Rightarrow> string list \<Rightarrow> nat \<Rightarrow> spool_error + (nat \<times> string \<times> json) list" where
  "read_records C previous offset [] n = Inr []"
| "read_records C previous offset (l # ls) n =
     (if n = 0 \<or> last l \<noteq> newline then Inr []
      else
        bindR (decode_line l) (\<lambda>env.
        bindR (verify_envelope C env (Some previous)) (\<lambda>h.
        bindR (read_records C h (offset + length l) ls (n - 1)) (\<lambda>rest.
        Inr ((offset + length l, h, env) # rest)))))"

record sender_cursor =
  cu_offset :: nat
  cu_previous :: string

definition pending_envelopes ::
  "crypto \<Rightarrow> string \<Rightarrow> sender_cursor \<Rightarrow> nat \<Rightarrow> spool_error + (nat \<times> string \<times> json) list" where
  "pending_envelopes C file cu limit =
     read_records C (cu_previous cu) (cu_offset cu) (file_lines (drop (cu_offset cu) file)) limit"

end
