(* ===== verification/SpoolRead.thy ===== *)
theory SpoolRead
  imports SpoolChain
begin

text \<open>
  Reading the spool: the chain that a file of appends forms, the cursor positions at record
  boundaries, and what \<open>pending_envelopes\<close> returns there; an incomplete last line is left alone.
\<close>

section \<open>Chains of lines\<close>

fun chain :: "crypto \<Rightarrow> string \<Rightarrow> string list \<Rightarrow> string option" where
  "chain C h [] = Some h"
| "chain C h (l # ls) =
     (if last l \<noteq> newline then None
      else case decode_line l of
             Inl _ \<Rightarrow> None
           | Inr env \<Rightarrow> (case verify_envelope C env (Some h) of Inl _ \<Rightarrow> None | Inr h' \<Rightarrow> chain C h' ls))"

definition line_event :: "string \<Rightarrow> json" where
  "line_event l = (case decode_line l of Inl _ \<Rightarrow> JNull | Inr env \<Rightarrow> jget env ''event'')"

text \<open>The events a file holds, one per line.\<close>

definition spooled :: "string \<Rightarrow> json list" where
  "spooled file = map line_event (file_lines file)"

definition spool_ok :: "crypto \<Rightarrow> signed_spool \<Rightarrow> bool" where
  "spool_ok C sp \<longleftrightarrow> chain C zero_hash (file_lines (sp_file sp)) = Some (sp_previous sp)"

definition proper_event :: "json \<Rightarrow> bool" where
  "proper_event e \<longleftrightarrow> json_ok e \<and> is_obj e \<and> (\<exists>i. jget e ''event_id'' = JStr i) \<and> (\<exists>n. jget e ''revision'' = JInt n)"

lemma chain_append: "chain C h (xs @ ys) = (case chain C h xs of None \<Rightarrow> None | Some h' \<Rightarrow> chain C h' ys)"
  by (induction xs arbitrary: h) (auto split: sum.split)

lemma chain_terminated: "chain C h ls = Some h' \<Longrightarrow> l \<in> set ls \<Longrightarrow> last l = newline"
  by (induction ls arbitrary: h) (auto split: if_splits sum.splits)

lemma lines_Cons: "file_lines s = l # ls \<Longrightarrow> s = l @ concat ls \<and> file_lines (concat ls) = ls \<and> l \<noteq> []"
proof (induction s arbitrary: l ls)
  case (Cons c s)
  show ?case
  proof (cases "c = newline")
    case True
    then show ?thesis using Cons.prems lines_concat [of s] by auto
  next
    case False
    show ?thesis
    proof (cases "file_lines s")
      case Nil
      then have "s = []" using lines_concat [of s] by simp
      then show ?thesis using Cons.prems False by auto
    next
      case (Cons l0 ls0)
      then show ?thesis using Cons.IH [OF Cons] Cons.prems False by auto
    qed
  qed
qed simp

lemma lines_drop: "file_lines (drop (length (concat (take k (file_lines s)))) s) = drop k (file_lines s)"
proof (induction k arbitrary: s)
  case (Suc k)
  show ?case
  proof (cases "file_lines s")
    case (Cons l ls)
    note parts = lines_Cons [OF Cons]
    have "drop (length (concat (take k ls))) (concat ls) = drop (length (concat (take (Suc k) (l # ls)))) s"
      using parts by (metis append_take_drop_id concat.simps(2) drop_append append_Nil drop_all length_append
          le_add1 diff_add_inverse take_Suc_Cons)
    then show ?thesis using Suc.IH [of "concat ls"] parts Cons by simp
  qed simp
qed simp

lemma chained_file_end:
  assumes "chain C h (file_lines s) = Some h'"
  shows "s = [] \<or> last s = newline"
proof (cases "file_lines s = []")
  case True
  then show ?thesis by (metis concat.simps(1) lines_concat)
next
  case False
  then have "last (file_lines s) \<in> set (file_lines s)" by simp
  then have nl: "last (last (file_lines s)) = newline" by (rule chain_terminated [OF assms])
  have "last (file_lines s) \<noteq> []" using False
    by (induction s) (auto split: list.splits if_splits)
  then have "last (concat (file_lines s)) = last (last (file_lines s))"
    using False by (metis append_butlast_last_id concat_append concat.simps last_appendR append_Nil2)
  then show ?thesis using nl by (simp add: lines_concat)
qed

lemma append_ok:
  assumes ok: "spool_ok C sp" and ev: "proper_event event" and run: "append_event C event sp = (r, sp')"
  shows "spool_ok C sp'" "sp_key_id sp' = sp_key_id sp" "sp_max_bytes sp' = sp_max_bytes sp"
    "case r of Inl e \<Rightarrow> e = SpoolFull \<and> sp' = sp
     | Inr env \<Rightarrow> file_lines (sp_file sp') = file_lines (sp_file sp) @ [envelope_line env]
         \<and> spooled (sp_file sp') = spooled (sp_file sp) @ [canon event]"
proof -
  obtain i n where e: "json_ok event" "is_obj event" "jget event ''event_id'' = JStr i" "jget event ''revision'' = JInt n"
    using ev by (auto simp: proper_event_def)
  obtain env where b: "build_envelope C event (sp_key_id sp) (sp_previous sp) = Inr env"
    using build_envelope_eq [OF e(1,3,4)] by blast
  note built = built_verifies [OF e b]
  note line = envelope_line_facts [OF built(1)]
  have lines: "file_lines (sp_file sp @ envelope_line env) = file_lines (sp_file sp) @ [envelope_line env]"
    using lines_append [OF chained_file_end] ok line(1) by (simp add: spool_ok_def)
  have "chain C zero_hash (file_lines (sp_file sp @ envelope_line env))
      = Some (py_str (jget (jget env ''integrity'') ''record_sha256''))"
    using ok line built(4) [of "Some (sp_previous sp)"] built(3)
    by (simp add: lines chain_append spool_ok_def)
  moreover have "spooled (sp_file sp @ envelope_line env) = spooled (sp_file sp) @ [canon event]"
    using lines line(2) built(2) by (simp add: spooled_def line_event_def)
  ultimately show "spool_ok C sp'" "sp_key_id sp' = sp_key_id sp" "sp_max_bytes sp' = sp_max_bytes sp"
    "case r of Inl e \<Rightarrow> e = SpoolFull \<and> sp' = sp
     | Inr env \<Rightarrow> file_lines (sp_file sp') = file_lines (sp_file sp) @ [envelope_line env]
         \<and> spooled (sp_file sp') = spooled (sp_file sp) @ [canon event]"
    using run ok lines
    by (cases "sp_max_bytes sp < int (length (sp_file sp)) + int (length (envelope_line env))";
        auto simp: append_event_def b Let_def spool_ok_def)+
qed

section \<open>Reading from a record boundary\<close>

definition record_event :: "nat \<times> string \<times> json \<Rightarrow> json" where
  "record_event r = jget (snd (snd r)) ''event''"

text \<open>\<open>rest\<close> is the incomplete line at the end, if there is one.\<close>

lemma read_chain:
  assumes "chain C h ls = Some h'" and "rest = [] \<or> (\<exists>t. rest = [t] \<and> last t \<noteq> newline)"
  shows "\<exists>rs. read_records C h off (ls @ rest) n = Inr rs
    \<and> map record_event rs = take n (map line_event ls)
    \<and> (\<forall>i < length rs. fst (rs ! i) = off + length (concat (take (Suc i) ls))
         \<and> chain C h (take (Suc i) ls) = Some (fst (snd (rs ! i))))"
  using assms
proof (induction ls arbitrary: h off n)
  case Nil
  then show ?case by auto
next
  case (Cons l ls)
  obtain env h1 where l: "last l = newline" "decode_line l = Inr env" "verify_envelope C env (Some h) = Inr h1"
    and tl: "chain C h1 ls = Some h'"
    using Cons.prems(1) by (auto split: if_splits sum.splits)
  show ?case
  proof (cases n)
    case (Suc m)
    obtain rs where rs: "read_records C h1 (off + length l) (ls @ rest) m = Inr rs"
      "map record_event rs = take m (map line_event ls)"
      "\<forall>i < length rs. fst (rs ! i) = off + length l + length (concat (take (Suc i) ls))
         \<and> chain C h1 (take (Suc i) ls) = Some (fst (snd (rs ! i)))"
      using Cons.IH [OF tl Cons.prems(2), of "off + length l" m] by blast
    let ?rs = "(off + length l, h1, env) # rs"
    have "fst (?rs ! i) = off + length (concat (take (Suc i) (l # ls)))
        \<and> chain C h (take (Suc i) (l # ls)) = Some (fst (snd (?rs ! i)))" if "i < length ?rs" for i
      using that rs(3) l by (cases i) auto
    moreover have "read_records C h off ((l # ls) @ rest) n = Inr ?rs" using l rs(1) Suc by simp
    moreover have "map record_event ?rs = take n (map line_event (l # ls))"
      using l rs(2) Suc by (simp add: record_event_def line_event_def)
    ultimately show ?thesis by blast
  qed auto
qed

text \<open>A cursor that stands behind \<open>k\<close> records.\<close>

definition cursor_at :: "crypto \<Rightarrow> string \<Rightarrow> sender_cursor \<Rightarrow> nat \<Rightarrow> bool" where
  "cursor_at C file cu k \<longleftrightarrow> k \<le> length (file_lines file)
     \<and> cu_offset cu = length (concat (take k (file_lines file)))
     \<and> chain C zero_hash (take k (file_lines file)) = Some (cu_previous cu)"

definition start_cursor :: sender_cursor where
  "start_cursor = \<lparr>cu_offset = 0, cu_previous = zero_hash\<rparr>"

lemma start_cursor_at: "cursor_at C file start_cursor 0"
  by (simp add: cursor_at_def start_cursor_def)

lemma cursor_grows: "cursor_at C file cu k \<Longrightarrow> file_lines file' = file_lines file @ ls \<Longrightarrow> cursor_at C file' cu k"
  by (simp add: cursor_at_def)

lemma chain_drop:
  assumes "chain C h ls = Some h'" and "chain C h (take k ls) = Some h1"
  shows "chain C h1 (drop k ls) = Some h'"
  using assms chain_append [of C h "take k ls" "drop k ls"] by simp

lemma pending_reads:
  assumes ok: "chain C zero_hash (file_lines file) = Some h" and at_k: "cursor_at C file cu k"
    and torn: "torn = [] \<or> newline \<notin> set torn"
  shows "\<exists>rs. pending_envelopes C (file @ torn) cu limit = Inr rs
    \<and> map record_event rs = take limit (drop k (spooled file))
    \<and> (\<forall>i < length rs. cursor_at C file \<lparr>cu_offset = fst (rs ! i), cu_previous = fst (snd (rs ! i))\<rparr> (Suc (k + i)))"
proof -
  let ?ls = "file_lines file" and ?rest = "if torn = [] then [] else [torn]"
  have k: "k \<le> length ?ls" "cu_offset cu = length (concat (take k ?ls))"
    "chain C zero_hash (take k ?ls) = Some (cu_previous cu)"
    using at_k by (simp_all add: cursor_at_def)
  have torn_lines: "file_lines torn = ?rest" using torn
    by (induction torn) auto
  have all: "file_lines (file @ torn) = ?ls @ ?rest"
    using lines_append [OF chained_file_end [OF ok], of torn] torn_lines by simp
  have "take k (file_lines (file @ torn)) = take k ?ls" using k(1) by (simp add: all)
  then have lines: "file_lines (drop (cu_offset cu) (file @ torn)) = drop k ?ls @ ?rest"
    using lines_drop [of k "file @ torn"] k by (simp add: all)
  have rest: "?rest = [] \<or> (\<exists>t. ?rest = [t] \<and> last t \<noteq> newline)"
    using torn by (cases "torn = []") (auto dest: last_in_set)
  obtain rs where rs: "read_records C (cu_previous cu) (cu_offset cu) (drop k ?ls @ ?rest) limit = Inr rs"
    "map record_event rs = take limit (map line_event (drop k ?ls))"
    "\<forall>i < length rs. fst (rs ! i) = cu_offset cu + length (concat (take (Suc i) (drop k ?ls)))
       \<and> chain C (cu_previous cu) (take (Suc i) (drop k ?ls)) = Some (fst (snd (rs ! i)))"
    using read_chain [OF chain_drop [OF ok k(3)] rest, of "cu_offset cu" limit] by blast
  have "cursor_at C file \<lparr>cu_offset = fst (rs ! i), cu_previous = fst (snd (rs ! i))\<rparr> (Suc (k + i))"
    if i: "i < length rs" for i
  proof -
    have "length rs \<le> length (drop k ?ls)"
      using arg_cong [OF rs(2), of length] by simp
    then have len: "Suc (k + i) \<le> length ?ls" using i by simp
    have split: "take (Suc (k + i)) ?ls = take k ?ls @ take (Suc i) (drop k ?ls)"
      using take_add [of k "Suc i" ?ls] by simp
    show ?thesis unfolding cursor_at_def split
      using rs(3) i k(2,3) len by (simp add: chain_append)
  qed
  moreover have "pending_envelopes C (file @ torn) cu limit = Inr rs"
    unfolding pending_envelopes_def lines by (rule rs(1))
  ultimately show ?thesis using rs(2) by (auto simp: spooled_def drop_map)
qed

section \<open>Reopening the file\<close>

lemma strip_Nil: "strip s = [] \<Longrightarrow> \<forall>c \<in> set s. is_space c"
proof -
  assume "strip s = []"
  then have "\<forall>c \<in> set (dropWhile is_space s). is_space c" by (simp add: strip_def dropWhile_eq_Nil_conv)
  then have "dropWhile is_space s = []" by (metis hd_dropWhile list.set_sel(1))
  then show ?thesis by (simp add: dropWhile_eq_Nil_conv)
qed

lemma blank_unparsable: "strip s = [] \<Longrightarrow> loads s = None"
proof -
  assume "strip s = []"
  then have sp: "\<forall>c \<in> set s. is_space c" by (rule strip_Nil)
  show "loads s = None"
  proof (cases "skip_ws s")
    case (Cons c r)
    then have "c \<in> set s" "\<not> json_ws c"
      using set_dropWhileD [of c json_ws s] hd_dropWhile [of json_ws s] by (auto simp: skip_ws_def)
    then have c: "is_space c" "\<not> json_ws c" using sp by auto
    then have "\<not> is_numchar c" "c \<noteq> CHR 0x22" "c \<noteq> CHR ''[''" "c \<noteq> CHR ''{''" "c \<noteq> CHR ''n''" "c \<noteq> CHR ''t''" "c \<noteq> CHR ''f''"
      by (auto simp: is_space_def is_numchar_def is_digit_def Let_def)
    moreover from this have "number_of (takeWhile is_numchar (c # r)) = None"
      using number_of_nonempty [of "[]"] by (cases "number_of []") auto
    ultimately show ?thesis using Cons by (simp add: loads_def scan_number_def)
  qed (simp add: loads_def)
qed

lemma verified_hash:
  assumes "verify_envelope C env p = Inr h" and "h \<noteq> []"
  shows "is_obj env" "map_of (entries (jget env ''integrity'')) ''record_sha256'' = Some v \<Longrightarrow> py_str v = h"
    "map_of (entries (jget env ''integrity'')) ''record_sha256'' \<noteq> None"
proof -
  show "is_obj env" using assms by (auto simp: verify_envelope_def split: if_splits)
  have "text_or_empty (jget (jget env ''integrity'') ''record_sha256'') = h"
    using assms by (auto simp: verify_envelope_def Let_def bindR_eq_Inr split: if_splits)
  then show "map_of (entries (jget env ''integrity'')) ''record_sha256'' = Some v \<Longrightarrow> py_str v = h"
    "map_of (entries (jget env ''integrity'')) ''record_sha256'' \<noteq> None"
    using assms(2) by (auto simp: text_or_empty_def jget_def get_item_def split: if_splits option.splits)
qed

lemma chain_last:
  assumes "chain C h (ls @ [l]) = Some h'" and "\<forall>s. cr_sha C s \<noteq> []"
  shows "strip l \<noteq> []" "\<exists>env v. loads l = Some env \<and> map_of (entries (jget env ''integrity'')) ''record_sha256'' = Some v \<and> py_str v = h'"
proof -
  obtain h1 env where l: "decode_line l = Inr env" "verify_envelope C env (Some h1) = Inr h'"
    using assms(1) by (auto simp: chain_append split: option.splits if_splits sum.splits)
  have ld: "loads l = Some env" using l(1) by (auto simp: decode_line_def split: if_splits option.splits)
  then show "strip l \<noteq> []" using blank_unparsable [of l] by auto
  have "h' \<noteq> []" using l(2) assms(2)
    by (auto simp: verify_envelope_def Let_def bindR_eq_Inr split: if_splits)
  from verified_hash [OF l(2) this] ld
  show "\<exists>env v. loads l = Some env \<and> map_of (entries (jget env ''integrity'')) ''record_sha256'' = Some v \<and> py_str v = h'"
    by blast
qed

lemma reopen_spool:
  assumes ok: "spool_ok C sp" and sha: "\<forall>s. cr_sha C s \<noteq> []"
  shows "open_spool (sp_key_id sp) (sp_max_bytes sp) (sp_file sp) = Inr sp"
proof -
  have ch: "chain C zero_hash (file_lines (sp_file sp)) = Some (sp_previous sp)" using ok by (simp add: spool_ok_def)
  have "last_record_hash (sp_file sp) = Inr (sp_previous sp)"
  proof (cases "file_lines (sp_file sp)" rule: rev_cases)
    case (snoc ls l)
    from chain_last [OF ch [unfolded snoc] sha] obtain env v where
      "strip l \<noteq> []" "loads l = Some env" "map_of (entries (jget env ''integrity'')) ''record_sha256'' = Some v" "py_str v = sp_previous sp"
      by blast
    then show ?thesis by (simp add: last_record_hash_def snoc Let_def)
  qed (use ch in \<open>simp add: last_record_hash_def\<close>)
  then show ?thesis by (simp add: open_spool_def)
qed

text \<open>A crash that loses only the final LF of a record: the sensor reopens the file as if the record
  were complete, the next record is glued to its line, and the sender can read neither.\<close>

lemma loads_trailing:
  assumes "json_ok v" and "is_obj v" and "skip_ws (c # s) = c # s" and "\<not> is_numchar c"
  shows "loads (canonical_json v @ c # s) = None"
proof -
  let ?s = "canonical_json v @ c # s"
  have ok: "json_ok (canon v)" by (rule json_ok_canon [OF assms(1)])
  have "jsize (canon v) < Suc (length ?s)"
    using jsize_length [OF ok, of True] by (simp add: canonical_json_def dumps_def)
  moreover have "delim (c # s)" using assms(4) by (simp add: delim_def)
  ultimately have "parse_value (Suc (length ?s)) ?s = Some (canon v, c # s)"
    using parse_emit [OF ok, of True] unfolding parses_def canonical_json_def dumps_def by (simp del: parse_value.simps)
  then show ?thesis using assms(3) unfolding loads_def by (simp del: parse_value.simps)
qed

lemma canonical_obj: "is_obj v \<Longrightarrow> \<exists>r. canonical_json v = CHR ''{'' # r"
  by (cases v) (auto simp: canonical_json_def dumps_def)

lemma torn_line:
  assumes "chain C zero_hash (file_lines file) = Some h" and "newline \<notin> set l" and "l \<noteq> []"
  shows "file_lines (file @ l) = file_lines file @ [l]"
proof -
  have "newline \<notin> set l \<Longrightarrow> file_lines l = (if l = [] then [] else [l])" by (induction l) auto
  then have "file_lines l = [l]" using assms(2,3) by simp
  then show ?thesis using lines_append [OF chained_file_end [OF assms(1)], of l] by simp
qed

lemma torn_record_blocks:
  assumes ok: "spool_ok C sp" and e1: "proper_event e1" and e2: "proper_event e2" and sha: "\<forall>s. cr_sha C s \<noteq> []"
    and first: "append_event C e1 sp = (Inr env1, sp1)"
  shows "open_spool (sp_key_id sp) (sp_max_bytes sp) (butlast (sp_file sp1)) = Inr (sp1\<lparr>sp_file := butlast (sp_file sp1)\<rparr>)"
    and "append_event C e2 (sp1\<lparr>sp_file := butlast (sp_file sp1)\<rparr>) = (Inr env2, sp3) \<Longrightarrow>
      cursor_at C (sp_file sp) cu (length (file_lines (sp_file sp))) \<Longrightarrow> 0 < limit \<Longrightarrow>
      pending_envelopes C (sp_file sp3) cu limit = Inl EnvelopeJson"
proof -
  let ?F = "sp_file sp" and ?h0 = "sp_previous sp"
  have ch: "chain C zero_hash (file_lines ?F) = Some ?h0" using ok by (simp add: spool_ok_def)
  obtain i n where e: "json_ok e1" "is_obj e1" "jget e1 ''event_id'' = JStr i" "jget e1 ''revision'' = JInt n"
    using e1 by (auto simp: proper_event_def)
  obtain i2 n2 where d: "json_ok e2" "is_obj e2" "jget e2 ''event_id'' = JStr i2" "jget e2 ''revision'' = JInt n2"
    using e2 by (auto simp: proper_event_def)
  have b: "build_envelope C e1 (sp_key_id sp) ?h0 = Inr env1"
    and f1: "sp_file sp1 = ?F @ canonical_json env1 @ [newline]"
    and rest1: "sp_key_id sp1 = sp_key_id sp" "sp_max_bytes sp1 = sp_max_bytes sp"
      "sp_previous sp1 = py_str (jget (jget env1 ''integrity'') ''record_sha256'')"
    using first by (auto simp: append_event_def Let_def envelope_line_def split: sum.splits if_splits)
  note built = built_verifies [OF e b]
  let ?h = "record_sha C e1 (JStr (sp_key_id sp)) ?h0" and ?l = "canonical_json env1"
  have cut: "butlast (sp_file sp1) = ?F @ ?l" by (simp add: f1 butlast_append)
  have obj1: "is_obj (canon env1)" and ne: "?h \<noteq> []"
    using verified_hash(1) [OF built(4)] sha by (auto simp: record_sha_def)
  obtain r1 where l1: "?l = CHR ''{'' # r1" using canonical_obj [of env1] obj1 by auto
  have nl: "newline \<notin> set ?l" by (rule plain_no_newline [OF canonical_plain [OF built(1)]])
  have lines1: "file_lines (?F @ ?l) = file_lines ?F @ [?l]" using torn_line [OF ch nl] l1 by simp
  have ld: "loads ?l = Some (canon env1)" using loads_dumps(1) [OF built(1), of True] by (simp add: canonical_json_def)
  then have "strip ?l \<noteq> []" using blank_unparsable [of ?l] by auto
  moreover obtain v where "map_of (entries (jget (canon env1) ''integrity'')) ''record_sha256'' = Some v" "py_str v = ?h"
    using verified_hash [OF built(4) [of None] ne] by auto
  ultimately have "last_record_hash (?F @ ?l) = Inr ?h" by (simp add: last_record_hash_def lines1 ld Let_def)
  then show "open_spool (sp_key_id sp) (sp_max_bytes sp) (butlast (sp_file sp1)) = Inr (sp1\<lparr>sp_file := butlast (sp_file sp1)\<rparr>)"
    using rest1 built(3) unfolding cut open_spool_def by (simp add: signed_spool.equality)
  show "pending_envelopes C (sp_file sp3) cu limit = Inl EnvelopeJson"
    if app: "append_event C e2 (sp1\<lparr>sp_file := butlast (sp_file sp1)\<rparr>) = (Inr env2, sp3)"
      and cu: "cursor_at C ?F cu (length (file_lines ?F))" and lim: "0 < limit"
  proof -
    have b2: "build_envelope C e2 (sp_key_id sp) ?h = Inr env2"
      and f3: "sp_file sp3 = ?F @ ?l @ canonical_json env2 @ [newline]"
      using app [unfolded cut] rest1 built(3) by (auto simp: append_event_def Let_def envelope_line_def split: sum.splits if_splits)
    note built2 = built_verifies [OF d b2]
    obtain r2 where l2: "canonical_json env2 = CHR ''{'' # r2"
      using canonical_obj [of env2] verified_hash(1) [OF built2(4) [of None]] sha by (auto simp: record_sha_def)
    let ?g = "?l @ canonical_json env2 @ [newline]"
    have "newline \<notin> set (?l @ canonical_json env2)"
      using nl plain_no_newline [OF canonical_plain [OF built2(1)]] by simp
    then have "file_lines ?g = [?g]" using lines_single [of "?l @ canonical_json env2"] by simp
    then have lines3: "file_lines (sp_file sp3) = file_lines ?F @ [?g]"
      using lines_append [OF chained_file_end [OF ch], of ?g] by (simp add: f3)
    have "cu_offset cu = length (concat (take (length (file_lines ?F)) (file_lines (sp_file sp3))))"
      using cu lines3 by (simp add: cursor_at_def)
    then have rest: "file_lines (drop (cu_offset cu) (sp_file sp3)) = [?g]"
      using lines_drop [of "length (file_lines ?F)" "sp_file sp3"] lines3 by simp
    have "loads ?g = None"
      using loads_trailing [OF built(1), of "CHR ''{''" "r2 @ [newline]"] obj1 l2
      by (simp add: skip_ws_def json_ws_def is_numchar_def is_digit_def)
    then have "decode_line ?g = Inl EnvelopeJson" by (simp add: decode_line_def)
    then show ?thesis using lim by (simp add: pending_envelopes_def rest)
  qed
qed

section \<open>The last hash commits to the whole file\<close>

lemma verified_record:
  assumes "verify_envelope C env (Some p) = Inr h" and "json_ok env"
  shows "\<exists>k. h = record_sha C (jget env ''event'') k p" "json_ok (jget env ''event'')"
proof -
  show ok: "json_ok (jget env ''event'')" by (rule json_ok_jget [OF assms(2)])
  then show "\<exists>k. h = record_sha C (jget env ''event'') k p"
    using assms(1)
    by (auto simp: verify_envelope_def Let_def with_signature_ok record_sha_def split: if_splits)
qed

lemma record_sha_inj:
  assumes "inj (cr_sha C)" "json_ok e" "json_ok e'" "record_sha C e k p = record_sha C e' k' p'"
  shows "canon e = canon e'" "p = p'"
proof -
  let ?s = "signed_record C e k p" and ?s' = "signed_record C e' k' p'"
  note f = signed_record_facts [OF assms(2), of C k p] and f' = signed_record_facts [OF assms(3), of C k' p']
  have "canonical_json ?s = canonical_json ?s'" using assms(1,4) by (simp add: record_sha_def inj_eq)
  then have eq: "canon ?s = canon ?s'" using dumps_inj [OF f(1) f'(1), of True] by (simp add: canonical_json_def)
  from arg_cong [OF eq, of "\<lambda>d. jget d ''event''"] show "canon e = canon e'"
    unfolding jget_canon_ok [OF f(1)] jget_canon_ok [OF f'(1)] f(3) f'(3) by simp
  have i: "canon (jget ?s ''integrity'') = canon (jget ?s' ''integrity'')"
    using arg_cong [OF eq, of "\<lambda>d. jget d ''integrity''"]
    unfolding jget_canon_ok [OF f(1)] jget_canon_ok [OF f'(1)] .
  from arg_cong [OF i, of "\<lambda>d. jget d ''previous_record_sha256''"] show "p = p'"
    unfolding jget_canon_ok [OF json_ok_jget [OF f(1)]] jget_canon_ok [OF json_ok_jget [OF f'(1)]] f(7) f'(7) by simp
qed

lemma chain_commits:
  assumes "inj (cr_sha C)" and "\<forall>s. cr_sha C s \<noteq> zero_hash"
    and "chain C zero_hash ls = Some h" and "chain C zero_hash ls' = Some h"
  shows "map (canon \<circ> line_event) ls = map (canon \<circ> line_event) ls'"
  using assms(3,4)
proof (induction ls arbitrary: h ls' rule: rev_induct)
  case Nil
  show ?case
  proof (cases ls' rule: rev_cases)
    case (snoc ms m)
    then obtain p env where "verify_envelope C env (Some p) = Inr h" "decode_line m = Inr env"
      using Nil.prems(2) by (auto simp: chain_append split: option.splits if_splits sum.splits)
    then obtain s where "h = cr_sha C s"
      by (auto simp: verify_envelope_def Let_def bindR_eq_Inr split: if_splits)
    moreover have "h = zero_hash" using Nil.prems(1) by simp
    ultimately show ?thesis using assms(2) by metis
  qed simp
next
  case (snoc l ls)
  obtain p env where l: "chain C zero_hash ls = Some p" "verify_envelope C env (Some p) = Inr h" "decode_line l = Inr env"
    using snoc.prems(1) by (auto simp: chain_append split: option.splits if_splits sum.splits)
  have ok: "json_ok env" using l(3) loads_ok [of l env] by (auto simp: decode_line_def split: if_splits option.splits)
  from verified_record [OF l(2) ok] obtain k where k: "h = record_sha C (jget env ''event'') k p" by blast
  show ?case
  proof (cases ls' rule: rev_cases)
    case Nil
    then have "h = zero_hash" using snoc.prems(2) by simp
    then show ?thesis using k assms(2) unfolding record_sha_def by metis
  next
    case ms: (snoc ms m)
    obtain p' env' where m: "chain C zero_hash ms = Some p'" "verify_envelope C env' (Some p') = Inr h" "decode_line m = Inr env'"
      using snoc.prems(2) ms by (auto simp: chain_append split: option.splits if_splits sum.splits)
    have ok': "json_ok env'" using m(3) loads_ok [of m env'] by (auto simp: decode_line_def split: if_splits option.splits)
    from verified_record [OF m(2) ok'] obtain k' where k': "h = record_sha C (jget env' ''event'') k' p'" by blast
    have same: "canon (jget env ''event'') = canon (jget env' ''event'')" "p = p'"
      using record_sha_inj [OF assms(1) verified_record(2) [OF l(2) ok] verified_record(2) [OF m(2) ok'] trans [OF k [symmetric] k']]
      by simp_all
    have "map (canon \<circ> line_event) ls = map (canon \<circ> line_event) ms"
      by (rule snoc.IH [OF l(1)]) (simp only: m(1) same(2))
    moreover have "(canon \<circ> line_event) l = (canon \<circ> line_event) m"
      unfolding comp_apply line_event_def [of l] line_event_def [of m] l(3) m(3) sum.case by (rule same(1))
    ultimately show ?thesis by (simp only: ms map_append list.map)
  qed
qed

end
