(* ===== verification/EventSender.thy ===== *)
theory EventSender
  imports SpoolRead
begin

text \<open>
  The sender process (\<open>sender.py\<close>): the persistent cursor, the delivery of pending records in order,
  the heartbeat, and one turn of its loop. What a delivery does is an argument: \<open>event_sink\<close> is the
  contract the sender relies on, and it is interpreted on the outbox directory here and on the
  HTTPS receiver where that is modelled. The directory maps file names to contents.
\<close>

section \<open>The cursor\<close>

datatype 'e sender_error =
    SpoolFailure spool_error | CursorInvalid | DeliveryFailed 'e | NoSingleSink
  | HealthUnreadable | SensorStale

definition cursor_payload :: "sender_cursor \<Rightarrow> string \<Rightarrow> json" where
  "cursor_payload cu now = JObj [(''schema_version'', JStr ''dtlab-plc-endpoint-sender-cursor-v1''),
     (''offset'', JInt (int (cu_offset cu))), (''previous_record_sha256'', JStr (cu_previous cu)),
     (''updated_at'', JStr now)]"

definition cursor_text :: "sender_cursor \<Rightarrow> string \<Rightarrow> string" where
  "cursor_text cu now = canonical_json (cursor_payload cu now) @ [newline]"

text \<open>\<open>SenderCursor(path)\<close>. A negative offset, at which the code's \<open>seek\<close> would fail, is rejected here.\<close>

definition open_cursor :: "string option \<Rightarrow> 'e sender_error + sender_cursor" where
  "open_cursor file = (case file of
     None \<Rightarrow> Inr start_cursor
   | Some text \<Rightarrow> (case loads text of
       None \<Rightarrow> Inl CursorInvalid
     | Some value \<Rightarrow>
         if \<not> is_obj value then Inl CursorInvalid
         else if jget value ''schema_version'' \<noteq> JStr ''dtlab-plc-endpoint-sender-cursor-v1'' then Inl CursorInvalid
         else (case (case map_of (entries value) ''offset'' of None \<Rightarrow> Some 0 | Some v \<Rightarrow> py_int v) of
                 None \<Rightarrow> Inl CursorInvalid
               | Some off \<Rightarrow>
                   if off < 0 then Inl CursorInvalid
                   else Inr \<lparr>cu_offset = nat off, cu_previous =
                     (let p = jget value ''previous_record_sha256'' in if truthy p then py_str p else zero_hash)\<rparr>)))"

lemma cursor_roundtrip:
  assumes "cu_previous cu \<noteq> []"
  shows "open_cursor (Some (cursor_text cu now)) = Inr cu"
proof -
  let ?p = "cursor_payload cu now"
  have ok: "json_ok ?p" by (simp add: cursor_payload_def)
  have ld: "loads (cursor_text cu now) = Some (canon ?p)"
    using loads_dumps(2) [OF ok, of True] by (simp add: cursor_text_def canonical_json_def newline_def)
  have off: "map_of (entries (canon ?p)) ''offset'' = Some (JInt (int (cu_offset cu)))"
    unfolding cursor_payload_def by (subst map_of_canon) simp_all
  have fields: "jget (canon ?p) ''schema_version'' = JStr ''dtlab-plc-endpoint-sender-cursor-v1''"
    "jget (canon ?p) ''previous_record_sha256'' = JStr (cu_previous cu)" "is_obj (canon ?p)"
    unfolding jget_canon_ok [OF ok] is_obj_canon by (simp_all add: cursor_payload_def jget_def)
  show ?thesis
    unfolding open_cursor_def option.case ld off fields Let_def using assms fields(3) by (simp add: py_int_def)
qed

section \<open>Delivery in order\<close>

definition send_record ::
  "(json \<Rightarrow> ('w, 'e, unit) act) \<Rightarrow> nat \<Rightarrow> nat \<times> string \<times> json \<Rightarrow> (sender_cursor \<times> 'w, 'e sender_error, nat) act" where
  "send_record deliver sent r = (\<lambda>(cu, w). case r of (off, h, env) \<Rightarrow>
     (case deliver (jget env ''event'') w of
        (Inl e, w') \<Rightarrow> (Inl (DeliveryFailed e), (cu, w'))
      | (Inr _, w') \<Rightarrow> (Inr (sent + 1), (\<lparr>cu_offset = off, cu_previous = h\<rparr>, w'))))"

definition send_pending ::
  "crypto \<Rightarrow> (json \<Rightarrow> ('w, 'e, unit) act) \<Rightarrow> nat \<Rightarrow> string \<Rightarrow> (sender_cursor \<times> 'w, 'e sender_error, nat) act" where
  "send_pending C deliver limit file = (\<lambda>(cu, w).
     case pending_envelopes C file cu limit of
       Inl e \<Rightarrow> (Inl (SpoolFailure e), (cu, w))
     | Inr rs \<Rightarrow> foldE (send_record deliver) 0 rs (cu, w))"

lemma send_record_run:
  "send_record deliver sent (off, h, env) (cu, w) = (case deliver (jget env ''event'') w of
     (Inl e, w') \<Rightarrow> (Inl (DeliveryFailed e), (cu, w'))
   | (Inr _, w') \<Rightarrow> (Inr (sent + 1), (\<lparr>cu_offset = off, cu_previous = h\<rparr>, w')))"
  by (simp add: send_record_def)

locale event_sink =
  fixes deliver :: "json \<Rightarrow> ('w, 'e, unit) act"
    and holds :: "json \<Rightarrow> 'w \<Rightarrow> bool"
    and invar :: "'w \<Rightarrow> bool"
  assumes delivered: "invar w \<Longrightarrow> deliver e w = (Inr u, w') \<Longrightarrow> holds e w'"
    and kept: "invar w \<Longrightarrow> deliver e w = (r, w') \<Longrightarrow> holds e' w \<Longrightarrow> holds e' w'"
    and invariant: "invar w \<Longrightarrow> deliver e w = (r, w') \<Longrightarrow> invar w'"
begin

text \<open>The records sent are a prefix of the list, the cursor is that of the last one, and every event
  sent is held by the sink afterwards.\<close>

lemma sends_prefix:
  assumes "foldE (send_record deliver) sent rs (cu, w) = (r, (cu', w'))" and "invar w"
  shows "\<exists>j \<le> length rs. invar w' \<and> (\<forall>i < j. holds (record_event (rs ! i)) w')
    \<and> (\<forall>i < j. \<exists>u v. deliver (record_event (rs ! i)) u = (Inr (), v))
    \<and> cu' = (if j = 0 then cu else \<lparr>cu_offset = fst (rs ! (j - 1)), cu_previous = fst (snd (rs ! (j - 1)))\<rparr>)
    \<and> (\<forall>e. holds e w \<longrightarrow> holds e w')
    \<and> (case r of Inr n \<Rightarrow> n = sent + j \<and> j = length rs | Inl x \<Rightarrow> j < length rs \<and> (\<exists>d. x = DeliveryFailed d))"
  using assms
proof (induction rs arbitrary: sent cu w)
  case Nil
  then show ?case by auto
next
  case (Cons rec rs)
  obtain off h env where rec: "rec = (off, h, env)" by (cases rec)
  obtain x w1 where d: "deliver (record_event rec) w = (x, w1)" by fastforce
  note keep = kept [OF Cons.prems(2) d] and inv = invariant [OF Cons.prems(2) d]
  show ?case
  proof (cases x)
    case (Inl e)
    then have "r = Inl (DeliveryFailed e)" "cu' = cu" "w' = w1"
      using Cons.prems d by (auto simp: rec send_record_run record_event_def bindE_def)
    then show ?thesis using keep inv by (intro exI [of _ 0]) auto
  next
    case (Inr u)
    then have run: "foldE (send_record deliver) (sent + 1) rs (\<lparr>cu_offset = off, cu_previous = h\<rparr>, w1) = (r, (cu', w'))"
      using Cons.prems d by (simp add: rec send_record_run record_event_def bindE_def)
    obtain j where j: "j \<le> length rs" "\<forall>i < j. holds (record_event (rs ! i)) w'"
      and del: "invar w'" "\<forall>i < j. \<exists>u v. deliver (record_event (rs ! i)) u = (Inr (), v)"
      and j': "cu' = (if j = 0 then \<lparr>cu_offset = off, cu_previous = h\<rparr>
        else \<lparr>cu_offset = fst (rs ! (j - 1)), cu_previous = fst (snd (rs ! (j - 1)))\<rparr>)"
      "\<forall>e. holds e w1 \<longrightarrow> holds e w'"
      "case r of Inr n \<Rightarrow> n = sent + 1 + j \<and> j = length rs | Inl x \<Rightarrow> j < length rs \<and> (\<exists>d. x = DeliveryFailed d)"
      using Cons.IH [OF run inv] by blast
    note j = j j'
    have "holds (record_event rec) w'" using delivered [OF Cons.prems(2)] d Inr j(4) by blast
    moreover have "\<forall>i < Suc j. \<exists>u v. deliver (record_event ((rec # rs) ! i)) u = (Inr (), v)"
      using del(2) d Inr by (auto simp: less_Suc_eq_0_disj)
    ultimately have sent: "holds (record_event rec) w'" "\<forall>i < Suc j. \<exists>u v. deliver (record_event ((rec # rs) ! i)) u = (Inr (), v)"
      by blast+
    then have "\<forall>i < Suc j. holds (record_event ((rec # rs) ! i)) w'" using j(2) by (auto simp: less_Suc_eq_0_disj)
    moreover have "cu' = \<lparr>cu_offset = fst ((rec # rs) ! j), cu_previous = fst (snd ((rec # rs) ! j))\<rparr>"
      using j(3) by (cases j) (auto simp: rec)
    ultimately show ?thesis using j(1,4,5) keep del(1) sent(2) by (intro exI [of _ "Suc j"]) (auto split: sum.splits)
  qed
qed

text \<open>At-least-once delivery in order: whatever fails, the cursor moves over a prefix of the pending
  records all of which the sink holds; without a failure it moves over as many as the limit allows.\<close>

lemma sends_in_order:
  assumes ok: "chain C zero_hash (file_lines file) = Some h" and at_k: "cursor_at C file cu k" and inv: "invar w"
    and held: "\<forall>i < k. holds (spooled file ! i) w" and torn: "torn = [] \<or> newline \<notin> set torn"
    and run: "send_pending C deliver limit (file @ torn) (cu, w) = (r, (cu', w'))"
  shows "\<exists>k'. k \<le> k' \<and> cursor_at C file cu' k' \<and> (\<forall>i < k'. holds (spooled file ! i) w') \<and> invar w'
    \<and> (\<forall>i. k \<le> i \<and> i < k' \<longrightarrow> (\<exists>u v. deliver (spooled file ! i) u = (Inr (), v)))
    \<and> (case r of Inr n \<Rightarrow> k' = k + n \<and> n = min limit (length (spooled file) - k) | Inl x \<Rightarrow> \<exists>d. x = DeliveryFailed d)"
proof -
  obtain rs where rs: "pending_envelopes C (file @ torn) cu limit = Inr rs"
    "map record_event rs = take limit (drop k (spooled file))"
    "\<forall>i < length rs. cursor_at C file \<lparr>cu_offset = fst (rs ! i), cu_previous = fst (snd (rs ! i))\<rparr> (Suc (k + i))"
    using pending_reads [OF ok at_k torn, of limit] by blast
  have fold: "foldE (send_record deliver) 0 rs (cu, w) = (r, (cu', w'))"
    using run rs(1) by (simp add: send_pending_def)
  obtain j where j: "j \<le> length rs" "\<forall>i < j. holds (record_event (rs ! i)) w'"
    and del: "invar w'" "\<forall>i < j. \<exists>u v. deliver (record_event (rs ! i)) u = (Inr (), v)"
    and j': "cu' = (if j = 0 then cu else \<lparr>cu_offset = fst (rs ! (j - 1)), cu_previous = fst (snd (rs ! (j - 1)))\<rparr>)"
    "\<forall>e. holds e w \<longrightarrow> holds e w'"
    "case r of Inr n \<Rightarrow> n = 0 + j \<and> j = length rs | Inl x \<Rightarrow> j < length rs \<and> (\<exists>d. x = DeliveryFailed d)"
    using sends_prefix [OF fold inv] by blast
  note j = j j'
  have len: "length rs = min limit (length (spooled file) - k)"
    using arg_cong [OF rs(2), of length] by simp
  have k: "k \<le> length (spooled file)" using at_k by (simp add: cursor_at_def spooled_def)
  have ev: "record_event (rs ! i) = spooled file ! (k + i)" if "i < length rs" for i
  proof -
    have "record_event (rs ! i) = map record_event rs ! i" using that by simp
    also have "\<dots> = spooled file ! (k + i)" unfolding rs(2) using that len k by simp
    finally show ?thesis .
  qed
  have "cursor_at C file cu' (k + j)"
    using j(1,3) rs(3) at_k by (cases j) auto
  moreover have "holds (spooled file ! i) w'" if "i < k + j" for i
  proof (cases "i < k")
    case False
    then have "i - k < j" "i = k + (i - k)" using that by auto
    then show ?thesis using j(1,2) ev [of "i - k"] by (metis less_le_trans)
  qed (use held j(4) in blast)
  moreover have "\<exists>u v. deliver (spooled file ! i) u = (Inr (), v)" if "k \<le> i" "i < k + j" for i
    using del(2) ev [of "i - k"] that j(1) by (metis le_add_diff_inverse less_diff_conv2 less_le_trans add.commute)
  ultimately show ?thesis using j(5) len del(1) by (intro exI [of _ "k + j"]) (auto split: sum.splits)
qed

end

section \<open>The outbox\<close>

datatype outbox_error = OutboxKey | OutboxCollision

type_synonym outbox = "(string \<times> string) list"

definition outbox_name :: "crypto \<Rightarrow> json \<Rightarrow> string" where
  "outbox_name C event = map (\<lambda>c. if c = CHR '':'' then CHR ''_'' else c) (py_str (jget event ''event_id''))
     @ ''-r'' @ py_str (jget event ''revision'') @ ''-'' @ take 16 (cr_sha C (canonical_json event)) @ ''.json''"

definition export_event :: "crypto \<Rightarrow> json \<Rightarrow> (outbox, outbox_error, unit) act" where
  "export_event C event = (\<lambda>box.
     if map_of (entries event) ''event_id'' = None \<or> map_of (entries event) ''revision'' = None
     then (Inl OutboxKey, box)
     else
       let content = canonical_json event @ [newline] in
       case map_of box (outbox_name C event) of
         Some stored \<Rightarrow> if stored \<noteq> content then (Inl OutboxCollision, box) else (Inr (), box)
       | None \<Rightarrow> (Inr (), AList.update (outbox_name C event) content box))"

definition in_outbox :: "crypto \<Rightarrow> json \<Rightarrow> outbox \<Rightarrow> bool" where
  "in_outbox C event box \<longleftrightarrow> map_of box (outbox_name C event) = Some (canonical_json event @ [newline])"

interpretation outbox: event_sink "export_event C" "in_outbox C" "\<lambda>box. True" for C
  by unfold_locales
    (auto simp: export_event_def in_outbox_def Let_def update_conv' split: if_splits option.splits)

section \<open>Heartbeats and the loop\<close>

text \<open>What the sender reads of the sensor's health file: its age in seconds and its document.\<close>

type_synonym health_reading = "(rat \<times> json) option"

record 'w sender =
  se_cursor :: sender_cursor
  se_world :: 'w
  se_last_heartbeat :: rat
  se_health :: "(string \<times> attributes) option"

record sender_config =
  sc_batch :: nat
  sc_interval :: rat
  sc_max_age :: rat
  sc_heartbeat :: "rat \<Rightarrow> json"

definition send_heartbeat_if_due ::
  "sender_config \<Rightarrow> (json \<Rightarrow> ('w, 'e, unit) act) \<Rightarrow> rat \<Rightarrow> health_reading \<Rightarrow> bool \<Rightarrow> ('w sender, 'e sender_error, bool) act" where
  "send_heartbeat_if_due cfg deliver now health force = (\<lambda>st.
     if \<not> force \<and> now - se_last_heartbeat st < sc_interval cfg then (Inr False, st)
     else case health of
       None \<Rightarrow> (Inl HealthUnreadable, st)
     | Some (age, doc) \<Rightarrow>
         if \<not> is_obj doc then (Inl (SpoolFailure SpoolTypeError), st)
         else if jget doc ''status'' \<noteq> JStr ''ready'' \<or> sc_max_age cfg < age then (Inl SensorStale, st)
         else case deliver (sc_heartbeat cfg now) (se_world st) of
           (Inl e, w) \<Rightarrow> (Inl (DeliveryFailed e), st\<lparr>se_world := w\<rparr>)
         | (Inr _, w) \<Rightarrow> (Inr True, st\<lparr>se_world := w, se_last_heartbeat := now\<rparr>))"

definition run_once ::
  "crypto \<Rightarrow> sender_config \<Rightarrow> (json \<Rightarrow> ('w, 'e, unit) act) \<Rightarrow> string \<Rightarrow> rat \<Rightarrow> health_reading
   \<Rightarrow> ('w sender, 'e sender_error, nat) act" where
  "run_once C cfg deliver file now health = (\<lambda>st.
     case send_pending C deliver (sc_batch cfg) file (se_cursor st, se_world st) of
       (Inl e, (cu, w)) \<Rightarrow> (Inl e, st\<lparr>se_cursor := cu, se_world := w\<rparr>)
     | (Inr sent, (cu, w)) \<Rightarrow>
         (case send_heartbeat_if_due cfg deliver now health False (st\<lparr>se_cursor := cu, se_world := w\<rparr>) of
            (Inl e, st') \<Rightarrow> (Inl e, st')
          | (Inr _, st') \<Rightarrow>
              (Inr sent, st'\<lparr>se_health := Some (''ready'', [(''records_sent'', JInt (int sent))])\<rparr>)))"

text \<open>Which exceptions the loop survives: \<open>EnvelopeValidationError\<close>, delivery failures and
  \<open>RuntimeError\<close>; a \<open>TypeError\<close> or \<open>AttributeError\<close> ends the process.\<close>

fun survivable :: "'e sender_error \<Rightarrow> bool" where
  "survivable (SpoolFailure SpoolTypeError) = False"
| "survivable e = True"

definition sender_turn ::
  "crypto \<Rightarrow> sender_config \<Rightarrow> (json \<Rightarrow> ('w, 'e, unit) act) \<Rightarrow> string \<Rightarrow> rat \<Rightarrow> health_reading
   \<Rightarrow> 'w sender \<Rightarrow> int option \<times> 'w sender" where
  "sender_turn C cfg deliver file now health st =
     (case run_once C cfg deliver file now health st of
        (Inr _, st') \<Rightarrow> (None, st')
      | (Inl e, st') \<Rightarrow>
          if survivable e then (None, st'\<lparr>se_health := Some (''error'', [(''code'', JStr ''sender_failed'')])\<rparr>)
          else (Some 2, st'))"

context event_sink begin

lemma heartbeat_keeps:
  "send_heartbeat_if_due cfg deliver now health force st = (r, st') \<Longrightarrow> invar (se_world st) \<Longrightarrow>
   se_cursor st' = se_cursor st \<and> invar (se_world st') \<and> (\<forall>e. holds e (se_world st) \<longrightarrow> holds e (se_world st'))"
  by (auto simp: send_heartbeat_if_due_def Let_def dest: kept invariant split: if_splits option.splits prod.splits sum.splits)

text \<open>One turn of the loop on a sound spool never ends the process, never moves the cursor back and
  never moves it over an event that the sink does not hold.\<close>

lemma turn_in_order:
  assumes ok: "chain C zero_hash (file_lines file) = Some h" and at_k: "cursor_at C file (se_cursor st) k"
    and inv: "invar (se_world st)" and held: "\<forall>i < k. holds (spooled file ! i) (se_world st)" and torn: "torn = [] \<or> newline \<notin> set torn"
    and health: "\<forall>age doc. health = Some (age, doc) \<longrightarrow> is_obj doc"
    and run: "sender_turn C cfg deliver (file @ torn) now health st = (code, st')"
  shows "code = None \<and> invar (se_world st') \<and> (\<exists>k' \<ge> k. cursor_at C file (se_cursor st') k'
    \<and> (\<forall>i < k'. holds (spooled file ! i) (se_world st'))
    \<and> (\<forall>i. k \<le> i \<and> i < k' \<longrightarrow> (\<exists>u v. deliver (spooled file ! i) u = (Inr (), v))))"
proof -
  obtain x cu w where snd: "send_pending C deliver (sc_batch cfg) (file @ torn) (se_cursor st, se_world st) = (x, (cu, w))"
    by (metis prod.collapse)
  obtain k' where k': "k \<le> k'" "cursor_at C file cu k'" "\<forall>i < k'. holds (spooled file ! i) w"
    and del: "invar w" "\<forall>i. k \<le> i \<and> i < k' \<longrightarrow> (\<exists>u v. deliver (spooled file ! i) u = (Inr (), v))"
    and k4: "case x of Inr n \<Rightarrow> k' = k + n \<and> n = min (sc_batch cfg) (length (spooled file) - k) | Inl x \<Rightarrow> \<exists>d. x = DeliveryFailed d"
    using sends_in_order [OF ok at_k inv held torn snd] by blast
  note k' = k' k4
  show ?thesis
  proof (cases x)
    case (Inl e)
    then have "survivable e" "code = None \<and> se_cursor st' = cu \<and> se_world st' = w"
      using run k'(4) snd by (auto simp: sender_turn_def run_once_def)
    then show ?thesis using k' del by blast
  next
    case (Inr n)
    let ?st = "st\<lparr>se_cursor := cu, se_world := w\<rparr>"
    obtain y st1 where hb: "send_heartbeat_if_due cfg deliver now health False ?st = (y, st1)" by fastforce
    have "survivable e" if "y = Inl e" for e using hb that health
      by (auto simp: send_heartbeat_if_due_def split: if_splits option.splits prod.splits sum.splits)
    then have "code = None \<and> se_cursor st' = se_cursor st1 \<and> se_world st' = se_world st1"
      using run snd Inr hb by (auto simp: sender_turn_def run_once_def split: sum.splits if_splits)
    then show ?thesis using heartbeat_keeps [OF hb] k' del by auto
  qed
qed

end

end
