(* ===== verification/PlcRuntime.thy ===== *)
theory PlcRuntime
  imports EventSender
begin

text \<open>
  \<open>AuditRuntime\<close> (\<open>runtime.py\<close>) and the audited protocol of \<open>audit_hook.py\<close>: every observation goes
  through the aggregator, what it emits is appended to the spool, and a failure of the audit is
  reported in the health file and nowhere else. Outcomes of the Modbus library's \<open>execute\<close> are the
  constructors of \<open>execution\<close>. Clock readings are arguments.
\<close>

section \<open>Configuration\<close>

datatype runtime_config_error = MissingFields "string list" | LocalIps | NotExactlyOneSink

definition required_fields :: "string list" where
  "required_fields = [''sensor_id'', ''destination_asset_id'', ''destination_ip'', ''local_ips'',
     ''hmac_key_id'', ''hmac_key_file'', ''spool_path'', ''state_path'', ''health_path'',
     ''sender_health_path'', ''sender_cursor_path'']"

definition check_config :: "attributes \<Rightarrow> runtime_config_error + attributes" where
  "check_config cfg =
     (let missing = filter (\<lambda>k. \<not> truthy (get_item cfg k)) required_fields in
      if missing \<noteq> [] then Inl (MissingFields missing)
      else if (case get_item cfg ''local_ips'' of JArr xs \<Rightarrow> xs = [] | _ \<Rightarrow> True) then Inl LocalIps
      else if truthy (get_item cfg ''endpoint_url'') = truthy (get_item cfg ''outbox_directory'')
        then Inl NotExactlyOneSink
      else Inr cfg)"

section \<open>The runtime\<close>

record runtime =
  rt_agg :: aggregator
  rt_spool :: signed_spool
  rt_failure :: "string option"
  rt_last_event :: "string option"
  rt_health :: "(string \<times> attributes) option"
  rt_last_health :: rat

record runtime_params =
  rp_agg :: agg_params
  rp_crypto :: crypto
  rp_config :: attributes
  rp_health_interval :: rat

definition touch_health :: "runtime_params \<Rightarrow> rat \<Rightarrow> bool \<Rightarrow> runtime \<Rightarrow> runtime" where
  "touch_health R now force st =
     (if rt_failure st \<noteq> None then st
      else if force \<or> rp_health_interval R \<le> now - rt_last_health st then
        st\<lparr>rt_health := Some (''ready'', case rt_last_event st of None \<Rightarrow> [] | Some e \<Rightarrow> [(''last_event_id'', JStr e)]),
           rt_last_health := now\<rparr>
      else st)"

definition spool_one :: "runtime_params \<Rightarrow> unit \<Rightarrow> episode \<Rightarrow> (signed_spool, spool_error, unit) act" where
  "spool_one R u ep = bindE (append_event (rp_crypto R) (event_json (rp_agg R) ep)) (\<lambda>_. ret ())"

definition append_events :: "runtime_params \<Rightarrow> rat \<Rightarrow> episode list \<Rightarrow> (runtime, spool_error, unit) act" where
  "append_events R now es = (\<lambda>st.
     case foldE (spool_one R) () es (rt_spool st) of
       (Inl e, sp) \<Rightarrow> (Inl e, st\<lparr>rt_spool := sp\<rparr>)
     | (Inr _, sp) \<Rightarrow>
         (Inr (), if es = [] then st\<lparr>rt_spool := sp\<rparr>
          else touch_health R now True
                 (st\<lparr>rt_spool := sp, rt_failure := None, rt_last_event := Some (ep_id (last es))\<rparr>)))"

text \<open>One locked section of the runtime: an operation of the aggregator, then the appends.\<close>

definition aggregate :: "runtime_params \<Rightarrow> rat \<Rightarrow> agg_op \<Rightarrow> (runtime, spool_error, nat) act" where
  "aggregate R now op = (\<lambda>st.
     case agg_step (rp_agg R) op (rt_agg st) of
       (es, ag) \<Rightarrow> bindE (append_events R now es) (\<lambda>_. ret (length es)) (st\<lparr>rt_agg := ag\<rparr>))"

definition runtime_observe ::
  "runtime_params \<Rightarrow> attributes \<Rightarrow> attributes \<Rightarrow> attributes \<Rightarrow> string \<Rightarrow> string \<Rightarrow> rat
   \<Rightarrow> (runtime, spool_error, nat) act" where
  "runtime_observe R req peer local_end outcome at_text now = (\<lambda>st.
     case make_observation (ap_sha (rp_agg R)) req peer local_end outcome (rp_config R) at_text now of
       Inl _ \<Rightarrow> (Inl SpoolTypeError, st)
     | Inr None \<Rightarrow> (Inr 0, st)
     | Inr (Some ob) \<Rightarrow> aggregate R now (Observe ob) st)"

definition runtime_flush_expired :: "runtime_params \<Rightarrow> rat \<Rightarrow> (runtime, spool_error, nat) act" where
  "runtime_flush_expired R now =
     bindE (aggregate R now (FlushExpired now)) (\<lambda>n.
     bindE (modify (touch_health R now False)) (\<lambda>_. ret n))"

definition runtime_flush_peer :: "runtime_params \<Rightarrow> rat \<Rightarrow> string \<Rightarrow> int option \<Rightarrow> (runtime, spool_error, nat) act" where
  "runtime_flush_peer R now ip port = aggregate R now (FlushSource ip port)"

definition runtime_flush_all :: "runtime_params \<Rightarrow> rat \<Rightarrow> (runtime, spool_error, nat) act" where
  "runtime_flush_all R now = aggregate R now FlushAll"

definition report_failure :: "string \<Rightarrow> runtime \<Rightarrow> runtime" where
  "report_failure code st = st\<lparr>rt_failure := Some code, rt_health := Some (''error'', [(''code'', JStr code)])\<rparr>"

section \<open>The protocol hook\<close>

text \<open>\<open>Returned e\<close>: \<open>execute\<close> returned a response and \<open>isError()\<close> is \<open>e\<close>, or it has no such method.\<close>

datatype execution = Returned "bool option" | NoSuchSlave | DatastoreFailure

datatype response = ExecuteResponse | GatewayNoResponse | SlaveFailure

definition audit :: "runtime_params \<Rightarrow> attributes \<Rightarrow> attributes \<Rightarrow> attributes \<Rightarrow> string \<Rightarrow> string \<Rightarrow> rat \<Rightarrow> runtime \<Rightarrow> runtime" where
  "audit R req peer local_end outcome at_text now st =
     (case runtime_observe R req peer local_end outcome at_text now st of
        (Inr _, st') \<Rightarrow> st'
      | (Inl _, st') \<Rightarrow> report_failure ''event_emit_failed'' st')"

definition execute_request ::
  "runtime_params \<Rightarrow> bool \<Rightarrow> execution \<Rightarrow> attributes \<Rightarrow> attributes \<Rightarrow> attributes \<Rightarrow> string \<Rightarrow> rat
   \<Rightarrow> runtime \<Rightarrow> response option \<times> runtime" where
  "execute_request R ignore_missing ex req peer local_end at_text now st =
     (let outcome = (case ex of Returned (Some True) \<Rightarrow> ''rejected'' | Returned _ \<Rightarrow> ''processed'' | _ \<Rightarrow> ''rejected'');
          st' = audit R req peer local_end outcome at_text now st
      in case ex of
           Returned _ \<Rightarrow> (Some ExecuteResponse, st')
         | NoSuchSlave \<Rightarrow> (if ignore_missing then None else Some GatewayNoResponse, st')
         | DatastoreFailure \<Rightarrow> (Some SlaveFailure, st'))"

definition connection_lost :: "runtime_params \<Rightarrow> rat \<Rightarrow> (string \<times> int option) option \<Rightarrow> runtime \<Rightarrow> runtime" where
  "connection_lost R now peer st = (case peer of
     None \<Rightarrow> st
   | Some (ip, port) \<Rightarrow>
       (case runtime_flush_peer R now ip port st of
          (Inr _, st') \<Rightarrow> st'
        | (Inl _, st') \<Rightarrow> report_failure ''peer_flush_failed'' st'))"

section \<open>Emitted events are proper\<close>

lemma event_json_proper: "proper_event (event_json P ep)"
proof -
  have "json_ok (modbus_json ep)"
    by (auto simp: modbus_json_def bucket_json_def)
  moreover have "json_ok (source_json s)" "json_ok (destination_json d)" "json_ok (outcome_json ep)"
    "json_ok (detection_json b)" "json_ok (sensor_json i v)" "json_ok (evidence_json t e n)" for s d b i v t e n
    by (auto simp: source_json_def port_json_def destination_json_def outcome_json_def detection_json_def
        sensor_json_def evidence_json_def split: option.split)
  ultimately show ?thesis
    by (simp add: proper_event_def event_json_def event_fields_def jget_def)
qed

section \<open>The spool holds what the aggregator emits\<close>

lemma spool_one_run:
  "spool_one R u ep sp = (case append_event (rp_crypto R) (event_json (rp_agg R) ep) sp of
     (Inl e, sp') \<Rightarrow> (Inl e, sp') | (Inr _, sp') \<Rightarrow> (Inr (), sp'))"
  by (simp add: spool_one_def bindE_def split: prod.split sum.split)

lemma spool_events:
  assumes "spool_ok C sp" and "rp_crypto R = C" and "foldE (spool_one R) () es sp = (r, sp')"
  shows "\<exists>j \<le> length es. spool_ok C sp' \<and> (\<exists>ls. file_lines (sp_file sp') = file_lines (sp_file sp) @ ls)
    \<and> spooled (sp_file sp') = spooled (sp_file sp) @ map (\<lambda>e. canon (event_json (rp_agg R) e)) (take j es)
    \<and> (case r of Inr _ \<Rightarrow> j = length es | Inl e \<Rightarrow> e = SpoolFull \<and> j < length es)"
  using assms(1,3)
proof (induction es arbitrary: sp)
  case Nil
  then show ?case by auto
next
  case (Cons e es)
  obtain x sp1 where a: "append_event C (event_json (rp_agg R) e) sp = (x, sp1)" by fastforce
  note one = append_ok [OF Cons.prems(1) event_json_proper a]
  show ?case
  proof (cases x)
    case (Inl err)
    then have "r = Inl err" "sp' = sp1" using Cons.prems(2) a assms(2) by (auto simp: spool_one_run [of R "()" e sp] bindE_def)
    then show ?thesis using one Inl by (intro exI [of _ 0]) auto
  next
    case (Inr env)
    then have "foldE (spool_one R) () es sp1 = (r, sp')"
      using Cons.prems(2) a assms(2) by (simp add: spool_one_run [of R "()" e sp] bindE_def)
    from Cons.IH [OF one(1) this] obtain j ls where j: "j \<le> length es" "spool_ok C sp'"
      "file_lines (sp_file sp') = file_lines (sp_file sp1) @ ls"
      "spooled (sp_file sp') = spooled (sp_file sp1) @ map (\<lambda>e. canon (event_json (rp_agg R) e)) (take j es)"
      "case r of Inr _ \<Rightarrow> j = length es | Inl e \<Rightarrow> e = SpoolFull \<and> j < length es" by blast
    then show ?thesis using one(4) Inr by (intro exI [of _ "Suc j"]) (auto split: sum.splits)
  qed
qed

lemma touch_health_keeps [simp]:
  "rt_spool (touch_health R now force st) = rt_spool st" "rt_agg (touch_health R now force st) = rt_agg st"
  by (simp_all add: touch_health_def)

lemma aggregate_spools:
  assumes ok: "spool_ok (rp_crypto R) (rt_spool st)" and step: "agg_step (rp_agg R) op (rt_agg st) = (es, ag)"
    and run: "aggregate R now op st = (r, st')"
  shows "\<exists>j \<le> length es. spool_ok (rp_crypto R) (rt_spool st') \<and> rt_agg st' = ag
    \<and> (\<exists>ls. file_lines (sp_file (rt_spool st')) = file_lines (sp_file (rt_spool st)) @ ls)
    \<and> spooled (sp_file (rt_spool st')) = spooled (sp_file (rt_spool st))
        @ map (\<lambda>e. canon (event_json (rp_agg R) e)) (take j es)
    \<and> (case r of Inr n \<Rightarrow> n = length es \<and> j = length es | Inl e \<Rightarrow> e = SpoolFull)"
proof -
  obtain x sp where f: "foldE (spool_one R) () es (rt_spool st) = (x, sp)" by fastforce
  obtain j where "j \<le> length es" "spool_ok (rp_crypto R) sp"
    "\<exists>ls. file_lines (sp_file sp) = file_lines (sp_file (rt_spool st)) @ ls"
    "spooled (sp_file sp) = spooled (sp_file (rt_spool st)) @ map (\<lambda>e. canon (event_json (rp_agg R) e)) (take j es)"
    "case x of Inr _ \<Rightarrow> j = length es | Inl e \<Rightarrow> e = SpoolFull \<and> j < length es"
    using spool_events [OF ok refl f] by blast
  then show ?thesis
    using run by (intro exI [of _ j])
      (auto simp: aggregate_def step append_events_def f bindE_def split: sum.splits if_splits)
qed

section \<open>Sensor and sender together\<close>

datatype plc_move = Sense rat agg_op | Send rat health_reading

definition sense :: "runtime_params \<Rightarrow> rat \<Rightarrow> agg_op \<Rightarrow> runtime \<Rightarrow> bool \<times> runtime" where
  "sense R now op st = (case aggregate R now op st of
     (Inl _, st') \<Rightarrow> (False, report_failure ''event_emit_failed'' st') | (Inr _, st') \<Rightarrow> (True, st'))"

fun sense_all :: "runtime_params \<Rightarrow> (rat \<times> agg_op) list \<Rightarrow> runtime \<Rightarrow> bool \<times> runtime" where
  "sense_all R [] st = (True, st)"
| "sense_all R ((now, op) # ops) st =
     (let (ok, st1) = sense R now op st; (ok', st2) = sense_all R ops st1 in (ok \<and> ok', st2))"

fun plc_act ::
  "runtime_params \<Rightarrow> sender_config \<Rightarrow> (json \<Rightarrow> ('w, 'e, unit) act) \<Rightarrow> plc_move \<Rightarrow> runtime \<times> 'w sender \<Rightarrow> runtime \<times> 'w sender" where
  "plc_act R cfg deliver (Sense now op) (rt, se) = (snd (sense R now op rt), se)"
| "plc_act R cfg deliver (Send now health) (rt, se) =
     (rt, snd (sender_turn (rp_crypto R) cfg deliver (sp_file (rt_spool rt)) now health se))"

definition plc_moves ::
  "runtime_params \<Rightarrow> sender_config \<Rightarrow> (json \<Rightarrow> ('w, 'e, unit) act) \<Rightarrow> plc_move list \<Rightarrow> runtime \<times> 'w sender \<Rightarrow> runtime \<times> 'w sender" where
  "plc_moves R cfg deliver moves st = fold (plc_act R cfg deliver) moves st"

definition readable_health :: "plc_move \<Rightarrow> bool" where
  "readable_health mv = (case mv of Send now (Some (age, doc)) \<Rightarrow> is_obj doc | _ \<Rightarrow> True)"

text \<open>The sender stands behind a prefix of the spool that the sink holds.\<close>

definition sent_prefix :: "crypto \<Rightarrow> (json \<Rightarrow> 'w \<Rightarrow> bool) \<Rightarrow> runtime \<times> 'w sender \<Rightarrow> nat \<Rightarrow> bool" where
  "sent_prefix C holds st k \<longleftrightarrow> spool_ok C (rt_spool (fst st))
     \<and> cursor_at C (sp_file (rt_spool (fst st))) (se_cursor (snd st)) k
     \<and> (\<forall>i < k. holds (spooled (sp_file (rt_spool (fst st))) ! i) (se_world (snd st)))"

lemma sense_spools:
  assumes "spool_ok (rp_crypto R) (rt_spool st)" "agg_step (rp_agg R) op (rt_agg st) = (es, ag)" "sense R now op st = (ok, st')"
  shows "\<exists>j \<le> length es. spool_ok (rp_crypto R) (rt_spool st') \<and> rt_agg st' = ag
    \<and> (\<exists>ls. file_lines (sp_file (rt_spool st')) = file_lines (sp_file (rt_spool st)) @ ls)
    \<and> spooled (sp_file (rt_spool st')) = spooled (sp_file (rt_spool st))
        @ map (\<lambda>e. canon (event_json (rp_agg R) e)) (take j es)
    \<and> (ok \<longrightarrow> j = length es)"
proof -
  obtain r st1 where a: "aggregate R now op st = (r, st1)" by fastforce
  from aggregate_spools [OF assms(1,2) a] show ?thesis
    using assms(3) a by (fastforce simp: sense_def report_failure_def split: sum.splits)
qed

context event_sink begin

lemma move_sound:
  assumes pre: "sent_prefix (rp_crypto R) holds st k" and "readable_health mv" and inv: "invar (se_world (snd st))"
  shows "\<exists>k' \<ge> k. sent_prefix (rp_crypto R) holds (plc_act R cfg deliver mv st) k' \<and> invar (se_world (snd (plc_act R cfg deliver mv st)))
    \<and> (\<forall>i. k \<le> i \<and> i < k' \<longrightarrow> (\<exists>u v. deliver (spooled (sp_file (rt_spool (fst st))) ! i) u = (Inr (), v)))"
proof -
  obtain rt se where st: "st = (rt, se)" by (cases st)
  let ?C = "rp_crypto R" and ?file = "sp_file (rt_spool rt)"
  have ok: "spool_ok ?C (rt_spool rt)" and at_k: "cursor_at ?C ?file (se_cursor se) k"
    and held: "\<forall>i < k. holds (spooled ?file ! i) (se_world se)"
    using pre by (simp_all add: sent_prefix_def st)
  show ?thesis
  proof (cases mv)
    case (Sense now op)
    obtain es ag where "agg_step (rp_agg R) op (rt_agg rt) = (es, ag)" by fastforce
    moreover obtain b rt' where s: "sense R now op rt = (b, rt')" by fastforce
    ultimately obtain ls more where "spool_ok ?C (rt_spool rt')" "file_lines (sp_file (rt_spool rt')) = file_lines ?file @ ls"
      "spooled (sp_file (rt_spool rt')) = spooled ?file @ more"
      using sense_spools [OF ok] by blast
    moreover have "k \<le> length (spooled ?file)" using at_k by (simp add: cursor_at_def spooled_def)
    ultimately have "sent_prefix ?C holds (rt', se) k"
      using cursor_grows [OF at_k] held by (simp add: sent_prefix_def nth_append)
    then show ?thesis using Sense s st inv by auto
  next
    case (Send now health)
    obtain code se' where t: "sender_turn ?C cfg deliver (?file @ []) now health se = (code, se')" by fastforce
    have h: "\<forall>age doc. health = Some (age, doc) \<longrightarrow> is_obj doc" using assms(2) Send by (auto simp: readable_health_def)
    have "chain ?C zero_hash (file_lines ?file) = Some (sp_previous (rt_spool rt))" using ok by (simp add: spool_ok_def)
    from turn_in_order [OF this at_k _ held _ h t] inv
    obtain k' where "k' \<ge> k" "cursor_at ?C ?file (se_cursor se') k'" "\<forall>i < k'. holds (spooled ?file ! i) (se_world se')"
      "invar (se_world se')" "\<forall>i. k \<le> i \<and> i < k' \<longrightarrow> (\<exists>u v. deliver (spooled ?file ! i) u = (Inr (), v))"
      by (auto simp: st)
    then show ?thesis using Send st t ok by (auto simp: sent_prefix_def)
  qed
qed

lemma moves_sound:
  assumes "sent_prefix (rp_crypto R) holds st k" and "list_all readable_health moves" and "invar (se_world (snd st))"
  shows "\<exists>k' \<ge> k. sent_prefix (rp_crypto R) holds (plc_moves R cfg deliver moves st) k'
    \<and> invar (se_world (snd (plc_moves R cfg deliver moves st)))"
  using assms
proof (induction moves arbitrary: st k)
  case (Cons mv moves)
  obtain k1 where "k1 \<ge> k" "sent_prefix (rp_crypto R) holds (plc_act R cfg deliver mv st) k1"
    "invar (se_world (snd (plc_act R cfg deliver mv st)))"
    using move_sound [OF Cons.prems(1) _ Cons.prems(3), of mv cfg] Cons.prems(2) by auto
  with Cons.IH [of "plc_act R cfg deliver mv st" k1] Cons.prems(2) show ?case
    by (auto simp: plc_moves_def intro: order_trans)
qed (auto simp: plc_moves_def)

text \<open>An event that no delivery ever accepts is never passed: while it is at the cursor, no move, however
  many there are, takes the cursor further.\<close>

lemma move_grows: "sent_prefix (rp_crypto R) holds st k \<Longrightarrow>
    \<exists>more. spooled (sp_file (rt_spool (fst (plc_act R cfg deliver mv st)))) = spooled (sp_file (rt_spool (fst st))) @ more"
proof -
  assume pre: "sent_prefix (rp_crypto R) holds st k"
  obtain rt se where st: "st = (rt, se)" by (cases st)
  have ok: "spool_ok (rp_crypto R) (rt_spool rt)" using pre by (simp add: sent_prefix_def st)
  show ?thesis
  proof (cases mv)
    case (Sense now op)
    obtain es ag where "agg_step (rp_agg R) op (rt_agg rt) = (es, ag)" by fastforce
    moreover obtain b rt' where s: "sense R now op rt = (b, rt')" by fastforce
    ultimately show ?thesis using sense_spools [OF ok] Sense by (fastforce simp: st)
  qed (auto simp: st split: prod.split)
qed

lemma refused_blocks:
  assumes "sent_prefix (rp_crypto R) holds st k" and "list_all readable_health moves" and "invar (se_world (snd st))"
    and "k < length (spooled (sp_file (rt_spool (fst st))))"
    and never: "\<forall>u v. deliver (spooled (sp_file (rt_spool (fst st))) ! k) u \<noteq> (Inr (), v)"
  shows "sent_prefix (rp_crypto R) holds (plc_moves R cfg deliver moves st) k"
  using assms
proof (induction moves arbitrary: st)
  case (Cons mv moves)
  let ?st = "plc_act R cfg deliver mv st"
  obtain k1 where k1: "k1 \<ge> k" "sent_prefix (rp_crypto R) holds ?st k1" "invar (se_world (snd ?st))"
    "\<forall>i. k \<le> i \<and> i < k1 \<longrightarrow> (\<exists>u v. deliver (spooled (sp_file (rt_spool (fst st))) ! i) u = (Inr (), v))"
    using move_sound [OF Cons.prems(1) _ Cons.prems(3), of mv cfg] Cons.prems(2) by auto
  have "k1 = k" using k1(1,4) Cons.prems(5) by (metis le_eq_less_or_eq order_refl)
  moreover obtain more where "spooled (sp_file (rt_spool (fst ?st))) = spooled (sp_file (rt_spool (fst st))) @ more"
    using move_grows [OF Cons.prems(1)] by blast
  then have "k < length (spooled (sp_file (rt_spool (fst ?st))))"
    "spooled (sp_file (rt_spool (fst ?st))) ! k = spooled (sp_file (rt_spool (fst st))) ! k"
    using Cons.prems(4) by (auto simp: nth_append)
  ultimately show ?case using Cons.IH [of ?st] Cons.prems(2,5) k1(2,3) by (simp add: plc_moves_def)
qed (simp add: plc_moves_def)

end

end
