(* ===== verification/PlcProperties.thy ===== *)
theory PlcProperties
  imports PlcRuntime
begin

text \<open>
  The properties of the endpoint sensor's storage and delivery: episode numbers survive a restart,
  records verify, the spool holds exactly what the aggregator emits and commits to its whole
  history, the sender delivers in order and at least once, and what a lost line end does.
\<close>

section \<open>A concrete endpoint\<close>

definition demo_crypto :: crypto where
  "demo_crypto = \<lparr>cr_sha = (\<lambda>s. CHR ''h'' # s), cr_mac = (\<lambda>s. s)\<rparr>"

definition demo_runtime_params :: runtime_params where
  "demo_runtime_params = \<lparr>rp_agg = demo_params, rp_crypto = demo_crypto, rp_config = [], rp_health_interval = 5\<rparr>"

definition demo_spool :: "int \<Rightarrow> signed_spool" where
  "demo_spool n = \<lparr>sp_key_id = ''k1'', sp_max_bytes = n, sp_file = [], sp_previous = zero_hash\<rparr>"

definition fresh_runtime :: "state_store \<Rightarrow> signed_spool \<Rightarrow> runtime" where
  "fresh_runtime st sp = \<lparr>rt_agg = fresh_aggregator st, rt_spool = sp, rt_failure = None, rt_last_event = None,
     rt_health = None, rt_last_health = 0\<rparr>"

definition fresh_sender :: "'w \<Rightarrow> 'w sender" where
  "fresh_sender w = \<lparr>se_cursor = start_cursor, se_world = w, se_last_heartbeat = 0, se_health = None\<rparr>"

definition demo_sender_config :: sender_config where
  "demo_sender_config = \<lparr>sc_batch = 100, sc_interval = 30, sc_max_age = 15, sc_heartbeat = (\<lambda>t. JNull)\<rparr>"

lemma demo_crypto_facts: "inj (cr_sha demo_crypto)" "\<forall>s. cr_sha demo_crypto s \<noteq> []"
  "\<forall>s. cr_sha demo_crypto s \<noteq> zero_hash"
  by (simp_all add: demo_crypto_def inj_def zero_hash_def Cons_replicate_eq)

lemma demo_spool_ok: "spool_ok C (demo_spool n)"
  by (simp add: spool_ok_def demo_spool_def)

definition demo_event :: json where
  "demo_event = event_json demo_params demo_emitted"

lemma demo_event_proper: "proper_event demo_event"
  unfolding demo_event_def by (rule event_json_proper)

section \<open>The state file\<close>

definition allocated :: "nat \<Rightarrow> state_store \<Rightarrow> state_store" where
  "allocated n s = ((\<lambda>s. snd (allocate_episode_sequence s)) ^^ n) s"

lemma allocated_facts:
  "ss_next (allocated n s) = ss_next s + int n" "ss_boot (allocated n s) = ss_boot s"
  "state_synced s \<Longrightarrow> state_synced (allocated n s)"
proof -
  have step: "allocated (Suc n) s = snd (allocate_episode_sequence (allocated n s))" for n by (simp add: allocated_def)
  show b: "ss_boot (allocated n s) = ss_boot s" for n by (induction n) (simp_all add: step, simp add: allocated_def)
  show "ss_next (allocated n s) = ss_next s + int n" by (induction n) (simp_all add: step, simp add: allocated_def)
  show "state_synced s \<Longrightarrow> state_synced (allocated n s)"
    by (induction n) (simp add: allocated_def, simp add: step allocate_synced b state_synced_def [of s])
qed

text \<open>Episode numbers survive a restart: after any number of allocations, opening the state file again
  during the same boot continues behind the last one, so no number is handed out twice; another boot
  starts from zero under its own identity.\<close>

theorem state_survives_restart:
  assumes "state_synced s"
  shows "open_state boot (ss_file (allocated n s)) =
      Inr (if boot = ss_boot s then allocated n s
           else save_state \<lparr>ss_boot = boot, ss_next = 0, ss_file = ss_file (allocated n s)\<rparr>)
    \<and> ss_next (allocated n s) = ss_next s + int n"
  using reopen_state [OF allocated_facts(3) [OF assms], of boot n] allocated_facts(1,2) [of n s] by auto

lemma state_survives_restart_witness:
  "open_state ''boot'' (ss_file (allocated 3 (save_state demo_state))) = Inr (allocated 3 (save_state demo_state))"
proof -
  have "state_synced (save_state demo_state)" by (simp add: state_synced_def save_state_def demo_state_def)
  from state_survives_restart [OF this, of "''boot''" 3] show ?thesis
    by (simp add: save_state_def demo_state_def)
qed

section \<open>Records\<close>

text \<open>Round trip of a record: the envelope built for an event verifies, after it has been written as a
  line and read back, against the hash it was chained to, yields the hash the next record is
  chained to, and carries the event.\<close>

theorem envelope_roundtrip:
  assumes "proper_event event" and "build_envelope C event key_id previous = Inr env"
  shows "\<exists>v. decode_line (envelope_line env) = Inr v
    \<and> verify_envelope C v (Some previous) = Inr (py_str (jget (jget env ''integrity'') ''record_sha256''))
    \<and> jget v ''event'' = canon event"
proof -
  obtain i n where e: "json_ok event" "is_obj event" "jget event ''event_id'' = JStr i" "jget event ''revision'' = JInt n"
    using assms(1) by (auto simp: proper_event_def)
  note built = built_verifies [OF e assms(2)]
  show ?thesis using built envelope_line_facts(2) [OF built(1)] by auto
qed

lemma envelope_roundtrip_witness:
  "\<exists>env v. build_envelope demo_crypto demo_event ''k1'' zero_hash = Inr env \<and> decode_line (envelope_line env) = Inr v
    \<and> jget v ''event'' = canon demo_event"
proof -
  obtain i n where e: "json_ok demo_event" "is_obj demo_event" "jget demo_event ''event_id'' = JStr i" "jget demo_event ''revision'' = JInt n"
    using demo_event_proper by (auto simp: proper_event_def)
  obtain env where b: "build_envelope demo_crypto demo_event ''k1'' zero_hash = Inr env"
    using build_envelope_eq [OF e(1,3,4)] by blast
  from envelope_roundtrip [OF demo_event_proper b] show ?thesis
  proof (elim exE conjE)
    fix v assume v: "decode_line (envelope_line env) = Inr v" "jget v ''event'' = canon demo_event"
    show ?thesis by (rule exI [of _ env], rule exI [of _ v], intro conjI) (fact b v)+
  qed
qed



section \<open>The spool of a run\<close>

lemma sense_all_spools:
  assumes "spool_ok (rp_crypto R) (rt_spool st)" and "agg_run (rp_agg R) (map snd ops) (rt_agg st) = (es, ag)"
    and "sense_all R ops st = (ok, st')"
  shows "spool_ok (rp_crypto R) (rt_spool st') \<and> rt_agg st' = ag
    \<and> (ok \<longrightarrow> spooled (sp_file (rt_spool st')) = spooled (sp_file (rt_spool st)) @ map (\<lambda>e. canon (event_json (rp_agg R) e)) es)"
  using assms
proof (induction ops arbitrary: st es ok)
  case (Cons nop ops)
  obtain now op where nop: "nop = (now, op)" by (cases nop)
  obtain es1 ag1 where s: "agg_step (rp_agg R) op (rt_agg st) = (es1, ag1)" by fastforce
  obtain b st1 where se: "sense R now op st = (b, st1)" by fastforce
  obtain b' where rest: "sense_all R ops st1 = (b', st')" "ok = (b \<and> b')"
    using Cons.prems(3) se by (auto simp: nop split: prod.splits)
  obtain es2 where run: "agg_run (rp_agg R) (map snd ops) ag1 = (es2, ag)" "es = es1 @ es2"
    using Cons.prems(2) s by (auto simp: nop split: prod.splits)
  from sense_spools [OF Cons.prems(1) s se] obtain j where j: "j \<le> length es1"
    "spool_ok (rp_crypto R) (rt_spool st1)" "rt_agg st1 = ag1"
    "spooled (sp_file (rt_spool st1)) = spooled (sp_file (rt_spool st)) @ map (\<lambda>e. canon (event_json (rp_agg R) e)) (take j es1)"
    "b \<longrightarrow> j = length es1" by blast
  from Cons.IH [OF j(2) _ rest(1), of es2] j run rest(2) show ?case by auto
qed simp

text \<open>C27: The spool refines the aggregator. Over any run in which no append is refused, the events read back
  from the spool, with their chain verified from the first record on, are exactly the revisions the
  aggregator emitted, in their order.\<close>

theorem spool_holds_emitted:
  assumes "sense_all R ops (fresh_runtime st sp) = (True, rt)" and "sp_file sp = []" and "sp_previous sp = zero_hash"
  shows "\<exists>rs. pending_envelopes (rp_crypto R) (sp_file (rt_spool rt)) start_cursor (length (fst (agg_run (rp_agg R) (map snd ops) (fresh_aggregator st)))) = Inr rs
    \<and> map record_event rs = map (\<lambda>e. canon (event_json (rp_agg R) e)) (fst (agg_run (rp_agg R) (map snd ops) (fresh_aggregator st)))"
proof -
  obtain es ag where run: "agg_run (rp_agg R) (map snd ops) (fresh_aggregator st) = (es, ag)" by fastforce
  have ok: "spool_ok (rp_crypto R) (rt_spool (fresh_runtime st sp))"
    using assms(2,3) by (simp add: spool_ok_def fresh_runtime_def)
  have agg: "agg_run (rp_agg R) (map snd ops) (rt_agg (fresh_runtime st sp)) = (es, ag)"
    using run by (simp add: fresh_runtime_def)
  from sense_all_spools [OF ok agg assms(1)]
  have sp: "chain (rp_crypto R) zero_hash (file_lines (sp_file (rt_spool rt))) = Some (sp_previous (rt_spool rt))"
    "spooled (sp_file (rt_spool rt)) = map (\<lambda>e. canon (event_json (rp_agg R) e)) es"
    using assms(2) by (simp_all add: spool_ok_def fresh_runtime_def spooled_def)
  from pending_reads [OF sp(1) start_cursor_at, of "[]" "length es"] sp(2) show ?thesis by (auto simp: run)
qed

text \<open>A spool that is large enough for the first revision of the concrete sensor.\<close>

lemma demo_room: "\<exists>n env sp. append_event demo_crypto demo_event (demo_spool n) = (Inr env, sp)"
proof -
  obtain i n where e: "json_ok demo_event" "jget demo_event ''event_id'' = JStr i" "jget demo_event ''revision'' = JInt n"
    using demo_event_proper by (auto simp: proper_event_def)
  obtain env where "build_envelope demo_crypto demo_event ''k1'' zero_hash = Inr env"
    using build_envelope_eq [OF e] by blast
  then have "\<exists>sp. append_event demo_crypto demo_event (demo_spool (int (length (envelope_line env)))) = (Inr env, sp)"
    by (simp add: append_event_def demo_spool_def Let_def)
  then show ?thesis by blast
qed

lemma demo_sensed:
  assumes "append_event demo_crypto demo_event (demo_spool n) = (Inr env, sp)"
  shows "\<exists>rt. sense_all demo_runtime_params [(0, Observe (demo_write 3 0 Processed 0))] (fresh_runtime demo_state (demo_spool n)) = (True, rt)"
proof -
  obtain es ag where st: "agg_step demo_params (Observe (demo_write 3 0 Processed 0)) (fresh_aggregator demo_state) = (es, ag)"
    by fastforce
  then have es: "es = [demo_emitted]" using demo_run by simp
  have one: "spool_one demo_runtime_params () demo_emitted (demo_spool n) = (Inr (), sp)"
    unfolding spool_one_run [of demo_runtime_params "()"] using assms
    by (simp add: demo_runtime_params_def demo_event_def)
  obtain rt where "aggregate demo_runtime_params 0 (Observe (demo_write 3 0 Processed 0)) (fresh_runtime demo_state (demo_spool n)) = (Inr 1, rt)"
    using st one es by (simp add: aggregate_def append_events_def bindE_def fresh_runtime_def demo_runtime_params_def)
  then show ?thesis by (simp add: sense_def)
qed

lemma spool_holds_emitted_witness:
  "\<exists>file rs. pending_envelopes demo_crypto file start_cursor 1 = Inr rs \<and> map record_event rs = [canon demo_event]"
proof -
  obtain n env sp rt where "sense_all demo_runtime_params [(0, Observe (demo_write 3 0 Processed 0))] (fresh_runtime demo_state (demo_spool n)) = (True, rt)"
    using demo_room demo_sensed by blast
  from spool_holds_emitted [OF this]
  obtain rs where "pending_envelopes demo_crypto (sp_file (rt_spool rt)) start_cursor 1 = Inr rs"
    "map record_event rs = [canon demo_event]"
    using demo_run by (auto simp: demo_spool_def demo_runtime_params_def demo_event_def simp del: agg_run.simps)
  then show ?thesis by (intro exI [of _ "sp_file (rt_spool rt)"] exI [of _ rs] conjI)
qed

text \<open>Reopening: the sensor that reopens the file of a sound spool continues with exactly the state it
  had, so its next record is chained to the last one.\<close>

theorem spool_reopens:
  assumes "spool_ok C sp" and "\<forall>s. cr_sha C s \<noteq> []"
  shows "open_spool (sp_key_id sp) (sp_max_bytes sp) (sp_file sp) = Inr sp"
  by (rule reopen_spool [OF assms])

lemma spool_reopens_witness: "open_spool ''k1'' 9 [] = Inr (demo_spool 9)"
  using spool_reopens [OF demo_spool_ok demo_crypto_facts(2), of 9] by (simp add: demo_spool_def)

text \<open>C28: A crash that loses only the line end of the last record is not noticed: the sensor reopens the
  file, chains the next record to the truncated one and writes it on the same line, and from then on
  the sender, standing before that record, is refused the whole rest of the spool.\<close>

theorem lost_line_end_blocks_sender:
  assumes "spool_ok C sp" and "proper_event e1" and "proper_event e2" and "\<forall>s. cr_sha C s \<noteq> []"
    and "append_event C e1 sp = (Inr env1, sp1)"
    and "cursor_at C (sp_file sp) cu (length (file_lines (sp_file sp)))" and "0 < limit"
    and "append_event C e2 (sp1\<lparr>sp_file := butlast (sp_file sp1)\<rparr>) = (Inr env2, sp2)"
  shows "open_spool (sp_key_id sp) (sp_max_bytes sp) (butlast (sp_file sp1)) = Inr (sp1\<lparr>sp_file := butlast (sp_file sp1)\<rparr>)
    \<and> pending_envelopes C (sp_file sp2) cu limit = Inl EnvelopeJson"
  using torn_record_blocks [OF assms(1-5)] assms(6-8) by blast

lemma demo_append: "\<exists>env. build_envelope demo_crypto demo_event key previous = Inr env"
proof -
  obtain i n where e: "json_ok demo_event" "jget demo_event ''event_id'' = JStr i" "jget demo_event ''revision'' = JInt n"
    using demo_event_proper by (auto simp: proper_event_def)
  show ?thesis using build_envelope_eq [OF e] by blast
qed

lemma lost_line_end_blocks_sender_witness:
  "\<exists>file cu. pending_envelopes demo_crypto file cu 1 = Inl EnvelopeJson"
proof -
  obtain env1 where b1: "build_envelope demo_crypto demo_event ''k1'' zero_hash = Inr env1" using demo_append by blast
  let ?h = "py_str (jget (jget env1 ''integrity'') ''record_sha256'')"
  obtain env2 where b2: "build_envelope demo_crypto demo_event ''k1'' ?h = Inr env2" using demo_append by blast
  let ?n = "int (length (envelope_line env1) + length (envelope_line env2))"
  let ?sp1 = "(demo_spool ?n)\<lparr>sp_file := envelope_line env1, sp_previous := ?h\<rparr>"
  have a1: "append_event demo_crypto demo_event (demo_spool ?n) = (Inr env1, ?sp1)"
    using b1 by (simp add: append_event_def demo_spool_def Let_def)
  let ?sp2 = "?sp1\<lparr>sp_file := butlast (sp_file ?sp1)\<rparr>"
  have a2: "append_event demo_crypto demo_event ?sp2 = (Inr env2, ?sp2\<lparr>sp_file := sp_file ?sp2 @ envelope_line env2,
      sp_previous := py_str (jget (jget env2 ''integrity'') ''record_sha256'')\<rparr>)"
    using b2 by (simp add: append_event_def Let_def demo_spool_def)
  have "cursor_at demo_crypto (sp_file (demo_spool ?n)) start_cursor (length (file_lines (sp_file (demo_spool ?n))))"
    using start_cursor_at by (simp add: demo_spool_def)
  from lost_line_end_blocks_sender [OF demo_spool_ok demo_event_proper demo_event_proper demo_crypto_facts(2) a1 this zero_less_one a2]
  show ?thesis by blast
qed

section \<open>Delivery\<close>

text \<open>C29: At-least-once delivery in order. However sensor operations and sender turns interleave, and
  whatever deliveries fail, the sender's cursor stands behind a prefix of the spool's events each of
  which is in the outbox with its canonical content, and the cursor never moves back.\<close>

theorem delivers_in_order:
  assumes "list_all readable_health moves" and "sp_file sp = []" and "sp_previous sp = zero_hash"
  shows "\<exists>k. sent_prefix (rp_crypto R) (in_outbox (rp_crypto R))
    (plc_moves R cfg (export_event (rp_crypto R)) moves (fresh_runtime st sp, fresh_sender [])) k"
proof -
  have "sent_prefix (rp_crypto R) (in_outbox (rp_crypto R)) (fresh_runtime st sp, fresh_sender []) 0"
    using start_cursor_at assms(2,3) by (simp add: sent_prefix_def fresh_runtime_def fresh_sender_def spool_ok_def)
  from outbox.moves_sound [OF this assms(1) TrueI] show ?thesis by blast
qed

lemma delivers_in_order_witness:
  "\<exists>k. sent_prefix demo_crypto (in_outbox demo_crypto)
    (plc_moves demo_runtime_params demo_sender_config (export_event demo_crypto)
       [Sense 0 (Observe (demo_write 3 0 Processed 0)), Send 1 None, Sense 2 FlushAll]
       (fresh_runtime demo_state (demo_spool 5000), fresh_sender [])) k"
  using delivers_in_order [of "[Sense 0 (Observe (demo_write 3 0 Processed 0)), Send 1 None, Sense 2 FlushAll]"
      "demo_spool 5000" demo_runtime_params demo_sender_config demo_state]
  by (simp add: readable_health_def demo_spool_def demo_runtime_params_def)

text \<open>C30: Progress. On a sound spool a run of \<open>send_pending\<close> that no delivery fails moves the cursor over as
  many records as the limit and the spool allow, and the sink holds all events before it; an
  incomplete last line neither is sent nor stands in the way.\<close>

theorem send_pending_progress:
  assumes "spool_ok C sp" and "cursor_at C (sp_file sp) cu k"
    and "\<forall>i < k. in_outbox C (spooled (sp_file sp) ! i) box" and "newline \<notin> set torn"
    and "send_pending C (export_event C) limit (sp_file sp @ torn) (cu, box) = (Inr sent, (cu', box'))"
  shows "sent = min limit (length (spooled (sp_file sp)) - k) \<and> cursor_at C (sp_file sp) cu' (k + sent)
    \<and> (\<forall>i < k + sent. in_outbox C (spooled (sp_file sp) ! i) box')"
  using outbox.sends_in_order [OF assms(1) [unfolded spool_ok_def] assms(2) TrueI assms(3) _ assms(5)] assms(4) by auto

lemma send_pending_progress_witness:
  "\<exists>file cu box. send_pending demo_crypto (export_event demo_crypto) 5 file (start_cursor, []) = (Inr 1, (cu, box))
    \<and> in_outbox demo_crypto (canon demo_event) box"
proof -
  obtain n env sp where a: "append_event demo_crypto demo_event (demo_spool n) = (Inr env, sp)" using demo_room by blast
  have "spooled (sp_file (demo_spool n)) = []" by (simp add: spooled_def demo_spool_def)
  then have ok: "spool_ok demo_crypto sp" and held: "spooled (sp_file sp) = [canon demo_event]"
    using append_ok [OF demo_spool_ok demo_event_proper a] by simp_all
  have key: "map_of (entries (canon demo_event)) k \<noteq> None" if "jget demo_event k \<noteq> JNull" "canon (jget demo_event k) \<noteq> JNull" for k
    using jget_canon_ok [of demo_event k] demo_event_proper that
    by (auto simp: proper_event_def jget_def get_item_def split: option.splits)
  obtain i r where "jget demo_event ''event_id'' = JStr i" "jget demo_event ''revision'' = JInt r"
    using demo_event_proper by (auto simp: proper_event_def)
  then have keys: "map_of (entries (canon demo_event)) ''event_id'' \<noteq> None" "map_of (entries (canon demo_event)) ''revision'' \<noteq> None"
    using key by simp_all
  obtain rs where rs: "pending_envelopes demo_crypto (sp_file sp @ ''{'') start_cursor 5 = Inr rs" "map record_event rs = [canon demo_event]"
    using pending_reads [OF ok [unfolded spool_ok_def] start_cursor_at, of "''{''" 5] held by (auto simp: newline_def)
  obtain off h v where "rs = [(off, h, v)]" "jget v ''event'' = canon demo_event"
    using rs(2) by (auto simp: map_eq_Cons_conv record_event_def)
  then obtain cu box where run: "send_pending demo_crypto (export_event demo_crypto) 5 (sp_file sp @ ''{'') (start_cursor, []) = (Inr 1, (cu, box))"
    using rs(1) keys by (simp add: send_pending_def send_record_run export_event_def Let_def bindE_def)
  have "newline \<notin> set ''{''" by (simp add: newline_def)
  from send_pending_progress [OF ok start_cursor_at _ this run] held have "in_outbox demo_crypto (canon demo_event) box" by simp
  with run show ?thesis by (intro exI [of _ "sp_file sp @ ''{''"] exI [of _ cu] exI [of _ box] conjI)
qed

end
