(* ===== verification/Playbooks.thy ===== *)
theory Playbooks
  imports PyText
begin

text \<open>
  \<open>playbooks.py\<close>: the checklist of every signal type, as pairs of title and description. A type
  without a playbook of its own gets the closing task alone.
\<close>

type_synonym playbook_task = "string \<times> string"

definition common_close :: playbook_task where
  "common_close = (''Documentare esito ed evidenze'',
       ''Registrare decisione, prove, approvazioni e verifica finale prima della chiusura.'')"

definition playbooks :: "(string \<times> playbook_task list) list" where
  "playbooks = [
    (''host_modbus_write'',
     [(''Confermare l'evidenza endpoint'',
       ''Verificare sensor ID, episodio, Function Code, Unit ID, registri, valori e stato request/processed. L'evidenza '' @ [CHR 0xE8] @ '' host-side DTLab e non Cisco.''),
      (''Verificare autorizzazione e impatto OT'',
       ''Confrontare origine, change window e sequenza osservata con le operazioni autorizzate, senza dedurre l'esito del processo dal solo nome dello script.''),
      (''Confermare stato PLC e rollback'',
       ''Far verificare al referente OT lo stato reale del processo e applicare soltanto il rollback approvato; nessuna scrittura viene eseguita dal portale.''),
      common_close]),
    (''event'',
     [(''Confermare il record sorgente'',
       ''Verificare timestamp, severit'' @ [CHR 0xE0] @ '', Center e riferimento Cisco senza inferire asset mancanti.''),
      (''Correlare il contesto OT'',
       ''Controllare asset, flow, baseline e change window nello stesso intervallo temporale.''),
      (''Concordare l'azione con OT'',
       ''Qualsiasi intervento su PLC, VM o rete richiede validazione del referente operativo.''),
      common_close]),
    (''finding'',
     [(''Validare il finding'',
       ''Confermare la condizione con la sorgente indicata e distinguere osservazione da fatto.''),
      (''Assegnare owner e impatto'',
       ''Identificare responsabile, criticit'' @ [CHR 0xE0] @ '' operativa e finestra sicura di intervento.''),
      (''Eseguire verifica manuale'',
       ''Applicare soltanto azioni approvate, con pre-check e possibilit'' @ [CHR 0xE0] @ '' di rollback.''),
      common_close]),
    (''baseline_difference'',
     [(''Confermare periodo e processo'',
       ''Verificare turno, ricetta, manutenzione e versione della baseline osservata.''),
      (''Classificare la deviazione'',
       ''Stabilire se il comportamento '' @ [CHR 0xE8] @ '' atteso, nuovo autorizzato o anomalo.''),
      (''Approvare o escalare'',
       ''Aggiornare la baseline solo con owner OT; altrimenti proseguire l'indagine.''),
      common_close]),
    (''vulnerability'',
     [(''Confermare l'esposizione Cisco'',
       ''Verificare che la vulnerabilit'' @ [CHR 0xE0] @ '' sia associata esplicitamente all'asset, non solo al catalogo.''),
      (''Valutare rischio e compatibilit'' @ [CHR 0xE0],
       ''Confrontare CVSS, score Cisco, ruolo asset, firmware e vincoli del processo.''),
      (''Pianificare la mitigazione'',
       ''Definire patch, compensazione o rischio accettato con owner e finestra di change.''),
      common_close]),
    (''new_ui_alert'',
     [(''Confermare alert e stato New UI'',
       ''Verificare instance ID, stato Active/Cleared/Muted, severit'' @ [CHR 0xE0] @ '' e ultima occorrenza nella sorgente Cisco read-only.''),
      (''Validare il profilo asset New UI'',
       ''Usare l'associazione esplicita restituita dalla New UI; non collegare un Device Classic tramite nome, IP o prossimit'' @ [CHR 0xE0] @ '' temporale.''),
      (''Concordare la risposta con OT'',
       ''Confermare impatto e finestra operativa prima di qualunque azione su PLC, VM o rete.''),
      common_close]),
    (''new_ui_vulnerability'',
     [(''Confermare l'associazione New UI'',
       ''Verificare CVE e profilo asset esattamente come restituiti dalla New UI, senza estendere l'associazione ai Device Classic.''),
      (''Valutare CVSS e CSRS separatamente'',
       ''Confrontare i valori API con firmware, ruolo del profilo e vincoli del processo, mantenendoli distinti dal risk score Classic.''),
      (''Pianificare una mitigazione approvata'',
       ''Definire patch o compensazione con owner OT, pre-check, finestra di change e rollback documentato.''),
      common_close])]"

definition tasks_for_signal :: "string \<Rightarrow> playbook_task list" where
  "tasks_for_signal signal_type = (case map_of playbooks signal_type of None \<Rightarrow> [common_close] | Some ts \<Rightarrow> ts)"

end
