(* ===== verification/TicketPolicy.thy ===== *)
theory TicketPolicy
  imports TicketProperties Playbooks
begin

text \<open>
  \<open>ticket_policy.py\<close>: the one automatic ticket of the system. The policy reads the signal, opens or
  finds its ticket with the playbook's tasks, and raises the priority when the signal asks for more.
  Each store call reads its own clock and draws its own identifiers: \<open>envs n\<close> is the surroundings of
  the n-th writing call.
\<close>

section \<open>The policy\<close>

definition host_ot_signal_type :: string where "host_ot_signal_type = ''host_modbus_write''"
definition host_ot_source :: string where "host_ot_source = ''src:dtlab-host-ot:plc-desktop''"
definition host_ot_source_scope :: string where "host_ot_source_scope = ''plc_host_side''"
definition host_ot_policy_actor :: string where "host_ot_policy_actor = ''dtlab-system:host-ot-policy''"

fun priority_rank :: "ticket_priority \<Rightarrow> nat" where
  "priority_rank P1 = 0"
| "priority_rank P2 = 1"
| "priority_rank P3 = 2"
| "priority_rank P4 = 3"

record policy_result =
  pr_ticket :: ticket_row
  pr_created :: bool
  pr_escalated :: bool
  pr_tasks :: nat

text \<open>\<open>_signal_from_row\<close> decodes the stored payload.\<close>

definition stored_payload :: "signal_row \<Rightarrow> ticket_error + json" where
  "stored_payload r = (case loads (sg_payload_json r) of None \<Rightarrow> Inl BadStoredJson | Some v \<Rightarrow> Inr v)"

definition desired_priority :: "signal_row \<Rightarrow> json \<Rightarrow> ticket_priority" where
  "desired_priority signal payload =
     (if jget (jget (jget payload ''event'') ''detection'') ''classification'' = JStr ''process_shutdown_sequence'' then P1
      else if sg_severity signal = ''critical'' then P1 else P2)"

definition policy_eligible :: "signal_row \<Rightarrow> json \<Rightarrow> bool" where
  "policy_eligible signal payload \<longleftrightarrow> sg_type signal = host_ot_signal_type
     \<and> sg_source_id signal = Some host_ot_source \<and> is_obj payload
     \<and> jget payload ''source_scope'' = JStr host_ot_source_scope"

definition policy_tasks :: "json list" where
  "policy_tasks = map (\<lambda>(title, description). JObj [(''title'', JStr title), (''description'', JStr description)])
     (tasks_for_signal host_ot_signal_type)"

definition apply_host_ot_ticket_policy :: "(nat \<Rightarrow> desk_env) \<Rightarrow> string \<Rightarrow> string \<Rightarrow> policy_result desk" where
  "apply_host_ot_ticket_policy envs signal_id actor =
     bindE (get_signal signal_id) (\<lambda>signal.
     bindE (lift_res (stored_payload signal)) (\<lambda>payload.
     bindE (guardE (policy_eligible signal payload) (Validation PolicyScope)) (\<lambda>_.
     let desired = desired_priority signal payload in
     bindE (get_ticket_for_signal (envs 0) signal_id) (\<lambda>before.
     bindE (create_ticket_with_tasks (envs 0) signal_id actor policy_tasks (priority_text desired) None None None)
       (\<lambda>(ticket, added).
     if priority_rank desired < priority_rank (tk_priority ticket) then
       bindE (set_ticket_priority (envs 1) (tk_id ticket) (priority_text desired) actor) (\<lambda>raised.
       ret \<lparr>pr_ticket = raised, pr_created = (before = None), pr_escalated = True, pr_tasks = added\<rparr>)
     else ret \<lparr>pr_ticket = ticket, pr_created = (before = None), pr_escalated = False, pr_tasks = added\<rparr>)))))"

section \<open>The checklist is added once\<close>

lemma missing_task_run: "add_missing_task env start tid who own now (titles, pos, k) (title, descr) =
  (if title \<in> set titles then ret (titles, pos, k)
   else let t = new_task (en_uuid env (start + k)) tid title descr (pos + 1) own None now in
     bindE (insert_task t) (\<lambda>_.
     bindE (audit_event tid who ''ticket.task_added'' now (task_added_details (ta_id t) (pos + 1) title)) (\<lambda>_.
     ret (title # titles, pos + 1, k + 1))))"
  by (simp add: add_missing_task_def)

lemma foldE_missing_titles:
  assumes "foldE (add_missing_task env start tid who own now) (titles, pos, k) defs s = (Inr (titles', pos', k'), t)"
  shows "set titles' = set titles \<union> set (map fst defs)
    \<and> set titles' - set titles \<subseteq> set (task_titles tid t) \<and> set (task_titles tid s) \<subseteq> set (task_titles tid t)"
  using assms
proof (induction defs arbitrary: titles pos k s)
  case (Cons d defs)
  obtain title descr where d: "d = (title, descr)" by (cases d)
  show ?case
  proof (cases "title \<in> set titles")
    case True
    then have "foldE (add_missing_task env start tid who own now) (titles, pos, k) defs s = (Inr (titles', pos', k'), t)"
      using Cons.prems by (simp add: d missing_task_run bindE_def)
    from Cons.IH [OF this] True d show ?thesis by auto
  next
    case False
    let ?t = "new_task (en_uuid env (start + k)) tid title descr (pos + 1) own None now"
    let ?u = "add_audit tid who ''ticket.task_added'' now (task_added_details (ta_id ?t) (pos + 1) title)
      (s\<lparr>tasks := tasks s @ [?t]\<rparr>)"
    have u: "foldE (add_missing_task env start tid who own now) (title # titles, pos + 1, k + 1) defs ?u = (Inr (titles', pos', k'), t)"
      using Cons.prems False by (auto simp: d missing_task_run Let_def run_simps)
    have "task_titles tid ?u = task_titles tid s @ [title]" by (simp add: task_titles_def new_task_def)
    with Cons.IH [OF u] d False show ?thesis by auto
  qed
qed (auto simp: act_Inr)

lemma missing_added:
  assumes "add_missing_tasks env start tid who own now defs s = (Inr n, t)"
  shows "set (map fst defs) \<subseteq> set (task_titles tid t)"
proof -
  obtain titles' pos' k' u where f: "foldE (add_missing_task env start tid who own now)
      (task_titles tid s, max_position tid s, 0) defs s = (Inr (titles', pos', k'), u)"
    and "task_titles tid t = task_titles tid u"
    using assms by (auto simp: add_missing_tasks_def run_simps task_titles_def split: if_splits)
  then show ?thesis using foldE_missing_titles [OF f] by auto
qed

lemma foldE_none_missing:
  "set (map fst defs) \<subseteq> set titles \<Longrightarrow>
   foldE (add_missing_task env start tid who own now) (titles, pos, k) defs s = (Inr (titles, pos, k), s)"
  by (induction defs) (auto simp: missing_task_run bindE_def)

lemma none_missing:
  "set (map fst defs) \<subseteq> set (task_titles tid s) \<Longrightarrow> add_missing_tasks env start tid who own now defs s = (Inr 0, s)"
  by (simp add: add_missing_tasks_def bindE_def gets_def foldE_none_missing whenE_def)

section \<open>Creation for a signal\<close>

definition same_signals :: "ticket_db \<Rightarrow> ticket_db \<Rightarrow> bool" where
  "same_signals s t \<longleftrightarrow> signals t = signals s"

interpretation unsignalled: state_order same_signals
  by unfold_locales (auto simp: same_signals_def)

lemma signal_statements:
  "commits same_signals (update_ticket i f)" "commits same_signals (audit_event i who action now d)"
  "commits same_signals (touch_ticket i now)" "commits same_signals (require_ticket i)"
  "commits same_signals (require_signal j)" "commits same_signals (insert_task ta)" "commits same_signals (insert_ticket tk)"
  by (auto intro!: commitsI simp: statement_Inr same_signals_def)

lemma create_signals: "commits same_signals (create_with_tasks_body env sid who p own title descr defs now due)"
  unfolding create_with_tasks_body_def add_missing_tasks_def add_missing_task_def open_ticket_def Let_def
  by (intro unsignalled.commit_rules signal_statements)

lemma field_signals: "commits same_signals (field_body env policy tid (PriorityValue p) who action now)"
  unfolding field_body_def field_value.case
  by (intro unsignalled.commit_rules signal_statements)


text \<open>What a successful creation with tasks leaves behind, and that repeating it changes nothing.\<close>

definition titled :: "string \<Rightarrow> json list \<Rightarrow> ticket_db \<Rightarrow> bool" where
  "titled tid docs db \<longleftrightarrow> (\<exists>defs. task_definitions docs = Inr defs \<and> set (map fst defs) \<subseteq> set (task_titles tid db))"

text \<open>Adding tasks may stamp the ticket and changes nothing else of it.\<close>

definition unstamped :: "string \<Rightarrow> ticket_db \<Rightarrow> ticket_row option" where
  "unstamped j db = map_option (\<lambda>r. r\<lparr>tk_updated_at := []\<rparr>) (ticket_by_id j db)"

definition same_but_stamp :: "string \<Rightarrow> ticket_db \<Rightarrow> ticket_db \<Rightarrow> bool" where
  "same_but_stamp j s t \<longleftrightarrow> unstamped j t = unstamped j s"

interpretation stamping: state_order "same_but_stamp j" for j
  by unfold_locales (auto simp: same_but_stamp_def)

lemma unstamped_put: "unstamped j (put_ticket i (\<lambda>r. r\<lparr>tk_updated_at := now\<rparr>) s) = unstamped j s"
  by (cases "ticket_by_id j s") (simp_all add: unstamped_def found_put)

lemma unstamped_statements:
  "commits (same_but_stamp j) (audit_event i who action now d)"
  "commits (same_but_stamp j) (touch_ticket i now)" "commits (same_but_stamp j) (insert_task ta)"
  by (auto intro!: commitsI simp: statement_Inr same_but_stamp_def unstamped_put)
    (simp_all add: unstamped_def ticket_by_id_def)

lemma tasks_keep_ticket:
  assumes "add_missing_tasks env start tid who own now defs s = (Inr n, t)"
  shows "unstamped j t = unstamped j s"
proof -
  have "commits (same_but_stamp j) (add_missing_tasks env start tid who own now defs)"
    unfolding add_missing_tasks_def add_missing_task_def Let_def
    by (intro stamping.commit_rules unstamped_statements)
  then show ?thesis using assms unfolding commits_def same_but_stamp_def by blast
qed

lemma unstamped_found:
  assumes "ticket_by_id j s = Some r" and "unstamped j t = unstamped j s"
  shows "\<exists>r'. ticket_by_id j t = Some r' \<and> tk_id r' = tk_id r \<and> tk_signal r' = tk_signal r
    \<and> tk_priority r' = tk_priority r \<and> tk_status r' = tk_status r \<and> tk_owner r' = tk_owner r"
proof -
  obtain r' where r': "ticket_by_id j t = Some r'" "r'\<lparr>tk_updated_at := []\<rparr> = r\<lparr>tk_updated_at := []\<rparr>"
    using assms by (auto simp: unstamped_def)
  from r'(2) show ?thesis using r'(1) by (cases r; cases r') auto
qed

lemma create_body_effect:
  assumes "create_with_tasks_body env sid who p own title descr defs now due db = (Inr (row, n), db1)"
    and "desk_wf tz db"
  shows "\<exists>t. row = Some t \<and> ticket_by_id (tk_id t) db1 = Some t \<and> tk_signal t = sid
    \<and> set (map fst defs) \<subseteq> set (task_titles (tk_id t) db1)
    \<and> (case ticket_by_signal sid db of None \<Rightarrow> tk_priority t = p \<and> tk_status t = New
         | Some t0 \<Rightarrow> tk_id t = tk_id t0 \<and> tk_priority t = tk_priority t0 \<and> tk_status t = tk_status t0 \<and> tk_owner t = tk_owner t0)"
proof (cases "ticket_by_signal sid db")
  case (Some t0)
  then have t0: "ticket_by_id (tk_id t0) db = Some t0" "tk_signal t0 = sid"
    using found(2) [OF Some] assms(2) the_ticket_found by (auto simp: desk_wf_def)
  have add: "add_missing_tasks env 0 (tk_id t0) who own now defs db = (Inr n, db1)" and row: "row = ticket_by_id (tk_id t0) db1"
    using assms(1) Some by (auto simp: create_with_tasks_body_def run_simps)
  from unstamped_found [OF t0(1) tasks_keep_ticket [OF add]] show ?thesis
    using missing_added [OF add] row t0(2) Some by auto
next
  case None
  obtain signal tid u where sig: "signal_by_id sid db = Some signal"
    and opened: "open_ticket (en_uuid env 0) signal who p own title descr now due db = (Inr tid, u)"
    and add: "add_missing_tasks env 1 tid who own now defs u = (Inr n, db1)" and row: "row = ticket_by_id tid db1"
    using assms(1) None by (auto simp: create_with_tasks_body_def run_simps)
  obtain r where r: "ticket_by_id tid u = Some r" "tk_id r = tid" "tk_signal r = sid" "tk_priority r = p" "tk_status r = New"
    using open_ticket_Inr [OF opened] found(3) [OF sig] by (auto simp: Let_def new_ticket_def)
  from unstamped_found [OF r(1) tasks_keep_ticket [OF add]] show ?thesis
    using missing_added [OF add] row r None by auto
qed

text \<open>The same through the operation.\<close>

lemma create_effect:
  assumes "create_ticket_with_tasks env signal_id actor docs (priority_text p) None None None db = (Inr (t, n), db1)"
    and "desk_wf (en_tz env) db"
  shows "\<exists>sid who. required_text ''Signal ID'' 128 (JStr signal_id) = Inr sid \<and> required_text ''Attore'' 256 (JStr actor) = Inr who
    \<and> ticket_by_signal sid db1 = Some t \<and> ticket_by_id (tk_id t) db1 = Some t \<and> titled (tk_id t) docs db1
    \<and> signals db1 = signals db \<and> desk_wf (en_tz env) db1 \<and> signal_by_id sid db \<noteq> None
    \<and> (case ticket_by_signal sid db of None \<Rightarrow> tk_priority t = p \<and> tk_status t = New
         | Some t0 \<Rightarrow> tk_id t = tk_id t0 \<and> tk_priority t = tk_priority t0 \<and> tk_status t = tk_status t0 \<and> tk_owner t = tk_owner t0)"
proof -
  obtain sid who defs now due row where args: "required_text ''Signal ID'' 128 (JStr signal_id) = Inr sid"
      "required_text ''Attore'' 256 (JStr actor) = Inr who" "task_definitions docs = Inr defs"
    and body: "create_with_tasks_body env sid who p None None None defs now due db = (Inr (row, n), db1)"
    and result: "row_result env row db1 = (Inr t, db1)"
    using assms(1) by (fastforce simp: create_ticket_with_tasks_def run_simps transaction_Inr row_result_def optional_text_def
        split: option.splits)
  have wf: "desk_wf (en_tz env) db1" by (rule create_tasks.keeps_wf [OF assms])
  from create_body_effect [OF body assms(2)] obtain t' where t': "row = Some t'" "ticket_by_id (tk_id t') db1 = Some t'" "tk_signal t' = sid"
    "set (map fst defs) \<subseteq> set (task_titles (tk_id t') db1)"
    "case ticket_by_signal sid db of None \<Rightarrow> tk_priority t' = p \<and> tk_status t' = New
         | Some t0 \<Rightarrow> tk_id t' = tk_id t0 \<and> tk_priority t' = tk_priority t0 \<and> tk_status t' = tk_status t0 \<and> tk_owner t' = tk_owner t0" by blast
  have "t = t'" using result t'(1,2) row_result_wf [OF wf t'(2)] by simp
  moreover have "ticket_by_signal sid db1 = Some t'"
    using found(1) [OF t'(2)] t'(3) wf unfolding ticket_by_signal_def desk_wf_def tickets_wf_def by (intro find_unique_key) auto
  moreover have "signals db1 = signals db"
    using create_signals [of env sid who p None None None defs now due] body unfolding commits_def same_signals_def by blast
  moreover have "signal_by_id sid db \<noteq> None" using body by (auto simp: create_with_tasks_body_def run_simps)
  ultimately show ?thesis using t' args wf by (auto simp: titled_def)
qed

lemma create_again:
  assumes "required_text ''Signal ID'' 128 (JStr signal_id) = Inr sid" "required_text ''Attore'' 256 (JStr actor) = Inr who"
    and "ticket_by_signal sid db = Some t" "signal_by_id sid db \<noteq> None" "titled (tk_id t) docs db" "desk_wf (en_tz env) db"
    and "now_text env = Inr now" "sla_due_at_for env p now = Inr due"
  shows "create_ticket_with_tasks env signal_id actor docs (priority_text p) None None None db = (Inr (t, 0), db)"
proof -
  obtain defs where defs: "task_definitions docs = Inr defs" "set (map fst defs) \<subseteq> set (task_titles (tk_id t) db)"
    using assms(5) by (auto simp: titled_def)
  have t: "ticket_by_id (tk_id t) db = Some t"
    using found(2) [OF assms(3)] assms(6) the_ticket_found by (auto simp: desk_wf_def)
  obtain signal where "signal_by_id sid db = Some signal" using assms(4) by blast
  then have "create_with_tasks_body env sid who p None None None defs now due db = (Inr (Some t, 0), db)"
    using none_missing [OF defs(2)] assms(3) t by (simp add: create_with_tasks_body_def require_signal_def bindE_def gets_def)
  then show ?thesis using assms(1,2,7,8) defs(1) row_result_wf [OF assms(6) t]
    by (simp add: create_ticket_with_tasks_def optional_text_def bindE_def lift_res_def transaction_def)
qed


section \<open>Raising the priority\<close>

lemma required_strip: "required_text label n (JStr s) = Inr x \<Longrightarrow> x = strip s"
  by (simp add: required_text_def Let_def split: if_splits)

lemma row_result_state: "row_result env row u = (Inr t, v) \<Longrightarrow> v = u"
  by (auto simp: row_result_def act_Inr split: option.splits)

lemma raise_effect:
  assumes "set_ticket_priority env (tk_id t) (priority_text p) actor db = (Inr t', db')"
    and "ticket_by_id (tk_id t) db = Some t" "strip (tk_id t) = tk_id t" "desk_wf (en_tz env) db"
  shows "ticket_by_id (tk_id t) db' = Some t' \<and> tk_id t' = tk_id t \<and> tk_signal t' = tk_signal t \<and> tk_priority t' = p
    \<and> tk_status t' = tk_status t \<and> tk_owner t' = tk_owner t \<and> signals db' = signals db \<and> tasks db' = tasks db
    \<and> desk_wf (en_tz env) db'"
proof -
  have wf: "desk_wf (en_tz env) db'" by (rule reprioritise.keeps_wf [OF assms(1,4)])
  obtain who policy now row u where body': "field_body env policy (tk_id t) (PriorityValue p) who ''ticket.priority_changed'' now db = (Inr row, u)"
    and result': "row_result env row u = (Inr t', db')"
    using assms(1,3) by (auto simp: set_ticket_priority_def update_ticket_field_def run_simps transaction_Inr
        split: if_splits dest!: required_strip)
  have u: "u = db'" using row_result_state [OF result'] by simp
  note body = body' [unfolded u] and result = result' [unfolded u]
  have shape: "row = ticket_by_id (tk_id t) db'" "tasks db' = tasks db"
    "\<exists>r. ticket_by_id (tk_id t) db' = Some r \<and> tk_id r = tk_id t \<and> tk_signal r = tk_signal t \<and> tk_priority r = p
      \<and> tk_status r = tk_status t \<and> tk_owner r = tk_owner t"
    using body assms(2) by (auto simp: field_body_def run_simps found_put split: if_splits)
  have "signals db' = signals db"
    using field_signals [of env policy "tk_id t" p who "''ticket.priority_changed''" now] body
    unfolding commits_def same_signals_def by blast
  then show ?thesis using shape result row_result_wf [OF wf] wf by auto
qed


section \<open>What the policy does\<close>

lemma get_signal_Inr: "get_signal signal_id db = (Inr sg, t) \<longleftrightarrow>
  (\<exists>sid. required_text ''Signal ID'' 128 (JStr signal_id) = Inr sid \<and> signal_by_id sid db = Some sg) \<and> t = db"
  by (auto simp: get_signal_def run_simps split: option.splits)

lemma ticket_for_signal_Inr: "get_ticket_for_signal env signal_id db = (Inr before, t) \<Longrightarrow>
  required_text ''Signal ID'' 128 (JStr signal_id) = Inr sid \<Longrightarrow> t = db \<and> (before = None \<longleftrightarrow> ticket_by_signal sid db = None)"
  by (auto simp: get_ticket_for_signal_def run_simps split: option.splits)

text \<open>Ticket identifiers carry no blanks at their ends: \<open>uuid4\<close> renders hexadecimal digits and dashes.\<close>

definition plain_ids :: "ticket_db \<Rightarrow> bool" where
  "plain_ids db \<longleftrightarrow> (\<forall>t \<in> set (tickets db). strip (tk_id t) = tk_id t)"

lemma policy_effect:
  assumes "apply_host_ot_ticket_policy envs signal_id actor db = (Inr r, db2)"
    and "desk_wf tz db" "\<forall>n. en_tz (envs n) = tz" "plain_ids db2"
  shows "\<exists>sid who signal payload. let t = pr_ticket r; desired = desired_priority signal payload in
    required_text ''Signal ID'' 128 (JStr signal_id) = Inr sid \<and> required_text ''Attore'' 256 (JStr actor) = Inr who
    \<and> signal_by_id sid db = Some signal \<and> stored_payload signal = Inr payload \<and> policy_eligible signal payload
    \<and> signals db2 = signals db \<and> ticket_by_signal sid db2 = Some t \<and> titled (tk_id t) policy_tasks db2 \<and> desk_wf tz db2
    \<and> (case ticket_by_signal sid db of
         None \<Rightarrow> pr_created r \<and> \<not> pr_escalated r \<and> tk_priority t = desired \<and> tk_status t = New
       | Some t0 \<Rightarrow> \<not> pr_created r \<and> tk_id t = tk_id t0 \<and> tk_status t = tk_status t0 \<and> tk_owner t = tk_owner t0
           \<and> pr_escalated r = (priority_rank desired < priority_rank (tk_priority t0))
           \<and> tk_priority t = (if priority_rank desired < priority_rank (tk_priority t0) then desired else tk_priority t0))"
proof -
  obtain sid signal payload where sg: "required_text ''Signal ID'' 128 (JStr signal_id) = Inr sid" "signal_by_id sid db = Some signal"
      "stored_payload signal = Inr payload" "policy_eligible signal payload"
    using assms(1) by (auto simp: apply_host_ot_ticket_policy_def run_simps get_signal_Inr)
  let ?d = "desired_priority signal payload"
  obtain before t n db1 where looked: "get_ticket_for_signal (envs 0) signal_id db = (Inr before, db)"
    and made: "create_ticket_with_tasks (envs 0) signal_id actor policy_tasks (priority_text ?d) None None None db = (Inr (t, n), db1)"
    and rest: "(if priority_rank ?d < priority_rank (tk_priority t) then
       bindE (set_ticket_priority (envs 1) (tk_id t) (priority_text ?d) actor) (\<lambda>raised.
       ret \<lparr>pr_ticket = raised, pr_created = (before = None), pr_escalated = True, pr_tasks = n\<rparr>)
     else ret \<lparr>pr_ticket = t, pr_created = (before = None), pr_escalated = False, pr_tasks = n\<rparr>) db1 = (Inr r, db2)"
  proof -
    obtain before u t n db1 where *: "get_ticket_for_signal (envs 0) signal_id db = (Inr before, u)"
      "create_ticket_with_tasks (envs 0) signal_id actor policy_tasks (priority_text ?d) None None None u = (Inr (t, n), db1)"
      "(if priority_rank ?d < priority_rank (tk_priority t) then
       bindE (set_ticket_priority (envs 1) (tk_id t) (priority_text ?d) actor) (\<lambda>raised.
       ret \<lparr>pr_ticket = raised, pr_created = (before = None), pr_escalated = True, pr_tasks = n\<rparr>)
     else ret \<lparr>pr_ticket = t, pr_created = (before = None), pr_escalated = False, pr_tasks = n\<rparr>) db1 = (Inr r, db2)"
      using assms(1) sg unfolding apply_host_ot_ticket_policy_def Let_def
      by (clarsimp simp: bindE_Inr act_Inr get_signal_Inr)
    with ticket_for_signal_Inr [OF *(1) sg(1)] show thesis using that by blast
  qed
  have before: "before = None \<longleftrightarrow> ticket_by_signal sid db = None" using ticket_for_signal_Inr [OF looked sg(1)] by blast
  have "desk_wf (en_tz (envs 0)) db" using assms(2,3) by simp
  from create_effect [OF made this] sg(1) assms(3)
  obtain who where one: "required_text ''Attore'' 256 (JStr actor) = Inr who" "ticket_by_signal sid db1 = Some t"
    "ticket_by_id (tk_id t) db1 = Some t" "titled (tk_id t) policy_tasks db1" "signals db1 = signals db" "desk_wf tz db1"
    "case ticket_by_signal sid db of None \<Rightarrow> tk_priority t = ?d \<and> tk_status t = New
     | Some t0 \<Rightarrow> tk_id t = tk_id t0 \<and> tk_priority t = tk_priority t0 \<and> tk_status t = tk_status t0 \<and> tk_owner t = tk_owner t0"
    by auto
  show ?thesis
  proof (cases "priority_rank ?d < priority_rank (tk_priority t)")
    case False
    then have r: "r = \<lparr>pr_ticket = t, pr_created = (before = None), pr_escalated = False, pr_tasks = n\<rparr>" "db2 = db1"
      using rest by (simp_all add: act_Inr)
    show ?thesis
      by (rule exI [of _ sid], rule exI [of _ who], rule exI [of _ signal], rule exI [of _ payload])
        (use sg one before False r in \<open>auto simp: Let_def split: option.splits\<close>)
  next
    case True
    obtain t' where up: "set_ticket_priority (envs 1) (tk_id t) (priority_text ?d) actor db1 = (Inr t', db2)"
      and r: "r = \<lparr>pr_ticket = t', pr_created = (before = None), pr_escalated = True, pr_tasks = n\<rparr>"
      using rest True by (auto simp: bindE_Inr act_Inr)
    have wf1: "desk_wf (en_tz (envs 1)) db1" using one(6) assms(3) by simp
    obtain t2 where "t2 \<in> set (tickets db2)" "ticket_continues t t2"
      using reprioritise.extends [OF up wf1] found(1) [OF one(3)] unfolding desk_extends_def by blast
    then have "tk_id t \<in> tk_id ` set (tickets db2)" by (intro image_eqI [of _ _ t2]) (simp_all add: ticket_continues_def)
    then have "strip (tk_id t) = tk_id t" using assms(4) by (auto simp: plain_ids_def)
    from raise_effect [OF up one(3) this wf1] assms(3)
    have two: "ticket_by_id (tk_id t) db2 = Some t'" "tk_id t' = tk_id t" "tk_signal t' = tk_signal t" "tk_priority t' = ?d"
      "tk_status t' = tk_status t" "tk_owner t' = tk_owner t" "signals db2 = signals db1" "tasks db2 = tasks db1" "desk_wf tz db2"
      by simp_all
    have "ticket_by_signal sid db2 = Some t'"
      using found(1) [OF two(1)] found(2) [OF one(2)] two(3,9) unfolding ticket_by_signal_def desk_wf_def tickets_wf_def
      by (intro find_unique_key) auto
    moreover have "titled (tk_id t') policy_tasks db2" using one(4) two(2,8) by (simp add: titled_def task_titles_def)
    moreover have "ticket_by_signal sid db \<noteq> None" using one(7) True by (auto split: option.splits)
    ultimately show ?thesis
      by (intro exI [of _ sid] exI [of _ who] exI [of _ signal] exI [of _ payload])
        (use sg one before True r two in \<open>auto simp: Let_def split: option.splits\<close>)
  qed
qed


definition policy_payload_doc :: json where
  "policy_payload_doc = JObj [(''source_scope'', JStr host_ot_source_scope)]"

definition policy_signal :: signal_row where
  "policy_signal = demo_signal\<lparr>sg_type := host_ot_signal_type, sg_source_id := Some host_ot_source,
     sg_severity := ''critical'', sg_payload_json := dumps False policy_payload_doc\<rparr>"

definition policy_db :: ticket_db where
  "policy_db = empty_db\<lparr>signals := [policy_signal]\<rparr>"

lemma policy_demo:
  "\<exists>r db. apply_host_ot_ticket_policy (\<lambda>n. demo_env 0) (sg_id policy_signal) host_ot_policy_actor policy_db = (Inr r, db)
    \<and> pr_created r \<and> map tk_id (tickets db) = [''ticket:0'']"
proof -
  have "case apply_host_ot_ticket_policy (\<lambda>n. demo_env 0) (sg_id policy_signal) host_ot_policy_actor policy_db of
     (Inl e, _) \<Rightarrow> False | (Inr r, db) \<Rightarrow> pr_created r \<and> map tk_id (tickets db) = [''ticket:0'']"
    by code_simp
  then show ?thesis by (auto split: prod.splits sum.splits)
qed

lemma policy_wf: "desk_wf utc_zone policy_db"
proof -
  have "is_sha256_hex demo_fingerprint"
    by (simp add: is_sha256_hex_def demo_fingerprint_def list_all_iff is_hex_lower_def is_digit_def)
  then show ?thesis
    by (simp add: desk_wf_def signals_wf_def tickets_wf_def children_wf_def policy_db_def empty_db_def
        policy_signal_def demo_signal_def)
qed



lemma policy_again:
  assumes "apply_host_ot_ticket_policy envs signal_id actor db = (Inr r, db2)"
    and "desk_wf tz db" and "\<forall>n. en_tz (envs n) = tz" and "plain_ids db2"
    and "en_tz (later 0) = tz" and "now_text (later 0) = Inr now" and "\<forall>p. \<exists>due. sla_due_at_for (later 0) p now = Inr due"
  shows "apply_host_ot_ticket_policy later signal_id actor db2
    = (Inr \<lparr>pr_ticket = pr_ticket r, pr_created = False, pr_escalated = False, pr_tasks = 0\<rparr>, db2)"
proof -
  from policy_effect [OF assms(1-4)] obtain sid who signal payload where e:
    "required_text ''Signal ID'' 128 (JStr signal_id) = Inr sid" "required_text ''Attore'' 256 (JStr actor) = Inr who"
    "signal_by_id sid db = Some signal" "stored_payload signal = Inr payload" "policy_eligible signal payload"
    "signals db2 = signals db" "ticket_by_signal sid db2 = Some (pr_ticket r)" "titled (tk_id (pr_ticket r)) policy_tasks db2"
    "desk_wf tz db2"
    and pr: "case ticket_by_signal sid db of
         None \<Rightarrow> pr_created r \<and> \<not> pr_escalated r \<and> tk_priority (pr_ticket r) = desired_priority signal payload \<and> tk_status (pr_ticket r) = New
       | Some t0 \<Rightarrow> \<not> pr_created r \<and> tk_id (pr_ticket r) = tk_id t0 \<and> tk_status (pr_ticket r) = tk_status t0 \<and> tk_owner (pr_ticket r) = tk_owner t0
           \<and> pr_escalated r = (priority_rank (desired_priority signal payload) < priority_rank (tk_priority t0))
           \<and> tk_priority (pr_ticket r) = (if priority_rank (desired_priority signal payload) < priority_rank (tk_priority t0)
               then desired_priority signal payload else tk_priority t0)"
    unfolding Let_def by blast
  let ?d = "desired_priority signal payload"
  have rank: "\<not> priority_rank ?d < priority_rank (tk_priority (pr_ticket r))" using pr by (auto split: option.splits if_splits)
  have sig: "signal_by_id sid db2 = Some signal" using e(3,6) by (simp add: signal_by_id_def)
  obtain due where due: "sla_due_at_for (later 0) ?d now = Inr due" using assms(7) by blast
  have wf: "desk_wf (en_tz (later 0)) db2" using e(9) assms(5) by simp
  have get: "get_signal signal_id db2 = (Inr signal, db2)" using e(1) sig by (auto simp: get_signal_Inr)
  have t: "ticket_by_id (tk_id (pr_ticket r)) db2 = Some (pr_ticket r)"
    using found(2) [OF e(7)] e(9) the_ticket_found by (auto simp: desk_wf_def)
  have look: "get_ticket_for_signal (later 0) signal_id db2 = (Inr (Some (pr_ticket r)), db2)"
    using e(1,7,9) found(1) [OF t] ticket_from_row_wf [of tz db2 "pr_ticket r" "later 0"]
    by (simp add: get_ticket_for_signal_def bindE_lift_res lift_res_def gets_def bindE_def desk_wf_def)
  have make: "create_ticket_with_tasks (later 0) signal_id actor policy_tasks (priority_text ?d) None None None db2 = (Inr (pr_ticket r, 0), db2)"
    by (rule create_again [OF e(1,2,7) _ e(8) wf assms(6) due]) (simp add: sig)
  show ?thesis
    unfolding apply_host_ot_ticket_policy_def Let_def bindE_step [of "get_signal signal_id" db2 signal db2, OF get] bindE_lift_res e(4) sum.case bindE_guardE
      if_P [OF e(5)] bindE_step [of "get_ticket_for_signal (later 0) signal_id" db2 "Some (pr_ticket r)" db2, OF look] bindE_step [of "create_ticket_with_tasks (later 0) signal_id actor policy_tasks (priority_text ?d) None None None" db2 "(pr_ticket r, 0)" db2, OF make] prod.case if_not_P [OF rank]
    by simp
qed

text \<open>The policy is idempotent: applied again, at any later time, it finds its ticket and its tasks,
  escalates nothing, returns the same ticket and leaves the database as it is.\<close>

theorem policy_idempotent:
  assumes "apply_host_ot_ticket_policy envs signal_id actor db = (Inr r, db2)"
    and "desk_wf tz db" and "\<forall>n. en_tz (envs n) = tz" and "plain_ids db2"
    and "en_tz (later 0) = tz" and "now_text (later 0) = Inr now" and "\<forall>p. \<exists>due. sla_due_at_for (later 0) p now = Inr due"
  shows "apply_host_ot_ticket_policy later signal_id actor db2
    = (Inr \<lparr>pr_ticket = pr_ticket r, pr_created = False, pr_escalated = False, pr_tasks = 0\<rparr>, db2)"
  by (rule policy_again) (fact assms)+

lemma policy_idempotent_witness:
  "\<exists>r db. apply_host_ot_ticket_policy (\<lambda>n. demo_env 0) (sg_id policy_signal) host_ot_policy_actor policy_db = (Inr r, db)
    \<and> apply_host_ot_ticket_policy (\<lambda>n. demo_env 9) (sg_id policy_signal) host_ot_policy_actor db
      = (Inr \<lparr>pr_ticket = pr_ticket r, pr_created = False, pr_escalated = False, pr_tasks = 0\<rparr>, db)"
proof -
  obtain r db where run: "apply_host_ot_ticket_policy (\<lambda>n. demo_env 0) (sg_id policy_signal) host_ot_policy_actor policy_db = (Inr r, db)"
    and ids: "map tk_id (tickets db) = [''ticket:0'']"
    using policy_demo by (elim exE conjE) (rule that)
  have plain: "plain_ids db" using ids by (auto simp: plain_ids_def map_eq_Cons_conv strip_no_space is_space_def)
  have v: "valid_instant 9" "valid_instant (9 + sla_policy_hours p * hour_us)" for p
    by (cases p; simp add: valid_instant_def time_units)+
  have now: "now_text (demo_env 9) = Inr (utc_text 9)" using v(1) by simp
  have due: "\<forall>p. \<exists>due. sla_due_at_for (demo_env 9) p (utc_text 9) = Inr due"
    using plain_deadline [OF v] by (simp add: sla_due_at_for_def)
  show ?thesis
    by (rule exI [of _ r], rule exI [of _ db], intro conjI run, rule policy_idempotent [where later = "\<lambda>n. demo_env 9", OF run policy_wf _ plain _ now due]) simp_all
qed

section \<open>The policy leaves the signals alone\<close>

lemma policy_signals: "steps_within same_signals (apply_host_ot_ticket_policy envs signal_id actor)"
  unfolding apply_host_ot_ticket_policy_def Let_def create_ticket_with_tasks_def set_ticket_priority_def update_ticket_field_def
    get_signal_def get_ticket_for_signal_def row_result_def
  by (intro unsignalled.rules unsignalled.commits_transaction create_signals field_signals)

end
