(* ===== verification/HostOtIngest.thy ===== *)
theory HostOtIngest
  imports HostOtAgreement TicketPolicy
begin

text \<open>
  \<open>ingest_host_ot_event\<close>: an authenticated event becomes a signal and, by the policy, a ticket. The
  guards against stale and conflicting revisions read the event stored with the signal. The writing
  store calls read the surroundings \<open>envs 0\<close>, \<open>envs 1\<close>, ... in their order.
\<close>

datatype ingest_error = InvalidEvent "ot_problem list" | StoreError ticket_error | RevisionNotInteger

record ingest_result =
  ir_sha :: string
  ir_event_type :: string
  ir_signal :: "string option"
  ir_ticket :: "string option"
  ir_stats :: ingest_stats
  ir_ticket_created :: bool
  ir_escalated :: bool
  ir_tasks :: nat

definition no_stats :: ingest_stats where
  "no_stats = \<lparr>signals_seen = 0, signals_created = 0, occurrences_created = 0\<rparr>"

definition heartbeat_result :: "string \<Rightarrow> ingest_result" where
  "heartbeat_result digest = \<lparr>ir_sha = digest, ir_event_type = ''heartbeat'', ir_signal = None, ir_ticket = None,
     ir_stats = no_stats, ir_ticket_created = False, ir_escalated = False, ir_tasks = 0\<rparr>"

definition via_store :: "'a desk \<Rightarrow> (ticket_db, ingest_error, 'a) act" where
  "via_store m = (\<lambda>s. case m s of (Inl e, t) \<Rightarrow> (Inl (StoreError e), t) | (Inr x, t) \<Rightarrow> (Inr x, t))"

text \<open>\<open>store.get_signal(...)\<close> with \<open>SignalNotFoundError\<close> caught.\<close>

definition existing_signal :: "string \<Rightarrow> (signal_row \<times> json) option desk" where
  "existing_signal signal_id = (\<lambda>s. case get_signal signal_id s of
     (Inl (SignalNotFound _), t) \<Rightarrow> (Inr None, t)
   | (Inl e, t) \<Rightarrow> (Inl e, t)
   | (Inr r, t) \<Rightarrow> (case stored_payload r of Inl e \<Rightarrow> (Inl e, t) | Inr payload \<Rightarrow> (Inr (Some (r, payload)), t)))"

definition payload_revision :: "json \<Rightarrow> int option" where
  "payload_revision payload = int_like (jget (jget payload ''event'') ''revision'')"

definition check_revision ::
  "json \<Rightarrow> string \<Rightarrow> (signal_row \<times> json) option \<Rightarrow> ingest_error + unit" where
  "check_revision event digest existing = (case existing of
     None \<Rightarrow> Inr ()
   | Some (r, payload) \<Rightarrow>
       (case payload_revision payload of
          None \<Rightarrow> Inr ()
        | Some stored \<Rightarrow>
            (case int_like (jget event ''revision'') of
               None \<Rightarrow> Inl RevisionNotInteger
             | Some incoming \<Rightarrow>
                 if incoming < stored then Inl (InvalidEvent [OldRevision])
                 else if incoming = stored \<and> sg_snapshot r \<noteq> digest then Inl (InvalidEvent [OtherRevisionDocument])
                 else Inr ())))"

definition signal_key :: "string \<Rightarrow> string" where
  "signal_key fingerprint = ''signal:'' @ fingerprint"

definition store_host_signal ::
  "(nat \<Rightarrow> desk_env) \<Rightarrow> json \<Rightarrow> string \<Rightarrow> string \<Rightarrow> signal_input \<Rightarrow> (ticket_db, ingest_error, ingest_result) act" where
  "store_host_signal envs event digest signal_id signal =
     bindE (via_store (existing_signal signal_id)) (\<lambda>existing.
     bindE (lift_res (check_revision event digest existing)) (\<lambda>_.
     bindE (via_store (ingest_signals (envs 0) [signal])) (\<lambda>stats.
     bindE (via_store (apply_host_ot_ticket_policy (\<lambda>n. envs (Suc n)) signal_id host_ot_policy_actor)) (\<lambda>policy.
     ret \<lparr>ir_sha = digest, ir_event_type = ''modbus_write'', ir_signal = Some signal_id,
       ir_ticket = Some (tk_id (pr_ticket policy)), ir_stats = stats, ir_ticket_created = pr_created policy,
       ir_escalated = pr_escalated policy, ir_tasks = pr_tasks policy\<rparr>))))"

definition ingest_host_ot_event ::
  "event_env \<Rightarrow> (nat \<Rightarrow> desk_env) \<Rightarrow> json \<Rightarrow> string option \<Rightarrow> (ticket_db, ingest_error, ingest_result) act" where
  "ingest_host_ot_event H envs event document_sha =
     (case signal_from_host_ot_event H event document_sha of
        Inl problems \<Rightarrow> raise (InvalidEvent problems)
      | Inr (digest, None) \<Rightarrow> ret (heartbeat_result digest)
      | Inr (digest, Some signal) \<Rightarrow> store_host_signal envs event digest (signal_key (si_fingerprint signal)) signal)"

section \<open>One signal into the store\<close>

lemma via_store_Inr [simp]: "via_store m s = (Inr x, t) \<longleftrightarrow> m s = (Inr x, t)"
  by (auto simp: via_store_def split: prod.splits sum.splits)

lemma via_store_cases: "via_store m s = (r, t) \<Longrightarrow> \<exists>r'. m s = (r', t) \<and> (r' = Inl e' \<longrightarrow> r = Inl (StoreError e'))"
  by (auto simp: via_store_def split: prod.splits sum.splits)

lemma existing_signal_state: "existing_signal signal_id s = (r, t) \<Longrightarrow> t = s"
  by (auto simp: existing_signal_def get_signal_def bindE_def act_defs split: prod.splits sum.splits ticket_error.splits option.splits)

lemma found_append: "find P (xs @ ys) = (case find P xs of None \<Rightarrow> find P ys | Some x \<Rightarrow> Some x)"
  by (induction xs) auto

lemma found_map_if:
  assumes "\<And>r. sg_id (f r) = sg_id r"
  shows "find (\<lambda>r. sg_id r = j) (map (\<lambda>r. if sg_id r = i then f r else r) rs)
    = map_option (\<lambda>r. if j = i then f r else r) (find (\<lambda>r. sg_id r = j) rs)"
  by (induction rs) (auto simp: assms)

text \<open>After the upsert the signal carries the snapshot and the payload of the input, and no other signal
  has changed.\<close>

lemma upsert_effect:
  assumes "upsert_signal env now s d = (Inr x, t)" and "normalize_signal now s = Inr n" and "signals_wf d"
  shows "\<exists>r. signal_by_id (sg_id n) t = Some r \<and> sg_snapshot r = sg_snapshot n
    \<and> (case signal_by_id (sg_id n) d of
         None \<Rightarrow> x = (True, True) \<and> sg_payload_json r = sg_payload_json n
       | Some r0 \<Rightarrow> if sg_snapshot r0 = sg_snapshot n then x = (False, False) \<and> t = d
           else x = (False, True) \<and> sg_payload_json r = sg_payload_json n)
    \<and> (\<forall>j. j \<noteq> sg_id n \<longrightarrow> signal_by_id j t = signal_by_id j d)"
proof -
  let ?digest = "payload_hash (en_sha env) (JObj (si_payload s))"
  note ids = normalize_signal_Inr [OF assms(2)]
  have same: "signal_by_id (sg_id n) d = signal_by_fingerprint (sg_fingerprint n) d"
  proof -
    have "\<forall>r \<in> set (signals d). sg_id r = sg_id n \<longleftrightarrow> sg_fingerprint r = sg_fingerprint n"
      using assms(3) ids(1) by (auto simp: signals_wf_def)
    then have "find (\<lambda>r. sg_id r = sg_id n) rs = find (\<lambda>r. sg_fingerprint r = sg_fingerprint n) rs"
      if "set rs \<subseteq> set (signals d)" for rs
      using that by (induction rs) auto
    then show ?thesis by (simp add: signal_by_id_def signal_by_fingerprint_def)
  qed
  show ?thesis
  proof (cases "signal_by_fingerprint (sg_fingerprint n) d")
    case None
    then have "x = (True, True) \<and> signals t = signals d @ [n]"
      using assms(1,2) by (auto simp: upsert_signal_def Let_def semantic_changed_def whenE_def run_simps
          insert_occurrence_Inr split: if_splits)
    then show ?thesis using None same by (auto simp: signal_by_id_def found_append split: option.splits)
  next
    case (Some r)
    show ?thesis
    proof (cases "sg_snapshot r = sg_snapshot n")
      case True
      then have "x = (False, False) \<and> t = d"
        using assms(1,2) Some by (simp add: upsert_signal_def Let_def whenE_def)
      then show ?thesis using True Some same by auto
    next
      case False
      obtain changed u where u: "whenE changed (insert_or_ignore_occurrence (occurrence_of n ?digest now)) d = (Inr (), u)"
        and t: "t = u\<lparr>signals := map (\<lambda>q. if sg_id q = sg_id n then refresh_signal n r changed now q else q) (signals u)\<rparr>"
        and x: "x = (False, True)"
        using assms(1,2) Some False
        by (auto simp: upsert_signal_def Let_def whenE_def [of False] run_simps update_signal_def)
      have su: "signals u = signals d"
        using u by (auto simp: whenE_Inr insert_occurrence_Inr split: if_splits)
      have "signal_by_id j t = map_option (\<lambda>q. if j = sg_id n then refresh_signal n r changed now q else q) (signal_by_id j d)" for j
        unfolding signal_by_id_def t su by (simp add: found_map_if)
      then show ?thesis using Some same False x by (auto simp: refresh_signal_def option.map_ident)
    qed
  qed
qed

lemma upsert_normalizes: "upsert_signal env now s d = (Inr x, t) \<Longrightarrow> \<exists>n. normalize_signal now s = Inr n"
  unfolding upsert_signal_def bindE_Inr act_Inr by blast

lemma ingest_one:
  assumes "ingest_signals env [s] d = (Inr stats, t)"
  shows "\<exists>now n x. normalize_signal now s = Inr n \<and> now_text env = Inr now \<and> upsert_signal env now s d = (Inr x, t)
    \<and> stats = \<lparr>signals_seen = 1, signals_created = (if fst x then 1 else 0), occurrences_created = (if snd x then 1 else 0)\<rparr>"
proof -
  obtain now x u where "now_text env = Inr now" "upsert_signal env now s d = (Inr x, t)"
    "stats = \<lparr>signals_seen = 1, signals_created = (if fst x then 1 else 0), occurrences_created = (if snd x then 1 else 0)\<rparr>"
    using assms by (auto simp: ingest_signals_def upsert_counted_def run_simps transaction_Inr split: prod.splits)
  then show ?thesis using upsert_normalizes by blast
qed

lemma ingest_one_again:
  assumes "now_text env = Inr now" and "normalize_signal now s = Inr n" and "signal_by_fingerprint (sg_fingerprint n) d = Some r"
    and "sg_snapshot r = sg_snapshot n"
  shows "ingest_signals env [s] d = (Inr \<lparr>signals_seen = 1, signals_created = 0, occurrences_created = 0\<rparr>, d)"
proof -
  have "upsert_signal env now s d = (Inr (False, False), d)"
    using assms by (simp add: upsert_signal_def bindE_lift_res Let_def whenE_def)
  then have "upsert_counted env now (0, 0) s d = (Inr (0, 0), d)" by (simp add: upsert_counted_def bindE_def)
  then show ?thesis using assms(1) by (simp add: ingest_signals_def bindE_lift_res bindE_def transaction_def)
qed


section \<open>The signal of an event in the store\<close>

definition hex_digests :: "event_env \<Rightarrow> bool" where
  "hex_digests H \<longleftrightarrow> (\<forall>s. is_sha256_hex (he_sha H s))"

definition event_signal_id :: "event_env \<Rightarrow> json \<Rightarrow> string" where
  "event_signal_id H event = signal_key (event_fingerprint H event)"

definition event_payload :: "json \<Rightarrow> json" where
  "event_payload event = JObj [(''source_scope'', JStr ''plc_host_side''),
     (''source_attribution'', JStr ''dtlab_host_sensor_not_cisco''), (''event'', event)]"

lemma signal_prefix_plain: "c \<in> set ''signal:'' \<Longrightarrow> \<not> is_space c"
  by (auto simp: is_space_def)

lemma signal_id_text:
  assumes "hex_digests H"
  shows "required_text label 128 (JStr (event_signal_id H event)) = Inr (event_signal_id H event)"
proof -
  have hex: "is_sha256_hex (event_fingerprint H event)" using assms by (simp add: hex_digests_def event_fingerprint_def)
  then have "list_all is_hex_lower (event_fingerprint H event)" "length (event_fingerprint H event) = 64"
    by (auto simp: is_sha256_hex_def)
  then have "strip (event_signal_id H event) = event_signal_id H event" "length (event_signal_id H event) \<le> 128"
    by (auto simp: event_signal_id_def signal_key_def list_all_iff is_hex_lower_facts signal_prefix_plain intro!: strip_no_space)
  then show ?thesis by (simp add: event_signal_id_def signal_key_def)
qed

lemma normalized_event:
  assumes "normalize_signal now (signal_of_event H event digest) = Inr n" and "hex_digests H" and "is_sha256_hex digest"
  shows "sg_id n = event_signal_id H event" "sg_snapshot n = digest" "sg_payload_json n = dumps False (event_payload event)"
proof -
  have hex: "is_sha256_hex (event_fingerprint H event)" using assms(2) by (simp add: hex_digests_def event_fingerprint_def)
  have parts: "si_fingerprint (signal_of_event H event digest) = event_fingerprint H event"
    "si_snapshot (signal_of_event H event digest) = digest" "JObj (si_payload (signal_of_event H event digest)) = event_payload event"
    by (simp_all add: signal_of_event_def Let_def event_payload_def)
  have fp: "hex_argument ''Fingerprint'' 128 BadFingerprint (event_fingerprint H event) = Inr (event_fingerprint H event)"
    "hex_argument ''SHA snapshot'' 64 BadDigest digest = Inr digest"
    using hex assms(3) sha256_hex_normal [OF hex] sha256_hex_normal [OF assms(3)] by (simp_all add: hex_argument_def)
  show "sg_id n = event_signal_id H event" "sg_snapshot n = digest"
    using assms(1) unfolding normalize_signal_def parts fp by (auto simp: bindR_eq_Inr event_signal_id_def signal_key_def)
  show "sg_payload_json n = dumps False (event_payload event)"
    using normalize_signal_Inr(6) [OF assms(1)] parts(3) by simp
qed

lemma stored_event:
  assumes "json_ok event" and "sg_payload_json r = dumps False (event_payload event)"
  shows "\<exists>p. stored_payload r = Inr p \<and> payload_revision p = int_like (jget event ''revision'')"
proof -
  have ok: "json_ok (event_payload event)" using assms(1) by (simp add: event_payload_def)
  have "loads (sg_payload_json r) = Some (canon (event_payload event))"
    using loads_dumps(1) [OF ok, of False] assms(2) by simp
  moreover have "jget (canon (event_payload event)) ''event'' = canon event"
    using jget_canon_ok [OF ok, of "''event''"] by (simp add: event_payload_def jget_def get_item_def)
  moreover have "jget (canon event) ''revision'' = canon (jget event ''revision'')" by (rule jget_canon_ok [OF assms(1)])
  moreover have "int_like (canon v) = int_like v" for v by (cases v) (simp_all add: int_like_def)
  ultimately show ?thesis by (simp add: stored_payload_def payload_revision_def)
qed

lemma normalize_any_time:
  "normalize_signal now s = Inr n \<Longrightarrow> normalize_signal now' s = Inr (n\<lparr>sg_created_at := now', sg_updated_at := now'\<rparr>)"
  unfolding normalize_signal_def by (auto simp: bindR_eq_Inr)

lemma existing_signal_found:
  assumes "hex_digests H"
  shows "existing_signal (event_signal_id H event) db = (case signal_by_id (event_signal_id H event) db of
      None \<Rightarrow> (Inr None, db)
    | Some r \<Rightarrow> (case stored_payload r of Inl e \<Rightarrow> (Inl e, db) | Inr p \<Rightarrow> (Inr (Some (r, p)), db)))"
  by (simp add: existing_signal_def get_signal_def signal_id_text [OF assms] bindE_lift_res split: option.split)

section \<open>Runs of the ingest\<close>

lemma signal_from_event:
  assumes "signal_from_host_ot_event H event sha = Inr (digest, s)"
  shows "digest = he_sha H (event_bytes event)"
    "s = (if jget event ''event_type'' = JStr ''heartbeat'' then None else Some (signal_of_event H event digest))"
  using assms by (auto simp: signal_from_host_ot_event_def bindR_eq_Inr Let_def split: if_splits)

lemma event_signal_of: "signal_key (si_fingerprint (signal_of_event H event digest)) = event_signal_id H event"
  by (simp add: signal_of_event_def event_signal_id_def Let_def)

text \<open>An ingest is a run of \<open>store_host_signal\<close> or leaves the store alone.\<close>

lemma ingest_cases:
  assumes "ingest_host_ot_event H envs event sha db = (res, db')"
  obtains "db' = db" "res = Inr (heartbeat_result (he_sha H (event_bytes event))) \<or> (\<exists>ps. res = Inl (InvalidEvent ps))"
  | "store_host_signal envs event (he_sha H (event_bytes event)) (event_signal_id H event)
       (signal_of_event H event (he_sha H (event_bytes event))) db = (res, db')"
    "signal_from_host_ot_event H event sha = Inr (he_sha H (event_bytes event), Some (signal_of_event H event (he_sha H (event_bytes event))))"
proof (cases "signal_from_host_ot_event H event sha")
  case (Inl ps)
  then show thesis using assms that(1) by (auto simp: ingest_host_ot_event_def)
next
  case (Inr x)
  obtain digest s where x: "x = (digest, s)" by (cases x)
  note from_event = signal_from_event [OF Inr [unfolded x]]
  show thesis
  proof (cases s)
    case None
    then show thesis using assms that(1) Inr x from_event(1) by (auto simp: ingest_host_ot_event_def)
  next
    case (Some sig)
    then have sig: "sig = signal_of_event H event digest" using from_event(2) by (simp split: if_splits)
    have "store_host_signal envs event digest (signal_key (si_fingerprint sig)) sig db = (res, db')"
      using assms Inr x Some by (simp add: ingest_host_ot_event_def)
    then show thesis using that(2) from_event(1) sig Inr x Some by (simp only: event_signal_of)
  qed
qed

text \<open>The signals after storing an event, whatever the result.\<close>

lemma stored_signals:
  assumes "store_host_signal envs event digest (event_signal_id H event) (signal_of_event H event digest) db = (res, db')"
    and "desk_wf tz db" and "hex_digests H" and "is_sha256_hex digest"
  shows "signals db' = signals db
    \<or> (\<forall>j. j \<noteq> event_signal_id H event \<longrightarrow> signal_by_id j db' = signal_by_id j db)
      \<and> (\<exists>r. signal_by_id (event_signal_id H event) db' = Some r \<and> sg_snapshot r = digest
          \<and> sg_payload_json r = dumps False (event_payload event)
          \<and> (\<forall>r0. signal_by_id (event_signal_id H event) db = Some r0 \<longrightarrow>
               (\<exists>p. stored_payload r0 = Inr p \<and> check_revision event digest (Some (r0, p)) = Inr ())))"
proof -
  let ?i = "event_signal_id H event" and ?s = "signal_of_event H event digest"
  obtain ex where ex: "existing_signal ?i db = (ex, db)" using existing_signal_state by (metis prod.exhaust)
  show ?thesis
  proof (cases ex)
    case (Inl e)
    then show ?thesis using assms(1) ex by (simp add: store_host_signal_def bindE_def via_store_def)
  next
    case (Inr found)
    show ?thesis
    proof (cases "check_revision event digest found")
      case (Inl e)
      then show ?thesis using assms(1) ex Inr by (simp add: store_host_signal_def bindE_def via_store_def lift_res_def)
    next
      case (Inr u)
      obtain st t where st: "ingest_signals (envs 0) [?s] db = (st, t)" by fastforce
      show ?thesis
      proof (cases st)
        case (Inl e)
        then have "t = db" using st ingest.rolls_back [OF st [unfolded Inl] assms(2)] by simp
        then show ?thesis using assms(1) ex \<open>ex = Inr found\<close> Inr st Inl
          by (simp add: store_host_signal_def bindE_def via_store_def lift_res_def)
      next
        case stats: (Inr stats)
        obtain p u where pol: "apply_host_ot_ticket_policy (\<lambda>n. envs (Suc n)) ?i host_ot_policy_actor t = (p, u)" by fastforce
        have "signals u = signals t" using steps_withinD [OF policy_signals pol] by (simp add: same_signals_def)
        moreover have "db' = u" using assms(1) ex \<open>ex = Inr found\<close> Inr st stats pol
          by (cases p) (simp_all add: store_host_signal_def bindE_def via_store_def lift_res_def)
        ultimately have same: "signals db' = signals t" by simp
        obtain now n x where n: "normalize_signal now ?s = Inr n" and up: "upsert_signal (envs 0) now ?s db = (Inr x, t)"
          using ingest_one st stats by blast
        note norm = normalized_event [OF n assms(3,4)]
        have wf: "signals_wf db" using assms(2) by (simp add: desk_wf_def)
        from upsert_effect [OF up n wf] obtain r where r: "signal_by_id ?i t = Some r" "sg_snapshot r = digest"
          "case signal_by_id ?i db of None \<Rightarrow> x = (True, True) \<and> sg_payload_json r = sg_payload_json n
           | Some r0 \<Rightarrow> if sg_snapshot r0 = digest then x = (False, False) \<and> t = db
             else x = (False, True) \<and> sg_payload_json r = sg_payload_json n"
          "\<forall>j. j \<noteq> ?i \<longrightarrow> signal_by_id j t = signal_by_id j db"
          unfolding norm(1,2) by blast
        have same_id: "signal_by_id j db' = signal_by_id j t" for j using same by (simp add: signal_by_id_def)
        have checked: "\<forall>r0. signal_by_id ?i db = Some r0 \<longrightarrow>
            (\<exists>p. stored_payload r0 = Inr p \<and> check_revision event digest (Some (r0, p)) = Inr ())"
          using ex \<open>ex = Inr found\<close> Inr by (auto simp: existing_signal_found [OF assms(3)] split: sum.splits)
        show ?thesis
        proof (cases "signals t = signals db")
          case False
          then have "sg_payload_json r = sg_payload_json n" using r(3) by (auto split: option.splits if_splits)
          then show ?thesis using r checked norm(3) by (auto simp: same_id)
        qed (use same in simp)
      qed
    qed
  qed
qed


section \<open>Revisions never go back\<close>

definition stored_revision :: "string \<Rightarrow> ticket_db \<Rightarrow> int option" where
  "stored_revision signal_id db = (case signal_by_id signal_id db of
     None \<Rightarrow> None
   | Some r \<Rightarrow> (case stored_payload r of Inl e \<Rightarrow> None | Inr p \<Rightarrow> payload_revision p))"

lemma ingest_monotone:
  assumes "ingest_host_ot_event H envs event sha db = (res, db')" and "desk_wf tz db" and "hex_digests H" and "json_ok event"
    and "stored_revision sid db = Some m"
  shows "\<exists>n \<ge> m. stored_revision sid db' = Some n"
  using assms(1)
proof (cases rule: ingest_cases)
  case 1
  then show ?thesis using assms(5) by auto
next
  case 2
  let ?i = "event_signal_id H event" and ?d = "he_sha H (event_bytes event)"
  have "is_sha256_hex ?d" using assms(3) by (simp add: hex_digests_def)
  from stored_signals [OF 2(1) assms(2,3) this] show ?thesis
  proof (elim disjE conjE exE)
    assume "signals db' = signals db"
    then show ?thesis using assms(5) by (auto simp: stored_revision_def signal_by_id_def)
  next
    fix r assume others: "\<forall>j. j \<noteq> ?i \<longrightarrow> signal_by_id j db' = signal_by_id j db"
      and r: "signal_by_id ?i db' = Some r" "sg_payload_json r = dumps False (event_payload event)"
      and before: "\<forall>r0. signal_by_id ?i db = Some r0 \<longrightarrow>
        (\<exists>p. stored_payload r0 = Inr p \<and> check_revision event ?d (Some (r0, p)) = Inr ())"
    show ?thesis
    proof (cases "sid = ?i")
      case False
      then show ?thesis using others assms(5) by (auto simp: stored_revision_def)
    next
      case True
      obtain r0 p where "signal_by_id ?i db = Some r0" "stored_payload r0 = Inr p" "payload_revision p = Some m"
        using assms(5) True by (auto simp: stored_revision_def split: option.splits sum.splits)
      then have "check_revision event ?d (Some (r0, p)) = Inr ()" using before by auto
      then obtain k where "int_like (jget event ''revision'') = Some k" "m \<le> k"
        using \<open>payload_revision p = Some m\<close> by (auto simp: check_revision_def split: option.splits if_splits)
      moreover obtain p' where "stored_payload r = Inr p'" "payload_revision p' = int_like (jget event ''revision'')"
        using stored_event [OF assms(4) r(2)] by blast
      ultimately show ?thesis using True r(1) by (auto simp: stored_revision_def)
    qed
  qed
qed

text \<open>Every event, accepted or not, is a run of the store's audited steps.\<close>

lemma policy_run: "\<forall>n. en_tz (envs n) = tz \<Longrightarrow> steps_within (desk_run tz) (apply_host_ot_ticket_policy envs signal_id actor)"
  unfolding apply_host_ot_ticket_policy_def Let_def get_signal_def get_ticket_for_signal_def
  using create_tasks.op_run [where env = "envs 0"] reprioritise.op_run [where env = "envs 1"]
  by (intro run.rules) simp_all

lemma within_via: "steps_within R m \<Longrightarrow> steps_within R (via_store m)"
  by (auto simp: steps_within_def via_store_def split: prod.split sum.split) (metis snd_conv)+

lemma ingest_run:
  assumes "\<forall>n. en_tz (envs n) = tz"
  shows "steps_within (desk_run tz) (ingest_host_ot_event H envs event sha)"
proof -
  have "steps_within (desk_run tz) (existing_signal i)" for i
    using existing_signal_state run.le_refl by (metis steps_withinI prod.collapse)
  moreover have "steps_within (desk_run tz) (apply_host_ot_ticket_policy (\<lambda>n. envs (Suc n)) i a)" for i a
    using assms by (intro policy_run) simp
  ultimately have "steps_within (desk_run tz) (store_host_signal envs event d i s)" for d i s
    unfolding store_host_signal_def by (intro run.rules within_via ingest.op_run)
  then show ?thesis unfolding ingest_host_ot_event_def
    by (auto intro: run.within_raise run.within_ret split: sum.split option.split prod.split)
qed

type_synonym host_ingest = "(nat \<Rightarrow> desk_env) \<times> json \<times> string option"

definition ingest_all :: "event_env \<Rightarrow> host_ingest list \<Rightarrow> ticket_db \<Rightarrow> ticket_db" where
  "ingest_all H events db = foldl (\<lambda>d (envs, event, sha). snd (ingest_host_ot_event H envs event sha d)) db events"

lemma ingest_all_Cons: "ingest_all H ((envs, event, sha) # events) db
  = ingest_all H events (snd (ingest_host_ot_event H envs event sha db))"
  by (simp add: ingest_all_def)

lemma ingest_all_monotone:
  assumes "\<forall>(envs, event, sha) \<in> set events. (\<forall>n. en_tz (envs n) = tz) \<and> json_ok event"
    and "desk_wf tz db" and "hex_digests H" and "stored_revision sid db = Some m"
  shows "desk_wf tz (ingest_all H events db) \<and> (\<exists>n \<ge> m. stored_revision sid (ingest_all H events db) = Some n)"
  using assms
proof (induction events arbitrary: db m)
  case (Cons e events)
  obtain envs event sha where e: "e = (envs, event, sha)" by (cases e)
  obtain res d where one: "ingest_host_ot_event H envs event sha db = (res, d)" by fastforce
  have "desk_run tz db d" using steps_withinD [OF ingest_run one] Cons.prems(1) by (auto simp: e)
  then have wf: "desk_wf tz d" using Cons.prems(2) steps_wf by (auto simp: desk_run_def)
  obtain n where "n \<ge> m" "stored_revision sid d = Some n"
    using ingest_monotone [OF one Cons.prems(2,3) _ Cons.prems(4)] Cons.prems(1) by (auto simp: e)
  then show ?case using Cons.IH [OF _ wf Cons.prems(3)] Cons.prems(1) one order_trans
    by (fastforce simp: e ingest_all_Cons)
qed (auto simp: ingest_all_def)


section \<open>Replays\<close>

lemma store_host_signal_Inr:
  assumes "store_host_signal envs event digest i s db = (Inr res, db')"
  obtains existing stats t policy where "existing_signal i db = (Inr existing, db)" "check_revision event digest existing = Inr ()"
    "ingest_signals (envs 0) [s] db = (Inr stats, t)"
    "apply_host_ot_ticket_policy (\<lambda>n. envs (Suc n)) i host_ot_policy_actor t = (Inr policy, db')"
    "res = \<lparr>ir_sha = digest, ir_event_type = ''modbus_write'', ir_signal = Some i,
       ir_ticket = Some (tk_id (pr_ticket policy)), ir_stats = stats, ir_ticket_created = pr_created policy,
       ir_escalated = pr_escalated policy, ir_tasks = pr_tasks policy\<rparr>"
proof -
  obtain existing u stats t policy where "existing_signal i db = (Inr existing, u)" "check_revision event digest existing = Inr ()"
    "ingest_signals (envs 0) [s] u = (Inr stats, t)"
    "apply_host_ot_ticket_policy (\<lambda>n. envs (Suc n)) i host_ot_policy_actor t = (Inr policy, db')"
    "res = \<lparr>ir_sha = digest, ir_event_type = ''modbus_write'', ir_signal = Some i,
       ir_ticket = Some (tk_id (pr_ticket policy)), ir_stats = stats, ir_ticket_created = pr_created policy,
       ir_escalated = pr_escalated policy, ir_tasks = pr_tasks policy\<rparr>"
    using assms by (auto simp: store_host_signal_def bindE_Inr act_Inr)
  with existing_signal_state show thesis using that by metis
qed

lemma store_host_signal_steps:
  assumes "existing_signal i db = (Inr existing, db)" "check_revision event digest existing = Inr ()"
    "ingest_signals (envs 0) [s] db = (Inr stats, t)"
    "apply_host_ot_ticket_policy (\<lambda>n. envs (Suc n)) i host_ot_policy_actor t = (Inr policy, db')"
  shows "store_host_signal envs event digest i s db = (Inr \<lparr>ir_sha = digest, ir_event_type = ''modbus_write'', ir_signal = Some i,
       ir_ticket = Some (tk_id (pr_ticket policy)), ir_stats = stats, ir_ticket_created = pr_created policy,
       ir_escalated = pr_escalated policy, ir_tasks = pr_tasks policy\<rparr>, db')"
  using assms by (simp add: store_host_signal_def bindE_def via_store_def lift_res_def)

lemma store_again:
  assumes "store_host_signal envs event digest (event_signal_id H event) (signal_of_event H event digest) db = (Inr res, db')"
    and "desk_wf tz db" "\<forall>n. en_tz (envs n) = tz" "hex_digests H" "is_sha256_hex digest" "json_ok event" "plain_ids db'"
    and "\<forall>n. en_tz (later n) = tz \<and> now_text (later n) = Inr now" "\<forall>p. \<exists>due. sla_due_at_for (later 1) p now = Inr due"
  shows "store_host_signal later event digest (event_signal_id H event) (signal_of_event H event digest) db'
    = (Inr (res\<lparr>ir_stats := \<lparr>signals_seen = 1, signals_created = 0, occurrences_created = 0\<rparr>,
        ir_ticket_created := False, ir_escalated := False, ir_tasks := 0\<rparr>), db')"
proof -
  let ?i = "event_signal_id H event" and ?s = "signal_of_event H event digest"
  obtain existing stats t policy where ex: "existing_signal ?i db = (Inr existing, db)" "check_revision event digest existing = Inr ()"
    and st: "ingest_signals (envs 0) [?s] db = (Inr stats, t)"
    and pol: "apply_host_ot_ticket_policy (\<lambda>n. envs (Suc n)) ?i host_ot_policy_actor t = (Inr policy, db')"
    and res: "res = \<lparr>ir_sha = digest, ir_event_type = ''modbus_write'', ir_signal = Some ?i,
       ir_ticket = Some (tk_id (pr_ticket policy)), ir_stats = stats, ir_ticket_created = pr_created policy,
       ir_escalated = pr_escalated policy, ir_tasks = pr_tasks policy\<rparr>"
    by (rule store_host_signal_Inr [OF assms(1)])
  have wft: "desk_wf tz t" by (rule ingest.keeps_wf [OF st assms(2)])
  have same: "signals db' = signals t" using steps_withinD [OF policy_signals pol] by (simp add: same_signals_def)
  then have same_id: "signal_by_id j db' = signal_by_id j t" "signal_by_fingerprint f db' = signal_by_fingerprint f t" for j f
    by (simp_all add: signal_by_id_def signal_by_fingerprint_def)
  obtain now1 n x where n: "normalize_signal now1 ?s = Inr n" and up: "upsert_signal (envs 0) now1 ?s db = (Inr x, t)"
    using ingest_one [OF st] by blast
  note norm = normalized_event [OF n assms(4,5)]
  have wf: "signals_wf db" using assms(2) by (simp add: desk_wf_def)
  from upsert_effect [OF up n wf] obtain r where r: "signal_by_id ?i t = Some r" "sg_snapshot r = digest"
    "case signal_by_id ?i db of None \<Rightarrow> x = (True, True) \<and> sg_payload_json r = sg_payload_json n
     | Some r0 \<Rightarrow> if sg_snapshot r0 = digest then x = (False, False) \<and> t = db
       else x = (False, True) \<and> sg_payload_json r = sg_payload_json n"
    unfolding norm(1,2) by blast
  have "\<exists>p. stored_payload r = Inr p \<and> check_revision event digest (Some (r, p)) = Inr ()"
  proof (cases "sg_payload_json r = sg_payload_json n")
    case True
    then obtain p where "stored_payload r = Inr p" "payload_revision p = int_like (jget event ''revision'')"
      using stored_event [OF assms(6)] norm(3) by auto
    then show ?thesis using r(2) by (auto simp: check_revision_def split: option.split)
  next
    case False
    then have "signal_by_id ?i db = Some r" using r(1,3) by (auto split: option.splits if_splits)
    then show ?thesis using ex by (auto simp: existing_signal_found [OF assms(4)] split: sum.splits)
  qed
  then obtain p where p: "stored_payload r = Inr p" "check_revision event digest (Some (r, p)) = Inr ()" by blast
  have hit: "existing_signal ?i db' = (Inr (Some (r, p)), db')"
    using r(1) p(1) by (simp add: existing_signal_found [OF assms(4)] same_id)
  have fp: "sg_fingerprint n = sg_fingerprint r" "signal_by_fingerprint (sg_fingerprint n) t = Some r"
  proof -
    have "r \<in> set (signals t)" "sg_id r = sg_id n" using found(3) [OF r(1)] norm(1) by auto
    then show eq: "sg_fingerprint n = sg_fingerprint r"
      using wft normalize_signal_Inr(1) [OF n] by (auto simp: desk_wf_def signals_wf_def)
    show "signal_by_fingerprint (sg_fingerprint n) t = Some r"
      unfolding eq signal_by_fingerprint_def using wft \<open>r \<in> set (signals t)\<close>
      by (intro find_unique_key) (auto simp: desk_wf_def signals_wf_def)
  qed
  have again: "ingest_signals (later 0) [?s] db' = (Inr \<lparr>signals_seen = 1, signals_created = 0, occurrences_created = 0\<rparr>, db')"
    by (rule ingest_one_again [OF _ normalize_any_time [OF n]])
      (use assms(8) fp(2) r(2) norm(2) in \<open>simp_all add: same_id\<close>)
  have "apply_host_ot_ticket_policy (\<lambda>n. later (Suc n)) ?i host_ot_policy_actor db'
      = (Inr \<lparr>pr_ticket = pr_ticket policy, pr_created = False, pr_escalated = False, pr_tasks = 0\<rparr>, db')"
    by (rule policy_again [OF pol wft]) (use assms(3,7-9) in simp_all)
  from store_host_signal_steps [OF hit p(2) again this] show ?thesis by (simp add: res)
qed

end
