(* ===== verification/HostOtProperties.thy ===== *)
theory HostOtProperties
  imports HostOtIngest
begin

text \<open>
  The properties of the ingest of endpoint events, and a small event that a concrete store accepts.
\<close>

section \<open>Concrete stores and events\<close>

definition demo_host_env :: event_env where
  "demo_host_env = \<lparr>he_sha = (\<lambda>s. demo_fingerprint), he_schema = (\<lambda>e. []), he_arrow = ''>'', he_dots = ''...''\<rparr>"

lemma demo_host_hex: "hex_digests demo_host_env"
  by (simp add: hex_digests_def demo_host_env_def is_sha256_hex_def demo_fingerprint_def list_all_iff is_hex_lower_def is_digit_def)




definition small_event :: json where
  "small_event = JObj [(''event_type'', JStr ''modbus_write''), (''event_id'', JStr ''e''), (''episode_id'', JStr ''e''),
     (''revision'', JInt 1)]"

definition small_signal :: signal_input where
  "small_signal = signal_of_event demo_host_env small_event demo_fingerprint"

definition small_row :: "string \<Rightarrow> string \<Rightarrow> signal_row" where
  "small_row pj now = demo_signal\<lparr>sg_type := host_ot_signal_type, sg_source_id := Some host_ot_source,
     sg_source_record_id := Some ''e'', sg_evidence_json := dumps False (JObj (signal_evidence small_event)),
     sg_title := ''Scrittura Modbus PLC>PLC rilevata'', sg_description := strip (event_description demo_host_env small_event False),
     sg_occurred_at := Some ''None'', sg_first_observed := ''None'', sg_last_observed := ''None'',
     sg_asset_ids_json := dumps False (JArr [JStr ''None'']),
     sg_action := si_action small_signal, sg_payload_json := pj, sg_created_at := now, sg_updated_at := now\<rparr>"

lemma small_norm: "normalize_signal now small_signal = Inr (small_row (dumps False (event_payload small_event)) now)" by code_simp

lemma small_create: "case create_ticket_with_tasks (demo_env 0) (signal_key demo_fingerprint) host_ot_policy_actor policy_tasks ''p2'' None None None
     (empty_db\<lparr>signals := [small_row pj now], occurrences := occ, next_occurrence := k\<rparr>) of (Inl e, _) \<Rightarrow> False
   | (Inr (t, n), db) \<Rightarrow> tickets db = [t] \<and> tk_id t = ''ticket:0'' \<and> tk_priority t = P2"
  by code_simp

lemma small_accepted: "signal_from_host_ot_event demo_host_env small_event None = Inr (demo_fingerprint, Some small_signal)"
proof -
  have "find_secret_leaks small_event ''$'' = []" "length (event_bytes small_event) < 1000" "semantic_errors small_event = []"
    by code_simp+
  then have "validate_host_ot_event demo_host_env small_event = Inr small_event"
    by (simp add: validate_host_ot_event_def event_problems_def demo_host_env_def max_event_bytes_def) (simp add: small_event_def)
  moreover have "jget small_event ''event_type'' \<noteq> JStr ''heartbeat''" by (simp add: small_event_def jget_def get_item_def)
  ultimately show ?thesis by (simp add: signal_from_host_ot_event_def small_signal_def Let_def) (simp add: demo_host_env_def)
qed

lemma small_id: "event_signal_id demo_host_env small_event = signal_key demo_fingerprint" "sg_id (small_row pj now) = signal_key demo_fingerprint"
  by (simp_all add: event_signal_id_def event_fingerprint_def demo_host_env_def small_row_def demo_signal_def signal_key_def)

lemma small_ingest:
  "\<exists>occ k. ingest_signals (demo_env 0) [small_signal] empty_db = (Inr \<lparr>signals_seen = 1, signals_created = 1, occurrences_created = 1\<rparr>,
     empty_db\<lparr>signals := [small_row (dumps False (event_payload small_event)) (utc_text 0)], occurrences := occ, next_occurrence := k\<rparr>)"
proof -
  let ?r = "small_row (dumps False (event_payload small_event)) (utc_text 0)"
  let ?o = "occurrence_of ?r (payload_hash (en_sha (demo_env 0)) (JObj (si_payload small_signal))) (utc_text 0)"
  have "sg_count ?r = 1" by (simp add: small_row_def demo_signal_def)
  then have "upsert_signal (demo_env 0) (utc_text 0) small_signal empty_db = (Inr (True, True),
      empty_db\<lparr>signals := [?r], occurrences := [?o\<lparr>oc_id := 1\<rparr>], next_occurrence := 2\<rparr>)"
    by (simp add: upsert_signal_def small_norm bindE_lift_res Let_def signal_by_fingerprint_def insert_signal_def whenE_def bindE_def
        gets_def lift_res_def semantic_changed_def insert_or_ignore_occurrence_def signal_by_id_def occurrence_of_def empty_db_def)
  then have "upsert_counted (demo_env 0) (utc_text 0) (0, 0) small_signal empty_db = (Inr (1, 1),
      empty_db\<lparr>signals := [?r], occurrences := [?o\<lparr>oc_id := 1\<rparr>], next_occurrence := 2\<rparr>)"
    by (simp add: upsert_counted_def bindE_def)
  moreover have "now_text (demo_env 0) = Inr (utc_text 0)" by (simp add: valid_instant_def time_units)
  ultimately show ?thesis by (simp add: ingest_signals_def bindE_lift_res bindE_def transaction_def) blast
qed

lemma small_ingested: "\<exists>res db. ingest_host_ot_event demo_host_env (\<lambda>n. demo_env 0) small_event None empty_db = (Inr res, db)
  \<and> ir_ticket_created res \<and> map tk_id (tickets db) = [''ticket:0'']"
proof -
  let ?pj = "dumps False (event_payload small_event)" and ?i = "signal_key demo_fingerprint"
  let ?r = "small_row ?pj (utc_text 0)"
  obtain occ k where st: "ingest_signals (demo_env 0) [small_signal] empty_db = (Inr \<lparr>signals_seen = 1, signals_created = 1, occurrences_created = 1\<rparr>,
     empty_db\<lparr>signals := [?r], occurrences := occ, next_occurrence := k\<rparr>)" using small_ingest by blast
  let ?d = "empty_db\<lparr>signals := [?r], occurrences := occ, next_occurrence := k\<rparr>"
  obtain t n db where made: "create_ticket_with_tasks (demo_env 0) ?i host_ot_policy_actor policy_tasks ''p2'' None None None ?d = (Inr (t, n), db)"
    and t: "tickets db = [t]" "tk_id t = ''ticket:0''" "tk_priority t = P2"
    using small_create [where pj = ?pj and now = "utc_text 0" and occ = occ and k = k] by (auto split: prod.splits sum.splits)
  have ok: "json_ok (event_payload small_event)" by (simp add: event_payload_def small_event_def)
  have payload: "stored_payload ?r = Inr (canon (event_payload small_event))"
    using loads_dumps(1) [OF ok, of False] by (simp add: stored_payload_def small_row_def)
  have eligible: "policy_eligible ?r (canon (event_payload small_event))" "desired_priority ?r (canon (event_payload small_event)) = P2"
    by (simp_all add: policy_eligible_def desired_priority_def jget_canon_ok ok small_row_def event_payload_def small_event_def
        jget_def get_item_def demo_signal_def host_ot_source_scope_def)
  have id: "required_text ''Signal ID'' 128 (JStr ?i) = Inr ?i"
    using signal_id_text [OF demo_host_hex, of "''Signal ID''" small_event] small_id(1) by simp
  have get: "get_signal ?i ?d = (Inr ?r, ?d)"
    using id small_id(2) [of ?pj "utc_text 0"] by (auto simp: get_signal_Inr signal_by_id_def)
  have look: "get_ticket_for_signal (demo_env 0) ?i ?d = (Inr None, ?d)"
    using id by (simp add: get_ticket_for_signal_def bindE_lift_res ticket_by_signal_def empty_db_def)
  have "apply_host_ot_ticket_policy (\<lambda>n. demo_env 0) ?i host_ot_policy_actor ?d
      = (Inr \<lparr>pr_ticket = t, pr_created = True, pr_escalated = False, pr_tasks = n\<rparr>, db)"
    using get look made payload eligible t(3) by (simp add: apply_host_ot_ticket_policy_def bindE_def lift_res_def guardE_def)
  moreover have "existing_signal ?i empty_db = (Inr None, empty_db)"
    using existing_signal_found [OF demo_host_hex, of small_event empty_db] small_id(1) by (simp add: signal_by_id_def empty_db_def)
  ultimately have "store_host_signal (\<lambda>n. demo_env 0) small_event demo_fingerprint ?i small_signal empty_db =
      (Inr \<lparr>ir_sha = demo_fingerprint, ir_event_type = ''modbus_write'', ir_signal = Some ?i, ir_ticket = Some (tk_id t),
        ir_stats = \<lparr>signals_seen = 1, signals_created = 1, occurrences_created = 1\<rparr>, ir_ticket_created = True,
        ir_escalated = False, ir_tasks = n\<rparr>, db)"
    using st by (simp add: store_host_signal_def bindE_def via_store_def lift_res_def check_revision_def)
  moreover have "signal_key (si_fingerprint small_signal) = ?i"
    using event_signal_of [of demo_host_env small_event demo_fingerprint] small_id(1) by (simp add: small_signal_def)
  ultimately show ?thesis using small_accepted t by (simp add: ingest_host_ot_event_def)
qed



text \<open>C16: Delivery at least once is harmless. An event that was accepted can arrive again at any later time:
  it is accepted with the same signal and ticket, reports nothing new, and leaves the store exactly
  as it is.\<close>

theorem replayed_event_changes_nothing:
  assumes "ingest_host_ot_event H envs event sha db = (Inr res, db')" and "jget event ''event_type'' \<noteq> JStr ''heartbeat''"
    and "desk_wf tz db" and "\<forall>n. en_tz (envs n) = tz" and "hex_digests H" and "json_ok event" and "plain_ids db'"
    and "\<forall>n. en_tz (later n) = tz \<and> now_text (later n) = Inr now" and "\<forall>p. \<exists>due. sla_due_at_for (later 1) p now = Inr due"
  shows "ingest_host_ot_event H later event sha db'
    = (Inr (res\<lparr>ir_stats := \<lparr>signals_seen = 1, signals_created = 0, occurrences_created = 0\<rparr>,
        ir_ticket_created := False, ir_escalated := False, ir_tasks := 0\<rparr>), db')"
proof -
  let ?d = "he_sha H (event_bytes event)"
  have hex: "is_sha256_hex ?d" using assms(5) by (simp add: hex_digests_def)
  obtain digest s where from_event: "signal_from_host_ot_event H event sha = Inr (digest, s)"
    using assms(1) by (auto simp: ingest_host_ot_event_def split: sum.splits)
  note sig = signal_from_event [OF from_event]
  have "store_host_signal envs event ?d (event_signal_id H event) (signal_of_event H event ?d) db = (Inr res, db')"
    using assms(1,2) from_event sig by (simp add: ingest_host_ot_event_def event_signal_of)
  from store_again [OF this assms(3-5) hex assms(6-9)] show ?thesis
    using assms(2) from_event sig by (simp add: ingest_host_ot_event_def event_signal_of)
qed

lemma replayed_event_changes_nothing_witness:
  "\<exists>res db. ingest_host_ot_event demo_host_env (\<lambda>n. demo_env 0) small_event None empty_db = (Inr res, db) \<and> ir_ticket_created res
    \<and> snd (ingest_host_ot_event demo_host_env (\<lambda>n. demo_env 9) small_event None db) = db"
proof -
  obtain res db where run: "ingest_host_ot_event demo_host_env (\<lambda>n. demo_env 0) small_event None empty_db = (Inr res, db)"
    and made: "ir_ticket_created res" and ids: "map tk_id (tickets db) = [''ticket:0'']"
    using small_ingested by (elim exE conjE) (rule that)
  have plain: "plain_ids db" using ids by (auto simp: plain_ids_def map_eq_Cons_conv strip_no_space is_space_def)
  have v: "valid_instant 9" "valid_instant (9 + sla_policy_hours p * hour_us)" for p
    by (cases p; simp add: valid_instant_def time_units)+
  have now: "\<forall>n :: nat. en_tz (demo_env 9) = utc_zone \<and> now_text (demo_env 9) = Inr (utc_text 9)" using v(1) by simp
  have due: "\<forall>p. \<exists>due. sla_due_at_for (demo_env 9) p (utc_text 9) = Inr due"
    using plain_deadline [OF v] by (simp add: sla_due_at_for_def)
  have "json_ok small_event" "jget small_event ''event_type'' \<noteq> JStr ''heartbeat''" by (simp_all add: small_event_def jget_def get_item_def)
  from replayed_event_changes_nothing [where later = "\<lambda>n. demo_env 9", OF run this(2) empty_db_wf _ demo_host_hex this(1) plain now due]
  show ?thesis using run made by auto
qed

end
