(* ===== verification/HostOtStatus.thy ===== *)
theory HostOtStatus
  imports PyTime Utf8 TicketTypes
begin

text \<open>
  \<open>host_ot_status.py\<close>: the liveness record of every authenticated sensor. The status directory maps file
  names to contents (bytes); a reading of the clock is an instant in microseconds, as for the
  datetimes of the rest of the development. Directory listings come in the order of their names.
\<close>

type_synonym status_dir = "(string \<times> string) list"

definition status_version :: string where
  "status_version = ''dtlab-host-ot-status-v1''"

definition default_stale_after :: int where
  "default_stale_after = 120"

text \<open>\<open>str(v or "")\<close>\<close>

definition str_or_empty :: "json \<Rightarrow> string" where
  "str_or_empty v = (if truthy v then py_str v else [])"

definition status_name :: "(string \<Rightarrow> string) \<Rightarrow> string \<Rightarrow> string" where
  "status_name sha sensor_id = sha (utf8 sensor_id) @ ''.json''"

definition status_of_event :: "string \<Rightarrow> json \<Rightarrow> string \<Rightarrow> int \<Rightarrow> json" where
  "status_of_event sensor_id event document_sha received =
     JObj [(''schema_version'', JStr status_version), (''sensor_id'', JStr sensor_id),
       (''received_at'', JStr (utc_text received)), (''event_type'', JStr (str_or_empty (jget event ''event_type''))),
       (''event_id'', JStr (str_or_empty (jget event ''event_id''))),
       (''last_observed_at'', JStr (str_or_empty (jget event ''last_observed_at''))),
       (''truth'', JStr (str_or_empty (jget (jget event ''evidence'') ''truth''))),
       (''document_sha256'', JStr document_sha)]"

definition store_sensor_status ::
  "(string \<Rightarrow> string) \<Rightarrow> string \<Rightarrow> json \<Rightarrow> string \<Rightarrow> int \<Rightarrow> status_dir \<Rightarrow> status_dir" where
  "store_sensor_status sha sensor_id event document_sha received dir =
     AList.update (status_name sha sensor_id)
       (utf8 (dumps False (status_of_event sensor_id event document_sha received) @ [CHR 0x0A])) dir"

definition valid_status :: "json \<Rightarrow> bool" where
  "valid_status v \<longleftrightarrow> is_obj v \<and> jget v ''schema_version'' = JStr status_version
     \<and> strip (str_or_empty (jget v ''sensor_id'')) \<noteq> [] \<and> strip (str_or_empty (jget v ''received_at'')) \<noteq> []"

definition read_status :: "string \<Rightarrow> json list" where
  "read_status content = (case Option.bind (utf8_decode content) loads of
     None \<Rightarrow> [] | Some v \<Rightarrow> if valid_status v then [v] else [])"

definition load_sensor_statuses :: "status_dir \<Rightarrow> json list" where
  "load_sensor_statuses dir =
     concat (map (\<lambda>(name, content). read_status content) (filter (\<lambda>(name, content). suffix ''.json'' name) (sort_key fst dir)))"

section \<open>Coverage\<close>

text \<open>
  \<open>timestamp()\<close> of the parsed time, \<open>0.0\<close> when it cannot be read; a time without an offset is local to
  the machine (\<open>mktime\<close>, which may overflow). Zero is the instant of the Unix epoch.
\<close>

definition unix_epoch :: int where
  "unix_epoch = 719162 * day_us"

definition received_instant :: "(int \<Rightarrow> int option) \<Rightarrow> json \<Rightarrow> int" where
  "received_instant mktime status = (case fromisoformat (replace_Z (str_or_empty (jget status ''received_at''))) of
     Some (Aware t) \<Rightarrow> t
   | Some (Naive t) \<Rightarrow> (case mktime t of Some u \<Rightarrow> u | None \<Rightarrow> unix_epoch)
   | None \<Rightarrow> unix_epoch)"

definition status_age :: "(int \<Rightarrow> int option) \<Rightarrow> json \<Rightarrow> int \<Rightarrow> int option" where
  "status_age mktime status now = (let received = received_instant mktime status in
     if received = unix_epoch then None else Some (max 0 (trunc_seconds (now - received))))"

definition sensor_coverage :: "(int \<Rightarrow> int option) \<Rightarrow> json \<Rightarrow> int \<Rightarrow> int \<Rightarrow> json" where
  "sensor_coverage mktime status now stale_after =
     (let age = status_age mktime status now in
      JObj (dict_update (entries status)
        [(''coverage_state'', JStr (case age of Some a \<Rightarrow> if a \<le> stale_after then ''active'' else ''stale'' | None \<Rightarrow> ''stale'')),
         (''age_seconds'', case age of Some a \<Rightarrow> JInt a | None \<Rightarrow> JNull),
         (''stale_after_seconds'', JInt stale_after)]))"

section \<open>A stored status is read back\<close>

lemma str_or_empty_simps [simp]: "str_or_empty (JStr s) = s" "str_or_empty JNull = []"
  by (simp_all add: str_or_empty_def)

lemma status_members [simp]:
  "jget (status_of_event i e d t) ''schema_version'' = JStr status_version"
  "jget (status_of_event i e d t) ''sensor_id'' = JStr i" "jget (status_of_event i e d t) ''received_at'' = JStr (utc_text t)"
  "is_obj (status_of_event i e d t)" "json_ok (status_of_event i e d t)"
  by (simp_all add: status_of_event_def jget_def get_item_def)

lemma read_stored:
  assumes "strip i \<noteq> []"
  shows "read_status (utf8 (dumps False (status_of_event i e d t) @ [CHR 0x0A])) = [canon (status_of_event i e d t)]"
proof -
  have "valid_status (canon (status_of_event i e d t))"
    using assms utc_text_clean [of t] by (simp add: valid_status_def jget_canon_ok)
  then show ?thesis by (simp add: read_status_def loads_dumps)
qed

text \<open>The age of a status that was just stored.\<close>

lemma stored_age:
  assumes "valid_instant t" and "t \<noteq> unix_epoch"
  shows "status_age mktime (canon (status_of_event i e d t)) now = Some (max 0 (trunc_seconds (now - t)))"
  using assms by (simp add: status_age_def received_instant_def jget_canon_ok fromisoformat_utc_text Let_def)

end
