(* ===== verification/HostOtIngress.thy ===== *)
theory HostOtIngress
  imports HostOtProperties HostOtStatus
begin

text \<open>
  \<open>host_ot_ingress.py\<close>: the authenticated, write-only HTTP receiver of endpoint events. Byte strings
  and header values are lists of characters. HMAC-SHA256 is the parameter \<open>hmac\<close> of key and message,
  rendered in hexadecimal. The state of the service is the ticket database, the content-addressed
  object directory and the status directory; a request reads the clock and the surroundings of the
  store calls from \<open>request_env\<close>. A body in another encoding than UTF-8 counts as undecodable.
\<close>

datatype ingress_error =
    UnreadableKeyring | NoSensorKeys | BadKeyRecord | BadField string | KeyNotBase64 | WeakKey | DuplicateKeyId
  | BodySize | UnknownKey | BadTimestamp | ClockSkew | BadSignature | BodyNotJson | BodyNotObject | OtherSensor
  | NotCanonical | ObjectCollision | EventRefused ingest_error

record sensor_key =
  sk_key :: string
  sk_sensor :: string
  sk_secret :: string

record ingress_config =
  ic_keys :: "(string \<times> sensor_key) list"
  ic_max_body :: nat
  ic_max_skew :: int

definition default_max_body :: nat where "default_max_body = 65536"
definition default_max_skew :: int where "default_max_skew = 300"

definition required_field :: "json \<Rightarrow> string \<Rightarrow> nat \<Rightarrow> ingress_error + string" where
  "required_field v label max_length =
     (let text = strip (str_or_empty v) in
      if text = [] \<or> max_length < length text then Inl (BadField label) else Inr text)"

section \<open>The keyring\<close>

text \<open>\<open>base64.b64decode(s, validate=True)\<close>\<close>

definition base64_val :: "char \<Rightarrow> nat option" where
  "base64_val c = (let n = of_char c :: nat in
     if 65 \<le> n \<and> n \<le> 90 then Some (n - 65)
     else if 97 \<le> n \<and> n \<le> 122 then Some (n - 71)
     else if 48 \<le> n \<and> n \<le> 57 then Some (n + 4)
     else if c = CHR ''+'' then Some 62 else if c = CHR ''/'' then Some 63 else None)"

definition base64_bytes :: "nat \<Rightarrow> nat \<Rightarrow> nat \<Rightarrow> nat \<Rightarrow> string" where
  "base64_bytes a b c d = [char_of (a * 4 + b div 16), char_of (b mod 16 * 16 + c div 4), char_of (c mod 4 * 64 + d)]"

fun b64decode :: "string \<Rightarrow> string option" where
  "b64decode [] = Some []"
| "b64decode (p # q # r # s # rest) =
     (case (base64_val p, base64_val q) of
        (Some a, Some b) \<Rightarrow>
          (case (base64_val r, base64_val s) of
             (Some c, Some d) \<Rightarrow> map_option ((@) (base64_bytes a b c d)) (b64decode rest)
           | (Some c, None) \<Rightarrow> if s = CHR ''='' \<and> rest = [] then Some (take 2 (base64_bytes a b c 0)) else None
           | (None, _) \<Rightarrow> if r = CHR ''='' \<and> s = CHR ''='' \<and> rest = [] then Some (take 1 (base64_bytes a b 0 0)) else None)
      | _ \<Rightarrow> None)"
| "b64decode _ = None"

definition add_sensor_key :: "(string \<times> sensor_key) list \<Rightarrow> json \<Rightarrow> ingress_error + (string \<times> sensor_key) list" where
  "add_sensor_key keys rec =
     (if \<not> is_obj rec then Inl BadKeyRecord else
      bindR (required_field (jget rec ''key_id'') ''key_id'' 128) (\<lambda>key_id.
      bindR (required_field (jget rec ''sensor_id'') ''sensor_id'' 128) (\<lambda>sensor_id.
      bindR (required_field (jget rec ''secret_base64'') ''secret_base64'' 1024) (\<lambda>encoded.
      case b64decode encoded of
        None \<Rightarrow> Inl KeyNotBase64
      | Some secret \<Rightarrow>
          if length secret < 32 then Inl WeakKey
          else if key_id \<in> fst ` set keys then Inl DuplicateKeyId
          else Inr (keys @ [(key_id, \<lparr>sk_key = key_id, sk_sensor = sensor_id, sk_secret = secret\<rparr>)])))))"

fun add_sensor_keys :: "(string \<times> sensor_key) list \<Rightarrow> json list \<Rightarrow> ingress_error + (string \<times> sensor_key) list" where
  "add_sensor_keys keys [] = Inr keys"
| "add_sensor_keys keys (rec # recs) = bindR (add_sensor_key keys rec) (\<lambda>keys'. add_sensor_keys keys' recs)"

definition load_sensor_keys :: "string option \<Rightarrow> ingress_error + (string \<times> sensor_key) list" where
  "load_sensor_keys content = (case Option.bind (Option.bind content utf8_decode) loads of
     None \<Rightarrow> Inl UnreadableKeyring
   | Some payload \<Rightarrow>
       (case jget payload ''keys'' of
          JArr (rec # recs) \<Rightarrow> add_sensor_keys [] (rec # recs)
        | _ \<Rightarrow> Inl NoSensorKeys))"

definition strong_keyring :: "(string \<times> sensor_key) list \<Rightarrow> bool" where
  "strong_keyring keys \<longleftrightarrow> distinct (map fst keys) \<and> list_all (\<lambda>(kid, key). sk_key key = kid \<and> 32 \<le> length (sk_secret key)
     \<and> kid \<noteq> [] \<and> strip kid = kid \<and> length kid \<le> 128
     \<and> sk_sensor key \<noteq> [] \<and> strip (sk_sensor key) = sk_sensor key \<and> length (sk_sensor key) \<le> 128) keys"

lemma required_field_Inr:
  "required_field v label n = Inr t \<longleftrightarrow> t = strip (str_or_empty v) \<and> t \<noteq> [] \<and> length t \<le> n"
  by (auto simp: required_field_def Let_def)

lemma add_key_strong: "add_sensor_key keys rec = Inr keys' \<Longrightarrow> strong_keyring keys \<Longrightarrow> strong_keyring keys' \<and> length keys' = Suc (length keys)"
  by (auto simp: add_sensor_key_def bindR_eq_Inr strong_keyring_def required_field_Inr split: if_splits option.splits)

lemma add_keys_strong: "add_sensor_keys keys recs = Inr keys' \<Longrightarrow> strong_keyring keys \<Longrightarrow>
    strong_keyring keys' \<and> length keys' = length keys + length recs"
proof (induction recs arbitrary: keys)
  case (Cons rec recs)
  then obtain k where "add_sensor_key keys rec = Inr k" "add_sensor_keys k recs = Inr keys'" by (auto simp: bindR_eq_Inr)
  then show ?case using add_key_strong Cons by fastforce
qed simp

text \<open>A keyring that loads is strong: at least one key, distinct key ids, every secret at least 256 bits,
  every key id and sensor id non-blank, trimmed and at most 128 characters; anything else is refused.\<close>

theorem loaded_keyring_strong:
  assumes "load_sensor_keys content = Inr keys"
  shows "strong_keyring keys \<and> keys \<noteq> []"
proof -
  obtain rec recs where "add_sensor_keys [] (rec # recs) = Inr keys"
    using assms by (auto simp: load_sensor_keys_def split: option.splits json.splits list.splits)
  from add_keys_strong [OF this] show ?thesis by (auto simp: strong_keyring_def)
qed

definition demo_keyring :: json where
  "demo_keyring = JObj [(''keys'', JArr [JObj [(''key_id'', JStr ''k1''), (''secret_base64'', JStr (replicate 43 CHR ''A'' @ ''='')),
     (''sensor_id'', JStr ''s1'')]])]"

lemma demo_keyring_loads: "add_sensor_keys [] (elements (jget (canon demo_keyring) ''keys''))
    = Inr [(''k1'', \<lparr>sk_key = ''k1'', sk_sensor = ''s1'', sk_secret = replicate 32 CHR 0x00\<rparr>)]"
  "json_ok demo_keyring" "\<exists>r rs. jget (canon demo_keyring) ''keys'' = JArr (r # rs)"
  subgoal by code_simp
  subgoal by code_simp
  subgoal by (simp add: demo_keyring_def jget_def get_item_def)
  done

lemma loaded_keyring_strong_witness:
  "strong_keyring [(''k1'', \<lparr>sk_key = ''k1'', sk_sensor = ''s1'', sk_secret = replicate 32 CHR 0x00\<rparr>)]"
proof -
  have "load_sensor_keys (Some (utf8 (dumps False demo_keyring))) = Inr [(''k1'', \<lparr>sk_key = ''k1'', sk_sensor = ''s1'', sk_secret = replicate 32 CHR 0x00\<rparr>)]"
    using demo_keyring_loads by (auto simp: load_sensor_keys_def loads_dumps elements_def)
  from loaded_keyring_strong [OF this] show ?thesis by simp
qed

section \<open>Authentication of a request\<close>

text \<open>\<open>headers.get(name)\<close>\<close>

definition header :: "(string \<times> string) list \<Rightarrow> string \<Rightarrow> json" where
  "header hs name = (case map_of hs name of None \<Rightarrow> JNull | Some v \<Rightarrow> JStr v)"

definition signed_material :: "string \<Rightarrow> string \<Rightarrow> string" where
  "signed_material timestamp body = timestamp @ [CHR 0x0A] @ body"

definition verify_request_auth ::
  "(string \<Rightarrow> string \<Rightarrow> string) \<Rightarrow> ingress_config \<Rightarrow> int \<Rightarrow> string \<Rightarrow> json \<Rightarrow> json \<Rightarrow> json \<Rightarrow> ingress_error + sensor_key" where
  "verify_request_auth hmac cfg now body key_id timestamp signature =
     bindR (required_field key_id ''X-DTLab-Key-Id'' 128) (\<lambda>kid.
     case map_of (ic_keys cfg) kid of
       None \<Rightarrow> Inl UnknownKey
     | Some key \<Rightarrow>
         bindR (required_field timestamp ''X-DTLab-Timestamp'' 20) (\<lambda>time_text.
         case signed_digits time_text of
           None \<Rightarrow> Inl BadTimestamp
         | Some t \<Rightarrow>
             if ic_max_skew cfg < \<bar>now - t\<bar> then Inl ClockSkew else
             bindR (required_field signature ''X-DTLab-Signature'' 128) (\<lambda>signature_text.
             let supplied = lower signature_text in
             if \<not> is_sha256_hex supplied then Inl BadSignature
             else if supplied \<noteq> hmac (sk_secret key) (signed_material time_text body) then Inl BadSignature
             else Inr key)))"

section \<open>Acceptance\<close>

record ingress =
  in_db :: ticket_db
  in_objects :: "(string \<times> string) list"
  in_status :: status_dir

record request_env =
  rq_now :: int
  rq_received :: int
  rq_desk :: "nat \<Rightarrow> desk_env"

definition object_name :: "string \<Rightarrow> string" where
  "object_name digest = digest @ ''.json''"

definition atomic_store_body :: "event_env \<Rightarrow> string \<Rightarrow> (ingress, ingress_error, string \<times> bool) act" where
  "atomic_store_body H body = (\<lambda>st.
     let digest = he_sha H body in
     case map_of (in_objects st) (object_name digest) of
       Some stored \<Rightarrow> if stored \<noteq> body then (Inl ObjectCollision, st) else (Inr (digest, False), st)
     | None \<Rightarrow> (Inr (digest, True), st\<lparr>in_objects := AList.update (object_name digest) body (in_objects st)\<rparr>))"

definition in_store :: "(ticket_db, ingest_error, 'a) act \<Rightarrow> (ingress, ingress_error, 'a) act" where
  "in_store m = (\<lambda>st. case m (in_db st) of
     (Inl e, db) \<Rightarrow> (Inl (EventRefused e), st\<lparr>in_db := db\<rparr>) | (Inr x, db) \<Rightarrow> (Inr x, st\<lparr>in_db := db\<rparr>))"

record acceptance =
  ac_sha :: string
  ac_stored :: bool
  ac_result :: ingest_result

text \<open>\<open>canonical_host_ot_event_bytes\<close> validates before it renders.\<close>

definition canonical_host_ot_event_bytes :: "event_env \<Rightarrow> json \<Rightarrow> ot_problem list + string" where
  "canonical_host_ot_event_bytes H event = bindR (validate_host_ot_event H event) (\<lambda>e. Inr (event_bytes e))"

definition check_body :: "event_env \<Rightarrow> string \<Rightarrow> sensor_key \<Rightarrow> ingress_error + sensor_key \<times> json" where
  "check_body H body key = (case Option.bind (utf8_decode body) loads of
     None \<Rightarrow> Inl BodyNotJson
   | Some event \<Rightarrow>
       if \<not> is_obj event then Inl BodyNotObject
       else if str_or_empty (jget (jget event ''sensor'') ''id'') \<noteq> sk_sensor key then Inl OtherSensor
       else (case canonical_host_ot_event_bytes H event of
           Inl problems \<Rightarrow> Inl (EventRefused (InvalidEvent problems))
         | Inr canonical \<Rightarrow> if body \<noteq> canonical then Inl NotCanonical else Inr (key, event)))"

definition check_request ::
  "event_env \<Rightarrow> (string \<Rightarrow> string \<Rightarrow> string) \<Rightarrow> ingress_config \<Rightarrow> int \<Rightarrow> string \<Rightarrow> (string \<times> string) list \<Rightarrow> ingress_error + sensor_key \<times> json" where
  "check_request H hmac cfg now body headers =
     (if body = [] \<or> ic_max_body cfg < length body then Inl BodySize
      else bindR (verify_request_auth hmac cfg now body (header headers ''x-dtlab-key-id'')
        (header headers ''x-dtlab-timestamp'') (header headers ''x-dtlab-signature'')) (check_body H body))"

definition accept ::
  "event_env \<Rightarrow> (string \<Rightarrow> string \<Rightarrow> string) \<Rightarrow> ingress_config \<Rightarrow> request_env \<Rightarrow> string \<Rightarrow> (string \<times> string) list
   \<Rightarrow> (ingress, ingress_error, acceptance) act" where
  "accept H hmac cfg env body headers =
     bindE (lift_res (check_request H hmac cfg (rq_now env) body headers)) (\<lambda>(key, event).
     bindE (atomic_store_body H body) (\<lambda>(digest, created).
     bindE (in_store (ingest_host_ot_event H (rq_desk env) event (Some digest))) (\<lambda>result.
     bindE (modify (\<lambda>st. st\<lparr>in_status := store_sensor_status (he_sha H) (sk_sensor key) event digest (rq_received env) (in_status st)\<rparr>)) (\<lambda>_.
     ret \<lparr>ac_sha = digest, ac_stored = created, ac_result = result\<rparr>))))"

definition health_report :: "(int \<Rightarrow> int option) \<Rightarrow> ingress_config \<Rightarrow> int \<Rightarrow> ingress \<Rightarrow> json" where
  "health_report mktime cfg now st =
     JObj [(''ok'', JBool True), (''service'', JStr ''dtlab-host-ot-ingress''),
       (''configured_sensors'', JInt (int (length (ic_keys cfg)))),
       (''sensors'', JArr (map (\<lambda>status. sensor_coverage mktime status now default_stale_after)
          (filter (\<lambda>status. jget status ''sensor_id'' \<in> JStr ` (sk_sensor \<circ> snd) ` set (ic_keys cfg))
             (load_sensor_statuses (in_status st)))))]"

section \<open>HTTP\<close>

datatype reply =
    NotFound | WrongContentType | BadContentLength | Unauthorized ingress_error | Unprocessable ingress_error
  | Created acceptance | AlreadyStored acceptance | Healthy json | HandlerFails ingress_error

fun http_status :: "reply \<Rightarrow> int option" where
  "http_status NotFound = Some 404"
| "http_status WrongContentType = Some 415"
| "http_status BadContentLength = Some 413"
| "http_status (Unauthorized _) = Some 401"
| "http_status (Unprocessable _) = Some 422"
| "http_status (Created _) = Some 201"
| "http_status (AlreadyStored _) = Some 200"
| "http_status (Healthy _) = Some 200"
| "http_status (HandlerFails _) = None"

text \<open>
  \<open>except (OSError, ValueError, TicketStoreError)\<close>: a \<open>TypeError\<close>, \<open>OverflowError\<close>, \<open>AssertionError\<close> or
  \<open>sqlite3.Error\<close> leaves the handler, and the connection closes without an answer.
\<close>

fun refusal :: "ingress_error \<Rightarrow> reply" where
  "refusal (EventRefused (InvalidEvent ps)) = Unprocessable (EventRefused (InvalidEvent ps))"
| "refusal (EventRefused (StoreError e)) =
     (if e \<in> {IntegrityError, TimeOverflow, AssertionError} then HandlerFails (EventRefused (StoreError e))
      else Unprocessable (EventRefused (StoreError e)))"
| "refusal (EventRefused RevisionNotInteger) = HandlerFails (EventRefused RevisionNotInteger)"
| "refusal e = Unauthorized e"

definition content_type :: "(string \<times> string) list \<Rightarrow> string" where
  "content_type headers = (case find (\<lambda>(name, v). lower name = ''content-type'') headers of
     None \<Rightarrow> ''text/plain''
   | Some (name, v) \<Rightarrow>
       (let t = lower (strip (takeWhile (\<lambda>c. c \<noteq> CHR '';'') v)) in
        if length (filter (\<lambda>c. c = CHR ''/'') t) = 1 then t else ''text/plain''))"

definition content_length :: "(string \<times> string) list \<Rightarrow> int" where
  "content_length headers =
     (case signed_digits (strip (case find (\<lambda>(name, v). lower name = ''content-length'') headers of None \<Rightarrow> [] | Some (name, v) \<Rightarrow> v)) of
        None \<Rightarrow> -1 | Some n \<Rightarrow> n)"

text \<open>The dictionary of lower-cased names; a repeated header keeps its last value.\<close>

definition header_dict :: "(string \<times> string) list \<Rightarrow> (string \<times> string) list" where
  "header_dict headers = foldl (\<lambda>d (name, v). AList.update (lower name) v d) [] headers"

definition do_POST ::
  "event_env \<Rightarrow> (string \<Rightarrow> string \<Rightarrow> string) \<Rightarrow> ingress_config \<Rightarrow> request_env \<Rightarrow> string \<Rightarrow> (string \<times> string) list \<Rightarrow> string
   \<Rightarrow> ingress \<Rightarrow> reply \<times> ingress" where
  "do_POST H hmac cfg env path headers stream st =
     (if path \<noteq> ''/v1/events'' then (NotFound, st)
      else if content_type headers \<noteq> ''application/json'' then (WrongContentType, st)
      else let n = content_length headers in
        if n < 1 \<or> int (ic_max_body cfg) < n then (BadContentLength, st)
        else case accept H hmac cfg env (take (nat n) stream) (header_dict headers) st of
          (Inl e, st') \<Rightarrow> (refusal e, st')
        | (Inr a, st') \<Rightarrow> (if ac_stored a then Created a else AlreadyStored a, st'))"

definition do_GET :: "(int \<Rightarrow> int option) \<Rightarrow> ingress_config \<Rightarrow> int \<Rightarrow> string \<Rightarrow> ingress \<Rightarrow> reply" where
  "do_GET mktime cfg now path st = (if path \<noteq> ''/health'' then NotFound else Healthy (health_report mktime cfg now st))"

section \<open>What a request must show\<close>

text \<open>The specification of an authentic request: it carries the MAC of a registered key over a fresh
  timestamp and the canonical bytes of a valid event of that key's own sensor.\<close>

definition authentic ::
  "event_env \<Rightarrow> (string \<Rightarrow> string \<Rightarrow> string) \<Rightarrow> ingress_config \<Rightarrow> int \<Rightarrow> string \<Rightarrow> (string \<times> string) list
   \<Rightarrow> sensor_key \<Rightarrow> json \<Rightarrow> bool" where
  "authentic H hmac cfg now body headers key event \<longleftrightarrow>
     (\<exists>kid time_text t signature.
        map_of headers ''x-dtlab-key-id'' = Some kid \<and> map_of (ic_keys cfg) (strip kid) = Some key
      \<and> map_of headers ''x-dtlab-timestamp'' = Some time_text \<and> signed_digits (strip time_text) = Some t
      \<and> \<bar>now - t\<bar> \<le> ic_max_skew cfg
      \<and> map_of headers ''x-dtlab-signature'' = Some signature
      \<and> lower (strip signature) = hmac (sk_secret key) (strip time_text @ [CHR 0x0A] @ body))
      \<and> body = event_bytes event \<and> json_ok event \<and> event_problems H event = []
      \<and> str_or_empty (jget (jget event ''sensor'') ''id'') = sk_sensor key \<and> length body \<le> ic_max_body cfg"

lemma header_text: "strip (str_or_empty (header hs name)) = t \<Longrightarrow> t \<noteq> [] \<Longrightarrow> \<exists>v. map_of hs name = Some v \<and> strip v = t"
  by (auto simp: header_def strip_def split: option.splits)

lemma validated: "validate_host_ot_event H event = Inr e \<longleftrightarrow> e = event \<and> event_problems H event = []"
  by (auto simp: validate_host_ot_event_def Let_def)

lemma auth_Inr:
  assumes "verify_request_auth hmac cfg now body (header hs a) (header hs b) (header hs c) = Inr key"
  shows "\<exists>kid time_text t signature. map_of hs a = Some kid \<and> map_of (ic_keys cfg) (strip kid) = Some key
      \<and> map_of hs b = Some time_text \<and> signed_digits (strip time_text) = Some t \<and> \<bar>now - t\<bar> \<le> ic_max_skew cfg
      \<and> map_of hs c = Some signature \<and> lower (strip signature) = hmac (sk_secret key) (strip time_text @ [CHR 0x0A] @ body)"
proof -
  obtain kid tx sg t where f: "required_field (header hs a) ''X-DTLab-Key-Id'' 128 = Inr kid" "map_of (ic_keys cfg) kid = Some key"
    "required_field (header hs b) ''X-DTLab-Timestamp'' 20 = Inr tx" "signed_digits tx = Some t" "\<bar>now - t\<bar> \<le> ic_max_skew cfg"
    "required_field (header hs c) ''X-DTLab-Signature'' 128 = Inr sg" "lower sg = hmac (sk_secret key) (signed_material tx body)"
    using assms unfolding verify_request_auth_def
    by (auto simp: bindR_eq_Inr Let_def not_less split: option.splits if_splits)
  obtain kid' tx' sg' where v: "map_of hs a = Some kid'" "strip kid' = kid" "map_of hs b = Some tx'" "strip tx' = tx"
    "map_of hs c = Some sg'" "strip sg' = sg"
    using f(1,3,6) header_text unfolding required_field_Inr by metis
  then show ?thesis using f(2,4,5,7) by (simp add: signed_material_def)
qed

lemma check_body_Inr:
  assumes "check_body H body key = Inr r"
  obtains s event where "utf8_decode body = Some s" "loads s = Some event" "r = (key, event)" "body = event_bytes event"
    "is_obj event" "str_or_empty (jget (jget event ''sensor'') ''id'') = sk_sensor key" "event_problems H event = []"
proof -
  obtain s event where l: "utf8_decode body = Some s" "loads s = Some event"
    using assms by (cases "Option.bind (utf8_decode body) loads") (auto simp: check_body_def bind_eq_Some_conv)
  have k: "is_obj event" "str_or_empty (jget (jget event ''sensor'') ''id'') = sk_sensor key"
    using assms l by (auto simp: check_body_def split: if_splits)
  have "event_problems H event = []" "body = event_bytes event" "r = (key, event)"
    using assms l k by (auto simp: check_body_def canonical_host_ot_event_bytes_def bindR_eq_Inr validated
        split: if_splits sum.splits)
  then show thesis using that l k by blast
qed

lemma check_Inr:
  assumes "check_request H hmac cfg now body hs = Inr (key, event)"
  shows "authentic H hmac cfg now body hs key event"
proof -
  obtain key' where auth: "verify_request_auth hmac cfg now body (header hs ''x-dtlab-key-id'') (header hs ''x-dtlab-timestamp'')
       (header hs ''x-dtlab-signature'') = Inr key'" and body: "check_body H body key' = Inr (key, event)"
    and size: "length body \<le> ic_max_body cfg"
    using assms by (auto simp: check_request_def bindR_eq_Inr split: if_splits)
  have "key' = key" "json_ok event" using body loads_ok by (auto elim: check_body_Inr)
  moreover note auth_Inr [OF auth]
  moreover have "body = event_bytes event \<and> event_problems H event = []
      \<and> str_or_empty (jget (jget event ''sensor'') ''id'') = sk_sensor key"
    using check_body_Inr [OF body] by (metis prod.inject)
  ultimately show ?thesis using size unfolding authentic_def by simp
qed

end
