(* ===== verification/HostOtService.thy ===== *)
theory HostOtService
  imports HostOtIngress
begin

text \<open>
  The receiver as a service: what a request may do to its state, and what any sequence of requests,
  genuine or forged, keeps.
\<close>

section \<open>One request\<close>

text \<open>A request without credentials changes nothing; an authentic one goes through store, ingest and status.\<close>

lemma accept_refused: "check_request H hmac cfg (rq_now env) body hs = Inl e \<Longrightarrow> accept H hmac cfg env body hs st = (Inl e, st)"
  by (simp add: accept_def bindE_lift_res)

definition after_store :: "event_env \<Rightarrow> string \<Rightarrow> ingress \<Rightarrow> ingress" where
  "after_store H body st = (if map_of (in_objects st) (object_name (he_sha H body)) = None
     then st\<lparr>in_objects := AList.update (object_name (he_sha H body)) body (in_objects st)\<rparr> else st)"

lemma after_store_simps [simp]: "in_db (after_store H body st) = in_db st" "in_status (after_store H body st) = in_status st"
  by (auto simp: after_store_def)

lemma atomic_store_cases:
  "atomic_store_body H body st =
    (if (\<exists>c. map_of (in_objects st) (object_name (he_sha H body)) = Some c \<and> c \<noteq> body) then (Inl ObjectCollision, st)
     else (Inr (he_sha H body, map_of (in_objects st) (object_name (he_sha H body)) = None), after_store H body st))"
  by (auto simp: atomic_store_body_def after_store_def Let_def split: option.split)

lemma accept_authentic:
  assumes "check_request H hmac cfg (rq_now env) body hs = Inr (key, event)"
    and "map_of (in_objects st) (object_name (he_sha H body)) \<in> {None, Some body}"
  shows "accept H hmac cfg env body hs st =
    (case ingest_host_ot_event H (rq_desk env) event (Some (he_sha H body)) (in_db st) of
       (Inl e, db) \<Rightarrow> (Inl (EventRefused e), (after_store H body st)\<lparr>in_db := db\<rparr>)
     | (Inr result, db) \<Rightarrow>
         (Inr \<lparr>ac_sha = he_sha H body, ac_stored = (map_of (in_objects st) (object_name (he_sha H body)) = None), ac_result = result\<rparr>,
          (after_store H body st)\<lparr>in_db := db, in_status := store_sensor_status (he_sha H) (sk_sensor key) event (he_sha H body)
             (rq_received env) (in_status st)\<rparr>))"
proof -
  have "atomic_store_body H body st = (Inr (he_sha H body, map_of (in_objects st) (object_name (he_sha H body)) = None), after_store H body st)"
    using assms(2) by (auto simp: atomic_store_cases)
  then show ?thesis using assms(1)
    by (simp add: accept_def bindE_lift_res bindE_def in_store_def modify_def split: prod.split sum.split)
qed

lemma accept_collision:
  assumes "check_request H hmac cfg (rq_now env) body hs = Inr (key, event)"
    and "map_of (in_objects st) (object_name (he_sha H body)) \<notin> {None, Some body}"
  shows "accept H hmac cfg env body hs st = (Inl ObjectCollision, st)"
  using assms by (auto simp: accept_def bindE_lift_res bindE_def atomic_store_cases)

text \<open>The three outcomes of a request.\<close>

lemma accept_cases:
  assumes "accept H hmac cfg env body hs st = (r, st')"
  obtains e where "r = Inl e" "st' = st"
  | key event e db where "authentic H hmac cfg (rq_now env) body hs key event"
      "ingest_host_ot_event H (rq_desk env) event (Some (he_sha H body)) (in_db st) = (Inl e, db)"
      "map_of (in_objects st) (object_name (he_sha H body)) \<in> {None, Some body}"
      "r = Inl (EventRefused e)" "st' = (after_store H body st)\<lparr>in_db := db\<rparr>"
  | key event result db where "authentic H hmac cfg (rq_now env) body hs key event"
      "ingest_host_ot_event H (rq_desk env) event (Some (he_sha H body)) (in_db st) = (Inr result, db)"
      "map_of (in_objects st) (object_name (he_sha H body)) \<in> {None, Some body}"
      "r = Inr \<lparr>ac_sha = he_sha H body, ac_stored = (map_of (in_objects st) (object_name (he_sha H body)) = None), ac_result = result\<rparr>"
      "st' = (after_store H body st)\<lparr>in_db := db, in_status := store_sensor_status (he_sha H) (sk_sensor key) event (he_sha H body)
             (rq_received env) (in_status st)\<rparr>"
proof (cases "check_request H hmac cfg (rq_now env) body hs")
  case (Inl e)
  then show thesis using that(1) assms accept_refused by (metis prod.inject)
next
  case (Inr x)
  obtain key event where x: "x = (key, event)" by (cases x)
  note check = Inr [unfolded x]
  show thesis
  proof (cases "map_of (in_objects st) (object_name (he_sha H body)) \<in> {None, Some body}")
    case True
    obtain y db where y: "ingest_host_ot_event H (rq_desk env) event (Some (he_sha H body)) (in_db st) = (y, db)" by fastforce
    show thesis
      using assms that(2,3) [OF check_Inr [OF check] _ True] y by (cases y) (simp_all add: accept_authentic [OF check True])
  next
    case False
    then show thesis using that(1) assms accept_collision [OF check] by (metis prod.inject)
  qed
qed

lemma after_store_holds:
  "map_of (in_objects st) (object_name (he_sha H body)) \<in> {None, Some body}
   \<Longrightarrow> map_of (in_objects (after_store H body st)) (object_name (he_sha H body)) = Some body"
  by (auto simp: after_store_def update_conv')

lemma after_store_keeps: "map_of (in_objects st) n = Some c \<Longrightarrow> map_of (in_objects (after_store H body st)) n = Some c"
  by (auto simp: after_store_def update_conv')

section \<open>The invariant\<close>

text \<open>The object store is content-addressed and holds valid events of registered sensors only, the status
  files are those of registered sensors, and the ticket database is well-formed.\<close>

definition genuine_object :: "event_env \<Rightarrow> ingress_config \<Rightarrow> string \<times> string \<Rightarrow> bool" where
  "genuine_object H cfg ob \<longleftrightarrow> fst ob = object_name (he_sha H (snd ob))
     \<and> (\<exists>event key. json_ok event \<and> snd ob = event_bytes event \<and> event_problems H event = [] \<and> key \<in> snd ` set (ic_keys cfg)
          \<and> str_or_empty (jget (jget event ''sensor'') ''id'') = sk_sensor key)"

definition genuine_status :: "event_env \<Rightarrow> ingress_config \<Rightarrow> string \<times> string \<Rightarrow> bool" where
  "genuine_status H cfg entry \<longleftrightarrow> (\<exists>key event digest t. key \<in> snd ` set (ic_keys cfg)
     \<and> str_or_empty (jget (jget event ''sensor'') ''id'') = sk_sensor key \<and> fst entry = status_name (he_sha H) (sk_sensor key)
     \<and> snd entry = utf8 (dumps False (status_of_event (sk_sensor key) event digest t) @ [CHR 0x0A]))"

definition ingress_ok :: "event_env \<Rightarrow> ingress_config \<Rightarrow> tzdb \<Rightarrow> ingress \<Rightarrow> bool" where
  "ingress_ok H cfg tz st \<longleftrightarrow> desk_wf tz (in_db st) \<and> list_all (genuine_object H cfg) (in_objects st)
     \<and> list_all (genuine_status H cfg) (in_status st)"

definition ingress_extends :: "ingress \<Rightarrow> ingress \<Rightarrow> bool" where
  "ingress_extends st st' \<longleftrightarrow> map_of (in_objects st) \<subseteq>\<^sub>m map_of (in_objects st') \<and> desk_extends (in_db st) (in_db st')
     \<and> (\<forall>sid m. stored_revision sid (in_db st) = Some m \<longrightarrow> (\<exists>n \<ge> m. stored_revision sid (in_db st') = Some n))"

lemma extends_refl: "ingress_extends st st"
  by (auto simp: ingress_extends_def desk_extends_refl)

lemma extends_trans: "ingress_extends r s \<Longrightarrow> ingress_extends s t \<Longrightarrow> ingress_extends r t"
  unfolding ingress_extends_def by (meson map_le_trans order_trans desk_extends_trans)

lemma in_alist_update: "x \<in> set (AList.update k v xs) \<Longrightarrow> x = (k, v) \<or> x \<in> set xs"
  by (induction xs) (auto split: if_splits)

lemma registered: "authentic H hmac cfg now body hs key event \<Longrightarrow> key \<in> snd ` set (ic_keys cfg)"
  by (force simp: authentic_def dest: map_of_SomeD)

text \<open>The part of an authentic request up to the ticket database.\<close>

lemma ingested_keeps:
  assumes "authentic H hmac cfg now body hs key event" and "ingress_ok H cfg tz st" and "hex_digests H"
    and "\<forall>n. en_tz (envs n) = tz" and "ingest_host_ot_event H envs event sha (in_db st) = (r, db)"
  shows "ingress_ok H cfg tz ((after_store H body st)\<lparr>in_db := db\<rparr>) \<and> ingress_extends st ((after_store H body st)\<lparr>in_db := db\<rparr>)"
proof -
  have wf: "desk_wf tz (in_db st)" using assms(2) by (simp add: ingress_ok_def)
  have "desk_run tz (in_db st) db" using steps_withinD [OF ingest_run assms(5)] assms(4) by simp
  then have "desk_wf tz db" "desk_extends (in_db st) db" using wf steps_wf steps_extend by (auto simp: desk_run_def)
  moreover have "genuine_object H cfg (object_name (he_sha H body), body)"
    using assms(1) registered [OF assms(1)] by (auto simp: genuine_object_def authentic_def)
  then have "list_all (genuine_object H cfg) (in_objects (after_store H body st))"
    using assms(2) by (auto simp: ingress_ok_def after_store_def list_all_iff dest: in_alist_update)
  moreover have "json_ok event" using assms(1) by (simp add: authentic_def)
  then have "stored_revision sid (in_db st) = Some m \<Longrightarrow> \<exists>n \<ge> m. stored_revision sid db = Some n" for sid m
    using ingest_monotone [OF assms(5) wf assms(3)] by blast
  moreover have "map_of (in_objects st) \<subseteq>\<^sub>m map_of (in_objects (after_store H body st))"
    by (auto simp: map_le_def after_store_keeps)
  ultimately show ?thesis using assms(2) by (simp add: ingress_ok_def ingress_extends_def)
qed

lemma accept_keeps:
  assumes "accept H hmac cfg env body hs st = (r, st')" and "ingress_ok H cfg tz st" and "hex_digests H"
    and "\<forall>n. en_tz (rq_desk env n) = tz"
  shows "ingress_ok H cfg tz st' \<and> ingress_extends st st'"
  using assms(1)
proof (cases rule: accept_cases)
  case 1
  then show ?thesis using assms(2) extends_refl by simp
next
  case (2 key event e db)
  then show ?thesis using ingested_keeps [OF 2(1) assms(2-4) 2(2)] by simp
next
  case (3 key event result db)
  have "genuine_status H cfg (status_name (he_sha H) (sk_sensor key),
      utf8 (dumps False (status_of_event (sk_sensor key) event (he_sha H body) (rq_received env)) @ [CHR 0x0A]))"
    using 3(1) registered [OF 3(1)] by (auto simp: genuine_status_def authentic_def)
  then have "list_all (genuine_status H cfg) (store_sensor_status (he_sha H) (sk_sensor key) event (he_sha H body) (rq_received env) (in_status st))"
    using assms(2) by (auto simp: ingress_ok_def store_sensor_status_def list_all_iff dest: in_alist_update)
  then show ?thesis using ingested_keeps [OF 3(1) assms(2-4) 3(2)] 3(5) by (simp add: ingress_ok_def ingress_extends_def)
qed

definition answer :: "ingress_error + acceptance \<Rightarrow> reply" where
  "answer r = (case r of Inl e \<Rightarrow> refusal e | Inr a \<Rightarrow> if ac_stored a then Created a else AlreadyStored a)"

lemma post_cases:
  assumes "do_POST H hmac cfg env path headers stream st = (reply, st')"
  obtains "st' = st" "reply \<in> {NotFound, WrongContentType, BadContentLength}"
  | r where "accept H hmac cfg env (take (nat (content_length headers)) stream) (header_dict headers) st = (r, st')" "reply = answer r"
proof -
  obtain r u where a: "accept H hmac cfg env (take (nat (content_length headers)) stream) (header_dict headers) st = (r, u)" by fastforce
  have "do_POST H hmac cfg env path headers stream st = (if path \<noteq> ''/v1/events'' then (NotFound, st)
      else if content_type headers \<noteq> ''application/json'' then (WrongContentType, st)
      else if content_length headers < 1 \<or> int (ic_max_body cfg) < content_length headers then (BadContentLength, st)
      else (answer r, u))"
    by (cases r) (simp_all only: do_POST_def Let_def a answer_def prod.case sum.case)
  then show thesis using assms a that by (auto split: if_splits)
qed

lemma post_keeps:
  assumes "do_POST H hmac cfg env path headers stream st = (reply, st')" and "ingress_ok H cfg tz st" and "hex_digests H"
    and "\<forall>n. en_tz (rq_desk env n) = tz"
  shows "ingress_ok H cfg tz st' \<and> ingress_extends st st'"
  using assms(1) by (cases rule: post_cases) (use accept_keeps assms(2-4) extends_refl in blast)+

text \<open>A request that changes the state or is answered with success is authentic, and its body is stored.\<close>

lemma accept_effect:
  assumes "accept H hmac cfg env body hs st = (r, st')" and "st' \<noteq> st \<or> (\<exists>a. r = Inr a)"
  shows "(\<exists>key event. authentic H hmac cfg (rq_now env) body hs key event)
    \<and> map_of (in_objects st') (object_name (he_sha H body)) = Some body"
  using assms(1) by (cases rule: accept_cases) (use assms(2) in \<open>auto simp: after_store_holds\<close>)

lemma refusal_status: "http_status (refusal e) \<notin> {Some 200, Some 201}"
  by (cases e rule: refusal.cases) auto

lemma post_effect:
  assumes "do_POST H hmac cfg env path headers stream st = (reply, st')"
    and "st' \<noteq> st \<or> http_status reply \<in> {Some 200, Some 201}"
  shows "\<exists>body key event r. body = take (nat (content_length headers)) stream
    \<and> accept H hmac cfg env body (header_dict headers) st = (r, st')
    \<and> authentic H hmac cfg (rq_now env) body (header_dict headers) key event
    \<and> map_of (in_objects st') (object_name (he_sha H body)) = Some body"
  using assms(1)
proof (cases rule: post_cases)
  case 1
  then show ?thesis using assms(2) by auto
next
  case (2 r)
  have "st' \<noteq> st \<or> (\<exists>a. r = Inr a)" using assms(2) refusal_status 2(2) by (auto simp: answer_def split: sum.splits)
  then show ?thesis using accept_effect [OF 2(1)] 2(1) by blast
qed

section \<open>Traffic\<close>

record request =
  re_env :: request_env
  re_path :: string
  re_headers :: "(string \<times> string) list"
  re_stream :: string

definition serve :: "event_env \<Rightarrow> (string \<Rightarrow> string \<Rightarrow> string) \<Rightarrow> ingress_config \<Rightarrow> request list \<Rightarrow> ingress \<Rightarrow> ingress" where
  "serve H hmac cfg requests st =
     foldl (\<lambda>st r. snd (do_POST H hmac cfg (re_env r) (re_path r) (re_headers r) (re_stream r) st)) st requests"

definition requests_in :: "tzdb \<Rightarrow> request list \<Rightarrow> bool" where
  "requests_in tz requests \<longleftrightarrow> (\<forall>r \<in> set requests. \<forall>n. en_tz (rq_desk (re_env r) n) = tz)"

lemma serve_keeps:
  assumes "requests_in tz requests" and "ingress_ok H cfg tz st" and "hex_digests H"
  shows "ingress_ok H cfg tz (serve H hmac cfg requests st) \<and> ingress_extends st (serve H hmac cfg requests st)"
  using assms(1,2)
proof (induction requests arbitrary: st)
  case (Cons r requests)
  obtain reply u where u: "do_POST H hmac cfg (re_env r) (re_path r) (re_headers r) (re_stream r) st = (reply, u)" by fastforce
  have one: "ingress_ok H cfg tz u \<and> ingress_extends st u"
    using post_keeps [OF u Cons.prems(2) assms(3)] Cons.prems(1) by (simp add: requests_in_def)
  have "serve H hmac cfg (r # requests) st = serve H hmac cfg requests u" by (simp add: serve_def u)
  moreover have "requests_in tz requests" using Cons.prems(1) by (simp add: requests_in_def)
  ultimately show ?case using Cons.IH one extends_trans by metis
qed (simp add: serve_def extends_refl)

end
