(* ===== verification/HostOtWire.thy ===== *)
theory HostOtWire
  imports HostOtService
begin

text \<open>
  The sender's HTTP delivery (\<open>post_event\<close> of \<open>sender.py\<close>) against the receiver, over a network that
  loses requests and answers and lets anybody else send requests in between. The sender reads the
  clock in seconds; the deployment's proxy maps its endpoint to the receiver's path. The sink law
  of \<open>EventSender\<close> holds for this delivery: what is answered with success is stored and ticketed.
\<close>

record wire_config =
  wc_key_id :: string
  wc_secret :: string

definition build_http_signature :: "(string \<Rightarrow> string \<Rightarrow> string) \<Rightarrow> string \<Rightarrow> string \<Rightarrow> string \<Rightarrow> string" where
  "build_http_signature hmac timestamp body key = hmac key (timestamp @ [CHR 0x0A] @ body)"

definition canonical_wire_body :: "json \<Rightarrow> string" where
  "canonical_wire_body event = utf8 (dumps False event @ [CHR 0x0A])"

definition post_headers :: "(string \<Rightarrow> string \<Rightarrow> string) \<Rightarrow> wire_config \<Rightarrow> int \<Rightarrow> string \<Rightarrow> (string \<times> string) list" where
  "post_headers hmac wc clock body =
     [(''Content-type'', ''application/json''), (''Accept'', ''application/json''), (''X-dtlab-key-id'', wc_key_id wc),
      (''X-dtlab-timestamp'', show_int clock),
      (''X-dtlab-signature'', build_http_signature hmac (show_int clock) body (wc_secret wc)),
      (''Content-length'', show_nat (length body))]"

datatype network = RequestLost | AnswerLost | Exchanged

record exchange =
  ex_others :: "request list"
  ex_network :: network
  ex_clock :: int
  ex_env :: request_env

record wire =
  wi_ingress :: ingress
  wi_exchanges :: "exchange list"

datatype post_error = Unreachable | HttpStatus int

definition post_event ::
  "event_env \<Rightarrow> (string \<Rightarrow> string \<Rightarrow> string) \<Rightarrow> ingress_config \<Rightarrow> wire_config \<Rightarrow> json \<Rightarrow> (wire, post_error, unit) act" where
  "post_event H hmac cfg wc event = (\<lambda>w. case wi_exchanges w of
     [] \<Rightarrow> (Inl Unreachable, w)
   | x # xs \<Rightarrow>
       (let body = canonical_wire_body event;
            st = serve H hmac cfg (ex_others x) (wi_ingress w);
            (reply, st') = do_POST H hmac cfg (ex_env x) ''/v1/events'' (post_headers hmac wc (ex_clock x) body) body st
        in case ex_network x of
             RequestLost \<Rightarrow> (Inl Unreachable, \<lparr>wi_ingress = st, wi_exchanges = xs\<rparr>)
           | AnswerLost \<Rightarrow> (Inl Unreachable, \<lparr>wi_ingress = st', wi_exchanges = xs\<rparr>)
           | Exchanged \<Rightarrow>
               (case http_status reply of
                  None \<Rightarrow> Inl Unreachable
                | Some s \<Rightarrow> if s < 200 \<or> 300 \<le> s then Inl (HttpStatus s) else Inr (),
                \<lparr>wi_ingress = st', wi_exchanges = xs\<rparr>)))"

section \<open>What the receiver holds of an event\<close>

definition ticketed :: "string \<Rightarrow> ticket_db \<Rightarrow> bool" where
  "ticketed sid db \<longleftrightarrow> (\<exists>t \<in> set (tickets db). tk_signal t = sid)"

definition received :: "event_env \<Rightarrow> json \<Rightarrow> wire \<Rightarrow> bool" where
  "received H e w \<longleftrightarrow> map_of (in_objects (wi_ingress w)) (object_name (he_sha H (event_bytes e))) = Some (event_bytes e)
     \<and> (\<exists>event. json_ok event \<and> event_bytes event = event_bytes e \<and> event_problems H event = []
          \<and> (jget event ''event_type'' = JStr ''heartbeat'' \<or> ticketed (event_signal_id H event) (in_db (wi_ingress w))))"

definition wire_ok :: "event_env \<Rightarrow> ingress_config \<Rightarrow> tzdb \<Rightarrow> wire \<Rightarrow> bool" where
  "wire_ok H cfg tz w \<longleftrightarrow> ingress_ok H cfg tz (wi_ingress w)
     \<and> (\<forall>x \<in> set (wi_exchanges w). requests_in tz (ex_others x) \<and> (\<forall>n. en_tz (rq_desk (ex_env x) n) = tz))"

lemma ticketed_extends: "desk_extends db db' \<Longrightarrow> ticketed sid db \<Longrightarrow> ticketed sid db'"
  unfolding desk_extends_def ticketed_def ticket_continues_def by metis

lemma run_extends: "desk_run tz db db' \<Longrightarrow> desk_wf tz db \<Longrightarrow> desk_extends db db'"
  by (simp add: desk_run_def steps_extend)

text \<open>A policy run that succeeds leaves a ticket for the signal.\<close>

lemma policy_tickets:
  assumes "apply_host_ot_ticket_policy envs signal_id actor db = (Inr r, db2)"
    and "desk_wf tz db" and "\<forall>n. en_tz (envs n) = tz" and "required_text ''Signal ID'' 128 (JStr signal_id) = Inr sid"
  shows "ticketed sid db2"
proof -
  obtain p before u t n db1 where looked: "get_ticket_for_signal (envs 0) signal_id db = (Inr before, u)"
      and made: "create_ticket_with_tasks (envs 0) signal_id actor policy_tasks (priority_text p) None None None u = (Inr (t, n), db1)"
      and rest: "db2 = db1 \<or> (\<exists>t'. set_ticket_priority (envs 1) (tk_id t) (priority_text p) actor db1 = (Inr t', db2))"
    using assms(1) unfolding apply_host_ot_ticket_policy_def Let_def
    by (clarsimp simp: bindE_Inr act_Inr get_signal_Inr split: if_splits) blast+
  have u: "u = db" using ticket_for_signal_Inr [OF looked assms(4)] by blast
  have "desk_wf (en_tz (envs 0)) u" using assms(2,3) by (simp add: u)
  from create_effect [OF made this] assms(4)
  have t: "ticket_by_signal sid db1 = Some t" and wf: "desk_wf (en_tz (envs 0)) db1" by auto
  have "ticketed sid db1" using find_Some_set [OF t [unfolded ticket_by_signal_def]] by (auto simp: ticketed_def)
  moreover have "desk_extends db1 db2" if "set_ticket_priority (envs 1) (tk_id t) (priority_text p) actor db1 = (Inr t', db2)" for t'
    by (rule reprioritise.extends [OF that]) (use wf assms(3) in simp)
  ultimately show ?thesis using rest ticketed_extends by blast
qed

lemma store_tickets:
  assumes "store_host_signal envs event digest (event_signal_id H event) s db = (Inr res, db')"
    and "desk_wf tz db" and "\<forall>n. en_tz (envs n) = tz" and "hex_digests H"
  shows "ticketed (event_signal_id H event) db'"
proof -
  obtain stats t policy where st: "ingest_signals (envs 0) [s] db = (Inr stats, t)"
    and pol: "apply_host_ot_ticket_policy (\<lambda>n. envs (Suc n)) (event_signal_id H event) host_ot_policy_actor t = (Inr policy, db')"
    using assms(1) by (rule store_host_signal_Inr)
  have "desk_wf tz t" using ingest.keeps_wf [OF st assms(2)] .
  then show ?thesis by (rule policy_tickets [OF pol]) (use assms(3) signal_id_text [OF assms(4)] in simp_all)
qed

section \<open>The request of the sender\<close>

lemma show_nat_int: "show_nat n = show_int (int n)"
  by (simp add: show_int_def)

lemma show_int_clean: "strip (show_int i) = show_int i"
proof (rule strip_no_space, rule ballI)
  fix c assume "c \<in> set (show_int i)"
  then have "is_digit c \<or> c = CHR ''-''" using show_nat_digits by (auto simp: show_int_def split: if_splits)
  then show "\<not> is_space c" by (auto simp: is_digit_def is_space_def Let_def)
qed

lemma lower_names:
  "lower ''Content-type'' = ''content-type''" "lower ''Accept'' = ''accept''" "lower ''X-dtlab-key-id'' = ''x-dtlab-key-id''"
  "lower ''X-dtlab-timestamp'' = ''x-dtlab-timestamp''" "lower ''X-dtlab-signature'' = ''x-dtlab-signature''"
  "lower ''Content-length'' = ''content-length''" "lower ''application/json'' = ''application/json''"
  by code_simp+

lemma post_length: "content_length (post_headers hmac wc clock body) = int (length body)"
  by (simp add: content_length_def post_headers_def lower_names show_int_clean show_nat_int)

lemma json_type: "lower (strip (takeWhile (\<lambda>c. c \<noteq> CHR '';'') ''application/json'')) = ''application/json''" by code_simp

lemma post_type: "content_type (post_headers hmac wc clock body) = ''application/json''"
  unfolding content_type_def post_headers_def find.simps prod.case lower_names(1) if_P [OF refl] option.case Let_def json_type by simp

lemma post_dict: "header_dict (post_headers hmac wc clock body) =
  [(''content-type'', ''application/json''), (''accept'', ''application/json''), (''x-dtlab-key-id'', wc_key_id wc),
   (''x-dtlab-timestamp'', show_int clock), (''x-dtlab-signature'', build_http_signature hmac (show_int clock) body (wc_secret wc)),
   (''content-length'', show_nat (length body))]"
  by (simp add: header_dict_def post_headers_def lower_names)

lemma wire_body: "canonical_wire_body event = event_bytes event"
  by (simp add: canonical_wire_body_def event_bytes_def canonical_event_def)

section \<open>The sink law\<close>

lemma accepted_received:
  assumes "do_POST H hmac cfg env path (post_headers hmac wc clock (event_bytes e)) (event_bytes e) st = (reply, st')"
    and "http_status reply = Some s" "200 \<le> s" "s < 300" and "ingress_ok H cfg tz st" and "hex_digests H"
    and "\<forall>n. en_tz (rq_desk env n) = tz"
  shows "received H e \<lparr>wi_ingress = st', wi_exchanges = xs\<rparr>"
proof -
  obtain r where acc: "accept H hmac cfg env (event_bytes e) (header_dict (post_headers hmac wc clock (event_bytes e))) st = (r, st')"
    and r: "reply = answer r"
    using assms(1) by (cases rule: post_cases) (use assms(2-4) in \<open>auto simp: post_length\<close>)
  have "\<exists>a. r = Inr a"
  proof (cases r)
    case (Inl e)
    then show ?thesis using assms(2-4) r by (cases e rule: refusal.cases) (auto simp: answer_def split: if_splits)
  qed simp
  with acc show ?thesis
  proof (cases rule: accept_cases)
    case (3 key event result db)
    let ?sha = "he_sha H (event_bytes e)"
    have wf: "desk_wf tz (in_db st)" using assms(5) by (simp add: ingress_ok_def)
    have ev: "event_bytes e = event_bytes event" "json_ok event" "event_problems H event = []" using 3(1) by (simp_all add: authentic_def)
    have "jget event ''event_type'' = JStr ''heartbeat'' \<or> ticketed (event_signal_id H event) db"
      using 3(2)
    proof (cases rule: ingest_cases)
      case 1
      have "jget event ''event_type'' = JStr ''heartbeat''"
        using 3(2) 1 signal_from_event by (fastforce simp: ingest_host_ot_event_def heartbeat_result_def store_host_signal_def bindE_Inr act_Inr
            split: sum.splits option.splits prod.splits if_splits)
      then show ?thesis by simp
    next
      case 2
      then show ?thesis using store_tickets [OF 2(1) wf assms(7,6)] by blast
    qed
    then show ?thesis using 3(3,5) ev after_store_holds [OF 3(3)] by (auto simp: received_def)
  qed auto
qed

lemma received_extends:
  assumes "received H e w" and "ingress_extends (wi_ingress w) st"
  shows "received H e \<lparr>wi_ingress = st, wi_exchanges = xs\<rparr>"
proof -
  have "map_of (in_objects (wi_ingress w)) n = Some c \<Longrightarrow> map_of (in_objects st) n = Some c" for n c
    using assms(2) by (auto simp: ingress_extends_def map_le_def dom_def)
  moreover have "ticketed sid (in_db (wi_ingress w)) \<Longrightarrow> ticketed sid (in_db st)" for sid
    using assms(2) ticketed_extends by (auto simp: ingress_extends_def)
  ultimately show ?thesis using assms(1) unfolding received_def by auto
qed

lemma post_event_cases:
  assumes "post_event H hmac cfg wc e w = (r, w')"
  obtains "r = Inl Unreachable" "w' = w"
  | x xs st reply st' where "wi_exchanges w = x # xs" "st = serve H hmac cfg (ex_others x) (wi_ingress w)"
      "do_POST H hmac cfg (ex_env x) ''/v1/events'' (post_headers hmac wc (ex_clock x) (event_bytes e)) (event_bytes e) st = (reply, st')"
      "wi_exchanges w' = xs" "wi_ingress w' = st \<or> wi_ingress w' = st'"
      "\<forall>u. r = Inr u \<longrightarrow> wi_ingress w' = st' \<and> (\<exists>s. http_status reply = Some s \<and> 200 \<le> s \<and> s < 300)"
proof (cases "wi_exchanges w")
  case Nil
  then show thesis using assms that(1) by (simp add: post_event_def)
next
  case (Cons x xs)
  let ?st = "serve H hmac cfg (ex_others x) (wi_ingress w)"
  obtain reply st' where d: "do_POST H hmac cfg (ex_env x) ''/v1/events'' (post_headers hmac wc (ex_clock x) (event_bytes e)) (event_bytes e) ?st = (reply, st')"
    by fastforce
  show thesis
    by (rule that(2) [OF Cons refl d])
      (use assms in \<open>auto simp: post_event_def Cons Let_def wire_body d split: network.splits option.splits if_splits\<close>)
qed

interpretation http: event_sink "post_event H hmac cfg wc" "received H" "\<lambda>w. wire_ok H cfg tz w \<and> hex_digests H"
  for H hmac cfg wc tz
proof unfold_locales
  fix w e u w'
  assume w: "wire_ok H cfg tz w \<and> hex_digests H" and "post_event H hmac cfg wc e w = (Inr u, w')"
  from this(2) show "received H e w'"
  proof (cases rule: post_event_cases)
    case (2 x xs st reply st')
    have "ingress_ok H cfg tz st" using serve_keeps w 2(1,2) by (auto simp: wire_ok_def)
    moreover obtain s where "http_status reply = Some s" "200 \<le> s" "s < 300" "wi_ingress w' = st'" using 2(6) by blast
    ultimately have "received H e \<lparr>wi_ingress = st', wi_exchanges = wi_exchanges w'\<rparr>"
      using accepted_received [OF 2(3)] w 2(1) by (auto simp: wire_ok_def)
    then show ?thesis using \<open>wi_ingress w' = st'\<close> by (simp add: received_def)
  qed simp
next
  fix w e r w' e'
  assume w: "wire_ok H cfg tz w \<and> hex_digests H" and p: "post_event H hmac cfg wc e w = (r, w')"
  have both: "wire_ok H cfg tz w' \<and> ingress_extends (wi_ingress w) (wi_ingress w')"
    using p
  proof (cases rule: post_event_cases)
    case (2 x xs st reply st')
    have one: "ingress_ok H cfg tz st \<and> ingress_extends (wi_ingress w) st" using serve_keeps w 2(1,2) by (auto simp: wire_ok_def)
    have two: "ingress_ok H cfg tz st' \<and> ingress_extends st st'" using post_keeps [OF 2(3)] one w 2(1) by (auto simp: wire_ok_def)
    show ?thesis using one two extends_trans 2(1,4,5) w by (auto simp: wire_ok_def)
  qed (use w extends_refl in auto)
  then show "wire_ok H cfg tz w' \<and> hex_digests H" using w by simp
  assume "received H e' w"
  then have "received H e' \<lparr>wi_ingress = wi_ingress w', wi_exchanges = wi_exchanges w'\<rparr>" using both received_extends by blast
  then show "received H e' w'" by (simp add: received_def)
qed

end
