(* ===== verification/HostOtDelivery.thy ===== *)
theory HostOtDelivery
  imports HostOtWire
begin

text \<open>
  The properties of the authenticated path from the sensor's spool to the receiver's tickets, and the
  concrete service that shows their hypotheses can hold.
\<close>

section \<open>A concrete receiver\<close>

definition demo_hmac :: "string \<Rightarrow> string \<Rightarrow> string" where
  "demo_hmac key message = demo_fingerprint"

definition demo_config :: ingress_config where
  "demo_config = \<lparr>ic_keys = [(''k1'', \<lparr>sk_key = ''k1'', sk_sensor = ''s1'', sk_secret = replicate 32 CHR ''x''\<rparr>)],
     ic_max_body = 65536, ic_max_skew = 300\<rparr>"

definition demo_wire_config :: wire_config where
  "demo_wire_config = \<lparr>wc_key_id = ''k1'', wc_secret = replicate 32 CHR ''x''\<rparr>"

definition demo_request_env :: request_env where
  "demo_request_env = \<lparr>rq_now = 100, rq_received = 5, rq_desk = (\<lambda>n. demo_env 0)\<rparr>"

definition empty_ingress :: ingress where
  "empty_ingress = \<lparr>in_db = empty_db, in_objects = [], in_status = []\<rparr>"

definition beat_event :: json where
  "beat_event = canon (JObj [(''event_type'', JStr ''heartbeat''), (''event_id'', JStr ''e''), (''episode_id'', JStr ''e''),
     (''sensor'', JObj [(''id'', JStr ''s1'')])])"

lemma beat_facts: "json_ok beat_event" "canon beat_event = beat_event" "find_secret_leaks beat_event ''$'' = []"
  "semantic_errors beat_event = []" "length (event_bytes beat_event) < 200" "is_obj beat_event"
  "jget beat_event ''event_type'' = JStr ''heartbeat''" "str_or_empty (jget (jget beat_event ''sensor'') ''id'') = ''s1''"
  by code_simp+

lemma empty_ingress_ok: "ingress_ok H cfg utc_zone empty_ingress"
  by (simp add: ingress_ok_def empty_ingress_def empty_db_wf)

section \<open>The sender's request\<close>

lemma sent_body:
  assumes "json_ok event" and "canon event = event" and "is_obj event" and "event_problems H event = []"
    and "str_or_empty (jget (jget event ''sensor'') ''id'') = sk_sensor key"
  shows "check_body H (event_bytes event) key = Inr (key, event)"
proof -
  have "Option.bind (utf8_decode (event_bytes event)) loads = Some event"
    using loads_dumps(2) [OF assms(1), of False] assms(2) by (simp add: event_bytes_def canonical_event_def)
  moreover have "validate_host_ot_event H event = Inr event" using assms(4) by (simp add: validated)
  ultimately show ?thesis using assms(3,5) by (simp add: check_body_def canonical_host_ot_event_bytes_def)
qed

lemma post_header:
  "header (header_dict (post_headers hmac wc clock body)) ''x-dtlab-key-id'' = JStr (wc_key_id wc)"
  "header (header_dict (post_headers hmac wc clock body)) ''x-dtlab-timestamp'' = JStr (show_int clock)"
  "header (header_dict (post_headers hmac wc clock body)) ''x-dtlab-signature''
    = JStr (build_http_signature hmac (show_int clock) body (wc_secret wc))"
  by (simp_all add: header_def post_dict)

lemma show_int_nonempty: "show_int i \<noteq> []"
  by (simp add: show_int_def)

lemma sent_auth:
  assumes "map_of (ic_keys cfg) (wc_key_id wc) = Some key" and "sk_secret key = wc_secret wc"
    and "\<bar>now - clock\<bar> \<le> ic_max_skew cfg" and "strip (wc_key_id wc) = wc_key_id wc" "wc_key_id wc \<noteq> []" "length (wc_key_id wc) \<le> 128"
    and "length (show_int clock) \<le> 20" and "\<forall>k m. is_sha256_hex (hmac k m)"
  shows "verify_request_auth hmac cfg now body (JStr (wc_key_id wc)) (JStr (show_int clock))
    (JStr (build_http_signature hmac (show_int clock) body (wc_secret wc))) = Inr key"
proof -
  let ?sg = "build_http_signature hmac (show_int clock) body (wc_secret wc)"
  have hex: "is_sha256_hex ?sg" using assms(8) by (simp add: build_http_signature_def)
  have f: "required_field (JStr (wc_key_id wc)) ''X-DTLab-Key-Id'' 128 = Inr (wc_key_id wc)"
    "required_field (JStr (show_int clock)) ''X-DTLab-Timestamp'' 20 = Inr (show_int clock)"
    using assms(4-7) show_int_nonempty by (simp_all add: required_field_Inr show_int_clean)
  have "required_field (JStr ?sg) ''X-DTLab-Signature'' 128 = Inr ?sg" "lower ?sg = ?sg"
    using hex sha256_hex_normal [OF hex] by (auto simp: required_field_Inr is_sha256_hex_def)
  then show ?thesis using f hex assms(1-3)
    by (simp add: verify_request_auth_def signed_material_def build_http_signature_def)
qed

lemma event_bytes_nonempty: "event_bytes event \<noteq> []"
  by (simp add: event_bytes_def utf8_def utf8_char_def Let_def)

lemma answered: "do_POST H hmac cfg env ''/v1/events'' (post_headers hmac wc clock body) stream st =
  (if body = [] \<or> ic_max_body cfg < length body then (BadContentLength, st)
   else case accept H hmac cfg env (take (length body) stream) (header_dict (post_headers hmac wc clock body)) st of
     (r, st') \<Rightarrow> (answer r, st'))"
proof -
  have "int (length body) < 1 \<longleftrightarrow> body = []" by (cases body) simp_all
  then show ?thesis unfolding do_POST_def post_type post_length Let_def
    by (auto simp: answer_def split: prod.split sum.split)
qed

section \<open>Authenticity\<close>

text \<open>C18: Only authentic requests count. A request of whatever origin that changes the receiver's state or is
  answered with success carries, over its own body, the MAC of a registered key at a fresh time; its
  body is the canonical rendering of a valid event of exactly that key's sensor, within the size
  limit, and is in the object store under its digest.\<close>

theorem only_authentic_requests_count:
  assumes "do_POST H hmac cfg env path headers stream st = (reply, st')"
    and "st' \<noteq> st \<or> http_status reply \<in> {Some 200, Some 201}"
  shows "\<exists>key event. let body = take (nat (content_length headers)) stream in
    authentic H hmac cfg (rq_now env) body (header_dict headers) key event
    \<and> map_of (in_objects st') (object_name (he_sha H body)) = Some body"
  using post_effect [OF assms] by (auto simp: Let_def)

lemma beat_valid: "event_problems demo_host_env beat_event = []"
proof -
  have "length (event_bytes beat_event) \<le> max_event_bytes" using beat_facts(5) by (simp add: max_event_bytes_def)
  then show ?thesis using beat_facts by (simp add: event_problems_def demo_host_env_def)
qed

lemma demo_hmac_hex: "\<forall>k m. is_sha256_hex (demo_hmac k m)"
  using demo_host_hex by (simp add: hex_digests_def demo_host_env_def demo_hmac_def)

lemma sent_passes:
  assumes "json_ok event" and "canon event = event" and "is_obj event" and "event_problems H event = []"
    and "map_of (ic_keys cfg) (wc_key_id wc) = Some key" and "sk_secret key = wc_secret wc"
    and "str_or_empty (jget (jget event ''sensor'') ''id'') = sk_sensor key"
    and "strip (wc_key_id wc) = wc_key_id wc \<and> wc_key_id wc \<noteq> [] \<and> length (wc_key_id wc) \<le> 128"
    and "\<bar>rq_now env - clock\<bar> \<le> ic_max_skew cfg" and "length (show_int clock) \<le> 20"
    and "length (canonical_wire_body event) \<le> ic_max_body cfg" and "\<forall>k m. is_sha256_hex (hmac k m)"
    and "map_of (in_objects st) (object_name (he_sha H (event_bytes event))) \<in> {None, Some (event_bytes event)}"
  shows "\<exists>st'. do_POST H hmac cfg env ''/v1/events'' (post_headers hmac wc clock (canonical_wire_body event)) (canonical_wire_body event) st
      = (case ingest_host_ot_event H (rq_desk env) event (Some (he_sha H (event_bytes event))) (in_db st) of
           (Inl e, db) \<Rightarrow> refusal (EventRefused e)
         | (Inr result, db) \<Rightarrow>
             (if map_of (in_objects st) (object_name (he_sha H (event_bytes event))) = None then Created else AlreadyStored)
             \<lparr>ac_sha = he_sha H (event_bytes event),
              ac_stored = (map_of (in_objects st) (object_name (he_sha H (event_bytes event))) = None), ac_result = result\<rparr>, st')
    \<and> in_db st' = snd (ingest_host_ot_event H (rq_desk env) event (Some (he_sha H (event_bytes event))) (in_db st))"
proof -
  let ?body = "event_bytes event"
  have auth: "verify_request_auth hmac cfg (rq_now env) ?body (JStr (wc_key_id wc)) (JStr (show_int clock))
    (JStr (build_http_signature hmac (show_int clock) ?body (wc_secret wc))) = Inr key"
    by (rule sent_auth) (use assms in simp_all)
  have check: "check_request H hmac cfg (rq_now env) ?body (header_dict (post_headers hmac wc clock ?body)) = Inr (key, event)"
    using assms(11) unfolding check_request_def post_header auth wire_body
    by (simp add: event_bytes_nonempty sent_body [OF assms(1-4,7)])
  show ?thesis using assms(11) unfolding wire_body answered accept_authentic [OF check assms(13)]
    by (auto simp: event_bytes_nonempty answer_def accept_authentic [OF check assms(13)] split: prod.split sum.split)
qed

lemma demo_beat: "ingest_host_ot_event demo_host_env envs beat_event (Some demo_fingerprint) db
  = (Inr (heartbeat_result demo_fingerprint), db)"
proof -
  have "validate_host_ot_event demo_host_env beat_event = Inr beat_event" using beat_valid by (simp add: validated)
  moreover have "he_sha demo_host_env (event_bytes beat_event) = demo_fingerprint" by (simp add: demo_host_env_def)
  moreover have "is_sha256_hex demo_fingerprint" using demo_host_hex by (simp add: hex_digests_def demo_host_env_def)
  ultimately show ?thesis using beat_facts(7)
    by (simp add: ingest_host_ot_event_def signal_from_host_ot_event_def)
qed

lemma demo_setup:
  "map_of (ic_keys demo_config) (wc_key_id demo_wire_config)
     = Some \<lparr>sk_key = ''k1'', sk_sensor = ''s1'', sk_secret = wc_secret demo_wire_config\<rparr>"
  "strip (wc_key_id demo_wire_config) = wc_key_id demo_wire_config \<and> wc_key_id demo_wire_config \<noteq> []
     \<and> length (wc_key_id demo_wire_config) \<le> 128"
  "\<bar>rq_now demo_request_env - 100\<bar> \<le> ic_max_skew demo_config" "length (show_int 100) \<le> 20"
  "length (canonical_wire_body beat_event) \<le> ic_max_body demo_config" "in_objects empty_ingress = []" "in_db empty_ingress = empty_db"
  "he_sha demo_host_env b = demo_fingerprint"
proof -
  have "length (show_int 100) \<le> 20" by code_simp
  then show "length (show_int 100) \<le> 20" .
  show "length (canonical_wire_body beat_event) \<le> ic_max_body demo_config"
    using beat_facts(5) by (simp add: wire_body demo_config_def)
qed (simp_all add: demo_config_def demo_wire_config_def demo_request_env_def empty_ingress_def demo_host_env_def strip_def is_space_def)

lemma demo_post:
  "\<exists>a st'. do_POST demo_host_env demo_hmac demo_config demo_request_env ''/v1/events''
      (post_headers demo_hmac demo_wire_config 100 (event_bytes beat_event)) (event_bytes beat_event) empty_ingress
     = (Created a, st') \<and> in_db st' = empty_db"
proof -
  obtain st' where "do_POST demo_host_env demo_hmac demo_config demo_request_env ''/v1/events''
      (post_headers demo_hmac demo_wire_config 100 (event_bytes beat_event)) (event_bytes beat_event) empty_ingress
     = (Created \<lparr>ac_sha = demo_fingerprint, ac_stored = True, ac_result = heartbeat_result demo_fingerprint\<rparr>, st')"
    "in_db st' = empty_db"
    using sent_passes [where env = demo_request_env and clock = 100 and st = empty_ingress and hmac = demo_hmac,
        OF beat_facts(1,2,6) beat_valid demo_setup(1) _ _ demo_setup(2-5) demo_hmac_hex]
    by (auto simp: beat_facts(8) demo_setup(6-8) demo_beat wire_body)
  then show ?thesis by blast
qed

text \<open>What the sensor's sender signs, the receiver accepts: for a registered key, clocks within the
  tolerance and a valid event of the key's sensor, the request passes every check up to the ticket
  database, so its answer is that of the ingest.\<close>

theorem sent_request_passes:
  assumes "json_ok event" and "canon event = event" and "is_obj event" and "event_problems H event = []"
    and "map_of (ic_keys cfg) (wc_key_id wc) = Some key" and "sk_secret key = wc_secret wc"
    and "str_or_empty (jget (jget event ''sensor'') ''id'') = sk_sensor key"
    and "strip (wc_key_id wc) = wc_key_id wc \<and> wc_key_id wc \<noteq> [] \<and> length (wc_key_id wc) \<le> 128"
    and "\<bar>rq_now env - clock\<bar> \<le> ic_max_skew cfg" and "length (show_int clock) \<le> 20"
    and "length (canonical_wire_body event) \<le> ic_max_body cfg" and "\<forall>k m. is_sha256_hex (hmac k m)"
    and "map_of (in_objects st) (object_name (he_sha H (event_bytes event))) \<in> {None, Some (event_bytes event)}"
  shows "\<exists>st'. do_POST H hmac cfg env ''/v1/events'' (post_headers hmac wc clock (canonical_wire_body event)) (canonical_wire_body event) st
      = (case ingest_host_ot_event H (rq_desk env) event (Some (he_sha H (event_bytes event))) (in_db st) of
           (Inl e, db) \<Rightarrow> refusal (EventRefused e)
         | (Inr result, db) \<Rightarrow>
             (if map_of (in_objects st) (object_name (he_sha H (event_bytes event))) = None then Created else AlreadyStored)
             \<lparr>ac_sha = he_sha H (event_bytes event),
              ac_stored = (map_of (in_objects st) (object_name (he_sha H (event_bytes event))) = None), ac_result = result\<rparr>, st')
    \<and> in_db st' = snd (ingest_host_ot_event H (rq_desk env) event (Some (he_sha H (event_bytes event))) (in_db st))"
  by (rule sent_passes [OF assms])

lemma sent_request_passes_witness:
  "\<exists>st'. do_POST demo_host_env demo_hmac demo_config demo_request_env ''/v1/events''
      (post_headers demo_hmac demo_wire_config 100 (canonical_wire_body beat_event)) (canonical_wire_body beat_event) empty_ingress
     = (Created \<lparr>ac_sha = demo_fingerprint, ac_stored = True, ac_result = heartbeat_result demo_fingerprint\<rparr>, st')
    \<and> in_db st' = empty_db"
  using sent_request_passes [where env = demo_request_env and clock = 100 and st = empty_ingress and hmac = demo_hmac,
      OF beat_facts(1,2,6) beat_valid demo_setup(1) _ _ demo_setup(2-5) demo_hmac_hex]
  by (simp add: beat_facts(8) demo_setup(6-8) demo_beat)

lemma only_authentic_requests_count_witness:
  "\<exists>st' :: ingress. in_db st' = empty_db \<and> map_of (in_objects st') (object_name demo_fingerprint) = Some (event_bytes beat_event)"
proof -
  obtain a st' where run: "do_POST demo_host_env demo_hmac demo_config demo_request_env ''/v1/events''
      (post_headers demo_hmac demo_wire_config 100 (event_bytes beat_event)) (event_bytes beat_event) empty_ingress = (Created a, st')"
    and db: "in_db st' = empty_db" using demo_post by blast
  have "map_of (in_objects st') (object_name demo_fingerprint) = Some (event_bytes beat_event)"
    using only_authentic_requests_count [OF run] by (simp add: post_length demo_setup(8) Let_def)
  with db show ?thesis by blast
qed

section \<open>Traffic\<close>



section \<open>From the spool to the tickets\<close>

text \<open>C19: End to end. However the sensor, its sender and the network behave, with requests and answers lost
  and any foreign traffic in between, the sender's cursor only ever stands behind a prefix of the
  spool whose events the receiver holds: each is in the object store and, unless it is a heartbeat,
  its signal has a ticket.\<close>

theorem delivered_events_are_ticketed:
  assumes "list_all readable_health moves" and "sp_file sp = []" and "sp_previous sp = zero_hash"
    and "ingress_ok H cfg tz ing" and "hex_digests H"
    and "\<forall>x \<in> set xs. requests_in tz (ex_others x) \<and> (\<forall>n. en_tz (rq_desk (ex_env x) n) = tz)"
  shows "\<exists>k. sent_prefix (rp_crypto R) (received H)
    (plc_moves R scfg (post_event H hmac cfg wc) moves
       (fresh_runtime st sp, fresh_sender \<lparr>wi_ingress = ing, wi_exchanges = xs\<rparr>)) k"
proof -
  let ?w = "\<lparr>wi_ingress = ing, wi_exchanges = xs\<rparr>"
  have "sent_prefix (rp_crypto R) (received H) (fresh_runtime st sp, fresh_sender ?w) 0"
    using start_cursor_at assms(2,3) by (simp add: sent_prefix_def fresh_runtime_def fresh_sender_def spool_ok_def)
  moreover have "wire_ok H cfg tz (se_world (snd (fresh_runtime st sp, fresh_sender ?w))) \<and> hex_digests H"
    using assms(4-6) by (simp add: wire_ok_def fresh_sender_def)
  ultimately show ?thesis using http.moves_sound [OF _ assms(1)] by blast
qed

lemma delivered_events_are_ticketed_witness:
  "\<exists>k. sent_prefix demo_crypto (received demo_host_env)
    (plc_moves demo_runtime_params demo_sender_config (post_event demo_host_env demo_hmac demo_config demo_wire_config)
       [Sense 0 (Observe (demo_write 3 0 Processed 0)), Send 1 None, Sense 2 FlushAll]
       (fresh_runtime demo_state (demo_spool 5000), fresh_sender \<lparr>wi_ingress = empty_ingress,
         wi_exchanges = [\<lparr>ex_others = [], ex_network = AnswerLost, ex_clock = 100, ex_env = demo_request_env\<rparr>]\<rparr>)) k"
  using delivered_events_are_ticketed [of "[Sense 0 (Observe (demo_write 3 0 Processed 0)), Send 1 None, Sense 2 FlushAll]"
      "demo_spool 5000" demo_host_env demo_config utc_zone empty_ingress
      "[\<lparr>ex_others = [], ex_network = AnswerLost, ex_clock = 100, ex_env = demo_request_env\<rparr>]" demo_runtime_params]
    empty_ingress_ok demo_host_hex
  by (simp add: readable_health_def demo_spool_def demo_runtime_params_def requests_in_def demo_request_env_def)

section \<open>A refused event\<close>

lemma refused_post:
  assumes "json_ok e" and "event_problems H (canon e) \<noteq> []"
  shows "post_event H hmac cfg wc (canon e) w \<noteq> (Inr (), w')"
proof
  assume "post_event H hmac cfg wc (canon e) w = (Inr (), w')"
  then show False
  proof (cases rule: post_event_cases)
    case (2 x xs st reply st')
    let ?hs = "post_headers hmac wc (ex_clock x) (event_bytes (canon e))"
    obtain s where s: "http_status reply = Some s" "200 \<le> s" "s < 300" using 2(6) by blast
    obtain r where acc: "accept H hmac cfg (ex_env x) (event_bytes (canon e)) (header_dict ?hs) st = (r, st')" and r: "reply = answer r"
      using 2(3) by (cases rule: post_cases) (use s in \<open>auto simp: post_length\<close>)
    have "\<exists>a. r = Inr a"
    proof (cases r)
      case (Inl e)
      then show ?thesis using s r by (cases e rule: refusal.cases) (auto simp: answer_def split: if_splits)
    qed simp
    then obtain key event where "check_request H hmac cfg (rq_now (ex_env x)) (event_bytes (canon e)) (header_dict ?hs) = Inr (key, event)"
      using acc by (cases "check_request H hmac cfg (rq_now (ex_env x)) (event_bytes (canon e)) (header_dict ?hs)")
        (auto simp: accept_refused)
    then have "check_body H (event_bytes (canon e)) key = Inr (key, event)"
      by (auto simp: check_request_def bindR_eq_Inr check_body_def split: if_splits option.splits sum.splits)
    then obtain t where t: "utf8_decode (event_bytes (canon e)) = Some t" "loads t = Some event" "event_problems H event = []"
      by (metis check_body_Inr prod.inject)
    have "loads t = Some (canon e)"
      using t(1) loads_dumps(2) [OF json_ok_canon [OF assms(1)], of False] by (simp add: event_bytes_def canonical_event_def canon_idem assms(1))
    with t(2,3) assms(2) show False by simp
  qed simp
qed

text \<open>C21: A refused event blocks the sensor for good. When the event at the cursor is one the receiver does
  not accept as valid, the sender's cursor never moves again, whatever the sensor, the sender and
  the network do; every event behind it stays undelivered.\<close>

theorem refused_event_blocks_sender:
  assumes "sent_prefix (rp_crypto R) (received H) st k" and "list_all readable_health moves"
    and "k < length (spooled (sp_file (rt_spool (fst st))))" and "spooled (sp_file (rt_spool (fst st))) ! k = canon e"
    and "json_ok e" and "event_problems H (canon e) \<noteq> []"
    and "wire_ok H cfg tz (se_world (snd st))" and "hex_digests H"
  shows "sent_prefix (rp_crypto R) (received H) (plc_moves R scfg (post_event H hmac cfg wc) moves st) k"
proof -
  have "\<forall>u v. post_event H hmac cfg wc (spooled (sp_file (rt_spool (fst st))) ! k) u \<noteq> (Inr (), v)"
    using refused_post [OF assms(5,6)] assms(4) by simp
  from http.refused_blocks [OF assms(1,2) _ assms(3) this] assms(7,8) show ?thesis by blast
qed

definition strict_env :: event_env where
  "strict_env = demo_host_env\<lparr>he_schema := (\<lambda>e. [''modbus: proprieta richiesta''])\<rparr>"

lemma refused_event_blocks_sender_witness:
  "\<exists>st. spooled (sp_file (rt_spool (fst st))) = [canon demo_event] \<and> sent_prefix demo_crypto (received strict_env)
    (plc_moves demo_runtime_params demo_sender_config (post_event strict_env demo_hmac demo_config demo_wire_config)
       [Send 1 None, Send 2 None] st) 0"
proof -
  obtain n env sp where a: "append_event demo_crypto demo_event (demo_spool n) = (Inr env, sp)" using demo_room by blast
  have "spooled (sp_file (demo_spool n)) = []" by (simp add: spooled_def demo_spool_def)
  then have ok: "spool_ok demo_crypto sp" and held: "spooled (sp_file sp) = [canon demo_event]"
    using append_ok [OF demo_spool_ok demo_event_proper a] by simp_all
  let ?st = "(fresh_runtime demo_state sp, fresh_sender \<lparr>wi_ingress = empty_ingress,
      wi_exchanges = [\<lparr>ex_others = [], ex_network = Exchanged, ex_clock = 100, ex_env = demo_request_env\<rparr>]\<rparr>)"
  have crypto: "rp_crypto demo_runtime_params = demo_crypto" by (simp add: demo_runtime_params_def)
  have "sent_prefix (rp_crypto demo_runtime_params) (received strict_env) ?st 0"
    using ok start_cursor_at by (simp add: sent_prefix_def fresh_runtime_def fresh_sender_def crypto)
  moreover have "list_all readable_health [Send 1 None, Send 2 None]" by (simp add: readable_health_def)
  moreover have "json_ok demo_event" "is_obj demo_event" using demo_event_proper by (simp_all add: proper_event_def)
  moreover have "event_problems strict_env (canon demo_event) \<noteq> []"
    using \<open>is_obj demo_event\<close> by (simp add: event_problems_def strict_env_def Let_def)
  moreover have "wire_ok strict_env demo_config utc_zone (se_world (snd ?st))"
    using empty_ingress_ok by (simp add: wire_ok_def fresh_sender_def requests_in_def demo_request_env_def)
  moreover have "hex_digests strict_env" using demo_host_hex by (simp add: hex_digests_def strict_env_def)
  ultimately have "sent_prefix (rp_crypto demo_runtime_params) (received strict_env)
    (plc_moves demo_runtime_params demo_sender_config (post_event strict_env demo_hmac demo_config demo_wire_config)
       [Send 1 None, Send 2 None] ?st) 0"
    using held by (intro refused_event_blocks_sender [where e = demo_event and cfg = demo_config and tz = utc_zone])
      (simp_all add: fresh_runtime_def)
  then show ?thesis using held by (intro exI [of _ ?st]) (simp add: fresh_runtime_def crypto)
qed

end
