(* ===== verification/Contract.thy ===== *)
theory Contract
  imports Complex_Main Utf8 PyTime TicketTypes
begin

text \<open>
  \<open>contract.py\<close>: validation and freshness of the canonical snapshot. The JSON-schema validator is
  third-party code over a data file: the formatted errors it reports are the parameter
  \<open>schema_errors\<close>. The referential and semantic checks run on documents without schema errors only,
  whose members have the types of the schema. The searches for secrets are in \<open>Utf8\<close>.
\<close>

datatype contract_problem =
    SnapshotNotObject | SchemaViolation string | DuplicateId string nat string | UnknownReference string string
  | WrongBand nat string | ForeignRiskSource nat | RiskTruth nat | SeveralTargets | DemoEvidence string
  | CompletedBeforeStart | GeneratedBeforeCompletion | SecretLeak string
  | FileTooLarge nat nat | UnreadableFile

definition entity_collections :: "string list" where
  "entity_collections = [''sources'', ''virtual_machines'', ''networks'', ''assets'', ''identity_links'', ''risk_scores'',
     ''activities'', ''flows'', ''events'', ''vulnerabilities'', ''baselines'', ''baseline_differences'', ''sensors'',
     ''reports'', ''findings'']"

text \<open>\<open>d.get(k, [])\<close> on a list member\<close>

definition list_of :: "json \<Rightarrow> string \<Rightarrow> json list" where
  "list_of d k = (case jget d k of JArr xs \<Rightarrow> xs | _ \<Rightarrow> [])"

definition indexed :: "string \<Rightarrow> nat \<Rightarrow> string" where
  "indexed path i = path @ ''['' @ show_nat i @ '']''"

fun evidences :: "json \<Rightarrow> string \<Rightarrow> (string \<times> json) list" where
  "evidences (JObj kvs) path =
     concat (map (\<lambda>(k, v). (if k = ''evidence'' \<and> is_obj v then [(path @ ''.'' @ k, v)] else []) @ evidences v (path @ ''.'' @ k)) kvs)"
| "evidences (JArr xs) path = concat (map (\<lambda>(i, x). evidences x (indexed path i)) (enumerate 0 xs))"
| "evidences _ path = []"

section \<open>Identifiers\<close>

definition id_of :: "json \<Rightarrow> string option" where
  "id_of record = (case jget record ''id'' of JStr s \<Rightarrow> Some s | _ \<Rightarrow> None)"

fun scan_ids :: "string \<Rightarrow> nat \<Rightarrow> string list \<Rightarrow> json list \<Rightarrow> string list \<times> contract_problem list" where
  "scan_ids collection i seen [] = (seen, [])"
| "scan_ids collection i seen (r # rs) = (case id_of r of
     None \<Rightarrow> scan_ids collection (i + 1) seen rs
   | Some s \<Rightarrow> (let (ids, errors) = scan_ids collection (i + 1) (List.insert s seen) rs
               in (ids, (if s \<in> set seen then [DuplicateId collection i s] else []) @ errors)))"

definition unique_ids :: "json \<Rightarrow> (string \<times> string list) list \<times> contract_problem list" where
  "unique_ids snapshot =
     (let scanned = map (\<lambda>c. (c, scan_ids c 0 [] (list_of snapshot c))) entity_collections
      in (map (\<lambda>(c, ids, _). (c, ids)) scanned, concat (map (\<lambda>(_, _, errors). errors) scanned)))"

definition ids_in :: "(string \<times> string list) list \<Rightarrow> string \<Rightarrow> string list" where
  "ids_in ids c = (case map_of ids c of None \<Rightarrow> [] | Some xs \<Rightarrow> xs)"

section \<open>References\<close>

text \<open>A missing member is \<open>None\<close>, which is no string either, so \<open>nullable\<close> makes no difference.\<close>

definition missing_reference :: "string \<Rightarrow> json \<Rightarrow> string list \<Rightarrow> contract_problem list" where
  "missing_reference path reference known =
     (case reference of JStr s \<Rightarrow> if s \<in> set known then [] else [UnknownReference path s] | _ \<Rightarrow> [])"

definition member_references :: "json \<Rightarrow> string \<Rightarrow> (string \<times> string list) list \<Rightarrow> contract_problem list" where
  "member_references snapshot collection members =
     concat (map (\<lambda>(i, r). concat (map (\<lambda>(f, known).
       missing_reference (indexed collection i @ ''.'' @ f) (jget r f) known) members)) (enumerate 0 (list_of snapshot collection)))"

definition list_references :: "json \<Rightarrow> string \<Rightarrow> string \<Rightarrow> string list \<Rightarrow> contract_problem list" where
  "list_references snapshot collection field known =
     concat (map (\<lambda>(i, r). concat (map (\<lambda>(j, v).
       missing_reference (indexed (indexed collection i @ ''.'' @ field) j) v known) (enumerate 0 (list_of r field))))
       (enumerate 0 (list_of snapshot collection)))"

definition interface_references :: "json \<Rightarrow> string list \<Rightarrow> contract_problem list" where
  "interface_references snapshot networks =
     concat (map (\<lambda>(i, vm). concat (map (\<lambda>(j, nic).
       missing_reference (indexed (indexed ''virtual_machines'' i @ ''.interfaces'') j @ ''.network_id'') (jget nic ''network_id'') networks)
         (enumerate 0 (list_of vm ''interfaces'')))) (enumerate 0 (list_of snapshot ''virtual_machines'')))"

definition difference_references :: "json \<Rightarrow> string list \<Rightarrow> string list \<Rightarrow> string list \<Rightarrow> contract_problem list" where
  "difference_references snapshot baselines flows assets =
     concat (map (\<lambda>(i, d). let p = indexed ''baseline_differences'' i in
       missing_reference (p @ ''.baseline_id'') (jget d ''baseline_id'') baselines
       @ missing_reference (p @ ''.flow_id'') (jget d ''flow_id'') flows
       @ concat (map (\<lambda>(j, v). missing_reference (indexed (p @ ''.asset_ids'') j) v assets) (enumerate 0 (list_of d ''asset_ids''))))
       (enumerate 0 (list_of snapshot ''baseline_differences'')))"

definition cross_reference_errors :: "json \<Rightarrow> (string \<times> string list) list \<Rightarrow> contract_problem list" where
  "cross_reference_errors snapshot ids =
     (let assets = ids_in ids ''assets'' in
      concat (map (\<lambda>(path, ev). missing_reference (path @ ''.source_id'') (jget ev ''source_id'') (ids_in ids ''sources'')) (evidences snapshot ''$''))
      @ interface_references snapshot (ids_in ids ''networks'')
      @ list_references snapshot ''assets'' ''network_ids'' (ids_in ids ''networks'')
      @ member_references snapshot ''identity_links'' [(''virtual_machine_id'', ids_in ids ''virtual_machines''), (''asset_id'', assets)]
      @ member_references snapshot ''risk_scores'' [(''asset_id'', assets)]
      @ list_references snapshot ''activities'' ''asset_ids'' assets
      @ member_references snapshot ''flows'' [(''left_asset_id'', assets), (''right_asset_id'', assets)]
      @ list_references snapshot ''events'' ''asset_ids'' assets
      @ member_references snapshot ''vulnerabilities'' [(''asset_id'', assets)]
      @ difference_references snapshot (ids_in ids ''baselines'') (ids_in ids ''flows'') assets)"

section \<open>Semantic checks\<close>

text \<open>The value of a JSON number; the decimal \<open>repr\<close> of a float is on the same side of every integer as the float.\<close>

definition decimal_value :: "string \<Rightarrow> rat option" where
  "decimal_value r =
     (let neg = prefix ''-'' r; u = (if neg then drop 1 r else r);
          mant = takeWhile (\<lambda>c. c \<noteq> CHR ''e'' \<and> c \<noteq> CHR ''E'') u;
          whole = takeWhile (\<lambda>c. c \<noteq> CHR ''.'') mant;
          frac = drop (length whole + 1) mant;
          ex = drop (length mant + 1) u
      in case (read_nat (whole @ frac), if ex = [] then Some 0 else signed_digits ex) of
           (Some m, Some e) \<Rightarrow>
             (let k = e - int (length frac);
                  v = (if 0 \<le> k then of_nat m * 10 ^ nat k else of_nat m / 10 ^ nat (- k))
              in Some (if neg then - v else v))
         | _ \<Rightarrow> None)"

definition number_value :: "json \<Rightarrow> rat option" where
  "number_value v = (case v of JInt i \<Rightarrow> Some (of_int i) | JFloat r \<Rightarrow> decimal_value r | _ \<Rightarrow> None)"

definition risk_band :: "rat \<Rightarrow> string" where
  "risk_band x = (if x < 40 then ''low'' else if x < 70 then ''medium'' else ''high'')"

definition sources_by_id :: "json \<Rightarrow> (string \<times> json) list" where
  "sources_by_id snapshot = dict_of_pairs (List.map_filter (\<lambda>s. map_option (\<lambda>i. (i, s)) (id_of s)) (list_of snapshot ''sources''))"

definition source_of :: "json \<Rightarrow> json \<Rightarrow> json" where
  "source_of snapshot source_id = (case source_id of JStr s \<Rightarrow> get_item (sources_by_id snapshot) s | _ \<Rightarrow> JNull)"

definition risk_errors :: "json \<Rightarrow> contract_problem list" where
  "risk_errors snapshot = concat (map (\<lambda>(i, score).
     (case number_value (jget score ''score'') of
        None \<Rightarrow> [] | Some x \<Rightarrow> if jget score ''band'' \<noteq> JStr (risk_band x) then [WrongBand i (risk_band x)] else [])
     @ (let ev = jget score ''evidence'' in
        (if jget (source_of snapshot (jget ev ''source_id'')) ''type'' \<noteq> JStr ''cisco_cyber_vision'' then [ForeignRiskSource i] else [])
        @ (if jget ev ''truth'' \<notin> {JStr ''real'', JStr ''stale''} then [RiskTruth i] else [])))
     (enumerate 0 (list_of snapshot ''risk_scores'')))"

definition target_errors :: "json \<Rightarrow> contract_problem list" where
  "target_errors snapshot =
     (if 1 < length (filter (\<lambda>vm. jget (jget vm ''operational_context'') ''official_target'' = JBool True) (list_of snapshot ''virtual_machines''))
      then [SeveralTargets] else [])"

definition demo_errors :: "json \<Rightarrow> contract_problem list" where
  "demo_errors snapshot =
     (if jget (jget snapshot ''sync'') ''publication_mode'' = JStr ''real_only''
      then map (\<lambda>(path, ev). DemoEvidence path) (filter (\<lambda>(path, ev). jget ev ''truth'' = JStr ''demo'') (evidences snapshot ''$''))
      else [])"

text \<open>\<open>_parse_datetime\<close>: an aware instant, or \<open>ValueError\<close>.\<close>

definition parse_instant :: "json \<Rightarrow> int option" where
  "parse_instant v = (case v of
     JStr s \<Rightarrow> (case fromisoformat (replace_Z s) of Some (Aware t) \<Rightarrow> Some t | _ \<Rightarrow> None)
   | _ \<Rightarrow> None)"

definition order_errors :: "json \<Rightarrow> contract_problem list" where
  "order_errors snapshot = (let sync = jget snapshot ''sync'' in
     case (parse_instant (jget sync ''started_at''), parse_instant (jget sync ''completed_at''), parse_instant (jget snapshot ''generated_at'')) of
       (Some s, Some c, Some g) \<Rightarrow> (if c < s then [CompletedBeforeStart] else []) @ (if g < c then [GeneratedBeforeCompletion] else [])
     | _ \<Rightarrow> [])"

definition finding_errors :: "json \<Rightarrow> (string \<times> string list) list \<Rightarrow> contract_problem list" where
  "finding_errors snapshot ids =
     (let known = jget (jget snapshot ''environment'') ''id'' # map JStr (concat (map snd ids)) in
      concat (map (\<lambda>(i, f). concat (map (\<lambda>(j, v).
        if canon v \<in> canon ` set known then [] else [UnknownReference (indexed (indexed ''findings'' i @ ''.entity_ids'') j) (py_str v)])
          (enumerate 0 (list_of f ''entity_ids'')))) (enumerate 0 (list_of snapshot ''findings''))))"

definition snapshot_semantic_errors :: "json \<Rightarrow> (string \<times> string list) list \<Rightarrow> contract_problem list" where
  "snapshot_semantic_errors snapshot ids =
     risk_errors snapshot @ target_errors snapshot @ demo_errors snapshot @ order_errors snapshot @ finding_errors snapshot ids"

section \<open>Validation and the canonical document\<close>

definition snapshot_problems :: "(json \<Rightarrow> string list) \<Rightarrow> json \<Rightarrow> contract_problem list" where
  "snapshot_problems schema_errors snapshot =
     (if \<not> is_obj snapshot then [SnapshotNotObject]
      else (case schema_errors snapshot of
              [] \<Rightarrow> (let (ids, id_errors) = unique_ids snapshot in
                id_errors @ cross_reference_errors snapshot ids @ snapshot_semantic_errors snapshot ids)
            | es \<Rightarrow> map SchemaViolation es) @ map SecretLeak (find_secret_leaks snapshot ''$''))"

definition validate_snapshot :: "(json \<Rightarrow> string list) \<Rightarrow> json \<Rightarrow> contract_problem list + json" where
  "validate_snapshot schema_errors snapshot =
     (let ps = snapshot_problems schema_errors snapshot in if ps \<noteq> [] then Inl (rev (remdups (rev ps))) else Inr snapshot)"

definition snapshot_bytes :: "json \<Rightarrow> string" where
  "snapshot_bytes snapshot = utf8 (dumps False snapshot @ [CHR 0x0A])"

definition canonical_bytes :: "(json \<Rightarrow> string list) \<Rightarrow> json \<Rightarrow> contract_problem list + string" where
  "canonical_bytes schema_errors snapshot = bindR (validate_snapshot schema_errors snapshot) (\<lambda>s. Inr (snapshot_bytes s))"

definition snapshot_sha256 :: "(string \<Rightarrow> string) \<Rightarrow> (json \<Rightarrow> string list) \<Rightarrow> json \<Rightarrow> contract_problem list + string" where
  "snapshot_sha256 sha schema_errors snapshot = bindR (canonical_bytes schema_errors snapshot) (\<lambda>b. Inr (sha b))"

section \<open>Freshness\<close>

definition snapshot_age_seconds :: "json \<Rightarrow> int \<Rightarrow> int option" where
  "snapshot_age_seconds snapshot now =
     map_option (\<lambda>c. max 0 (trunc_seconds (now - c))) (parse_instant (jget (jget snapshot ''sync'') ''completed_at''))"

definition effective_sync_state :: "json \<Rightarrow> int \<Rightarrow> string option" where
  "effective_sync_state snapshot now =
     (let sync = jget snapshot ''sync''; state = py_str (jget sync ''state'') in
      if state \<in> {''offline'', ''failed'', ''stale''} then Some state
      else case (snapshot_age_seconds snapshot now, py_int (jget sync ''max_age_seconds'')) of
        (Some age, Some limit) \<Rightarrow> Some (if limit < age then ''stale'' else state)
      | _ \<Rightarrow> None)"

text \<open>Every evidence of a factual truth is relabelled, at any depth and inside other evidence too.\<close>

definition stale_evidence :: "(string \<times> json) list \<Rightarrow> (string \<times> json) list" where
  "stale_evidence ev = (if get_item ev ''truth'' \<in> {JStr ''real'', JStr ''observed''} then AList.update ''truth'' (JStr ''stale'') ev else ev)"

fun stale_truths :: "json \<Rightarrow> json" where
  "stale_truths (JObj kvs) = JObj (map (\<lambda>(k, v). (k, (case stale_truths v of
      JObj ev \<Rightarrow> JObj (if k = ''evidence'' then stale_evidence ev else ev) | w \<Rightarrow> w))) kvs)"
| "stale_truths (JArr xs) = JArr (map stale_truths xs)"
| "stale_truths v = v"

definition with_stale_truth :: "json \<Rightarrow> int \<Rightarrow> json option" where
  "with_stale_truth snapshot now = (case effective_sync_state snapshot now of
     None \<Rightarrow> None
   | Some state \<Rightarrow>
       if state \<noteq> ''stale'' then Some snapshot
       else Some (stale_truths (JObj (AList.update ''sync''
         (JObj (AList.update ''state'' (JStr ''stale'') (entries (jget snapshot ''sync'')))) (entries snapshot)))))"

section \<open>Files and labels\<close>

definition max_snapshot_bytes :: nat where
  "max_snapshot_bytes = 25 * 1024 * 1024"

text \<open>\<open>load_snapshot\<close> on the bytes of the file\<close>

definition load_snapshot :: "(json \<Rightarrow> string list) \<Rightarrow> nat \<Rightarrow> string \<Rightarrow> contract_problem list + json" where
  "load_snapshot schema_errors max_bytes content =
     (if max_bytes < length content then Inl [FileTooLarge (length content) max_bytes]
      else case Option.bind (utf8_decode content) loads of
        None \<Rightarrow> Inl [UnreadableFile]
      | Some payload \<Rightarrow> bindR (validate_snapshot schema_errors payload) (\<lambda>_. Inr payload))"

definition truth_labels_it :: "(string \<times> string) list" where
  "truth_labels_it = [(''real'', ''Reale''), (''observed'', ''Osservata''), (''expected'', ''Attesa''), (''demo'', ''Demo''),
     (''unavailable'', ''Non disponibile''), (''stale'', ''Obsoleta'')]"

definition truth_label_it :: "string \<Rightarrow> string" where
  "truth_label_it v = (case map_of truth_labels_it v of None \<Rightarrow> ''Sconosciuta'' | Some t \<Rightarrow> t)"

end
