(* ===== verification/SignalConversion.thy ===== *)
theory SignalConversion
  imports SignalStore Contract
begin

text \<open>
  \<open>signal_ingest.py\<close>: the conversion of a validated snapshot into operational signals and their
  ingest. A document whose shape the code does not expect (a missing key, a value that is not
  iterable, a record that is not an object) ends in an exception the code does not catch: \<open>BadShape\<close>.
\<close>

datatype conversion_error = InvalidContract "contract_problem list" | ShaMismatch string string | BadShape | StoreFault ticket_error

section \<open>Reading a record\<close>

type_synonym dict = "(string \<times> json) list"

definition fingerprint_of :: "(string \<Rightarrow> string) \<Rightarrow> dict \<Rightarrow> string" where
  "fingerprint_of sha identity = sha (utf8 (dumps False (JObj identity)))"

text \<open>\<open>_text\<close>\<close>

definition text_of :: "json \<Rightarrow> string option" where
  "text_of v = (if v = JNull then None else let t = strip (py_str v) in if t = [] then None else Some t)"

definition first_text :: "'a option \<Rightarrow> 'a option \<Rightarrow> 'a option" where
  "first_text a b = (case a of None \<Rightarrow> b | Some x \<Rightarrow> Some x)"

definition text_or :: "string option \<Rightarrow> string \<Rightarrow> string" where
  "text_or a b = (case a of None \<Rightarrow> b | Some x \<Rightarrow> x)"

definition evidence_of :: "dict \<Rightarrow> dict" where
  "evidence_of record = entries (get_item record ''evidence'')"

definition first_truthy :: "json list \<Rightarrow> json \<Rightarrow> json" where
  "first_truthy vs otherwise = (case find truthy vs of Some v \<Rightarrow> v | None \<Rightarrow> otherwise)"

definition observed_at :: "dict \<Rightarrow> string \<Rightarrow> string option \<Rightarrow> string" where
  "observed_at record generated_at fallback =
     (let ev = evidence_of record in
      py_str (first_truthy [get_item ev ''observed_at'', jopt fallback, get_item ev ''fetched_at''] (JStr generated_at)))"

definition severity_of :: "json \<Rightarrow> string" where
  "severity_of v = lower (text_or (text_of v) ''unknown'')"

text \<open>What \<open>for x in value\<close> goes through\<close>

definition py_iter :: "json \<Rightarrow> conversion_error + json list" where
  "py_iter v = (case v of JArr xs \<Rightarrow> Inr xs | JStr s \<Rightarrow> Inr (map (\<lambda>c. JStr [c]) s)
     | JObj kvs \<Rightarrow> Inr (map (\<lambda>(k, _). JStr k) kvs) | _ \<Rightarrow> Inl BadShape)"

text \<open>\<open>sorted(str(value) for value in record.get(k, []))\<close>\<close>

definition sorted_ids :: "dict \<Rightarrow> string \<Rightarrow> conversion_error + string list" where
  "sorted_ids record k = (case map_of record k of None \<Rightarrow> Inr []
     | Some v \<Rightarrow> bindR (py_iter v) (\<lambda>xs. Inr (sort (map py_str xs))))"

definition as_dict :: "json \<Rightarrow> conversion_error + dict" where
  "as_dict v = (case v of JObj kvs \<Rightarrow> Inr kvs | _ \<Rightarrow> Inl BadShape)"

definition required_item :: "dict \<Rightarrow> string \<Rightarrow> conversion_error + json" where
  "required_item d k = (case map_of d k of None \<Rightarrow> Inl BadShape | Some v \<Rightarrow> Inr v)"

section \<open>Events, findings, baseline differences, vulnerabilities\<close>

text \<open>\<open>str.isdigit\<close>: the superscript digits count, the empty text does not.\<close>

definition isdigit_text :: "string \<Rightarrow> bool" where
  "isdigit_text s \<longleftrightarrow> s \<noteq> [] \<and> list_all (\<lambda>c. is_digit c \<or> (of_char c :: nat) \<in> {178, 179, 185}) s"

definition positional :: "string \<Rightarrow> bool" where
  "positional s \<longleftrightarrow> prefix ''dashboard-event:'' s \<and> isdigit_text (drop (length ''dashboard-event:'') s)"

definition event_identity :: "dict \<Rightarrow> conversion_error + dict" where
  "event_identity record =
     (let ev = evidence_of record; source_id = jopt (text_of (get_item ev ''source_id'')); rid = text_of (get_item ev ''source_record_id'') in
      if rid \<noteq> None \<and> \<not> positional (the rid)
      then Inr [(''signal_type'', JStr ''event''), (''source_id'', source_id), (''source_record_id'', jopt rid)]
      else bindR (sorted_ids record ''asset_ids'') (\<lambda>ids. Inr
        [(''signal_type'', JStr ''event''), (''source_id'', source_id), (''occurred_at'', get_item record ''occurred_at''),
         (''center_id'', get_item record ''center_id''), (''category'', get_item record ''category''), (''title'', get_item record ''title''),
         (''severity'', get_item record ''severity''), (''asset_ids'', JArr (map JStr ids))]))"

definition event_signal :: "(string \<Rightarrow> string) \<Rightarrow> string \<Rightarrow> string \<Rightarrow> dict \<Rightarrow> conversion_error + signal_input" where
  "event_signal sha digest generated_at record =
     bindR (event_identity record) (\<lambda>identity.
     bindR (sorted_ids record ''asset_ids'') (\<lambda>ids.
     let occurred = text_of (get_item record ''occurred_at''); title = text_or (text_of (get_item record ''title'')) ''Evento Cyber Vision'' in
     Inr \<lparr>si_fingerprint = fingerprint_of sha identity, si_type = ''event'', si_snapshot = digest, si_evidence = evidence_of record,
       si_severity = severity_of (get_item record ''severity''), si_title = title,
       si_description = text_or (text_of (get_item record ''description'')) title, si_occurred_at = occurred,
       si_observed_at = observed_at record generated_at occurred, si_asset_ids = ids, si_action = None, si_payload = record\<rparr>))"

definition finding_signal :: "(string \<Rightarrow> string) \<Rightarrow> string \<Rightarrow> string \<Rightarrow> string list \<Rightarrow> dict \<Rightarrow> conversion_error + signal_input" where
  "finding_signal sha digest generated_at known record =
     bindR (sorted_ids record ''entity_ids'') (\<lambda>ids.
     let ev = evidence_of record;
       identity = [(''signal_type'', JStr ''finding''), (''source_id'', get_item ev ''source_id''), (''code'', get_item record ''code''), (''entity_ids'', JArr (map JStr ids))];
       occurred = first_text (text_of (get_item record ''last_detected_at'')) (text_of (get_item record ''first_detected_at''));
       title = text_or (text_of (get_item record ''title'')) (text_or (text_of (get_item record ''code'')) ''Finding DTLab'') in
     Inr \<lparr>si_fingerprint = fingerprint_of sha identity, si_type = ''finding'', si_snapshot = digest, si_evidence = ev,
       si_severity = severity_of (get_item record ''severity''), si_title = title,
       si_description = text_or (text_of (get_item record ''description'')) title, si_occurred_at = occurred,
       si_observed_at = observed_at record generated_at occurred, si_asset_ids = filter (\<lambda>i. i \<in> set known) ids,
       si_action = text_of (get_item record ''recommended_action''), si_payload = record\<rparr>)"

definition baseline_difference_signal :: "(string \<Rightarrow> string) \<Rightarrow> string \<Rightarrow> string \<Rightarrow> dict \<Rightarrow> conversion_error + signal_input" where
  "baseline_difference_signal sha digest generated_at record =
     bindR (sorted_ids record ''asset_ids'') (\<lambda>ids.
     let ev = evidence_of record;
       identity = [(''signal_type'', JStr ''baseline_difference''), (''source_id'', get_item ev ''source_id''), (''baseline_id'', get_item record ''baseline_id''),
         (''difference_type'', get_item record ''difference_type''), (''target_id'', get_item record ''target_id''), (''key'', get_item record ''key''),
         (''value'', get_item record ''value''), (''asset_ids'', JArr (map JStr ids)), (''flow_id'', get_item record ''flow_id''), (''detected_at'', get_item record ''detected_at'')];
       occurred = text_of (get_item record ''detected_at''); difference = text_or (text_of (get_item record ''difference_type'')) ''unknown'' in
     Inr \<lparr>si_fingerprint = fingerprint_of sha identity, si_type = ''baseline_difference'', si_snapshot = digest, si_evidence = ev,
       si_severity = ''unknown'', si_title = ''Differenza baseline: '' @ difference,
       si_description = text_or (text_of (get_item record ''description'')) difference, si_occurred_at = occurred,
       si_observed_at = observed_at record generated_at occurred, si_asset_ids = ids, si_action = None, si_payload = record\<rparr>)"

definition vulnerability_signal :: "(string \<Rightarrow> string) \<Rightarrow> string \<Rightarrow> string \<Rightarrow> dict \<Rightarrow> signal_input" where
  "vulnerability_signal sha digest generated_at record =
     (let ev = evidence_of record; external = text_of (get_item record ''external_id''); rid = text_of (get_item ev ''source_record_id'');
       identity = [(''signal_type'', JStr ''vulnerability''), (''source_id'', get_item ev ''source_id''), (''asset_id'', get_item record ''asset_id''),
         (''vulnerability_id'', case first_text external rid of Some t \<Rightarrow> JStr t | None \<Rightarrow> get_item record ''id'')];
       details = entries (get_item record ''details'');
       occurred = first_text (text_of (get_item details ''matching_at'')) (text_of (get_item record ''published_at''));
       title = text_or (first_text (text_of (get_item record ''title'')) external) (''Vulnerabilit'' @ [CHR 0xE0]) in
     \<lparr>si_fingerprint = fingerprint_of sha identity, si_type = ''vulnerability'', si_snapshot = digest, si_evidence = ev,
       si_severity = severity_of (get_item record ''severity''), si_title = title,
       si_description = text_or (first_text (text_of (get_item details ''full_description'')) (text_of (get_item details ''summary''))) title,
       si_occurred_at = occurred, si_observed_at = observed_at record generated_at occurred,
       si_asset_ids = (case text_of (get_item record ''asset_id'') of None \<Rightarrow> [] | Some a \<Rightarrow> [a]),
       si_action = text_of (get_item details ''solution''), si_payload = record\<rparr>)"

section \<open>Cisco New UI records\<close>

definition scope_note :: string where
  "scope_note = ''L'' @ [CHR 0x27] @ ''ID asset appartiene al profilo Cisco New UI; nessuna associazione con un Device Classic '' @ [CHR 0xE8] @ '' stata inferita.''"

text \<open>\<open>evidence.get("notes", [])\<close>, kept where it has text, and the scope note once\<close>

definition scoped_notes :: "dict \<Rightarrow> conversion_error + string list" where
  "scoped_notes ev =
     bindR (case map_of ev ''notes'' of None \<Rightarrow> Inr [] | Some v \<Rightarrow> py_iter v) (\<lambda>vs.
     let notes = map py_str (filter (\<lambda>v. text_of v \<noteq> None) vs) in
     Inr (if scope_note \<notin> set notes then notes @ [scope_note] else notes))"

definition new_ui_evidence :: "dict \<Rightarrow> string \<Rightarrow> conversion_error + dict" where
  "new_ui_evidence source source_record_id =
     bindR (required_item source ''id'') (\<lambda>i.
     let ev = AList.update ''source_record_id'' (JStr source_record_id) (AList.update ''source_id'' (JStr (py_str i)) (evidence_of source)) in
     bindR (scoped_notes ev) (\<lambda>notes. Inr (AList.update ''notes'' (JArr (map JStr notes)) ev)))"

definition new_ui_alert_identity :: "string \<Rightarrow> string \<Rightarrow> dict \<Rightarrow> dict" where
  "new_ui_alert_identity source_id asset_id alert =
     [(''signal_type'', JStr ''new_ui_alert''), (''source_id'', JStr source_id), (''asset_id'', JStr asset_id)]
     @ (case text_of (get_item alert ''instance_id'') of
          Some i \<Rightarrow> [(''instance_id'', JStr i)]
        | None \<Rightarrow> (case text_of (get_item alert ''alert_id'') of
            Some i \<Rightarrow> [(''alert_id'', JStr i)]
          | None \<Rightarrow> [(''source_fields'', JObj [(''alert_type'', get_item alert ''alert_type''),
                (''category'', get_item alert ''category''), (''trigger'', get_item alert ''trigger'')])]))"

definition somes :: "'a option list \<Rightarrow> 'a list" where
  "somes xs = List.map_filter (\<lambda>x. x) xs"

definition middle_dot :: string where
  "middle_dot = [CHR 0x20, CHR 0xB7, CHR 0x20]"

text \<open>\<open>" \<dots> ".join(parts) or title\<close>\<close>

definition joined_or :: "string list \<Rightarrow> string \<Rightarrow> string" where
  "joined_or parts title = (let t = join middle_dot parts in if t = [] then title else t)"

definition new_ui_alert_signal ::
  "(string \<Rightarrow> string) \<Rightarrow> string \<Rightarrow> string \<Rightarrow> dict \<Rightarrow> dict \<Rightarrow> dict \<Rightarrow> conversion_error + signal_input option" where
  "new_ui_alert_signal sha digest generated_at source asset alert =
     bindR (required_item source ''id'') (\<lambda>sid.
     case text_of (get_item asset ''asset_id'') of
       None \<Rightarrow> Inr None
     | Some asset_id \<Rightarrow>
         let fingerprint = fingerprint_of sha (new_ui_alert_identity (py_str sid) asset_id alert);
           alert_id = text_of (get_item alert ''alert_id'');
           native_id = text_or (first_text (text_of (get_item alert ''instance_id'')) alert_id) fingerprint in
         bindR (new_ui_evidence source (''new-ui-alert:'' @ asset_id @ '':'' @ native_id)) (\<lambda>evidence.
         let occurred = text_of (get_item alert ''last_occurrence'');
           status = first_text (text_of (get_item alert ''status'')) (text_of (get_item asset ''query_status''));
           alert_type = text_of (get_item alert ''alert_type''); category = text_of (get_item alert ''category''); trigger = text_of (get_item alert ''trigger'');
           title = text_or (first_text trigger (first_text alert_type alert_id)) ''Alert Cisco New UI'';
           payload = [(''source_scope'', JStr ''cisco_cyber_vision_new_ui''), (''center_id'', jget (get_item source ''details'') ''center_id''),
             (''asset_id'', JStr asset_id), (''asset_name'', jopt (text_of (get_item asset ''asset_name''))), (''status'', jopt status),
             (''alert'', JObj alert), (''evidence'', JObj evidence)] in
         Inr (Some \<lparr>si_fingerprint = fingerprint, si_type = ''new_ui_alert'', si_snapshot = digest, si_evidence = evidence,
           si_severity = severity_of (get_item alert ''severity''), si_title = title,
           si_description = joined_or (rev (remdups (rev (somes [category, alert_type, trigger])))) title,
           si_occurred_at = occurred, si_observed_at = observed_at payload generated_at occurred,
           si_asset_ids = [asset_id], si_action = None, si_payload = payload\<rparr>)))"

text \<open>
  \<open>float(text)\<close> for a decimal text; \<open>None\<close> for a text that is no number, for an infinity and for NaN,
  none of which passes the range test. The bounds of \<open>cvss_severity\<close> are the decimals that round to
  the number compared with: a value up to half a unit in the last place beyond it is read as equal.
\<close>

definition float_text :: "string \<Rightarrow> rat option" where
  "float_text s =
     (let neg = prefix ''-'' s; u = (if neg \<or> prefix ''+'' s then drop 1 s else s);
          mant = takeWhile (\<lambda>c. c \<noteq> CHR ''e'' \<and> c \<noteq> CHR ''E'') u; ex = drop (length mant + 1) u;
          whole = takeWhile (\<lambda>c. c \<noteq> CHR ''.'') mant; frac = drop (length whole + 1) mant;
          digits = (\<lambda>d. if d = [] then Some (0, 0) else map_option (\<lambda>n. (n, length (filter (\<lambda>c. c \<noteq> CHR ''_'') d))) (read_grouped d))
      in if whole = [] \<and> frac = [] then None
         else case (digits whole, digits frac, if length mant = length u then Some 0 else signed_digits ex) of
           (Some (w, _), Some (f, k), Some e) \<Rightarrow>
             (let v = of_nat w + of_nat f / 10 ^ k; x = (if 0 \<le> e then v * 10 ^ nat e else v / 10 ^ nat (- e))
              in Some (if neg then - x else x))
         | _ \<Rightarrow> None)"

definition cvss_severity :: "json \<Rightarrow> string" where
  "cvss_severity v =
     (case float_text (strip (py_str v)) of
        None \<Rightarrow> ''unknown''
      | Some score \<Rightarrow>
          if \<not> (- (1 / 2 ^ 1075) \<le> score \<and> score \<le> 10 + 1 / 2 ^ 50) then ''unknown''
          else if 9 - 1 / 2 ^ 50 \<le> score then ''critical''
          else if 7 - 1 / 2 ^ 51 \<le> score then ''high''
          else if 4 - 1 / 2 ^ 52 \<le> score then ''medium''
          else if 1 / 2 ^ 1075 < score then ''low''
          else ''info'')"

definition new_ui_vulnerability_signal ::
  "(string \<Rightarrow> string) \<Rightarrow> string \<Rightarrow> string \<Rightarrow> dict \<Rightarrow> dict \<Rightarrow> dict \<Rightarrow> conversion_error + signal_input option" where
  "new_ui_vulnerability_signal sha digest generated_at source asset vulnerability =
     bindR (required_item source ''id'') (\<lambda>sid.
     case text_of (get_item asset ''asset_id'') of
       None \<Rightarrow> Inr None
     | Some asset_id \<Rightarrow>
         let cve = text_of (get_item vulnerability ''cve_id''); name = text_of (get_item vulnerability ''name'');
           origin = text_of (get_item vulnerability ''source'');
           key = (case cve of Some c \<Rightarrow> JStr c | None \<Rightarrow> JObj [(''name'', jopt name), (''source'', jopt origin)]);
           fingerprint = fingerprint_of sha [(''signal_type'', JStr ''new_ui_vulnerability''), (''source_id'', JStr (py_str sid)),
             (''asset_id'', JStr asset_id), (''vulnerability_id'', key)] in
         bindR (new_ui_evidence source (''new-ui-vulnerability:'' @ asset_id @ '':'' @ text_or cve fingerprint)) (\<lambda>evidence.
         let title = text_or (first_text name cve) (''Vulnerabilit'' @ [CHR 0xE0] @ '' Cisco New UI'');
           score = (\<lambda>label k. if text_of (get_item vulnerability k) = None then None else Some (label @ py_str (get_item vulnerability k)));
           payload = [(''source_scope'', JStr ''cisco_cyber_vision_new_ui''), (''center_id'', jget (get_item source ''details'') ''center_id''),
             (''asset_id'', JStr asset_id), (''asset_name'', jopt (text_of (get_item asset ''asset_name''))),
             (''vulnerability'', JObj vulnerability), (''evidence'', JObj evidence)] in
         Inr (Some \<lparr>si_fingerprint = fingerprint, si_type = ''new_ui_vulnerability'', si_snapshot = digest, si_evidence = evidence,
           si_severity = cvss_severity (get_item vulnerability ''cvss_score''), si_title = title,
           si_description = joined_or (somes [cve, map_option ((@) ''Fonte '') origin, score ''CVSS '' ''cvss_score'', score ''CSRS '' ''csrs_score'']) title,
           si_occurred_at = None, si_observed_at = observed_at payload generated_at None,
           si_asset_ids = [asset_id], si_action = None, si_payload = payload\<rparr>)))"

section \<open>Overlapping queries\<close>

text \<open>The casefolded status; no word it is compared with holds a character whose folding differs from \<open>lower\<close>.\<close>

definition alert_status_rank :: "signal_input \<Rightarrow> nat" where
  "alert_status_rank s = (let status = lower (text_or (text_of (get_item (si_payload s) ''status'')) []) in
     if status = ''active'' then 3 else if status = ''muted'' then 2 else if status = ''cleared'' then 1 else 2)"

definition prefer_alert :: "signal_input option \<Rightarrow> (string \<times> signal_input) list \<Rightarrow> (string \<times> signal_input) list" where
  "prefer_alert found alerts = (case found of None \<Rightarrow> alerts
     | Some s \<Rightarrow> (case map_of alerts (si_fingerprint s) of
          None \<Rightarrow> AList.update (si_fingerprint s) s alerts
        | Some old \<Rightarrow> if alert_status_rank old < alert_status_rank s then AList.update (si_fingerprint s) s alerts else alerts))"

definition first_vulnerability :: "signal_input option \<Rightarrow> (string \<times> signal_input) list \<Rightarrow> (string \<times> signal_input) list" where
  "first_vulnerability found known = (case found of None \<Rightarrow> known
     | Some s \<Rightarrow> if map_of known (si_fingerprint s) = None then AList.update (si_fingerprint s) s known else known)"

fun foldR :: "('b \<Rightarrow> 'a \<Rightarrow> 'e + 'b) \<Rightarrow> 'b \<Rightarrow> 'a list \<Rightarrow> 'e + 'b" where
  "foldR f acc [] = Inr acc"
| "foldR f acc (x # xs) = bindR (f acc x) (\<lambda>acc'. foldR f acc' xs)"

text \<open>The records under a key of every asset under a key of the details; what has another shape is skipped.\<close>

definition dicts_of :: "json \<Rightarrow> dict list" where
  "dicts_of v = (case v of JArr xs \<Rightarrow> map entries (filter is_obj xs) | _ \<Rightarrow> [])"

definition detail_records :: "dict \<Rightarrow> string \<Rightarrow> string \<Rightarrow> (dict \<times> dict) list" where
  "detail_records details assets_key records_key =
     concat (map (\<lambda>asset. map (Pair asset) (dicts_of (get_item asset records_key))) (dicts_of (get_item details assets_key)))"

definition new_ui_signals :: "(string \<Rightarrow> string) \<Rightarrow> string \<Rightarrow> string \<Rightarrow> dict \<Rightarrow> conversion_error + signal_input list" where
  "new_ui_signals sha digest generated_at source =
     (case get_item source ''details'' of
        JObj details \<Rightarrow>
          bindR (foldR (\<lambda>alerts (asset, alert). bindR (new_ui_alert_signal sha digest generated_at source asset alert)
              (\<lambda>found. Inr (prefer_alert found alerts))) [] (detail_records details ''alert_assets'' ''alerts'')) (\<lambda>alerts.
          bindR (foldR (\<lambda>known (asset, vulnerability). bindR (new_ui_vulnerability_signal sha digest generated_at source asset vulnerability)
              (\<lambda>found. Inr (first_vulnerability found known))) [] (detail_records details ''vulnerability_assets'' ''vulnerabilities'')) (\<lambda>known.
          Inr (map snd alerts @ map snd known)))
      | _ \<Rightarrow> Inr [])"

section \<open>Snapshots\<close>

definition snapshot_records :: "json \<Rightarrow> string \<Rightarrow> conversion_error + dict list" where
  "snapshot_records snapshot k =
     bindR (required_item (entries snapshot) k) (\<lambda>v. bindR (py_iter v) (mapR as_dict))"

definition source_signals :: "(string \<Rightarrow> string) \<Rightarrow> string \<Rightarrow> string \<Rightarrow> dict \<Rightarrow> conversion_error + signal_input list" where
  "source_signals sha digest generated_at source =
     (if get_item source ''type'' \<noteq> JStr ''cisco_cyber_vision_new_ui'' then Inr [] else new_ui_signals sha digest generated_at source)"

definition signals_from_snapshot ::
  "(string \<Rightarrow> string) \<Rightarrow> (json \<Rightarrow> string list) \<Rightarrow> json \<Rightarrow> string option \<Rightarrow> conversion_error + string \<times> signal_input list" where
  "signals_from_snapshot sha schema snapshot expected =
     (case snapshot_sha256 sha schema snapshot of
        Inl ps \<Rightarrow> Inl (InvalidContract ps)
      | Inr digest \<Rightarrow>
          if expected \<noteq> None \<and> lower (the expected) \<noteq> digest then Inl (ShaMismatch (lower (the expected)) digest)
          else
            bindR (required_item (entries snapshot) ''generated_at'') (\<lambda>g. let generated_at = py_str g in
            bindR (snapshot_records snapshot ''assets'') (\<lambda>assets.
            bindR (mapR (\<lambda>a. bindR (required_item a ''id'') (\<lambda>i. Inr (py_str i))) assets) (\<lambda>known.
            bindR (bindR (snapshot_records snapshot ''events'') (mapR (event_signal sha digest generated_at))) (\<lambda>events.
            bindR (bindR (snapshot_records snapshot ''findings'') (mapR (finding_signal sha digest generated_at known))) (\<lambda>findings.
            bindR (bindR (snapshot_records snapshot ''baseline_differences'') (mapR (baseline_difference_signal sha digest generated_at))) (\<lambda>differences.
            bindR (bindR (snapshot_records snapshot ''vulnerabilities'') (mapR (\<lambda>r. Inr (vulnerability_signal sha digest generated_at r)))) (\<lambda>vulnerabilities.
            bindR (bindR (snapshot_records snapshot ''sources'') (mapR (source_signals sha digest generated_at))) (\<lambda>sources.
            Inr (digest, events @ findings @ differences @ vulnerabilities @ concat sources))))))))))"

section \<open>Ingest\<close>

record snapshot_ingest_result =
  sr_sha256 :: string
  sr_signals_seen :: nat
  sr_signals_created :: nat
  sr_occurrences_created :: nat

text \<open>A call of the ticket store, whose exceptions pass through\<close>

definition of_store :: "'a desk \<Rightarrow> (ticket_db, conversion_error, 'a) act" where
  "of_store m = (\<lambda>db. case m db of (Inl e, db') \<Rightarrow> (Inl (StoreFault e), db') | (Inr x, db') \<Rightarrow> (Inr x, db'))"

definition ingest_snapshot ::
  "desk_env \<Rightarrow> (json \<Rightarrow> string list) \<Rightarrow> json \<Rightarrow> string option \<Rightarrow> (ticket_db, conversion_error, snapshot_ingest_result) act" where
  "ingest_snapshot env schema snapshot expected =
     bindE (lift_res (signals_from_snapshot (en_sha env) schema snapshot expected)) (\<lambda>(digest, signals).
     bindE (lift_res (required_item (entries snapshot) ''snapshot_id'')) (\<lambda>sid.
     bindE (lift_res (required_item (entries snapshot) ''generated_at'')) (\<lambda>g.
     bindE (of_store (ingest_snapshot_signals env signals digest (py_str sid) (py_str g))) (\<lambda>stats.
     ret \<lparr>sr_sha256 = digest, sr_signals_seen = signals_seen stats, sr_signals_created = signals_created stats,
       sr_occurrences_created = occurrences_created stats\<rparr>))))"

end
