(* ===== verification/SnapshotStore.thy ===== *)
theory SnapshotStore
  imports Contract
begin

text \<open>
  \<open>snapshot_store.py\<close>: the content-addressed store of snapshots with its trusted pointers. A
  directory maps file names to contents; every file carries the clock of its last write as its
  modification time. \<open>_atomic_write\<close> and \<open>unlink\<close> either happen or raise \<open>OSError\<close>: the parameter
  \<open>sn_fails\<close> says which of the numbered file operations fail, so a run that is cut short after any
  write is the run in which the next operation fails.
\<close>

datatype store_error =
    BadManifestJson string | ManifestTypeError | IncompleteManifest string | ForeignManifest string
  | BadObjectName string | IncoherentManifest string | UnknownPointer string | NoPointer string | NotRealOnly
  | InvalidSnapshot "contract_problem list" | CorruptObject | CorruptArchive | NaivePublication | NoObject string
  | WrongSize string | WrongHash string | UnreadableSnapshot string | OtherSnapshotId string | BadArchiveName | NoArchive
  | WrongArchiveHash | NoSnapshot "store_error list" | RetainTooSmall | OsError

record snapshot_file =
  sf_content :: string
  sf_mtime :: nat

type_synonym directory = "(string \<times> snapshot_file) list"

record snapshot_store =
  so_objects :: directory
  so_manifests :: directory
  so_pointers :: directory
  so_clock :: nat

record store_env =
  sn_sha :: "string \<Rightarrow> string"
  sn_schema :: "json \<Rightarrow> string list"
  sn_fails :: "nat \<Rightarrow> bool"
  sn_demo :: bool

type_synonym 'a store_act = "(snapshot_store, store_error, 'a) act"

definition pointer_names :: "string list" where
  "pointer_names = [''current'', ''last_known_good'', ''previous'']"

text \<open>\<open>^[a-f0-9]{64}\.json$\<close>, fully matched\<close>

definition object_file_name :: "string \<Rightarrow> bool" where
  "object_file_name s \<longleftrightarrow> is_sha256_hex (take 64 s) \<and> drop 64 s = ''.json''"

section \<open>Manifests\<close>

definition required_members :: "string list" where
  "required_members = [''byte_length'', ''collector_version'', ''contract_version'', ''manifest_version'', ''object_name'',
     ''published_at'', ''sha256'', ''snapshot_id'', ''trusted_origin'']"

text \<open>\<open>set(manifest)\<close>: the keys of an object, the elements of a list, the characters of a string.\<close>

definition manifest_members :: "json \<Rightarrow> string set option" where
  "manifest_members m = (case m of
     JObj kvs \<Rightarrow> Some (fst ` set kvs)
   | JArr xs \<Rightarrow> if list_ex (\<lambda>x. is_obj x \<or> (case x of JArr _ \<Rightarrow> True | _ \<Rightarrow> False)) xs then None
               else Some (set (concat (map (\<lambda>x. case x of JStr s \<Rightarrow> [s] | _ \<Rightarrow> []) xs)))
   | JStr s \<Rightarrow> Some ((\<lambda>c. [c]) ` set s)
   | _ \<Rightarrow> None)"

definition decode_manifest :: "string \<Rightarrow> string \<Rightarrow> store_error + json" where
  "decode_manifest content label =
     (case Option.bind (utf8_decode content) loads of
        None \<Rightarrow> Inl (BadManifestJson label)
      | Some m \<Rightarrow>
          (case manifest_members m of
             None \<Rightarrow> Inl ManifestTypeError
           | Some members \<Rightarrow>
               if \<not> set required_members \<subseteq> members then Inl (IncompleteManifest label)
               else if \<not> is_obj m then Inl ManifestTypeError
               else if jget m ''trusted_origin'' \<noteq> JStr ''dtlab_collector'' then Inl (ForeignManifest label)
               else if \<not> object_file_name (py_str (jget m ''object_name'')) then Inl (BadObjectName label)
               else if jget m ''object_name'' \<noteq> JStr (py_str (jget m ''sha256'') @ ''.json'') then Inl (IncoherentManifest label)
               else Inr m))"

definition manifest_bytes :: "json \<Rightarrow> string" where
  "manifest_bytes m = utf8 (dumps False m @ [CHR 0x0A])"

definition object_of :: "json \<Rightarrow> string" where
  "object_of m = py_str (jget m ''object_name'')"

section \<open>File operations\<close>

definition look :: "directory \<Rightarrow> string \<Rightarrow> string option" where
  "look d name = map_option sf_content (map_of d name)"

definition file_op :: "store_env \<Rightarrow> (nat \<Rightarrow> snapshot_store \<Rightarrow> snapshot_store) \<Rightarrow> unit store_act" where
  "file_op E f = (\<lambda>st. let n = so_clock st in
     if sn_fails E n then (Inl OsError, st\<lparr>so_clock := Suc n\<rparr>) else (Inr (), (f n st)\<lparr>so_clock := Suc n\<rparr>))"

definition put_file :: "string \<Rightarrow> string \<Rightarrow> nat \<Rightarrow> directory \<Rightarrow> directory" where
  "put_file name content n d = AList.update name \<lparr>sf_content = content, sf_mtime = n\<rparr> d"

definition write_object :: "store_env \<Rightarrow> string \<Rightarrow> string \<Rightarrow> unit store_act" where
  "write_object E name content = file_op E (\<lambda>n st. st\<lparr>so_objects := put_file name content n (so_objects st)\<rparr>)"

definition write_archive :: "store_env \<Rightarrow> string \<Rightarrow> string \<Rightarrow> unit store_act" where
  "write_archive E name content = file_op E (\<lambda>n st. st\<lparr>so_manifests := put_file name content n (so_manifests st)\<rparr>)"

definition write_pointer :: "store_env \<Rightarrow> string \<Rightarrow> json \<Rightarrow> unit store_act" where
  "write_pointer E pointer m = bindE (guardE (pointer \<in> set pointer_names) (UnknownPointer pointer)) (\<lambda>_.
     file_op E (\<lambda>n st. st\<lparr>so_pointers := put_file pointer (manifest_bytes m) n (so_pointers st)\<rparr>))"

section \<open>Reading\<close>

definition read_manifest :: "string \<Rightarrow> snapshot_store \<Rightarrow> store_error + json" where
  "read_manifest pointer st =
     (if pointer \<notin> set pointer_names then Inl (UnknownPointer pointer)
      else case look (so_pointers st) pointer of
        None \<Rightarrow> Inl (NoPointer pointer) | Some content \<Rightarrow> decode_manifest content pointer)"

text \<open>\<open>len(content) != manifest["byte_length"]\<close>\<close>

definition same_length :: "nat \<Rightarrow> json \<Rightarrow> bool" where
  "same_length n v \<longleftrightarrow> (case v of JBool b \<Rightarrow> n = (if b then 1 else 0) | _ \<Rightarrow> number_value v = Some (of_nat n))"

text \<open>Objects that differ in the order of their members only are equal in Python, hence \<open>canon\<close>.\<close>

definition load_manifest :: "store_env \<Rightarrow> json \<Rightarrow> string \<Rightarrow> snapshot_store \<Rightarrow> store_error + json" where
  "load_manifest E m pointer st = (case look (so_objects st) (object_of m) of
     None \<Rightarrow> Inl (NoObject pointer)
   | Some content \<Rightarrow>
       if \<not> same_length (length content) (jget m ''byte_length'') then Inl (WrongSize pointer)
       else if JStr (sn_sha E content) \<noteq> jget m ''sha256'' then Inl (WrongHash pointer)
       else case Option.bind (utf8_decode content) loads of
         None \<Rightarrow> Inl (UnreadableSnapshot pointer)
       | Some snapshot \<Rightarrow>
           (case validate_snapshot (sn_schema E) snapshot of
              Inl _ \<Rightarrow> Inl (UnreadableSnapshot pointer)
            | Inr _ \<Rightarrow> if canon (jget snapshot ''snapshot_id'') \<noteq> canon (jget m ''snapshot_id'') then Inl (OtherSnapshotId pointer) else Inr snapshot))"

definition load_pointer :: "store_env \<Rightarrow> string \<Rightarrow> snapshot_store \<Rightarrow> store_error + json \<times> json" where
  "load_pointer E pointer st = bindR (read_manifest pointer st) (\<lambda>m. bindR (load_manifest E m pointer st) (\<lambda>s. Inr (s, m)))"

definition probe_size :: "json \<Rightarrow> string \<Rightarrow> snapshot_store \<Rightarrow> store_error + json" where
  "probe_size m label st = (case look (so_objects st) (object_of m) of
     None \<Rightarrow> Inl (NoObject label)
   | Some content \<Rightarrow> if \<not> same_length (length content) (jget m ''byte_length'') then Inl (WrongSize label) else Inr m)"

definition probe_manifest :: "string \<Rightarrow> snapshot_store \<Rightarrow> store_error + json" where
  "probe_manifest pointer st = bindR (read_manifest pointer st) (\<lambda>m. probe_size m pointer st)"

definition archived_manifest_names :: "snapshot_store \<Rightarrow> string list" where
  "archived_manifest_names st = filter object_file_name (sort (map fst (so_manifests st)))"

text \<open>\<open>path.name.removesuffix(".json")\<close>\<close>

definition without_json :: "string \<Rightarrow> string" where
  "without_json name = (if suffix ''.json'' name then take (length name - 5) name else name)"

definition read_archived_manifest :: "store_env \<Rightarrow> string \<Rightarrow> snapshot_store \<Rightarrow> store_error + json" where
  "read_archived_manifest E name st = (case look (so_manifests st) name of
     None \<Rightarrow> Inl NoArchive
   | Some content \<Rightarrow> if sn_sha E content \<noteq> without_json name then Inl WrongArchiveHash else decode_manifest content name)"

definition load_archive :: "store_env \<Rightarrow> string \<Rightarrow> snapshot_store \<Rightarrow> store_error + json \<times> json" where
  "load_archive E name st = (if \<not> object_file_name name then Inl BadArchiveName else
     bindR (read_archived_manifest E name st) (\<lambda>m. bindR (load_manifest E m (''archive:'' @ name) st) (\<lambda>s. Inr (s, m))))"

definition probe_archive_manifest :: "store_env \<Rightarrow> string \<Rightarrow> snapshot_store \<Rightarrow> store_error + json" where
  "probe_archive_manifest E name st = (if \<not> object_file_name name then Inl BadArchiveName else
     bindR (read_archived_manifest E name st) (\<lambda>m. probe_size m name st))"

text \<open>Only \<open>SnapshotStoreError\<close> is caught; a \<open>TypeError\<close> is not.\<close>

fun load_first :: "store_env \<Rightarrow> store_error list \<Rightarrow> string list \<Rightarrow> snapshot_store \<Rightarrow> store_error + json \<times> json" where
  "load_first E errors [] st = Inl (NoSnapshot (rev errors))"
| "load_first E errors (p # ps) st = (case load_pointer E p st of
     Inr r \<Rightarrow> Inr r
   | Inl e \<Rightarrow> if e = ManifestTypeError then Inl e else load_first E (e # errors) ps st)"

definition load_best_available :: "store_env \<Rightarrow> snapshot_store \<Rightarrow> store_error + json \<times> json" where
  "load_best_available E st = load_first E [] pointer_names st"

section \<open>Publishing\<close>

definition manifest_of :: "json \<Rightarrow> string \<Rightarrow> nat \<Rightarrow> int \<Rightarrow> json" where
  "manifest_of snapshot digest n published =
     JObj [(''manifest_version'', JStr ''1.0''), (''contract_version'', jget snapshot ''schema_version''),
       (''snapshot_id'', jget snapshot ''snapshot_id''), (''sha256'', JStr digest), (''object_name'', JStr (digest @ ''.json'')),
       (''byte_length'', JInt (int n)), (''published_at'', JStr (utc_text published)),
       (''trusted_origin'', JStr ''dtlab_collector''), (''collector_version'', jget (jget snapshot ''sync'') ''collector_version'')]"

text \<open>An immutable file is written once; an existing one must have the same content.\<close>

definition write_once :: "(snapshot_store \<Rightarrow> directory) \<Rightarrow> (string \<Rightarrow> string \<Rightarrow> unit store_act) \<Rightarrow> store_error \<Rightarrow> string \<Rightarrow> string \<Rightarrow> unit store_act" where
  "write_once dir write corrupt name content = (\<lambda>st. case look (dir st) name of
     Some existing \<Rightarrow> if existing \<noteq> content then (Inl corrupt, st) else (Inr (), st)
   | None \<Rightarrow> write name content st)"

text \<open>\<open>try: ... except SnapshotStoreError: None\<close>\<close>

definition store_try :: "(snapshot_store \<Rightarrow> store_error + 'a) \<Rightarrow> 'a option store_act" where
  "store_try f = (\<lambda>st. case f st of
     Inr x \<Rightarrow> (Inr (Some x), st) | Inl e \<Rightarrow> (if e = ManifestTypeError then Inl e else Inr None, st))"

definition publish :: "store_env \<Rightarrow> json \<Rightarrow> pydt \<Rightarrow> json store_act" where
  "publish E snapshot published_at =
     bindE (lift_res (case validate_snapshot (sn_schema E) snapshot of Inl ps \<Rightarrow> Inl (InvalidSnapshot ps) | Inr s \<Rightarrow> Inr s)) (\<lambda>_.
     bindE (guardE (sn_demo E \<or> jget (jget snapshot ''sync'') ''publication_mode'' = JStr ''real_only'') NotRealOnly) (\<lambda>_.
     let content = snapshot_bytes snapshot; digest = sn_sha E content in
     bindE (write_once so_objects (write_object E) CorruptObject (digest @ ''.json'') content) (\<lambda>_.
     bindE (lift_res (case published_at of Naive _ \<Rightarrow> Inl NaivePublication | Aware t \<Rightarrow> Inr t)) (\<lambda>published.
     let m = manifest_of snapshot digest (length content) published in
     bindE (write_once so_manifests (write_archive E) CorruptArchive (sn_sha E (manifest_bytes m) @ ''.json'') (manifest_bytes m)) (\<lambda>_.
     bindE (store_try (read_manifest ''current'')) (\<lambda>previous.
     bindE (case previous of
         None \<Rightarrow> ret ()
       | Some p \<Rightarrow> if jget p ''sha256'' \<noteq> JStr digest then write_pointer E ''previous'' p else ret ()) (\<lambda>_.
     bindE (write_pointer E ''current'' m) (\<lambda>_.
     bindE (store_try (load_pointer E ''last_known_good'')) (\<lambda>good.
     bindE (if jget (jget snapshot ''sync'') ''state'' = JStr ''fresh'' \<or> good = None then write_pointer E ''last_known_good'' m else ret ()) (\<lambda>_.
     ret m))))))))))"

section \<open>Pruning\<close>

definition protected_objects :: "snapshot_store \<Rightarrow> store_error + string list" where
  "protected_objects st = foldl (\<lambda>acc p. bindR acc (\<lambda>names. case read_manifest p st of
     Inr m \<Rightarrow> Inr (object_of m # names) | Inl e \<Rightarrow> if e = ManifestTypeError then Inl e else Inr names)) (Inr []) pointer_names"

text \<open>Newest first; equal times keep the order of the listing, as a stable reverse sort does.\<close>

definition newest_first :: "directory \<Rightarrow> directory" where
  "newest_first d = sort_key (\<lambda>(_, f). - int (sf_mtime f)) d"

definition unlink_archive :: "store_env \<Rightarrow> string \<Rightarrow> unit store_act" where
  "unlink_archive E name = file_op E (\<lambda>n st. st\<lparr>so_manifests := AList.delete name (so_manifests st)\<rparr>)"

definition unlink_object :: "store_env \<Rightarrow> string \<Rightarrow> unit store_act" where
  "unlink_object E name = file_op E (\<lambda>n st. st\<lparr>so_objects := AList.delete name (so_objects st)\<rparr>)"

definition prune_archive :: "store_env \<Rightarrow> string list \<Rightarrow> string list \<Rightarrow> string \<Rightarrow> string list store_act" where
  "prune_archive E keep removed name =
     (if \<not> object_file_name name then ret removed else
      bindE (\<lambda>st. lift_res (read_archived_manifest E name st) st) (\<lambda>m.
      bindE (gets (\<lambda>st. look (so_objects st) (object_of m))) (\<lambda>present.
      if object_of m \<notin> set keep \<or> present = None
      then bindE (unlink_archive E name) (\<lambda>_. ret (removed @ [name])) else ret removed)))"

definition prune_object :: "store_env \<Rightarrow> string list \<Rightarrow> string list \<Rightarrow> string \<Rightarrow> string list store_act" where
  "prune_object E keep removed name =
     (if name \<notin> set keep then bindE (unlink_object E name) (\<lambda>_. ret (removed @ [name])) else ret removed)"

definition prune_objects :: "store_env \<Rightarrow> int \<Rightarrow> string list store_act" where
  "prune_objects E retain =
     bindE (guardE (3 \<le> retain) RetainTooSmall) (\<lambda>_.
     bindE (\<lambda>st. lift_res (protected_objects st) st) (\<lambda>protected.
     bindE (gets (\<lambda>st. map fst (newest_first (filter (\<lambda>(name, _). object_file_name name) (so_objects st))))) (\<lambda>objects.
     let keep = protected @ take (nat retain) objects in
     bindE (gets (\<lambda>st. sort (map fst (so_manifests st)))) (\<lambda>archives.
     bindE (foldE (prune_archive E keep) [] archives) (\<lambda>removed.
     foldE (prune_object E keep) removed objects)))))"

end
