(* ===== verification/IngestWorker.thy ===== *)
theory IngestWorker
  imports SignalConversion SnapshotStore
begin

text \<open>
  \<open>ticket_ingest_worker.py\<close>: the run that ingests every snapshot of the store, archived or current,
  that the ticket store does not know yet. One run reads a fixed snapshot store; its calls of the
  ticket store each have their own surroundings (clock, drawn identifiers), numbered in order.
\<close>

datatype worker_error = SnapshotProblem store_error | IngestProblem conversion_error

type_synonym stored_snapshot = "json \<times> json"

record candidate_scan =
  cs_candidates :: "(string \<times> stored_snapshot) list"
  cs_errors :: "(string \<times> store_error) list"
  cs_seen :: "string list"
  cs_already :: nat

definition manifest_sha :: "json \<Rightarrow> string" where
  "manifest_sha m = py_str (jget m ''sha256'')"

text \<open>A \<open>SnapshotStoreError\<close> is noted, a \<open>TypeError\<close> ends the run.\<close>

definition note_error :: "string \<Rightarrow> store_error \<Rightarrow> candidate_scan \<Rightarrow> worker_error + candidate_scan" where
  "note_error name e acc = (if e = ManifestTypeError then Inl (SnapshotProblem e) else Inr (acc\<lparr>cs_errors := cs_errors acc @ [(name, e)]\<rparr>))"

definition scan_archive :: "store_env \<Rightarrow> snapshot_store \<Rightarrow> string list \<Rightarrow> candidate_scan \<Rightarrow> string \<Rightarrow> worker_error + candidate_scan" where
  "scan_archive E st ingested_digests acc name =
     (case probe_archive_manifest E name st of
        Inl e \<Rightarrow> note_error name e acc
      | Inr m \<Rightarrow> let digest = manifest_sha m in
          if digest \<in> set (cs_seen acc) then Inr acc
          else let acc' = acc\<lparr>cs_seen := digest # cs_seen acc\<rparr> in
            if digest \<in> set ingested_digests then Inr (acc'\<lparr>cs_already := Suc (cs_already acc)\<rparr>)
            else (case load_archive E name st of
                Inl e \<Rightarrow> note_error name e acc'
              | Inr stored \<Rightarrow> Inr (acc'\<lparr>cs_candidates := AList.update digest stored (cs_candidates acc)\<rparr>)))"

definition add_current :: "string list \<Rightarrow> stored_snapshot \<Rightarrow> candidate_scan \<Rightarrow> candidate_scan" where
  "add_current ingested_digests current acc = (let digest = manifest_sha (snd current) in
     if digest \<notin> set ingested_digests
     then if map_of (cs_candidates acc) digest = None then acc\<lparr>cs_candidates := AList.update digest current (cs_candidates acc)\<rparr> else acc
     else if digest \<notin> set (cs_seen acc) then acc\<lparr>cs_already := Suc (cs_already acc)\<rparr> else acc)"

text \<open>\<open>sorted(..., key=lambda stored: (generated_at, sha256))\<close>: a stable sort by the second key, then by the first\<close>

definition generated_key :: "stored_snapshot \<Rightarrow> worker_error + string" where
  "generated_key stored = (case required_item (entries (fst stored)) ''generated_at'' of Inl e \<Rightarrow> Inl (IngestProblem e) | Inr g \<Rightarrow> Inr (py_str g))"

definition ordered_candidates :: "stored_snapshot list \<Rightarrow> worker_error + stored_snapshot list" where
  "ordered_candidates xs = bindR (mapR (\<lambda>x. bindR (generated_key x) (\<lambda>g. Inr (g, x))) xs) (\<lambda>keyed.
     Inr (map snd (sort_key fst (sort_key (\<lambda>(_, x). manifest_sha (snd x)) keyed))))"

definition load_candidates ::
  "store_env \<Rightarrow> snapshot_store \<Rightarrow> string list \<Rightarrow> worker_error + stored_snapshot list \<times> (string \<times> store_error) list \<times> stored_snapshot \<times> nat" where
  "load_candidates E st ingested_digests =
     bindR (foldR (scan_archive E st ingested_digests) \<lparr>cs_candidates = [], cs_errors = [], cs_seen = [], cs_already = 0\<rparr> (archived_manifest_names st)) (\<lambda>scan.
     bindR (case load_pointer E ''current'' st of Inl e \<Rightarrow> Inl (SnapshotProblem e) | Inr c \<Rightarrow> Inr c) (\<lambda>current.
     let scan' = add_current ingested_digests current scan in
     bindR (ordered_candidates (map snd (cs_candidates scan'))) (\<lambda>ordered.
     Inr (ordered, cs_errors scan', current, cs_already scan'))))"

record worker_run_result =
  wr_archives_seen :: nat
  wr_snapshots_loaded :: nat
  wr_snapshots_ingested :: nat
  wr_already_ingested :: nat
  wr_signals_seen :: nat
  wr_signals_created :: nat
  wr_observations_created :: nat
  wr_archive_errors :: "(string \<times> store_error) list"
  wr_current_sha256 :: string

record ingest_totals =
  it_ingested :: nat
  it_already :: nat
  it_seen :: nat
  it_created :: nat
  it_observations :: nat

type_synonym 'a work = "(ticket_db, worker_error, 'a) act"

definition of_ingest :: "(ticket_db, conversion_error, 'a) act \<Rightarrow> 'a work" where
  "of_ingest m = (\<lambda>db. case m db of (Inl e, db') \<Rightarrow> (Inl (IngestProblem e), db') | (Inr x, db') \<Rightarrow> (Inr x, db'))"

definition ingest_candidate :: "store_env \<Rightarrow> (nat \<Rightarrow> desk_env) \<Rightarrow> ingest_totals \<Rightarrow> nat \<times> stored_snapshot \<Rightarrow> ingest_totals work" where
  "ingest_candidate E envs totals numbered = (let digest = manifest_sha (snd (snd numbered)) in
     bindE (of_ingest (of_store (snapshot_ingested digest))) (\<lambda>known.
     if known then ret (totals\<lparr>it_already := Suc (it_already totals)\<rparr>)
     else
       bindE (of_ingest (ingest_snapshot (envs (fst numbered)) (sn_schema E) (fst (snd numbered)) (Some digest))) (\<lambda>r.
       ret (totals\<lparr>it_ingested := Suc (it_ingested totals), it_seen := it_seen totals + sr_signals_seen r,
         it_created := it_created totals + sr_signals_created r, it_observations := it_observations totals + sr_occurrences_created r\<rparr>))))"

definition ingest_available_snapshots :: "store_env \<Rightarrow> (nat \<Rightarrow> desk_env) \<Rightarrow> snapshot_store \<Rightarrow> worker_run_result work" where
  "ingest_available_snapshots E envs st =
     bindE (of_ingest (of_store (list_snapshot_ingests 10000))) (\<lambda>rows.
     bindE (lift_res (load_candidates E st (map ig_snapshot rows))) (\<lambda>(candidates, errors, current, already).
     bindE (foldE (ingest_candidate E envs) \<lparr>it_ingested = 0, it_already = already, it_seen = 0, it_created = 0, it_observations = 0\<rparr>
        (enumerate 0 candidates)) (\<lambda>totals.
     ret \<lparr>wr_archives_seen = length (archived_manifest_names st), wr_snapshots_loaded = length candidates,
       wr_snapshots_ingested = it_ingested totals, wr_already_ingested = it_already totals, wr_signals_seen = it_seen totals,
       wr_signals_created = it_created totals, wr_observations_created = it_observations totals, wr_archive_errors = errors,
       wr_current_sha256 = manifest_sha (snd current)\<rparr>)))"

end
