(* ===== verification/ContractFacts.thy ===== *)
theory ContractFacts
  imports Contract
begin

text \<open>
  Validation does not depend on the order in which a document lists its members, provided the schema
  validator does not: the basis on which a stored snapshot is as valid as the published one.
\<close>

lemma list_of_canon: "json_ok d \<Longrightarrow> list_of (canon d) k = map canon (list_of d k)"
  by (cases "jget d k") (simp_all add: list_of_def jget_canon_ok)

lemma canon_JStr [simp]: "canon v = JStr s \<longleftrightarrow> v = JStr s" "JStr s = canon v \<longleftrightarrow> v = JStr s"
  by (cases v; auto)+

lemma canon_JBool [simp]: "canon v = JBool b \<longleftrightarrow> v = JBool b"
  by (cases v) auto

lemma case_JStr_canon [simp]: "(case canon v of JStr s \<Rightarrow> f s | _ \<Rightarrow> d) = (case v of JStr s \<Rightarrow> f s | _ \<Rightarrow> d)"
  by (cases v) auto

lemma id_of_canon: "json_ok r \<Longrightarrow> id_of (canon r) = id_of r"
  by (simp add: id_of_def jget_canon_ok)

lemma missing_canon [simp]: "missing_reference p (canon v) known = missing_reference p v known"
  by (simp add: missing_reference_def)

lemma number_canon [simp]: "number_value (canon v) = number_value v"
  by (cases v) (simp_all add: number_value_def)

lemma instant_canon [simp]: "parse_instant (canon v) = parse_instant v"
  by (simp add: parse_instant_def)

lemma json_ok_list: "json_ok d \<Longrightarrow> x \<in> set (list_of d k) \<Longrightarrow> json_ok x"
  using json_ok_jget [of d k] by (cases "jget d k") (auto simp: list_of_def)

lemma scan_canon: "\<forall>r \<in> set rs. json_ok r \<Longrightarrow> scan_ids c i seen (map canon rs) = scan_ids c i seen rs"
  by (induction rs arbitrary: i seen) (auto simp: id_of_canon split: option.split)

lemma unique_ids_canon: "json_ok s \<Longrightarrow> unique_ids (canon s) = unique_ids s"
  by (simp add: unique_ids_def list_of_canon scan_canon json_ok_list cong: map_cong)

text \<open>A traversal with indices over the canonical list.\<close>

lemma indexed_canon:
  assumes "\<And>i x. x \<in> set xs \<Longrightarrow> f i (canon x) = g i x"
  shows "concat (map (\<lambda>(i, x). f i x) (enumerate n (map canon xs))) = concat (map (\<lambda>(i, x). g i x) (enumerate n xs))"
  using assms by (induction xs arbitrary: n) simp_all

lemma indexed_Nil:
  assumes "\<And>i x. x \<in> set xs \<Longrightarrow> f i x = [] \<longleftrightarrow> P x"
  shows "concat (map (\<lambda>(i, x). f i x) (enumerate n xs)) = [] \<longleftrightarrow> (\<forall>x \<in> set xs. P x)"
  using assms by (induction xs arbitrary: n) simp_all

lemma indexed_canon_Nil:
  assumes "\<And>i x. x \<in> set xs \<Longrightarrow> f i (canon x) = [] \<longleftrightarrow> f i x = []"
  shows "concat (map (\<lambda>(i, x). f i x) (enumerate n (map canon xs))) = [] \<longleftrightarrow> concat (map (\<lambda>(i, x). f i x) (enumerate n xs)) = []"
  using assms by (induction xs arbitrary: n) simp_all

lemmas canon_lists = list_of_canon jget_canon_ok json_ok_list json_ok_jget

lemma inner_canon:
  assumes "json_ok r"
  shows "concat (map (\<lambda>(f, known). missing_reference (p f) (jget (canon r) f) (k known)) ms)
      = concat (map (\<lambda>(f, known). missing_reference (p f) (jget r f) (k known)) ms)"
    "concat (map (\<lambda>(j, v). missing_reference (h j) v known) (enumerate 0 (list_of (canon r) f)))
      = concat (map (\<lambda>(j, v). missing_reference (h j) v known) (enumerate 0 (list_of r f)))"
  unfolding list_of_canon [OF assms] by (simp_all add: jget_canon_ok [OF assms] indexed_canon)

lemma nic_canon:
  assumes "json_ok r"
  shows "concat (map (\<lambda>(j, nic). missing_reference (h j) (jget nic m) known) (enumerate 0 (list_of (canon r) f)))
      = concat (map (\<lambda>(j, nic). missing_reference (h j) (jget nic m) known) (enumerate 0 (list_of r f)))"
  unfolding list_of_canon [OF assms] by (rule indexed_canon) (use json_ok_list [OF assms] in \<open>simp add: jget_canon_ok\<close>)

lemma references_canon:
  assumes "json_ok s"
  shows "member_references (canon s) c ms = member_references s c ms"
    "list_references (canon s) c f known = list_references s c f known"
    "interface_references (canon s) known = interface_references s known"
    "difference_references (canon s) b fl a = difference_references s b fl a"
proof -
  note ok = json_ok_list [OF assms] and unfolded = list_of_canon [OF assms]
  show "member_references (canon s) c ms = member_references s c ms"
    unfolding member_references_def unfolded by (rule indexed_canon) (rule inner_canon(1) [where k = "\<lambda>x. x"], erule ok)
  show "list_references (canon s) c f known = list_references s c f known"
    unfolding list_references_def unfolded by (rule indexed_canon) (rule inner_canon(2), erule ok)
  show "interface_references (canon s) known = interface_references s known"
    unfolding interface_references_def unfolded by (rule indexed_canon) (rule nic_canon, erule ok)
  show "difference_references (canon s) b fl a = difference_references s b fl a"
    unfolding difference_references_def unfolded Let_def
    by (rule indexed_canon) (simp only: inner_canon(2) [OF ok] jget_canon_ok [OF ok] missing_canon)
qed

section \<open>Evidence at any depth\<close>

lemma enumerate_map: "enumerate n (map f xs) = map (\<lambda>(i, x). (i, f x)) (enumerate n xs)"
  by (induction xs arbitrary: n) simp_all

lemma in_enumerate: "(i, x) \<in> set (enumerate n xs) \<Longrightarrow> x \<in> set xs"
  by (induction xs arbitrary: n) auto

lemma set_concat_map: "set (concat (map f xs)) = (\<Union>x \<in> set xs. set (f x))"
  by simp

lemma evidences_canon: "set (evidences (canon v) p) = (\<lambda>(q, e). (q, canon e)) ` set (evidences v p)"
proof (induction v arbitrary: p)
  case (JArr xs)
  have "set (evidences (canon (JArr xs)) p) = (\<Union>(i, x) \<in> set (enumerate 0 xs). set (evidences (canon x) (indexed p i)))"
    by (simp add: enumerate_map image_image split_def)
  also have "\<dots> = (\<Union>(i, x) \<in> set (enumerate 0 xs). (\<lambda>(q, e). (q, canon e)) ` set (evidences x (indexed p i)))"
    using JArr by (intro SUP_cong refl) (clarify, drule in_enumerate, simp)
  also have "\<dots> = (\<lambda>(q, e). (q, canon e)) ` set (evidences (JArr xs) p)" by (auto simp: image_UN split_def)
  finally show ?case .
next
  case (JObj kvs)
  let ?here = "\<lambda>(k, v). if k = ''evidence'' \<and> is_obj v then {(p @ ''.'' @ k, v)} else {}"
  have "set (evidences (canon (JObj kvs)) p) = (\<Union>(k, v) \<in> set kvs. ?here (k, canon v) \<union> set (evidences (canon v) (p @ ''.'' @ k)))"
    by (auto split: if_splits)
  also have "\<dots> = (\<Union>(k, v) \<in> set kvs. (\<lambda>(q, e). (q, canon e)) ` (?here (k, v) \<union> set (evidences v (p @ ''.'' @ k))))"
    using JObj by (intro SUP_cong refl) (auto simp: image_Un split: if_splits)
  also have "\<dots> = (\<lambda>(q, e). (q, canon e)) ` set (evidences (JObj kvs) p)"
    by (auto simp: image_UN split_def split: if_splits)
  finally show ?case .
qed simp_all

lemma evidences_ok: "json_ok v \<Longrightarrow> (q, e) \<in> set (evidences v p) \<Longrightarrow> json_ok e"
proof (induction v arbitrary: p)
  case (JArr xs)
  then show ?case by (fastforce dest: in_enumerate)
next
  case (JObj kvs)
  then show ?case by (fastforce split: if_splits)
qed simp_all

section \<open>The semantic checks\<close>

lemma get_item_canon: "get_item (map (\<lambda>(k, v). (k, canon v)) d) k = canon (get_item d k)"
  by (induction d) (auto simp: get_item_def)

lemma update_canon: "AList.update k (canon v) (map (\<lambda>(k, v). (k, canon v)) d) = map (\<lambda>(k, v). (k, canon v)) (AList.update k v d)"
  by (induction d) auto

lemma dict_of_pairs_canon: "dict_of_pairs (map (\<lambda>(k, v). (k, canon v)) ps) = map (\<lambda>(k, v). (k, canon v)) (dict_of_pairs ps)"
proof -
  have "fold (\<lambda>(k, v) d. AList.update k v d) (map (\<lambda>(k, v). (k, canon v)) ps) (map (\<lambda>(k, v). (k, canon v)) d)
      = map (\<lambda>(k, v). (k, canon v)) (fold (\<lambda>(k, v) d. AList.update k v d) ps d)" for d
    by (induction ps arbitrary: d) (auto simp: update_canon)
  from this [of "[]"] show ?thesis by (simp add: dict_of_pairs_def)
qed

lemma ids_pairs_canon: "\<forall>x \<in> set xs. json_ok x \<Longrightarrow>
  List.map_filter (\<lambda>s. map_option (\<lambda>i. (i, s)) (id_of s)) (map canon xs)
  = map (\<lambda>(k, v). (k, canon v)) (List.map_filter (\<lambda>s. map_option (\<lambda>i. (i, s)) (id_of s)) xs)"
  by (induction xs) (auto simp: List.map_filter_simps id_of_canon split: option.split)

lemma source_of_canon: "json_ok s \<Longrightarrow> source_of (canon s) (canon i) = canon (source_of s i)"
  by (cases i) (simp_all add: source_of_def sources_by_id_def list_of_canon ids_pairs_canon json_ok_list dict_of_pairs_canon get_item_canon)

lemma in_fold_update: "(k, v) \<in> set (fold (\<lambda>(k, v) d. AList.update k v d) ps d) \<Longrightarrow> (k, v) \<in> set ps \<or> (k, v) \<in> set d"
  by (induction ps arbitrary: d) (auto dest: set_AList_update)

lemma json_ok_source_of: "json_ok s \<Longrightarrow> json_ok (source_of s i)"
proof (cases i)
  case (JStr x)
  assume ok: "json_ok s"
  have "json_ok v" if "(k, v) \<in> set (sources_by_id s)" for k v
    using in_fold_update [OF that [unfolded sources_by_id_def dict_of_pairs_def]] json_ok_list [OF ok]
    by (auto simp: List.map_filter_def)
  then show ?thesis by (auto simp: JStr source_of_def get_item_def split: option.split dest: map_of_SomeD)
qed (simp_all add: source_of_def)

lemma risk_canon:
  assumes ok: "json_ok s"
  shows "risk_errors (canon s) = risk_errors s"
proof -
  have "jget (source_of (canon s) (jget (jget (canon r) ''evidence'') ''source_id'')) ''type'' = canon (jget (source_of s (jget (jget r ''evidence'') ''source_id'')) ''type'')"
    "number_value (jget (canon r) ''score'') = number_value (jget r ''score'')" "jget (canon r) ''band'' = canon (jget r ''band'')"
    "jget (jget (canon r) ''evidence'') ''truth'' = canon (jget (jget r ''evidence'') ''truth'')"
    if "json_ok r" for r
    using that ok by (simp_all add: jget_canon_ok json_ok_jget source_of_canon json_ok_source_of)
  then show ?thesis unfolding risk_errors_def list_of_canon [OF ok] Let_def
    by (intro indexed_canon) (simp add: json_ok_list [OF ok] split: option.split)
qed

lemma target_canon: "json_ok s \<Longrightarrow> target_errors (canon s) = target_errors s"
proof -
  assume ok: "json_ok s"
  have "filter (\<lambda>vm. jget (jget vm ''operational_context'') ''official_target'' = JBool True) (map canon vms)
      = map canon (filter (\<lambda>vm. jget (jget vm ''operational_context'') ''official_target'' = JBool True) vms)"
    if "\<forall>x \<in> set vms. json_ok x" for vms
    using that by (induction vms) (auto simp: jget_canon_ok json_ok_jget)
  then show ?thesis using json_ok_list [OF ok] by (simp add: target_errors_def list_of_canon [OF ok])
qed

lemma demo_canon: "json_ok s \<Longrightarrow> demo_errors (canon s) = [] \<longleftrightarrow> demo_errors s = []"
proof -
  assume ok: "json_ok s"
  have "(\<exists>(q, e) \<in> set (evidences (canon s) ''$''). jget e ''truth'' = JStr ''demo'')
      \<longleftrightarrow> (\<exists>(q, e) \<in> set (evidences s ''$''). jget e ''truth'' = JStr ''demo'')"
    unfolding evidences_canon using evidences_ok [OF ok] by (force simp: jget_canon_ok)
  then show ?thesis by (auto simp: demo_errors_def filter_empty_conv jget_canon_ok ok json_ok_jget split_def)
qed

lemma order_canon: "json_ok s \<Longrightarrow> order_errors (canon s) = order_errors s"
  unfolding order_errors_def Let_def by (simp only: jget_canon_ok json_ok_jget instant_canon)

lemma finding_canon: "json_ok s \<Longrightarrow> finding_errors (canon s) ids = [] \<longleftrightarrow> finding_errors s ids = []"
proof -
  assume ok: "json_ok s"
  let ?known = "\<lambda>s. canon ` set (jget (jget s ''environment'') ''id'' # map JStr (concat (map snd ids)))"
  have known: "?known (canon s) = ?known s" using ok by (simp add: jget_canon_ok json_ok_jget)
  have shape: "finding_errors s ids = [] \<longleftrightarrow> (\<forall>f \<in> set (list_of s ''findings''). \<forall>v \<in> set (list_of f ''entity_ids''). canon v \<in> ?known s)" for s
    unfolding finding_errors_def Let_def
    by (rule indexed_Nil, rule indexed_Nil) auto
  show ?thesis unfolding shape known list_of_canon [OF ok] using json_ok_list [OF ok] by (simp add: list_of_canon)
qed

lemma evidence_refs_canon: "json_ok s \<Longrightarrow>
  concat (map (\<lambda>(path, ev). missing_reference (path @ ''.source_id'') (jget ev ''source_id'') known) (evidences (canon s) ''$'')) = []
  \<longleftrightarrow> concat (map (\<lambda>(path, ev). missing_reference (path @ ''.source_id'') (jget ev ''source_id'') known) (evidences s ''$'')) = []"
proof -
  assume ok: "json_ok s"
  show ?thesis using evidences_ok [OF ok] unfolding concat_eq_Nil_conv set_map evidences_canon
    by (force simp: jget_canon_ok)
qed

lemma leaks_canon: "find_secret_leaks (canon v) p = [] \<longleftrightarrow> find_secret_leaks v p = []"
proof (induction v arbitrary: p)
  case (JArr xs)
  then show ?case unfolding canon.simps find_secret_leaks.simps by (intro indexed_canon_Nil) simp
next
  case (JObj kvs)
  then show ?case by (fastforce split: if_splits)
qed simp_all

text \<open>Whether a snapshot is valid does not depend on the order in which its objects list their members,
  so the canonical document that is stored and hashed is valid exactly when the published one is.\<close>

lemma problems_canon:
  assumes "json_ok s" and "\<forall>v. schema (canon v) = [] \<longleftrightarrow> schema v = []"
  shows "snapshot_problems schema (canon s) = [] \<longleftrightarrow> snapshot_problems schema s = []"
proof -
  have "cross_reference_errors (canon s) ids = [] \<longleftrightarrow> cross_reference_errors s ids = []" for ids
    unfolding cross_reference_errors_def Let_def references_canon [OF assms(1)] by (simp only: append_is_Nil_conv evidence_refs_canon [OF assms(1)])
  moreover have "snapshot_semantic_errors (canon s) ids = [] \<longleftrightarrow> snapshot_semantic_errors s ids = []" for ids
    unfolding snapshot_semantic_errors_def risk_canon [OF assms(1)] target_canon [OF assms(1)] order_canon [OF assms(1)]
    by (simp only: append_is_Nil_conv demo_canon [OF assms(1)] finding_canon [OF assms(1)])
  moreover have "schema (canon s) = [] \<longleftrightarrow> schema s = []" using assms(2) by simp
  ultimately show ?thesis
    by (auto simp: snapshot_problems_def unique_ids_canon [OF assms(1)] leaks_canon split: list.splits prod.splits)
qed

end
