(* ===== verification/SnapshotSafety.thy ===== *)
theory SnapshotSafety
  imports SnapshotStore ContractFacts
begin

text \<open>
  The safety of the snapshot store: every pointer and every archived manifest leads to a valid
  object, whatever operation is cut short wherever. Operations are reasoned about with triples that
  have one postcondition for a result and one for every way out.
\<close>

section \<open>Triples\<close>

definition holds_through :: "('s \<Rightarrow> bool) \<Rightarrow> ('s \<Rightarrow> bool) \<Rightarrow> ('s, 'e, 'a) act \<Rightarrow> ('a \<Rightarrow> 's \<Rightarrow> bool) \<Rightarrow> bool" where
  "holds_through I P m Q \<longleftrightarrow> (\<forall>s. P s \<longrightarrow> (case m s of (Inl e, t) \<Rightarrow> I t | (Inr x, t) \<Rightarrow> Q x t))"

lemma through_bind:
  assumes "holds_through I P m R" and "\<And>x. holds_through I (R x) (k x) Q"
  shows "holds_through I P (bindE m k) Q"
  using assms unfolding holds_through_def bindE_def by (fastforce split: prod.splits sum.splits)

lemma through_ret: "(\<And>s. P s \<Longrightarrow> Q x s) \<Longrightarrow> holds_through I P (ret x) Q"
  by (simp add: holds_through_def)

lemma through_lift: "(\<And>s e. P s \<Longrightarrow> r = Inl e \<Longrightarrow> I s) \<Longrightarrow> (\<And>s x. P s \<Longrightarrow> r = Inr x \<Longrightarrow> Q x s) \<Longrightarrow> holds_through I P (lift_res r) Q"
  by (auto simp: holds_through_def lift_res_def split: sum.split)

lemma through_guard: "(\<And>s. P s \<Longrightarrow> \<not> b \<Longrightarrow> I s) \<Longrightarrow> (\<And>s. P s \<Longrightarrow> b \<Longrightarrow> Q () s) \<Longrightarrow> holds_through I P (guardE b e) Q"
  by (auto simp: holds_through_def guardE_def ret_def raise_def)

lemma through_gets: "(\<And>s. P s \<Longrightarrow> Q (f s) s) \<Longrightarrow> holds_through I P (gets f) Q"
  by (simp add: holds_through_def gets_def)

lemma through_read: "(\<And>s e. P s \<Longrightarrow> f s = Inl e \<Longrightarrow> I s) \<Longrightarrow> (\<And>s x. P s \<Longrightarrow> f s = Inr x \<Longrightarrow> Q x s) \<Longrightarrow> holds_through I P (\<lambda>s. lift_res (f s) s) Q"
  by (auto simp: holds_through_def lift_res_def split: sum.split)

lemma through_weaken: "holds_through I P m Q \<Longrightarrow> (\<And>s. P' s \<Longrightarrow> P s) \<Longrightarrow> (\<And>x s. Q x s \<Longrightarrow> Q' x s) \<Longrightarrow> holds_through I P' m Q'"
  unfolding holds_through_def by (fastforce split: prod.splits sum.splits)

lemma through_if: "(b \<Longrightarrow> holds_through I P m Q) \<Longrightarrow> (\<not> b \<Longrightarrow> holds_through I P n Q) \<Longrightarrow> holds_through I P (if b then m else n) Q"
  by simp

lemma through_fold:
  assumes "\<And>a x. x \<in> set xs \<Longrightarrow> holds_through I P (f a x) (\<lambda>_. P)"
  shows "holds_through I P (foldE f a xs) (\<lambda>_. P)"
  using assms by (induction xs arbitrary: a) (auto intro: through_ret through_bind)

lemma throughD: "holds_through I P m Q \<Longrightarrow> m s = (r, t) \<Longrightarrow> P s \<Longrightarrow> (case r of Inl e \<Rightarrow> I t | Inr x \<Rightarrow> Q x t)"
  by (auto simp: holds_through_def split: prod.splits sum.splits)

section \<open>Manifests read back\<close>

lemma decode_label: "decode_manifest c l = Inr m \<Longrightarrow> decode_manifest c l' = Inr m"
  by (auto simp: decode_manifest_def Let_def split: option.splits if_splits)

lemma load_label: "load_manifest E m p st = Inr s \<Longrightarrow> load_manifest E m q st = Inr s"
  by (auto simp: load_manifest_def split: option.splits if_splits sum.splits)

lemma hex_text_scalar: "is_sha256_hex (py_str v) \<Longrightarrow> py_str (canon v) = py_str v"
proof (cases v)
  case (JArr xs)
  assume "is_sha256_hex (py_str v)"
  then show ?thesis by (simp add: JArr py_str_def is_sha256_hex_def is_hex_lower_def)
next
  case (JObj kvs)
  assume "is_sha256_hex (py_str v)"
  then show ?thesis by (simp add: JObj py_str_def is_sha256_hex_def is_hex_lower_def)
qed simp_all

definition sound_manifest :: "json \<Rightarrow> bool" where
  "sound_manifest m \<longleftrightarrow> json_ok m \<and> is_obj m \<and> set required_members \<subseteq> fst ` set (entries m)
     \<and> jget m ''trusted_origin'' = JStr ''dtlab_collector'' \<and> object_file_name (py_str (jget m ''object_name''))
     \<and> jget m ''object_name'' = JStr (py_str (jget m ''sha256'') @ ''.json'')"

lemma decode_sound: "decode_manifest c l = Inr m \<Longrightarrow> sound_manifest m"
proof -
  assume d: "decode_manifest c l = Inr m"
  then obtain s where "utf8_decode c = Some s" "loads s = Some m" and m: "is_obj m"
    by (auto simp: decode_manifest_def bind_eq_Some_conv split: option.splits if_splits)
  then have "json_ok m" by (auto intro: loads_ok)
  with d m show ?thesis
    by (cases m) (auto simp: decode_manifest_def manifest_members_def sound_manifest_def split: option.splits if_splits)
qed

lemma keys_canon: "fst ` set (entries (canon m)) = fst ` set (entries m)"
  by (cases m) (auto simp: image_image split_def)

lemma object_name_hex:
  assumes "object_file_name (s @ ''.json'')"
  shows "is_sha256_hex s"
proof -
  have d: "drop 64 (s @ ''.json'') = ''.json''" and t: "is_sha256_hex (take 64 (s @ ''.json''))"
    using assms by (simp_all only: object_file_name_def)
  have "length (s @ ''.json'') - 64 = 5" using arg_cong [OF d, of length] unfolding length_drop by simp
  then have "length s = 64" by simp
  then show ?thesis using t by simp
qed

lemma object_name_file: "is_sha256_hex s \<Longrightarrow> object_file_name (s @ ''.json'')"
  by (simp add: object_file_name_def is_sha256_hex_def)

lemma sound_hex: "sound_manifest m \<Longrightarrow> is_sha256_hex (py_str (jget m ''sha256''))"
  by (rule object_name_hex) (metis py_str_simps sound_manifest_def)

lemma sound_parts:
  assumes "sound_manifest m"
  shows "json_ok m" "is_obj m" "set required_members \<subseteq> fst ` set (entries m)" "jget m ''trusted_origin'' = JStr ''dtlab_collector''"
    "jget m ''object_name'' = JStr (py_str (jget m ''sha256'') @ ''.json'')" "is_sha256_hex (py_str (jget m ''sha256''))"
    "object_file_name (py_str (jget m ''sha256'') @ ''.json'')"
  using assms sound_hex [OF assms] by (simp_all only: sound_manifest_def object_name_file)

lemma sound_canon: "sound_manifest m \<Longrightarrow> sound_manifest (canon m)"
proof -
  assume m: "sound_manifest m"
  note p = sound_parts [OF m]
  have "py_str (canon (jget m ''sha256'')) = py_str (jget m ''sha256'')" by (rule hex_text_scalar [OF p(6)])
  then show ?thesis using p(3) by (simp add: sound_manifest_def jget_canon_ok [OF p(1)] p(2,4,5,7) keys_canon json_ok_canon [OF p(1)])
qed

lemma decode_bytes: "sound_manifest m \<Longrightarrow> decode_manifest (manifest_bytes m) l = Inr (canon m)"
proof -
  assume m: "sound_manifest m"
  note c = sound_parts [OF sound_canon [OF m]]
  have "Option.bind (utf8_decode (manifest_bytes m)) loads = Some (canon m)"
    using loads_dumps(2) [OF sound_parts(1) [OF m], of False] by (simp add: manifest_bytes_def)
  moreover have "manifest_members (canon m) = Some (fst ` set (entries (canon m)))"
    using c(2) by (cases "canon m") (simp_all add: manifest_members_def)
  ultimately show ?thesis using c(2,3) by (simp add: decode_manifest_def c(4,5,7))
qed

end
