(* ===== verification/SnapshotInvariant.thy ===== *)
theory SnapshotInvariant
  imports SnapshotSafety
begin

text \<open>
  The invariant of the snapshot store, its preservation by publication and pruning when any file
  operation may fail, and what a finished publication leaves behind.
\<close>

section \<open>The environment and the invariant\<close>

text \<open>SHA-256 gives 64 hexadecimal digits; a JSON schema does not see the order of an object's members.\<close>

definition store_env_ok :: "store_env \<Rightarrow> bool" where
  "store_env_ok E \<longleftrightarrow> (\<forall>c. is_sha256_hex (sn_sha E c)) \<and> (\<forall>v. sn_schema E (canon v) = [] \<longleftrightarrow> sn_schema E v = [])"

definition loadable :: "store_env \<Rightarrow> snapshot_store \<Rightarrow> json \<Rightarrow> bool" where
  "loadable E st m \<longleftrightarrow> (\<exists>s. load_manifest E m [] st = Inr s)"

definition pointers_ok :: "store_env \<Rightarrow> snapshot_store \<Rightarrow> bool" where
  "pointers_ok E st \<longleftrightarrow> (\<forall>p \<in> set pointer_names. \<forall>c. look (so_pointers st) p = Some c \<longrightarrow>
     (\<exists>m. decode_manifest c [] = Inr m \<and> loadable E st m))"

definition archives_ok :: "store_env \<Rightarrow> snapshot_store \<Rightarrow> bool" where
  "archives_ok E st \<longleftrightarrow> (\<forall>n c. object_file_name n \<longrightarrow> look (so_manifests st) n = Some c \<longrightarrow>
     sn_sha E c = without_json n \<and> (\<exists>m. decode_manifest c [] = Inr m \<and> loadable E st m))"

definition store_ok :: "store_env \<Rightarrow> snapshot_store \<Rightarrow> bool" where
  "store_ok E st \<longleftrightarrow> pointers_ok E st \<and> archives_ok E st"

definition grows :: "directory \<Rightarrow> directory \<Rightarrow> bool" where
  "grows d d' \<longleftrightarrow> (\<forall>n c. look d n = Some c \<longrightarrow> look d' n = Some c)"

lemma grows_refl [simp]: "grows d d"
  by (simp add: grows_def)

lemma grows_trans: "grows d d' \<Longrightarrow> grows d' d'' \<Longrightarrow> grows d d''"
  by (simp add: grows_def)

lemma look_put [simp]: "look (put_file n c t d) n' = (if n' = n then Some c else look d n')"
  by (simp add: look_def put_file_def update_conv')

lemma look_delete [simp]: "look (AList.delete n d) n' = (if n' = n then None else look d n')"
  by (simp add: look_def delete_conv')

lemma grows_put: "look d n = None \<Longrightarrow> grows d (put_file n c t d)"
  by (auto simp: grows_def)

lemma load_manifest_objects: "so_objects st' = so_objects st \<Longrightarrow> load_manifest E m p st' = load_manifest E m p st"
  by (simp add: load_manifest_def)

lemma loadable_objects: "so_objects st' = so_objects st \<Longrightarrow> loadable E st' m = loadable E st m"
  unfolding loadable_def using load_manifest_objects [of st' st] by simp

lemma load_manifest_look: "look (so_objects st') (object_of m) = look (so_objects st) (object_of m)
  \<Longrightarrow> load_manifest E m p st' = load_manifest E m p st"
  by (simp add: load_manifest_def)

lemma load_manifest_grows: "grows (so_objects st) (so_objects st') \<Longrightarrow> load_manifest E m p st = Inr s \<Longrightarrow> load_manifest E m p st' = Inr s"
proof -
  assume g: "grows (so_objects st) (so_objects st')" and l: "load_manifest E m p st = Inr s"
  obtain c where "look (so_objects st) (object_of m) = Some c" using l unfolding load_manifest_def by (cases "look (so_objects st) (object_of m)") simp_all
  with g have "look (so_objects st') (object_of m) = look (so_objects st) (object_of m)" by (simp add: grows_def)
  then show ?thesis using l load_manifest_look [of st' m st E p] by simp
qed

lemma loadable_grows: "grows (so_objects st) (so_objects st') \<Longrightarrow> loadable E st m \<Longrightarrow> loadable E st' m"
  by (auto simp: loadable_def intro: load_manifest_grows)

lemma pointers_ok_grows: "pointers_ok E st \<Longrightarrow> grows (so_objects st) (so_objects st') \<Longrightarrow> so_pointers st' = so_pointers st \<Longrightarrow> pointers_ok E st'"
  unfolding pointers_ok_def using loadable_grows by metis

lemma archives_ok_grows: "archives_ok E st \<Longrightarrow> grows (so_objects st) (so_objects st') \<Longrightarrow> so_manifests st' = so_manifests st \<Longrightarrow> archives_ok E st'"
  unfolding archives_ok_def using loadable_grows by metis

text \<open>A manifest read back has the same object as the one written.\<close>

lemma same_length_canon [simp]: "same_length n (canon v) = same_length n v"
  by (cases v) (simp_all add: same_length_def number_value_def)

lemma load_manifest_canon:
  assumes "sound_manifest m"
  shows "load_manifest E (canon m) p st = load_manifest E m p st"
  using jget_canon_ok [OF sound_parts(1) [OF assms]] sound_parts(5) [OF assms]
  by (auto simp: load_manifest_def object_of_def split: option.split sum.split)

lemma pointer_decode:
  assumes "pointers_ok E st" and "read_manifest p st = Inr m"
  shows "sound_manifest m" "loadable E st m"
proof -
  obtain c where p: "p \<in> set pointer_names" "look (so_pointers st) p = Some c" and d: "decode_manifest c p = Inr m"
    using assms(2) by (auto simp: read_manifest_def split: if_splits option.splits)
  show "sound_manifest m" by (rule decode_sound [OF d])
  obtain m' where "decode_manifest c [] = Inr m'" "loadable E st m'" using assms(1) p by (auto simp: pointers_ok_def)
  then show "loadable E st m" using decode_label [OF d, of "[]"] by simp
qed

lemma pointer_loads:
  assumes "pointers_ok E st" and "p \<in> set pointer_names" and "look (so_pointers st) p \<noteq> None"
  obtains s m where "read_manifest p st = Inr m" "load_manifest E m p st = Inr s" "load_pointer E p st = Inr (s, m)"
proof -
  obtain c m s where c: "look (so_pointers st) p = Some c" and d: "decode_manifest c [] = Inr m" and l: "load_manifest E m [] st = Inr s"
    using assms by (fastforce simp: pointers_ok_def loadable_def)
  have "read_manifest p st = Inr m" using c assms(2) decode_label [OF d, of p] by (simp add: read_manifest_def)
  moreover have "load_manifest E m p st = Inr s" by (rule load_label [OF l])
  ultimately show ?thesis by (intro that) (simp_all add: load_pointer_def)
qed

end
