(* ===== verification/SnapshotPublish.thy ===== *)
theory SnapshotPublish
  imports SnapshotInvariant
begin

text \<open>
  Publication keeps the invariant of the snapshot store, whatever file operation fails: the objects
  and the archive only grow, and the current pointer leads to the old or to the new snapshot.
\<close>

section \<open>What is published\<close>

definition published_manifest :: "store_env \<Rightarrow> json \<Rightarrow> int \<Rightarrow> json" where
  "published_manifest E snapshot t = manifest_of snapshot (sn_sha E (snapshot_bytes snapshot)) (length (snapshot_bytes snapshot)) t"

definition publishable :: "store_env \<Rightarrow> json \<Rightarrow> bool" where
  "publishable E snapshot \<longleftrightarrow> json_ok snapshot \<and> snapshot_problems (sn_schema E) snapshot = []"

definition snapshot_object :: "store_env \<Rightarrow> json \<Rightarrow> string" where
  "snapshot_object E snapshot = sn_sha E (snapshot_bytes snapshot) @ ''.json''"

lemma member_of [simp]: "jget (JObj ((k', v) # d)) k = (if k = k' then v else jget (JObj d) k)"
  by (simp add: jget_def get_item_def)

lemma published_sound: "store_env_ok E \<Longrightarrow> json_ok snapshot \<Longrightarrow> sound_manifest (published_manifest E snapshot t)"
  by (simp add: sound_manifest_def published_manifest_def manifest_of_def required_members_def json_ok_jget
      store_env_ok_def object_name_file)

lemma published_loads:
  assumes env: "store_env_ok E" and pub: "publishable E snapshot"
    and here: "look (so_objects st) (snapshot_object E snapshot) = Some (snapshot_bytes snapshot)"
  shows "load_manifest E (published_manifest E snapshot t) p st = Inr (canon snapshot)"
proof -
  have ok: "json_ok snapshot" and valid: "snapshot_problems (sn_schema E) (canon snapshot) = []"
    using env pub by (simp_all add: publishable_def store_env_ok_def problems_canon)
  have bytes: "Option.bind (utf8_decode (snapshot_bytes snapshot)) loads = Some (canon snapshot)"
    using loads_dumps(2) [OF ok, of False] by (simp add: snapshot_bytes_def)
  have "jget (published_manifest E snapshot t) ''snapshot_id'' = jget snapshot ''snapshot_id''"
    "object_of (published_manifest E snapshot t) = snapshot_object E snapshot"
    "jget (published_manifest E snapshot t) ''byte_length'' = JInt (int (length (snapshot_bytes snapshot)))"
    "jget (published_manifest E snapshot t) ''sha256'' = JStr (sn_sha E (snapshot_bytes snapshot))"
    by (simp_all add: published_manifest_def manifest_of_def object_of_def snapshot_object_def)
  then show ?thesis using here bytes valid jget_canon_ok [OF ok]
    by (simp add: load_manifest_def validate_snapshot_def same_length_def number_value_def)
qed

section \<open>The invariant of a publication\<close>

definition current_step :: "store_env \<Rightarrow> json \<Rightarrow> pydt \<Rightarrow> snapshot_store \<Rightarrow> snapshot_store \<Rightarrow> bool" where
  "current_step E snapshot stamp st0 st \<longleftrightarrow> look (so_pointers st) ''current'' = look (so_pointers st0) ''current''
     \<or> (\<exists>t. stamp = Aware t \<and> publishable E snapshot \<and> look (so_objects st) (snapshot_object E snapshot) = Some (snapshot_bytes snapshot)
          \<and> look (so_pointers st) ''current'' = Some (manifest_bytes (published_manifest E snapshot t)))"

definition publishing :: "store_env \<Rightarrow> json \<Rightarrow> pydt \<Rightarrow> snapshot_store \<Rightarrow> snapshot_store \<Rightarrow> bool" where
  "publishing E snapshot stamp st0 st \<longleftrightarrow> store_ok E st \<and> grows (so_objects st0) (so_objects st) \<and> grows (so_manifests st0) (so_manifests st)
     \<and> current_step E snapshot stamp st0 st"

lemma store_ok_clock [simp]: "store_ok E (st\<lparr>so_clock := n\<rparr>) = store_ok E st"
  by (simp add: store_ok_def pointers_ok_def archives_ok_def loadable_def load_manifest_def)

lemma publishing_clock [simp]: "publishing E snapshot stamp st0 (st\<lparr>so_clock := n\<rparr>) = publishing E snapshot stamp st0 st"
  by (simp add: publishing_def current_step_def)

lemma loadable_simps [simp]:
  "loadable E (st\<lparr>so_manifests := d\<rparr>) = loadable E st" "loadable E (st\<lparr>so_pointers := d\<rparr>) = loadable E st"
  by (simp_all add: loadable_def load_manifest_def fun_eq_iff)

lemma through_file_op:
  assumes "\<And>s. P s \<Longrightarrow> sn_fails E (so_clock s) \<Longrightarrow> I (s\<lparr>so_clock := Suc (so_clock s)\<rparr>)"
    and "\<And>s n. P s \<Longrightarrow> Q () ((f n s)\<lparr>so_clock := Suc n\<rparr>)"
  shows "holds_through I P (file_op E f) Q"
  using assms by (simp add: holds_through_def file_op_def Let_def)

text \<open>What may stop a publication: a refused argument, an immutable file with other content, a failing file operation\<close>

definition excused :: "store_env \<Rightarrow> json \<Rightarrow> pydt \<Rightarrow> snapshot_store \<Rightarrow> bool" where
  "excused E snapshot stamp st0 \<longleftrightarrow> snapshot_problems (sn_schema E) snapshot \<noteq> []
     \<or> \<not> (sn_demo E \<or> jget (jget snapshot ''sync'') ''publication_mode'' = JStr ''real_only'')
     \<or> (\<exists>x. stamp = Naive x)
     \<or> (\<exists>c. look (so_objects st0) (snapshot_object E snapshot) = Some c \<and> c \<noteq> snapshot_bytes snapshot)
     \<or> (\<exists>t c. stamp = Aware t \<and> look (so_manifests st0) (sn_sha E (manifest_bytes (published_manifest E snapshot t)) @ ''.json'') = Some c
          \<and> c \<noteq> manifest_bytes (published_manifest E snapshot t))
     \<or> (\<exists>n. sn_fails E n)"

definition stopped :: "store_env \<Rightarrow> json \<Rightarrow> pydt \<Rightarrow> snapshot_store \<Rightarrow> snapshot_store \<Rightarrow> bool" where
  "stopped E snapshot stamp st0 st \<longleftrightarrow> publishing E snapshot stamp st0 st \<and> excused E snapshot stamp st0"

lemma stopped_by_failure: "publishing E snapshot stamp st0 st \<Longrightarrow> sn_fails E n \<Longrightarrow> stopped E snapshot stamp st0 st"
  by (auto simp: stopped_def excused_def)

lemma pointer_errors:
  assumes "pointers_ok E st"
  shows "read_manifest p st \<noteq> Inl ManifestTypeError" "load_pointer E p st \<noteq> Inl ManifestTypeError"
proof -
  have "read_manifest p st \<noteq> Inl ManifestTypeError \<and> load_pointer E p st \<noteq> Inl ManifestTypeError"
  proof (cases "p \<in> set pointer_names \<and> look (so_pointers st) p \<noteq> None")
    case True
    then show ?thesis using pointer_loads [OF assms] by (metis sum.distinct(1))
  qed (auto simp: read_manifest_def load_pointer_def)
  then show "read_manifest p st \<noteq> Inl ManifestTypeError" "load_pointer E p st \<noteq> Inl ManifestTypeError" by simp_all
qed

text \<open>Writing a missing object\<close>

lemma publishing_object:
  assumes "publishing E snapshot stamp st0 st" and "look (so_objects st) n = None"
  shows "publishing E snapshot stamp st0 (st\<lparr>so_objects := put_file n c t (so_objects st)\<rparr>)" (is "publishing E snapshot stamp st0 ?st")
proof -
  have g: "grows (so_objects st) (so_objects ?st)" using grows_put [OF assms(2)] by simp
  then have "pointers_ok E ?st" "archives_ok E ?st" using assms(1)
    by (auto simp: publishing_def store_ok_def elim!: pointers_ok_grows archives_ok_grows)
  moreover have "current_step E snapshot stamp st0 ?st"
    using assms g unfolding publishing_def current_step_def grows_def by auto
  moreover have "grows (so_objects st0) (so_objects ?st)" using assms(1) g grows_trans publishing_def by blast
  ultimately show ?thesis using assms(1) by (simp add: publishing_def store_ok_def)
qed

text \<open>Writing a manifest to the archive under its hash\<close>

lemma without_json [simp]: "without_json (s @ ''.json'') = s"
  by (simp add: without_json_def suffix_def)

lemma publishing_archive:
  assumes "publishing E snapshot stamp st0 st" and "look (so_manifests st) n = None"
    and "sound_manifest m" and "loadable E st m" and "n = sn_sha E (manifest_bytes m) @ ''.json''"
  shows "publishing E snapshot stamp st0 (st\<lparr>so_manifests := put_file n (manifest_bytes m) t (so_manifests st)\<rparr>)"
proof -
  let ?st = "st\<lparr>so_manifests := put_file n (manifest_bytes m) t (so_manifests st)\<rparr>"
  have "loadable E st (canon m)" using assms(4) by (simp add: loadable_def load_manifest_canon [OF assms(3)])
  then have "archives_ok E ?st" using assms(1) decode_bytes [OF assms(3)]
    by (auto simp: publishing_def store_ok_def archives_ok_def assms(5))
  moreover have "pointers_ok E ?st" using assms(1) by (simp add: publishing_def store_ok_def pointers_ok_def)
  moreover have "grows (so_manifests st0) (so_manifests ?st)"
    using assms(1) grows_put [OF assms(2)] grows_trans by (fastforce simp: publishing_def)
  ultimately show ?thesis using assms(1) by (simp add: publishing_def store_ok_def current_step_def)
qed

text \<open>Writing a pointer to a loadable object\<close>

lemma pointer_written:
  assumes "store_ok E st" and "sound_manifest m" and "loadable E st m"
  shows "store_ok E (st\<lparr>so_pointers := put_file p (manifest_bytes m) t (so_pointers st)\<rparr>)"
proof -
  let ?st = "st\<lparr>so_pointers := put_file p (manifest_bytes m) t (so_pointers st)\<rparr>"
  have "loadable E st (canon m)" using assms(3) by (simp add: loadable_def load_manifest_canon [OF assms(2)])
  then have "pointers_ok E ?st" using assms(1) decode_bytes [OF assms(2)] by (auto simp: store_ok_def pointers_ok_def)
  then show ?thesis using assms(1) by (simp add: store_ok_def archives_ok_def)
qed

section \<open>The steps of a publication\<close>

lemma through_assume: "(c \<Longrightarrow> holds_through I P m Q) \<Longrightarrow> holds_through I (\<lambda>s. c \<and> P s) m Q"
  by (auto simp: holds_through_def)

definition archive_name :: "store_env \<Rightarrow> json \<Rightarrow> int \<Rightarrow> string" where
  "archive_name E snapshot t = sn_sha E (manifest_bytes (published_manifest E snapshot t)) @ ''.json''"

definition stored :: "store_env \<Rightarrow> json \<Rightarrow> pydt \<Rightarrow> snapshot_store \<Rightarrow> (directory \<Rightarrow> bool) \<Rightarrow> snapshot_store \<Rightarrow> bool" where
  "stored E snapshot stamp st0 X st \<longleftrightarrow> publishing E snapshot stamp st0 st
     \<and> look (so_objects st) (snapshot_object E snapshot) = Some (snapshot_bytes snapshot) \<and> X (so_pointers st)"

definition archived :: "store_env \<Rightarrow> json \<Rightarrow> pydt \<Rightarrow> int \<Rightarrow> snapshot_store \<Rightarrow> (directory \<Rightarrow> bool) \<Rightarrow> snapshot_store \<Rightarrow> bool" where
  "archived E snapshot stamp t st0 X st \<longleftrightarrow> stored E snapshot stamp st0 X st
     \<and> look (so_manifests st) (archive_name E snapshot t) = Some (manifest_bytes (published_manifest E snapshot t))"

lemma stage_keeps: "stored E snapshot stamp st0 X st \<Longrightarrow> publishing E snapshot stamp st0 st"
  "archived E snapshot stamp t st0 X st \<Longrightarrow> publishing E snapshot stamp st0 st"
  by (simp_all add: stored_def archived_def)

lemma stage_clock [simp]:
  "stored E snapshot stamp st0 X (st\<lparr>so_clock := n\<rparr>) = stored E snapshot stamp st0 X st"
  "archived E snapshot stamp t st0 X (st\<lparr>so_clock := n\<rparr>) = archived E snapshot stamp t st0 X st"
  by (simp_all add: stored_def archived_def)

lemma stage_failure:
  assumes "sn_fails E k"
  shows "stored E snapshot stamp st0 X st \<Longrightarrow> stopped E snapshot stamp st0 (st\<lparr>so_clock := n\<rparr>)"
    "archived E snapshot stamp t st0 X st \<Longrightarrow> stopped E snapshot stamp st0 (st\<lparr>so_clock := n\<rparr>)"
  using assms by (auto intro!: stopped_by_failure dest: stage_keeps)

lemma stored_loads:
  assumes "store_env_ok E" and "publishable E snapshot" and "stored E snapshot stamp st0 X st"
  shows "sound_manifest (published_manifest E snapshot t)" "loadable E st (published_manifest E snapshot t)"
  using assms published_loads [OF assms(1,2)] by (auto simp: stored_def loadable_def publishable_def published_sound)

text \<open>An immutable file that is missing is written, one with other content stops the publication.\<close>

lemma through_write_once:
  assumes "\<And>s c'. P s \<Longrightarrow> look (dir s) n = Some c' \<Longrightarrow> c' \<noteq> c \<Longrightarrow> I s" and "\<And>s. P s \<Longrightarrow> look (dir s) n = Some c \<Longrightarrow> Q () s"
    and "holds_through I (\<lambda>s. P s \<and> look (dir s) n = None) (write n c) Q"
  shows "holds_through I P (write_once dir write e n c) Q"
  using assms unfolding holds_through_def write_once_def by (auto split: option.split)

lemma object_step:
  assumes "store_ok E st0"
  shows "holds_through (stopped E snapshot stamp st0) (\<lambda>st. st = st0)
     (write_once so_objects (write_object E) e (snapshot_object E snapshot) (snapshot_bytes snapshot))
     (\<lambda>_ st. stored E snapshot stamp st0 (\<lambda>d. d = so_pointers st0) st \<and> so_manifests st = so_manifests st0)"
proof -
  have start: "publishing E snapshot stamp st0 st0" using assms by (simp add: publishing_def current_step_def)
  show ?thesis
  proof (rule through_write_once)
    show "holds_through (stopped E snapshot stamp st0) (\<lambda>s. s = st0 \<and> look (so_objects s) (snapshot_object E snapshot) = None)
        (write_object E (snapshot_object E snapshot) (snapshot_bytes snapshot))
        (\<lambda>_ st. stored E snapshot stamp st0 (\<lambda>d. d = so_pointers st0) st \<and> so_manifests st = so_manifests st0)"
      unfolding write_object_def using start
      by (intro through_file_op) (auto simp: stored_def intro: publishing_object stopped_by_failure)
  qed (use start in \<open>auto simp: stored_def stopped_def excused_def\<close>)
qed

lemma archive_step:
  assumes "store_env_ok E" and "publishable E snapshot" and "stamp = Aware t"
  shows "holds_through (stopped E snapshot stamp st0) (\<lambda>st. stored E snapshot stamp st0 X st \<and> so_manifests st = so_manifests st0)
     (write_once so_manifests (write_archive E) e (archive_name E snapshot t) (manifest_bytes (published_manifest E snapshot t)))
     (\<lambda>_. archived E snapshot stamp t st0 X)"
proof (rule through_write_once)
  let ?n = "archive_name E snapshot t" and ?m = "published_manifest E snapshot t"
  have "archived E snapshot stamp t st0 X (s\<lparr>so_manifests := put_file ?n (manifest_bytes ?m) k (so_manifests st0)\<rparr>)"
    if "stored E snapshot stamp st0 X s" "look (so_manifests s) ?n = None" "so_manifests s = so_manifests st0" for s k
    using publishing_archive [OF stage_keeps(1) [OF that(1)] that(2) stored_loads [OF assms(1,2) that(1)]] that(1)
    by (simp add: archived_def stored_def archive_name_def that(3))
  then show "holds_through (stopped E snapshot stamp st0)
      (\<lambda>s. (stored E snapshot stamp st0 X s \<and> so_manifests s = so_manifests st0) \<and> look (so_manifests s) ?n = None)
      (write_archive E ?n (manifest_bytes ?m)) (\<lambda>_. archived E snapshot stamp t st0 X)"
    unfolding write_archive_def by (intro through_file_op) (auto simp: stage_failure simp del: stage_clock, simp)
qed (use assms(3) in \<open>auto simp: archived_def stored_def stopped_def excused_def archive_name_def\<close>)

lemma pointer_step:
  assumes "p \<in> set pointer_names"
    and "\<And>st. archived E snapshot stamp t st0 X st \<Longrightarrow> sound_manifest m \<and> loadable E st m"
    and "p \<noteq> ''current'' \<or> stamp = Aware t \<and> publishable E snapshot \<and> m = published_manifest E snapshot t"
    and "\<And>d k. X d \<Longrightarrow> Y (put_file p (manifest_bytes m) k d)"
  shows "holds_through (stopped E snapshot stamp st0) (archived E snapshot stamp t st0 X) (write_pointer E p m)
    (\<lambda>_. archived E snapshot stamp t st0 Y)"
proof -
  have "archived E snapshot stamp t st0 Y (s\<lparr>so_pointers := put_file p (manifest_bytes m) k (so_pointers s)\<rparr>)"
    if a: "archived E snapshot stamp t st0 X s" for s k
    using pointer_written [of E s m p k] assms(2) [OF a] a assms(3) assms(4) [of "so_pointers s"]
    by (auto simp: archived_def stored_def publishing_def current_step_def)
  then show ?thesis unfolding write_pointer_def
    by (intro through_bind [where R = "\<lambda>_. archived E snapshot stamp t st0 X"] through_guard through_file_op) (use assms(1) in \<open>auto simp: stage_failure\<close>)
qed

lemma through_try:
  assumes "\<And>s. P s \<Longrightarrow> f s \<noteq> Inl ManifestTypeError" and "\<And>s. P s \<Longrightarrow> Q (case f s of Inl _ \<Rightarrow> None | Inr x \<Rightarrow> Some x) s"
  shows "holds_through I P (store_try f) Q"
  unfolding holds_through_def store_try_def
proof (intro allI impI)
  fix s assume "P s"
  then show "case case f s of Inl e \<Rightarrow> (if e = ManifestTypeError then Inl e else Inr None, s) | Inr x \<Rightarrow> (Inr (Some x), s) of
      (Inl e, t) \<Rightarrow> I t | (Inr x, t) \<Rightarrow> Q x t"
    using assms [of s] by (cases "f s") simp_all
qed

section \<open>The whole publication\<close>

definition fresh_snapshot :: "json \<Rightarrow> bool" where
  "fresh_snapshot snapshot \<longleftrightarrow> jget (jget snapshot ''sync'') ''state'' = JStr ''fresh''"

definition replaced :: "store_env \<Rightarrow> json \<Rightarrow> snapshot_store \<Rightarrow> directory \<Rightarrow> bool" where
  "replaced E snapshot st0 d \<longleftrightarrow> (\<forall>p. read_manifest ''current'' st0 = Inr p \<longrightarrow>
     jget p ''sha256'' \<noteq> JStr (sn_sha E (snapshot_bytes snapshot)) \<longrightarrow> look d ''previous'' = Some (manifest_bytes p))"

definition pointed :: "store_env \<Rightarrow> json \<Rightarrow> int \<Rightarrow> snapshot_store \<Rightarrow> directory \<Rightarrow> bool" where
  "pointed E snapshot t st0 d \<longleftrightarrow> replaced E snapshot st0 d \<and> look d ''current'' = Some (manifest_bytes (published_manifest E snapshot t))"

definition published_pointers :: "store_env \<Rightarrow> json \<Rightarrow> int \<Rightarrow> snapshot_store \<Rightarrow> directory \<Rightarrow> bool" where
  "published_pointers E snapshot t st0 d \<longleftrightarrow> pointed E snapshot t st0 d \<and> look d ''last_known_good'' \<noteq> None
     \<and> (fresh_snapshot snapshot \<longrightarrow> look d ''last_known_good'' = Some (manifest_bytes (published_manifest E snapshot t)))"

definition published_state :: "store_env \<Rightarrow> json \<Rightarrow> pydt \<Rightarrow> snapshot_store \<Rightarrow> json \<Rightarrow> snapshot_store \<Rightarrow> bool" where
  "published_state E snapshot stamp st0 m st \<longleftrightarrow> (\<exists>t. stamp = Aware t \<and> m = published_manifest E snapshot t \<and> publishable E snapshot
     \<and> archived E snapshot stamp t st0 (published_pointers E snapshot t st0) st)"

lemma read_manifest_pointers: "so_pointers st' = so_pointers st \<Longrightarrow> read_manifest p st' = read_manifest p st"
  by (simp add: read_manifest_def)

lemma load_pointer_exists: "load_pointer E p st = Inr r \<Longrightarrow> look (so_pointers st) p \<noteq> None"
  by (auto simp: load_pointer_def read_manifest_def split: if_splits option.splits)

lemma publish_tail:
  assumes env: "store_env_ok E" and pub: "publishable E snapshot" and t: "stamp = Aware t"
  shows "holds_through (stopped E snapshot stamp st0) (archived E snapshot stamp t st0 (\<lambda>d. d = so_pointers st0))
    (bindE (store_try (read_manifest ''current'')) (\<lambda>previous.
     bindE (case previous of
         None \<Rightarrow> ret ()
       | Some p \<Rightarrow> if jget p ''sha256'' \<noteq> JStr (sn_sha E (snapshot_bytes snapshot)) then write_pointer E ''previous'' p else ret ()) (\<lambda>_.
     bindE (write_pointer E ''current'' (published_manifest E snapshot t)) (\<lambda>_.
     bindE (store_try (load_pointer E ''last_known_good'')) (\<lambda>good.
     bindE (if jget (jget snapshot ''sync'') ''state'' = JStr ''fresh'' \<or> good = None
            then write_pointer E ''last_known_good'' (published_manifest E snapshot t) else ret ()) (\<lambda>_.
     ret (published_manifest E snapshot t)))))))
    (published_state E snapshot stamp st0)"
proof -
  let ?I = "stopped E snapshot stamp st0" and ?A = "archived E snapshot stamp t st0" and ?X0 = "\<lambda>d. d = so_pointers st0"
  let ?m = "published_manifest E snapshot t"
  let ?old = "case read_manifest ''current'' st0 of Inl _ \<Rightarrow> None | Inr p \<Rightarrow> Some p"
  have new: "\<And>X st. ?A X st \<Longrightarrow> sound_manifest ?m \<and> loadable E st ?m"
    using stored_loads [OF env pub] by (auto simp: archived_def)
  have stage: "pointers_ok E st" if "?A X st" for X st using stage_keeps(2) [OF that] by (simp add: publishing_def store_ok_def)
  have read: "holds_through ?I (?A ?X0) (store_try (read_manifest ''current'')) (\<lambda>v st. ?A ?X0 st \<and> v = ?old)"
  proof (rule through_try)
    fix st assume a: "?A ?X0 st"
    then show "?A ?X0 st \<and> (case read_manifest ''current'' st of Inl _ \<Rightarrow> None | Inr x \<Rightarrow> Some x) = ?old"
      using read_manifest_pointers [of st st0 "''current''"] by (simp add: archived_def stored_def)
  qed (rule pointer_errors, use stage in blast)
  have previous: "holds_through ?I (\<lambda>st. ?A ?X0 st \<and> v = ?old) (case v of None \<Rightarrow> ret ()
      | Some p \<Rightarrow> if jget p ''sha256'' \<noteq> JStr (sn_sha E (snapshot_bytes snapshot)) then write_pointer E ''previous'' p else ret ())
      (\<lambda>_. ?A (replaced E snapshot st0))" for v
  proof (cases v)
    case (Some p)
    show ?thesis
    proof (cases "v = ?old \<and> jget p ''sha256'' \<noteq> JStr (sn_sha E (snapshot_bytes snapshot))")
      case True
      then have p: "read_manifest ''current'' st0 = Inr p" using Some by (simp split: sum.splits)
      have "holds_through ?I (?A ?X0) (write_pointer E ''previous'' p) (\<lambda>_. ?A (replaced E snapshot st0))"
      proof (rule pointer_step)
        fix st assume a: "?A ?X0 st"
        then have "pointers_ok E st" "read_manifest ''current'' st = Inr p"
          using p read_manifest_pointers [of st st0] by (auto simp: archived_def stored_def publishing_def store_ok_def)
        then show "sound_manifest p \<and> loadable E st p" by (blast intro: pointer_decode)
      qed (simp_all add: pointer_names_def replaced_def p)
      then show ?thesis using conjunct2 [OF True] by (simp add: Some) (erule through_weaken; simp)
    next
      case False
      then show ?thesis using Some
        by (auto simp: holds_through_def archived_def stored_def replaced_def split: sum.splits)
    qed
  qed (auto simp: holds_through_def archived_def stored_def replaced_def split: sum.splits)
  have current: "holds_through ?I (?A (replaced E snapshot st0)) (write_pointer E ''current'' ?m) (\<lambda>_. ?A (pointed E snapshot t st0))"
    by (rule pointer_step) (auto simp: pointer_names_def new t pub pointed_def replaced_def)
  have good: "holds_through ?I (?A (pointed E snapshot t st0)) (store_try (load_pointer E ''last_known_good''))
      (\<lambda>g st. ?A (\<lambda>d. pointed E snapshot t st0 d \<and> (g \<noteq> None \<longrightarrow> look d ''last_known_good'' \<noteq> None)) st)"
  proof (rule through_try)
    fix st assume a: "?A (pointed E snapshot t st0) st"
    show "?A (\<lambda>d. pointed E snapshot t st0 d \<and> ((case load_pointer E ''last_known_good'' st of Inl _ \<Rightarrow> None | Inr x \<Rightarrow> Some x) \<noteq> None
        \<longrightarrow> look d ''last_known_good'' \<noteq> None)) st"
      using a load_pointer_exists [of E "''last_known_good''" st]
      by (cases "load_pointer E ''last_known_good'' st") (simp_all add: archived_def stored_def)
  qed (rule pointer_errors, use stage in blast)
  have last: "holds_through ?I (?A (\<lambda>d. pointed E snapshot t st0 d \<and> (g \<noteq> None \<longrightarrow> look d ''last_known_good'' \<noteq> None)))
      (if jget (jget snapshot ''sync'') ''state'' = JStr ''fresh'' \<or> g = None then write_pointer E ''last_known_good'' ?m else ret ())
      (\<lambda>_. ?A (published_pointers E snapshot t st0))" for g :: "(json \<times> json) option"
    by (intro through_if pointer_step through_ret)
      (auto simp: pointer_names_def new archived_def stored_def published_pointers_def pointed_def replaced_def fresh_snapshot_def)
  show ?thesis
    by (intro through_bind [OF read] through_bind [OF previous] through_bind [OF current] through_bind [OF good]
        through_bind [OF last] through_ret) (auto simp: published_state_def t pub)
qed

lemma publish_triple:
  assumes env: "store_env_ok E" and ok: "json_ok snapshot" and st0: "store_ok E st0"
  shows "holds_through (stopped E snapshot stamp st0) (\<lambda>st. st = st0) (publish E snapshot stamp) (published_state E snapshot stamp st0)"
proof -
  let ?I = "stopped E snapshot stamp st0" and ?P = "\<lambda>st. publishable E snapshot \<and> st = st0"
  let ?S = "\<lambda>st. stored E snapshot stamp st0 (\<lambda>d. d = so_pointers st0) st \<and> so_manifests st = so_manifests st0"
  have start: "excused E snapshot stamp st0 \<Longrightarrow> ?I st0" using st0 by (simp add: stopped_def publishing_def current_step_def)
  have valid: "holds_through ?I (\<lambda>st. st = st0) (lift_res (case validate_snapshot (sn_schema E) snapshot of Inl ps \<Rightarrow> Inl (InvalidSnapshot ps) | Inr s \<Rightarrow> Inr s)) (\<lambda>_. ?P)"
    using ok by (intro through_lift) (auto simp: publishable_def validate_snapshot_def Let_def excused_def intro: start split: if_splits)
  have real: "holds_through ?I ?P (guardE (sn_demo E \<or> jget (jget snapshot ''sync'') ''publication_mode'' = JStr ''real_only'') NotRealOnly) (\<lambda>_. ?P)"
    by (rule through_guard) (auto simp: excused_def intro: start)
  have objects: "holds_through ?I ?P (write_once so_objects (write_object E) CorruptObject (snapshot_object E snapshot) (snapshot_bytes snapshot))
      (\<lambda>_ st. publishable E snapshot \<and> ?S st)"
    by (rule through_assume, rule through_weaken [OF object_step [OF st0]]) simp_all
  have stamped: "holds_through ?I (\<lambda>st. publishable E snapshot \<and> ?S st) (lift_res (case stamp of Naive x \<Rightarrow> Inl NaivePublication | Aware t \<Rightarrow> Inr t))
      (\<lambda>t st. (publishable E snapshot \<and> stamp = Aware t) \<and> ?S st)"
    by (rule through_lift) (cases stamp, auto intro: stage_keeps(1) simp: stopped_def excused_def)+
  have archives: "holds_through ?I (\<lambda>st. (publishable E snapshot \<and> stamp = Aware t) \<and> ?S st)
      (write_once so_manifests (write_archive E) CorruptArchive (archive_name E snapshot t) (manifest_bytes (published_manifest E snapshot t)))
      (\<lambda>_ st. (publishable E snapshot \<and> stamp = Aware t) \<and> archived E snapshot stamp t st0 (\<lambda>d. d = so_pointers st0) st)" for t
    by (rule through_assume, rule through_weaken [OF archive_step [OF env]]) auto
  show ?thesis
    unfolding publish_def Let_def snapshot_object_def [symmetric] published_manifest_def [symmetric] archive_name_def [symmetric]
    by (rule through_bind [OF valid], rule through_bind [OF real], rule through_bind [OF objects], rule through_bind [OF stamped],
        rule through_bind [OF archives], rule through_assume, rule publish_tail [OF env]) auto
qed

section \<open>What a publication leaves behind\<close>

lemma written_pointer_loads:
  assumes "sound_manifest m" and "look (so_pointers st) p = Some (manifest_bytes m)" and "p \<in> set pointer_names"
    and "load_manifest E m l st = Inr s"
  shows "load_pointer E p st = Inr (s, canon m)"
  using assms(2,3) decode_bytes [OF assms(1)] load_label [OF assms(4), of p]
  by (simp add: load_pointer_def read_manifest_def load_manifest_canon [OF assms(1)])

lemma current_pointer: "''current'' \<in> set pointer_names" "''previous'' \<in> set pointer_names" "''last_known_good'' \<in> set pointer_names"
  by (simp_all add: pointer_names_def)

lemma same_pointer_loads:
  assumes "pointers_ok E st0" and "look (so_pointers st) p = look (so_pointers st0) p" and "grows (so_objects st0) (so_objects st)"
  shows "load_pointer E p st = load_pointer E p st0"
proof -
  have r: "read_manifest p st = read_manifest p st0" using assms(2) by (simp add: read_manifest_def)
  have "load_manifest E m p st = load_manifest E m p st0" if "read_manifest p st0 = Inr m" for m
    using load_label [of E m "[]" st0 _ p] load_manifest_grows [OF assms(3), of E m p] pointer_decode(2) [OF assms(1) that]
    by (auto simp: loadable_def)
  then show ?thesis by (cases "read_manifest p st0") (simp_all add: load_pointer_def r)
qed

lemma publish_any_outcome:
  assumes env: "store_env_ok E" and ok: "json_ok snapshot" and st0: "store_ok E st" and run: "publish E snapshot stamp st = (r, st')"
  shows "store_ok E st'" "grows (so_objects st) (so_objects st')" "grows (so_manifests st) (so_manifests st')"
    "load_pointer E ''current'' st' = load_pointer E ''current'' st
     \<or> (\<exists>t. stamp = Aware t \<and> load_pointer E ''current'' st' = Inr (canon snapshot, canon (published_manifest E snapshot t)))"
proof -
  have I: "publishing E snapshot stamp st st'"
    using throughD [OF publish_triple [OF env ok st0] run] by (cases r) (auto simp: published_state_def stage_keeps stopped_def)
  then show "store_ok E st'" "grows (so_manifests st) (so_manifests st')" and g: "grows (so_objects st) (so_objects st')"
    by (simp_all add: publishing_def)
  consider "look (so_pointers st') ''current'' = look (so_pointers st) ''current''"
    | t where "stamp = Aware t" "publishable E snapshot" "look (so_objects st') (snapshot_object E snapshot) = Some (snapshot_bytes snapshot)"
      "look (so_pointers st') ''current'' = Some (manifest_bytes (published_manifest E snapshot t))"
    using I by (auto simp: publishing_def current_step_def)
  then show "load_pointer E ''current'' st' = load_pointer E ''current'' st
     \<or> (\<exists>t. stamp = Aware t \<and> load_pointer E ''current'' st' = Inr (canon snapshot, canon (published_manifest E snapshot t)))"
  proof cases
    case 1
    then show ?thesis using same_pointer_loads g st0 by (auto simp: store_ok_def)
  next
    case (2 t)
    have "load_pointer E ''current'' st' = Inr (canon snapshot, canon (published_manifest E snapshot t))"
      by (rule written_pointer_loads [OF published_sound [OF env ok] 2(4) current_pointer(1) published_loads [OF env 2(2,3)]])
    then show ?thesis using 2(1) by blast
  qed
qed

lemma publish_finished:
  assumes env: "store_env_ok E" and ok: "json_ok snapshot" and st0: "store_ok E st" and run: "publish E snapshot stamp st = (Inr m, st')"
  obtains t where "stamp = Aware t" "m = published_manifest E snapshot t" "snapshot_problems (sn_schema E) snapshot = []"
    "load_pointer E ''current'' st' = Inr (canon snapshot, canon m)"
    "load_archive E (archive_name E snapshot t) st' = Inr (canon snapshot, canon m)"
    "\<And>s p. load_pointer E ''current'' st = Inr (s, p) \<Longrightarrow> jget p ''sha256'' \<noteq> jget m ''sha256'' \<Longrightarrow> load_pointer E ''previous'' st' = Inr (s, canon p)"
    "\<exists>g. load_pointer E ''last_known_good'' st' = Inr g"
    "fresh_snapshot snapshot \<Longrightarrow> load_pointer E ''last_known_good'' st' = Inr (canon snapshot, canon m)"
proof -
  obtain t where t: "stamp = Aware t" and m: "m = published_manifest E snapshot t" and pub: "publishable E snapshot"
    and A: "archived E snapshot stamp t st (published_pointers E snapshot t st) st'"
    using throughD [OF publish_triple [OF env ok st0] run] by (auto simp: published_state_def)
  have sound: "sound_manifest m" unfolding m by (rule published_sound [OF env ok])
  have loads: "load_manifest E m p st' = Inr (canon snapshot)" for p
    unfolding m using A by (intro published_loads [OF env pub]) (simp add: archived_def stored_def)
  have ptr: "published_pointers E snapshot t st (so_pointers st')" and g: "grows (so_objects st) (so_objects st')" and ok': "store_ok E st'"
    using A by (simp_all add: archived_def stored_def publishing_def)
  have current: "load_pointer E ''current'' st' = Inr (canon snapshot, canon m)"
    using ptr by (intro written_pointer_loads [OF sound _ current_pointer(1) loads]) (simp add: published_pointers_def pointed_def m)
  have fresh: "load_pointer E ''last_known_good'' st' = Inr (canon snapshot, canon m)" if "fresh_snapshot snapshot"
    using ptr that by (intro written_pointer_loads [OF sound _ current_pointer(3) loads]) (simp add: published_pointers_def m)
  have good: "\<exists>g. load_pointer E ''last_known_good'' st' = Inr g"
    using ok' ptr by (auto simp: store_ok_def published_pointers_def intro: pointer_loads [OF _ current_pointer(3)])
  have "jget m ''sha256'' = JStr (sn_sha E (snapshot_bytes snapshot))" by (simp add: m published_manifest_def manifest_of_def)
  then have previous: "load_pointer E ''previous'' st' = Inr (s, canon p)"
    if l: "load_pointer E ''current'' st = Inr (s, p)" "jget p ''sha256'' \<noteq> jget m ''sha256''" for s p
  proof -
    have r: "read_manifest ''current'' st = Inr p" "load_manifest E p ''current'' st = Inr s"
      using l(1) by (auto simp: load_pointer_def bindR_eq_Inr)
    have "look (so_pointers st') ''previous'' = Some (manifest_bytes p)"
      using ptr l(2) r(1) \<open>jget m ''sha256'' = _\<close> by (simp add: published_pointers_def pointed_def replaced_def)
    then show ?thesis using pointer_decode(1) [OF _ r(1)] st0
      by (intro written_pointer_loads [OF _ _ current_pointer(2) load_manifest_grows [OF g r(2)]]) (auto simp: store_ok_def)
  qed
  have "load_archive E (archive_name E snapshot t) st' = Inr (canon snapshot, canon m)"
    using A decode_bytes [OF sound] env
    by (simp add: load_archive_def archive_name_def archived_def read_archived_manifest_def m [symmetric] object_name_file store_env_ok_def
        load_manifest_canon [OF sound] loads)
  then show ?thesis using that t m pub current previous good fresh by (simp add: publishable_def)
qed

text \<open>A publication that is not excused returns a manifest.\<close>

lemma publish_returns:
  assumes "store_env_ok E" and "json_ok snapshot" and "store_ok E st" and "\<not> excused E snapshot stamp st"
  obtains m st' where "publish E snapshot stamp st = (Inr m, st')"
  using throughD [OF publish_triple [OF assms(1-3)]] assms(4) unfolding stopped_def
  by (cases "publish E snapshot stamp st"; cases "fst (publish E snapshot stamp st)") (force simp: stopped_def)+

end
