(* ===== verification/SnapshotPrune.thy ===== *)
theory SnapshotPrune
  imports SnapshotPublish
begin

text \<open>
  Pruning keeps the invariant of the snapshot store when any deletion may fail, never takes an object
  that a pointer or a surviving archived manifest needs, and bounds the number of objects left.
\<close>

section \<open>The objects that must stay\<close>

lemma load_manifest_subset:
  assumes "grows (so_objects st') (so_objects st)" and "load_manifest E m p st = Inr s" and "look (so_objects st') (object_of m) \<noteq> None"
  shows "load_manifest E m p st' = Inr s"
proof -
  obtain c where "look (so_objects st') (object_of m) = Some c" using assms(3) by auto
  then have "look (so_objects st') (object_of m) = look (so_objects st) (object_of m)" using assms(1) by (simp add: grows_def)
  then show ?thesis using assms(2) load_manifest_look [of st' m st E p] by simp
qed

definition keeps_pointers :: "string list \<Rightarrow> snapshot_store \<Rightarrow> bool" where
  "keeps_pointers keep st \<longleftrightarrow> (\<forall>p m. read_manifest p st = Inr m \<longrightarrow> object_of m \<in> set keep)"

definition keeps_archives :: "string list \<Rightarrow> string list \<Rightarrow> snapshot_store \<Rightarrow> bool" where
  "keeps_archives keep pending st \<longleftrightarrow> (\<forall>n c m. object_file_name n \<longrightarrow> n \<notin> set pending \<longrightarrow> look (so_manifests st) n = Some c \<longrightarrow>
     decode_manifest c n = Inr m \<longrightarrow> object_of m \<in> set keep)"

definition pruning :: "store_env \<Rightarrow> string list \<Rightarrow> snapshot_store \<Rightarrow> snapshot_store \<Rightarrow> bool" where
  "pruning E keep st0 st \<longleftrightarrow> store_ok E st \<and> so_pointers st = so_pointers st0 \<and> grows (so_objects st) (so_objects st0)
     \<and> grows (so_manifests st) (so_manifests st0) \<and> (\<forall>n \<in> set keep. look (so_objects st) n = look (so_objects st0) n)"

lemma pruning_clock [simp]: "pruning E keep st0 (st\<lparr>so_clock := n\<rparr>) = pruning E keep st0 st"
  by (simp add: pruning_def)

lemma keeps_clock [simp]: "keeps_archives keep xs (st\<lparr>so_clock := n\<rparr>) = keeps_archives keep xs st"
  by (simp add: keeps_archives_def)

text \<open>All readable pointers are protected.\<close>

lemma protected_fold:
  assumes "foldl (\<lambda>acc p. bindR acc (\<lambda>names. case read_manifest p st of
     Inr m \<Rightarrow> Inr (object_of m # names) | Inl e \<Rightarrow> if e = ManifestTypeError then Inl e else Inr names)) (Inr names) ps = Inr keep"
  shows "set names \<subseteq> set keep \<and> (\<forall>p \<in> set ps. \<forall>m. read_manifest p st = Inr m \<longrightarrow> object_of m \<in> set keep) \<and> length keep \<le> length names + length ps"
  using assms
proof (induction ps arbitrary: names)
  case (Cons p ps)
  have err: "foldl (\<lambda>acc p. bindR acc (f p)) (Inl e) ps \<noteq> Inr keep" for f :: "string \<Rightarrow> string list \<Rightarrow> store_error + string list" and e
    by (induction ps) simp_all
  show ?case
  proof (cases "read_manifest p st")
    case (Inl e)
    then show ?thesis using Cons.prems Cons.IH [of names] err by (fastforce split: if_splits)
  next
    case (Inr m)
    then show ?thesis using Cons.prems Cons.IH [of "object_of m # names"] by auto
  qed
qed simp

lemma protected_keeps:
  assumes "protected_objects st = Inr keep"
  shows "keeps_pointers keep st" "length keep \<le> 3"
  using protected_fold [OF assms [unfolded protected_objects_def]]
  by (auto simp: keeps_pointers_def pointer_names_def read_manifest_def split: if_splits)

section \<open>Deleting one archived manifest, one object\<close>

lemma through_fold_pending:
  assumes "\<And>a x xs. holds_through I (P (x # xs)) (f a x) (\<lambda>_. P xs)"
  shows "holds_through I (P xs) (foldE f a xs) (\<lambda>_. P [])"
  using assms by (induction xs arbitrary: a) (simp_all add: through_ret, blast intro: through_bind)

lemma pruning_unlink_archive:
  assumes "pruning E keep st0 st"
  shows "pruning E keep st0 (st\<lparr>so_manifests := AList.delete n (so_manifests st)\<rparr>)"
proof -
  let ?st = "st\<lparr>so_manifests := AList.delete n (so_manifests st)\<rparr>"
  have g: "grows (so_manifests ?st) (so_manifests st)" by (simp add: grows_def)
  have "archives_ok E ?st" unfolding archives_ok_def
  proof (intro allI impI)
    fix n' c assume f: "object_file_name n'" and "look (so_manifests ?st) n' = Some c"
    then have "look (so_manifests st) n' = Some c" using g unfolding grows_def by blast
    then show "sn_sha E c = without_json n' \<and> (\<exists>m. decode_manifest c [] = Inr m \<and> loadable E ?st m)"
      using assms f unfolding pruning_def store_ok_def archives_ok_def loadable_simps by blast
  qed
  moreover have "pointers_ok E ?st" using assms by (simp add: pruning_def store_ok_def pointers_ok_def)
  moreover have "grows (so_manifests ?st) (so_manifests st0)" using assms g grows_trans unfolding pruning_def by blast
  ultimately show ?thesis using assms by (simp add: pruning_def store_ok_def)
qed

lemma archive_readable:
  assumes "archives_ok E st" and "object_file_name n" and "look (so_manifests st) n = Some c"
  obtains m where "read_archived_manifest E n st = Inr m" "decode_manifest c n = Inr m" "loadable E st m"
proof -
  obtain m where sha: "sn_sha E c = without_json n" and d: "decode_manifest c [] = Inr m" and l: "loadable E st m"
    using assms unfolding archives_ok_def by blast
  have "read_archived_manifest E n st = Inr m"
    unfolding read_archived_manifest_def assms(3) option.case sha decode_label [OF d] by simp
  then show ?thesis by (rule that [OF _ decode_label [OF d] l])
qed

lemma loadable_present: "loadable E st m \<Longrightarrow> look (so_objects st) (object_of m) \<noteq> None"
  by (auto simp: loadable_def load_manifest_def split: option.splits)

lemma prune_archive_step:
  "holds_through (pruning E keep st0) (\<lambda>st. pruning E keep st0 st \<and> keeps_archives keep (n # ns) st)
     (prune_archive E keep removed n) (\<lambda>_ st. pruning E keep st0 st \<and> keeps_archives keep ns st)"
proof (cases "object_file_name n")
  case False
  then show ?thesis by (auto simp: prune_archive_def keeps_archives_def intro: through_ret)
next
  case True
  then have named: "(\<not> object_file_name n) = False" by simp
  let ?P = "\<lambda>st. pruning E keep st0 st \<and> keeps_archives keep (n # ns) st"
  have unlink: "holds_through (pruning E keep st0) ?P (unlink_archive E n) (\<lambda>_ st. pruning E keep st0 st \<and> keeps_archives keep ns st)"
    unfolding unlink_archive_def
    by (rule through_file_op) (auto simp: pruning_unlink_archive, auto simp: keeps_archives_def split: if_splits)
  have rest: "pruning E keep st0 st \<and> keeps_archives keep ns st" if "?P st" "read_archived_manifest E n st = Inr m" "object_of m \<in> set keep" for st m
    using that True by (auto simp: keeps_archives_def read_archived_manifest_def split: option.splits if_splits)
  have drop: "holds_through (pruning E keep st0) (\<lambda>st. ?P st \<and> read_archived_manifest E n st = Inr m)
      (bindE (unlink_archive E n) (\<lambda>_. ret (removed @ [n]))) (\<lambda>_ st. pruning E keep st0 st \<and> keeps_archives keep ns st)" for m
    by (rule through_bind, rule through_weaken [OF unlink], simp, assumption, rule through_ret)
  show ?thesis
    unfolding prune_archive_def named if_False
  proof (rule through_bind)
    show "holds_through (pruning E keep st0) ?P (\<lambda>st. lift_res (read_archived_manifest E n st) st)
        (\<lambda>m st. ?P st \<and> read_archived_manifest E n st = Inr m)"
      by (rule through_read) simp_all
    fix m
    show "holds_through (pruning E keep st0) (\<lambda>st. ?P st \<and> read_archived_manifest E n st = Inr m)
        (bindE (gets (\<lambda>st. look (so_objects st) (object_of m))) (\<lambda>present. if object_of m \<notin> set keep \<or> present = None
          then bindE (unlink_archive E n) (\<lambda>_. ret (removed @ [n])) else ret removed))
        (\<lambda>_ st. pruning E keep st0 st \<and> keeps_archives keep ns st)"
      by (rule through_bind [where R = "\<lambda>_ st. ?P st \<and> read_archived_manifest E n st = Inr m"], rule through_gets, simp,
          rule through_if, rule drop, rule through_ret) (use rest in blast)
  qed
qed

definition sweeping :: "store_env \<Rightarrow> string list \<Rightarrow> snapshot_store \<Rightarrow> string list \<Rightarrow> snapshot_store \<Rightarrow> bool" where
  "sweeping E keep st0 pending st \<longleftrightarrow> pruning E keep st0 st \<and> keeps_archives keep [] st
     \<and> (\<forall>n. object_file_name n \<longrightarrow> look (so_objects st) n \<noteq> None \<longrightarrow> n \<in> set keep \<or> n \<in> set pending)"

lemma sweeping_clock [simp]: "sweeping E keep st0 xs (st\<lparr>so_clock := n\<rparr>) = sweeping E keep st0 xs st"
  by (simp add: sweeping_def)

lemma loadable_without:
  assumes "loadable E st m" and "object_of m \<noteq> n"
  shows "loadable E (st\<lparr>so_objects := AList.delete n (so_objects st)\<rparr>) m"
proof -
  have "load_manifest E m [] (st\<lparr>so_objects := AList.delete n (so_objects st)\<rparr>) = load_manifest E m [] st"
    by (rule load_manifest_look) (use assms(2) in simp)
  then show ?thesis using assms(1) by (simp add: loadable_def)
qed

lemma pruning_unlink_object:
  assumes P: "pruning E keep st0 st" and K: "keeps_archives keep [] st" "keeps_pointers keep st0" and n: "n \<notin> set keep"
  shows "pruning E keep st0 (st\<lparr>so_objects := AList.delete n (so_objects st)\<rparr>)" (is "pruning E keep st0 ?st")
proof -
  have ok: "pointers_ok E st" "archives_ok E st" and same: "so_pointers st = so_pointers st0"
    using P by (simp_all add: pruning_def store_ok_def)
  have "pointers_ok E ?st" unfolding pointers_ok_def
  proof (intro ballI allI impI)
    fix p c assume p: "p \<in> set pointer_names" "look (so_pointers ?st) p = Some c"
    then obtain m where m: "decode_manifest c [] = Inr m" "loadable E st m" using ok(1) by (auto simp: pointers_ok_def)
    have "read_manifest p st0 = Inr m" using p same decode_label [OF m(1), of p] by (simp add: read_manifest_def)
    then have "object_of m \<noteq> n" using K(2) n by (auto simp: keeps_pointers_def)
    then show "\<exists>m. decode_manifest c [] = Inr m \<and> loadable E ?st m" using m loadable_without by blast
  qed
  moreover have "archives_ok E ?st" unfolding archives_ok_def
  proof (intro allI impI)
    fix a c assume a: "object_file_name a" "look (so_manifests ?st) a = Some c"
    then obtain m where m: "sn_sha E c = without_json a" "decode_manifest c [] = Inr m" "loadable E st m"
      using ok(2) unfolding archives_ok_def by auto
    then have "object_of m \<noteq> n" using K(1) a n decode_label [OF m(2), of a] by (auto simp: keeps_archives_def)
    then show "sn_sha E c = without_json a \<and> (\<exists>m. decode_manifest c [] = Inr m \<and> loadable E ?st m)"
      using m loadable_without by blast
  qed
  moreover have "grows (so_objects ?st) (so_objects st)" by (simp add: grows_def)
  then have "grows (so_objects ?st) (so_objects st0)" using P grows_trans unfolding pruning_def by blast
  moreover have "\<forall>k \<in> set keep. look (so_objects ?st) k = look (so_objects st0) k"
    using P n by (auto simp: pruning_def)
  ultimately show ?thesis using P by (simp add: pruning_def store_ok_def)
qed

lemma prune_object_step:
  assumes "keeps_pointers keep st0"
  shows "holds_through (pruning E keep st0) (sweeping E keep st0 (n # ns)) (prune_object E keep removed n) (\<lambda>_. sweeping E keep st0 ns)"
proof -
  have "sweeping E keep st0 ns (st\<lparr>so_objects := AList.delete n (so_objects st)\<rparr>)"
    if "sweeping E keep st0 (n # ns) st" "n \<notin> set keep" for st
    using pruning_unlink_object [of E keep st0 st n] that assms by (auto simp: sweeping_def keeps_archives_def split: if_splits)
  then show ?thesis unfolding prune_object_def unlink_object_def
    by (intro through_if through_bind [where R = "\<lambda>_. sweeping E keep st0 ns"] through_file_op through_ret)
      (auto simp: sweeping_def)
qed

section \<open>The whole pruning\<close>

definition newest_names :: "snapshot_store \<Rightarrow> string list" where
  "newest_names st = map fst (newest_first (filter (\<lambda>(name, _). object_file_name name) (so_objects st)))"

definition pruned :: "store_env \<Rightarrow> int \<Rightarrow> snapshot_store \<Rightarrow> snapshot_store \<Rightarrow> bool" where
  "pruned E retain st0 st \<longleftrightarrow> (\<exists>keep. pruning E keep st0 st \<and> keeps_pointers keep st0
     \<and> set (take (nat retain) (newest_names st0)) \<subseteq> set keep)"

definition swept :: "store_env \<Rightarrow> int \<Rightarrow> snapshot_store \<Rightarrow> snapshot_store \<Rightarrow> bool" where
  "swept E retain st0 st \<longleftrightarrow> (\<exists>keep. sweeping E keep st0 [] st \<and> keeps_pointers keep st0 \<and> length keep \<le> nat retain + 3
     \<and> set (take (nat retain) (newest_names st0)) \<subseteq> set keep)"

lemma in_newest: "object_file_name n \<Longrightarrow> look (so_objects st) n \<noteq> None \<Longrightarrow> n \<in> set (newest_names st)"
  by (auto simp: newest_names_def newest_first_def look_def image_iff dest: map_of_SomeD)

lemma in_listing: "look d n = Some c \<Longrightarrow> n \<in> set (sort (map fst d))"
  by (force simp: look_def dest: map_of_SomeD)

lemma prune_phases:
  assumes keep: "keep = protected @ take (nat retain) (newest_names st0)" and prot: "protected_objects st0 = Inr protected" and ok: "store_ok E st0"
  shows "holds_through (pruned E retain st0) (\<lambda>st. st = st0)
    (bindE (gets (\<lambda>st. sort (map fst (so_manifests st)))) (\<lambda>archives.
     bindE (foldE (prune_archive E keep) [] archives) (\<lambda>removed. foldE (prune_object E keep) removed (newest_names st0))))
    (\<lambda>_. swept E retain st0)"
proof -
  have K: "keeps_pointers keep st0" "length keep \<le> nat retain + 3"
    using protected_keeps [OF prot] unfolding keep by (auto simp: keeps_pointers_def)
  let ?A = "\<lambda>xs st. pruning E keep st0 st \<and> keeps_archives keep xs st"
  have "pruned E retain st0 st" if "pruning E keep st0 st" for st
    unfolding pruned_def using that K(1) keep by (intro exI [of _ keep]) simp
  then have out: "holds_through (pruned E retain st0) P m Q" if "holds_through (pruning E keep st0) P m Q" for P Q and m :: "'a store_act"
    using that unfolding holds_through_def by (fastforce split: prod.splits sum.splits)
  have start: "?A (sort (map fst (so_manifests st0))) st0"
    using ok by (auto simp: pruning_def keeps_archives_def dest!: in_listing)
  have archives: "holds_through (pruning E keep st0) (?A xs) (foldE (prune_archive E keep) [] xs) (\<lambda>_. sweeping E keep st0 (newest_names st0))" for xs
  proof (rule through_weaken [OF through_fold_pending [where P = ?A, OF prune_archive_step]])
    show "sweeping E keep st0 (newest_names st0) st" if "?A [] st" for st
    proof -
      have "grows (so_objects st) (so_objects st0)" using that by (simp add: pruning_def)
      then have "n \<in> set (newest_names st0)" if "object_file_name n" "look (so_objects st) n \<noteq> None" for n
        using that by (intro in_newest) (auto simp: grows_def)
      then show ?thesis using that by (simp add: sweeping_def)
    qed
  qed
  have objects: "holds_through (pruning E keep st0) (sweeping E keep st0 (newest_names st0))
      (foldE (prune_object E keep) removed (newest_names st0)) (\<lambda>_. sweeping E keep st0 [])" for removed
    by (rule through_fold_pending) (rule prune_object_step [OF K(1)])
  show ?thesis
    by (rule out, rule through_bind [where R = "\<lambda>xs. ?A xs"], rule through_gets, use start in simp, rule through_bind [OF archives],
        rule through_weaken [OF objects]) (use K keep in \<open>auto simp: swept_def\<close>)
qed

lemma prune_triple:
  assumes ok: "store_ok E st0"
  shows "holds_through (pruned E retain st0) (\<lambda>st. st = st0) (prune_objects E retain) (\<lambda>_. swept E retain st0)"
proof -
  have start: "pruned E retain st0 st0"
  proof -
    let ?keep = "map (\<lambda>p. object_of (projr (read_manifest p st0))) pointer_names @ newest_names st0"
    have "object_of m \<in> set ?keep" if "read_manifest p st0 = Inr m" for p m
    proof -
      have "p \<in> set pointer_names" using that by (auto simp: read_manifest_def split: if_splits)
      then have "object_of (projr (read_manifest p st0)) \<in> set ?keep" unfolding set_append set_map by blast
      then show ?thesis by (simp only: that sum.sel)
    qed
    moreover have "pruning E ?keep st0 st0" using ok by (simp add: pruning_def)
    moreover have "set (take (nat retain) (newest_names st0)) \<subseteq> set ?keep" by (auto dest: in_set_takeD)
    ultimately show ?thesis unfolding pruned_def keeps_pointers_def by blast
  qed
  have phases: "holds_through (pruned E retain st0) (\<lambda>st. st = st0 \<and> names = newest_names st0 \<and> protected_objects st0 = Inr protected)
      (bindE (gets (\<lambda>st. sort (map fst (so_manifests st)))) (\<lambda>archives.
       bindE (foldE (prune_archive E (protected @ take (nat retain) names)) [] archives) (\<lambda>removed.
       foldE (prune_object E (protected @ take (nat retain) names)) removed names))) (\<lambda>_. swept E retain st0)" for names protected
    using prune_phases [OF refl _ ok, of protected retain] by (auto simp: holds_through_def)
  show ?thesis unfolding prune_objects_def newest_names_def [symmetric] Let_def
    by (rule through_bind [where R = "\<lambda>_ st. st = st0"], rule through_guard, simp add: start, simp,
        rule through_bind [where R = "\<lambda>protected st. st = st0 \<and> protected_objects st0 = Inr protected"], rule through_read, simp add: start, simp,
        rule through_bind [where R = "\<lambda>names st. st = st0 \<and> names = newest_names st0 \<and> protected_objects st0 = Inr _"], rule through_gets, simp,
        rule phases)
qed

lemma prune_any_outcome:
  assumes ok: "store_ok E st" and run: "prune_objects E retain st = (r, st')"
  shows "store_ok E st'" "load_pointer E p st' = load_pointer E p st"
    "n \<in> set (take (nat retain) (newest_names st)) \<Longrightarrow> look (so_objects st') n = look (so_objects st) n"
proof -
  have "pruned E retain st st'"
    using throughD [OF prune_triple [OF ok] run] by (cases r) (auto simp: swept_def pruned_def sweeping_def)
  then obtain keep where P: "pruning E keep st st'" and K: "keeps_pointers keep st" "set (take (nat retain) (newest_names st)) \<subseteq> set keep"
    by (auto simp: pruned_def)
  show "store_ok E st'" using P by (simp add: pruning_def)
  show "look (so_objects st') n = look (so_objects st) n" if "n \<in> set (take (nat retain) (newest_names st))"
    using P K(2) that by (auto simp: pruning_def)
  have r: "read_manifest p st' = read_manifest p st" using P by (intro read_manifest_pointers) (simp add: pruning_def)
  have "load_manifest E m p st' = load_manifest E m p st" if "read_manifest p st = Inr m" for m
    by (rule load_manifest_look) (use P K(1) that in \<open>auto simp: pruning_def keeps_pointers_def\<close>)
  then show "load_pointer E p st' = load_pointer E p st" by (cases "read_manifest p st") (simp_all add: load_pointer_def r)
qed

lemma prune_bound:
  assumes ok: "store_ok E st" and run: "prune_objects E retain st = (Inr removed, st')"
  shows "card {n. object_file_name n \<and> look (so_objects st') n \<noteq> None} \<le> nat retain + 3"
proof -
  obtain keep where S: "sweeping E keep st [] st'" and l: "length keep \<le> nat retain + 3"
    using throughD [OF prune_triple [OF ok] run] by (auto simp: swept_def)
  then have "{n. object_file_name n \<and> look (so_objects st') n \<noteq> None} \<subseteq> set keep" by (auto simp: sweeping_def)
  then have "card {n. object_file_name n \<and> look (so_objects st') n \<noteq> None} \<le> card (set keep)" by (intro card_mono) simp_all
  then show ?thesis using card_length [of keep] l by linarith
qed

end
