(* ===== verification/WorkerFacts.thy ===== *)
theory WorkerFacts
  imports IngestWorker TicketDesk SnapshotPrune
begin

text \<open>
  What one run of the ingest worker does to the ticket store: it is a run of atomic steps, it marks
  every snapshot it handles, and a failed call leaves the store as the calls before it left it.
\<close>

section \<open>Calls of the ticket store inside the run\<close>

lemma of_store_Inr [simp]: "of_store m db = (Inr x, db') \<longleftrightarrow> m db = (Inr x, db')"
  by (auto simp: of_store_def split: prod.splits sum.splits)

lemma of_ingest_Inr [simp]: "of_ingest m db = (Inr x, db') \<longleftrightarrow> m db = (Inr x, db')"
  by (auto simp: of_ingest_def split: prod.splits sum.splits)

lemma of_store_snd [simp]: "snd (of_store m db) = snd (m db)"
  by (auto simp: of_store_def split: prod.splits sum.splits)

lemma of_ingest_snd [simp]: "snd (of_ingest m db) = snd (m db)"
  by (auto simp: of_ingest_def split: prod.splits sum.splits)

lemma steps_of [intro]: "steps_within R m \<Longrightarrow> steps_within R (of_store m)" "steps_within R m' \<Longrightarrow> steps_within R (of_ingest m')"
  by (simp_all add: steps_within_def)

lemma snapshot_ingested_state: "snd (snapshot_ingested d db) = db"
  by (cases "hex_argument ''SHA snapshot'' 64 BadDigest d") (simp_all add: snapshot_ingested_def bindE_lift_res gets_def)

lemma list_ingests_run [simp]: "list_snapshot_ingests 10000 db
    = (Inr (take 10000 (sort_desc ig_generated_at (sort_desc ig_snapshot (ingests db)))), db)"
  by (simp add: list_snapshot_ingests_def bindE_guardE gets_def)

lemma ingest_snapshot_run: "steps_within (desk_run tz) (ingest_snapshot env schema s expected)"
  unfolding ingest_snapshot_def
  by (intro run.rules steps_of ingest_snapshot_signals_run run.within_case_prod)

lemma ingest_candidate_run: "steps_within (desk_run tz) (ingest_candidate E envs totals c)"
  unfolding ingest_candidate_def Let_def
  by (intro run.rules steps_of ingest_snapshot_run) (simp add: steps_within_def snapshot_ingested_state run.le_refl)

lemma worker_run: "steps_within (desk_run tz) (ingest_available_snapshots E envs st)"
  unfolding ingest_available_snapshots_def
  by (intro run.rules steps_of run.within_case_prod ingest_candidate_run) (simp_all add: steps_within_def run.le_refl)

section \<open>Markers\<close>

lemma ingested_iff: "ingested d db \<longleftrightarrow> d \<in> ig_snapshot ` set (ingests db)"
  by (auto simp: ingested_def list_ex_iff)

lemma extends_ingested: "desk_extends db db' \<Longrightarrow> ingested d db \<Longrightarrow> ingested d db'"
  unfolding desk_extends_def ingested_iff using set_mono_prefix by fastforce

lemma hex_argument_hex: "is_sha256_hex d \<Longrightarrow> hex_argument ''SHA snapshot'' 64 BadDigest d = Inr d"
proof -
  assume hex: "is_sha256_hex d"
  show ?thesis using sha256_hex_normal [OF hex] hex by (simp add: hex_argument_def)
qed

lemma snapshot_ingested_hex: "is_sha256_hex d \<Longrightarrow> snapshot_ingested d db = (Inr (ingested d db), db)"
  by (simp add: snapshot_ingested_def hex_argument_hex gets_def)

lemma markers_unchanged: "upsert_signal env now s db = (Inr x, db') \<Longrightarrow> ingests db' = ingests db"
  by (auto simp: upsert_signal_def Let_def run_simps insert_occurrence_Inr update_signal_def whenE_Inr
      split: if_splits option.splits)

lemma markers_fold: "foldE (upsert_counted env now) acc batch db = (Inr x, db') \<Longrightarrow> ingests db' = ingests db"
  by (induction batch arbitrary: acc db) (auto simp: upsert_counted_def run_simps dest!: markers_unchanged split: prod.splits)

lemma ingest_marks:
  assumes "ingest_snapshot_signals env batch digest sid g db = (Inr stats, db')" and "is_sha256_hex digest"
  shows "ingested digest db'"
proof -
  consider "ingested digest db" "db' = db" | n u created observed where "db' = u\<lparr>ingests := ingests u @ [n]\<rparr>" "ig_snapshot n = digest"
    using assms(1) by (fastforce simp: ingest_snapshot_signals_def hex_argument_hex [OF assms(2)] run_simps transaction_Inr split: if_splits prod.splits)
  then show ?thesis by cases (simp_all add: ingested_iff)
qed

lemma lower_hex: "is_sha256_hex d \<Longrightarrow> lower d = d"
  using sha256_hex_normal [of d] by simp

lemma signals_digest: "signals_from_snapshot sha schema s expected = Inr (digest, batch) \<Longrightarrow> expected = Some d \<Longrightarrow> digest = lower d"
  by (auto simp: signals_from_snapshot_def bindR_eq_Inr Let_def split: sum.splits if_splits)

lemma ingest_snapshot_marks:
  assumes "ingest_snapshot env schema s (Some d) db = (Inr r, db')" and "is_sha256_hex d"
  shows "ingested d db'"
proof -
  obtain digest batch sid g stats where "signals_from_snapshot (en_sha env) schema s (Some d) = Inr (digest, batch)"
    and "ingest_snapshot_signals env batch digest sid g db = (Inr stats, db')"
    using assms(1) by (auto simp: ingest_snapshot_def run_simps)
  then show ?thesis using signals_digest ingest_marks lower_hex [OF assms(2)] assms(2) by fastforce
qed

lemma candidate_marks:
  assumes "ingest_candidate E envs totals c db = (Inr totals', db')" and "is_sha256_hex (manifest_sha (snd (snd c)))"
  shows "ingested (manifest_sha (snd (snd c))) db'"
  using assms ingest_snapshot_marks
  by (auto simp: ingest_candidate_def Let_def bindE_Inr snapshot_ingested_hex act_Inr split: if_splits)

lemma run_grows: "steps_within (desk_run tz) m \<Longrightarrow> m db = (r, db') \<Longrightarrow> desk_wf tz db \<Longrightarrow> desk_wf tz db' \<and> desk_extends db db'"
  using steps_wf steps_extend by (metis desk_run_def snd_conv steps_within_def)

lemma fold_marks:
  assumes "foldE (ingest_candidate E envs) totals (enumerate n cs) db = (Inr totals', db')" and "desk_wf tz db"
    and "\<forall>c \<in> set cs. is_sha256_hex (manifest_sha (snd c))" and "c \<in> set cs"
  shows "ingested (manifest_sha (snd c)) db'"
  using assms
proof (induction cs arbitrary: n totals db)
  case (Cons a cs)
  obtain t1 db1 where a: "ingest_candidate E envs totals (n, a) db = (Inr t1, db1)"
    and rest: "foldE (ingest_candidate E envs) t1 (enumerate (Suc n) cs) db1 = (Inr totals', db')"
    using Cons.prems(1) by (auto simp: bindE_Inr)
  have wf: "desk_wf tz db1" using run_grows [OF ingest_candidate_run a Cons.prems(2)] by simp
  have "steps_within (desk_run tz) (foldE (ingest_candidate E envs) t1 (enumerate (Suc n) cs))"
    by (intro run.within_foldE ingest_candidate_run)
  then have grow: "desk_extends db1 db'" using run_grows rest wf by blast
  show ?case
  proof (cases "c = a")
    case True
    then show ?thesis using candidate_marks [OF a] Cons.prems(3) extends_ingested [OF grow] by simp
  next
    case False
    then show ?thesis using Cons.IH [OF rest wf] Cons.prems(3,4) by simp
  qed
qed simp

section \<open>The scan of the archive\<close>

lemma foldR_through:
  assumes "foldR f a xs = Inr b" and "P [] a" and "\<And>pre a x b. P pre a \<Longrightarrow> x \<in> set xs \<Longrightarrow> f a x = Inr b \<Longrightarrow> P (pre @ [x]) b"
  shows "P xs b"
proof -
  have "P (pre @ ys) b" if "foldR f a ys = Inr b" "P pre a" "set ys \<subseteq> set xs" for pre a ys
    using that
  proof (induction ys arbitrary: pre a)
    case (Cons x ys)
    then obtain c where "f a x = Inr c" "foldR f c ys = Inr b" by (auto simp: bindR_eq_Inr)
    then show ?case using Cons.IH [of c "pre @ [x]"] assms(3) Cons.prems(2,3) by simp
  qed simp
  from this [OF assms(1,2)] show ?thesis by simp
qed

lemma load_archive_parts:
  assumes "load_archive E name st = Inr (s, m)"
  shows "probe_archive_manifest E name st = Inr m" "is_sha256_hex (manifest_sha m)" "json_ok s" "sound_manifest m"
proof -
  obtain read: "object_file_name name" "read_archived_manifest E name st = Inr m" and l: "load_manifest E m (''archive:'' @ name) st = Inr s"
    using assms by (auto simp: load_archive_def bindR_eq_Inr split: if_splits)
  show sound: "sound_manifest m"
    using read(2) by (auto simp: read_archived_manifest_def split: option.splits if_splits intro: decode_sound)
  then show "is_sha256_hex (manifest_sha m)" unfolding manifest_sha_def by (rule sound_hex)
  show "json_ok s" using l by (auto simp: load_manifest_def bind_eq_Some_conv split: option.splits if_splits sum.splits intro: loads_ok)
  show "probe_archive_manifest E name st = Inr m"
    using read l by (auto simp: probe_archive_manifest_def probe_size_def load_manifest_def split: option.splits if_splits)
qed

lemma load_pointer_parts:
  assumes "load_pointer E p st = Inr (s, m)"
  shows "is_sha256_hex (manifest_sha m)" "sound_manifest m" "json_ok s"
proof -
  obtain read: "read_manifest p st = Inr m" and l: "load_manifest E m p st = Inr s"
    using assms by (auto simp: load_pointer_def bindR_eq_Inr)
  show sound: "sound_manifest m"
    using read by (auto simp: read_manifest_def split: option.splits if_splits intro: decode_sound)
  then show "is_sha256_hex (manifest_sha m)" unfolding manifest_sha_def by (rule sound_hex)
  show "json_ok s" using l by (auto simp: load_manifest_def bind_eq_Some_conv split: option.splits if_splits sum.splits intro: loads_ok)
qed

lemma archive_loads:
  assumes "archives_ok E st" and "name \<in> set (archived_manifest_names st)"
  obtains s m where "load_archive E name st = Inr (s, m)"
proof -
  have f: "object_file_name name" and "name \<in> fst ` set (so_manifests st)" using assms(2) by (auto simp: archived_manifest_names_def)
  then obtain c where "look (so_manifests st) name = Some c"
    by (cases "map_of (so_manifests st) name") (auto simp: look_def map_of_eq_None_iff)
  from archive_readable [OF assms(1) f this] obtain m where r: "read_archived_manifest E name st = Inr m" and "loadable E st m" by metis
  then obtain s where "load_manifest E m [] st = Inr s" by (auto simp: loadable_def)
  from load_label [OF this] show ?thesis using f r that by (simp add: load_archive_def)
qed

definition scan_inv :: "store_env \<Rightarrow> snapshot_store \<Rightarrow> string list \<Rightarrow> string list \<Rightarrow> candidate_scan \<Rightarrow> bool" where
  "scan_inv E st known names acc \<longleftrightarrow>
     (\<forall>d x. map_of (cs_candidates acc) d = Some x \<longrightarrow> (\<exists>name. load_archive E name st = Inr x) \<and> manifest_sha (snd x) = d \<and> d \<notin> set known \<and> d \<in> set (cs_seen acc))
     \<and> distinct (map fst (cs_candidates acc))
     \<and> (\<forall>name \<in> set names. \<forall>x. load_archive E name st = Inr x \<longrightarrow> manifest_sha (snd x) \<in> set (cs_seen acc))
     \<and> (archives_ok E st \<longrightarrow> cs_errors acc = [] \<and> (\<forall>d \<in> set (cs_seen acc). d \<in> set known \<or> map_of (cs_candidates acc) d \<noteq> None))"

lemma scan_cases:
  assumes "scan_archive E st known acc name = Inr acc'"
  obtains (unreadable) e where "probe_archive_manifest E name st = Inl e" "acc' = acc\<lparr>cs_errors := cs_errors acc @ [(name, e)]\<rparr>" "e \<noteq> ManifestTypeError"
  | (seen) m where "probe_archive_manifest E name st = Inr m" "manifest_sha m \<in> set (cs_seen acc)" "acc' = acc"
  | (known) m where "probe_archive_manifest E name st = Inr m" "manifest_sha m \<notin> set (cs_seen acc)" "manifest_sha m \<in> set known"
      "acc' = acc\<lparr>cs_seen := manifest_sha m # cs_seen acc, cs_already := Suc (cs_already acc)\<rparr>"
  | (damaged) m e where "probe_archive_manifest E name st = Inr m" "manifest_sha m \<notin> set (cs_seen acc)" "manifest_sha m \<notin> set known"
      "load_archive E name st = Inl e" "e \<noteq> ManifestTypeError"
      "acc' = acc\<lparr>cs_seen := manifest_sha m # cs_seen acc, cs_errors := cs_errors acc @ [(name, e)]\<rparr>"
  | (loaded) m x where "probe_archive_manifest E name st = Inr m" "manifest_sha m \<notin> set (cs_seen acc)" "manifest_sha m \<notin> set known"
      "load_archive E name st = Inr x" "snd x = m"
      "acc' = acc\<lparr>cs_seen := manifest_sha m # cs_seen acc, cs_candidates := AList.update (manifest_sha m) x (cs_candidates acc)\<rparr>"
proof (cases "probe_archive_manifest E name st")
  case (Inl e)
  then show ?thesis using assms unreadable by (auto simp: scan_archive_def note_error_def split: if_splits)
next
  case (Inr m)
  show ?thesis
  proof (cases "load_archive E name st")
    case (Inl e)
    then have "scan_archive E st known acc name = (let acc' = acc\<lparr>cs_seen := manifest_sha m # cs_seen acc\<rparr> in
        if manifest_sha m \<in> set (cs_seen acc) then Inr acc
        else if manifest_sha m \<in> set known then Inr (acc'\<lparr>cs_already := Suc (cs_already acc)\<rparr>)
        else note_error name e acc')"
      by (simp add: scan_archive_def Inr Let_def)
    then show ?thesis using assms seen [OF Inr] known [OF Inr] damaged [OF Inr _ _ Inl]
      by (simp add: note_error_def Let_def split: if_splits)
  next
    case x: (Inr x)
    then have "snd x = m" using load_archive_parts(1) [of E name st "fst x" "snd x"] Inr by simp
    moreover have "scan_archive E st known acc name = (let acc' = acc\<lparr>cs_seen := manifest_sha m # cs_seen acc\<rparr> in
        if manifest_sha m \<in> set (cs_seen acc) then Inr acc
        else if manifest_sha m \<in> set known then Inr (acc'\<lparr>cs_already := Suc (cs_already acc)\<rparr>)
        else Inr (acc'\<lparr>cs_candidates := AList.update (manifest_sha m) x (cs_candidates acc)\<rparr>))"
      using x by (simp add: scan_archive_def Inr Let_def)
    ultimately show ?thesis using assms seen [OF Inr] known [OF Inr] loaded [OF Inr _ _ x]
      by (simp add: Let_def split: if_splits)
  qed
qed

lemma load_probe: "load_archive E name st = Inr x \<Longrightarrow> probe_archive_manifest E name st = Inr (snd x)"
  using load_archive_parts(1) [of E name st "fst x" "snd x"] by simp

lemma scan_step:
  assumes inv: "scan_inv E st known names acc" and listed: "name \<in> set (archived_manifest_names st)" and run: "scan_archive E st known acc name = Inr acc'"
  shows "scan_inv E st known (names @ [name]) acc'"
proof -
  have fine: "archives_ok E st \<Longrightarrow> load_archive E name st \<noteq> Inl e" for e by (metis archive_loads listed sum.distinct(1))
  from run show ?thesis
  proof (cases rule: scan_cases)
    case (unreadable e)
    then have no: "load_archive E name st \<noteq> Inr x" for x using load_probe [of E name st x] by auto
    then have "\<not> archives_ok E st" using fine by (metis sum.exhaust)
    then show ?thesis using inv no unreadable(2) by (simp add: scan_inv_def)
  next
    case (seen m)
    then have "\<forall>s m. load_archive E name st = Inr (s, m) \<longrightarrow> manifest_sha m \<in> set (cs_seen acc)" using load_probe by fastforce
    then show ?thesis using inv seen(3) by (auto simp: scan_inv_def)
  next
    case (known m)
    then have "\<forall>s m'. load_archive E name st = Inr (s, m') \<longrightarrow> m' = m" using load_probe by fastforce
    then show ?thesis using inv known by (auto simp: scan_inv_def)
  next
    case (damaged m e)
    then have "\<not> archives_ok E st" using fine by auto
    then show ?thesis using inv damaged by (auto simp: scan_inv_def)
  next
    case (loaded m x)
    then show ?thesis using inv load_probe by (auto simp: scan_inv_def update_conv' distinct_update)
  qed
qed

lemma scan_run:
  assumes "foldR (scan_archive E st known) \<lparr>cs_candidates = [], cs_errors = [], cs_seen = [], cs_already = 0\<rparr> (archived_manifest_names st) = Inr scan"
  shows "scan_inv E st known (archived_manifest_names st) scan"
  using assms by (rule foldR_through [where P = "scan_inv E st known"]) (simp add: scan_inv_def, rule scan_step)

section \<open>The candidates of a run\<close>

lemma keyed_snd: "mapR (\<lambda>x. bindR (k x) (\<lambda>g. Inr (g, x))) xs = Inr keyed \<Longrightarrow> map snd keyed = xs"
  by (induction xs arbitrary: keyed) (auto simp: bindR_eq_Inr)

lemma ordered_set: "ordered_candidates xs = Inr ys \<Longrightarrow> set ys = set xs"
  by (auto simp: ordered_candidates_def bindR_eq_Inr dest!: keyed_snd)

lemma add_current_lookup: "map_of (cs_candidates (add_current known cur scan)) d = Some x
  \<Longrightarrow> map_of (cs_candidates scan) d = Some x \<or> x = cur \<and> manifest_sha (snd x) \<notin> set known"
  by (auto simp: add_current_def Let_def update_conv' split: if_splits)

lemma add_current_keeps: "map_of (cs_candidates scan) d = Some x \<Longrightarrow> map_of (cs_candidates (add_current known cur scan)) d = Some x"
  by (auto simp: add_current_def Let_def update_conv')

lemma candidates_of:
  assumes "load_candidates E st known = Inr (ordered, errors, current, already)"
  shows "load_pointer E ''current'' st = Inr current"
    "x \<in> set ordered \<Longrightarrow> is_sha256_hex (manifest_sha (snd x)) \<and> json_ok (fst x) \<and> manifest_sha (snd x) \<notin> set known"
    "manifest_sha (snd current) \<in> set known \<or> (\<exists>x \<in> set ordered. manifest_sha (snd x) = manifest_sha (snd current))"
    "archives_ok E st \<Longrightarrow> errors = [] \<and> (\<forall>name \<in> set (archived_manifest_names st). \<forall>y. load_archive E name st = Inr y \<longrightarrow>
       manifest_sha (snd y) \<in> set known \<or> (\<exists>x \<in> set ordered. manifest_sha (snd x) = manifest_sha (snd y)))"
proof -
  obtain scan where scan: "foldR (scan_archive E st known) \<lparr>cs_candidates = [], cs_errors = [], cs_seen = [], cs_already = 0\<rparr> (archived_manifest_names st) = Inr scan"
    and cur: "load_pointer E ''current'' st = Inr current" and ord: "ordered_candidates (map snd (cs_candidates (add_current known current scan))) = Inr ordered"
    and err: "errors = cs_errors (add_current known current scan)"
    using assms by (auto simp: load_candidates_def bindR_eq_Inr Let_def split: sum.splits)
  note inv = scan_run [OF scan, unfolded scan_inv_def] and cur_ok = load_pointer_parts [of E _ st "fst current" "snd current", simplified, OF cur]
  show "load_pointer E ''current'' st = Inr current" by (rule cur)
  have keys: "distinct (map fst (cs_candidates (add_current known current scan)))"
    using inv by (auto simp: add_current_def Let_def intro: distinct_update)
  have mem: "x \<in> set ordered \<longleftrightarrow> (\<exists>d. map_of (cs_candidates (add_current known current scan)) d = Some x)" for x
    using ordered_set [OF ord] keys by (auto simp: image_iff) force
  have cand: "map_of (cs_candidates scan) d = Some x \<Longrightarrow> is_sha256_hex (manifest_sha (snd x)) \<and> json_ok (fst x) \<and> manifest_sha (snd x) \<notin> set known \<and> manifest_sha (snd x) = d" for d x
  proof -
    assume m: "map_of (cs_candidates scan) d = Some x"
    obtain name where l: "load_archive E name st = Inr x" and rest: "manifest_sha (snd x) = d" "d \<notin> set known"
      using conjunct1 [OF inv] m by blast
    show ?thesis using load_archive_parts(2,3) [of E name st "fst x" "snd x"] l rest by simp
  qed
  show "is_sha256_hex (manifest_sha (snd x)) \<and> json_ok (fst x) \<and> manifest_sha (snd x) \<notin> set known" if "x \<in> set ordered"
  proof -
    obtain d where "map_of (cs_candidates (add_current known current scan)) d = Some x" using \<open>x \<in> set ordered\<close> mem by blast
    then show ?thesis using add_current_lookup cand cur_ok by blast
  qed
  have sub: "map_of (cs_candidates scan) d = Some x \<Longrightarrow> x \<in> set ordered" for d x
    unfolding mem by (rule exI [of _ d]) (rule add_current_keeps)
  show "manifest_sha (snd current) \<in> set known \<or> (\<exists>x \<in> set ordered. manifest_sha (snd x) = manifest_sha (snd current))"
  proof (cases "map_of (cs_candidates scan) (manifest_sha (snd current))")
    case None
    then have "manifest_sha (snd current) \<notin> set known \<Longrightarrow> current \<in> set ordered"
      unfolding mem by (intro exI [of _ "manifest_sha (snd current)"]) (simp add: add_current_def Let_def update_conv')
    then show ?thesis by blast
  qed (use sub cand in blast)
  assume ok: "archives_ok E st"
  have "errors = []" using inv ok by (simp add: err add_current_def Let_def)
  moreover have "manifest_sha (snd y) \<in> set known \<or> (\<exists>x \<in> set ordered. manifest_sha (snd x) = manifest_sha (snd y))"
    if "name \<in> set (archived_manifest_names st)" "load_archive E name st = Inr y" for name y
  proof -
    have "manifest_sha (snd y) \<in> set known \<or> map_of (cs_candidates scan) (manifest_sha (snd y)) \<noteq> None" using inv ok that by blast
    then show ?thesis using sub cand by (metis not_None_eq)
  qed
  ultimately show "errors = [] \<and> (\<forall>name \<in> set (archived_manifest_names st). \<forall>y. load_archive E name st = Inr y \<longrightarrow>
       manifest_sha (snd y) \<in> set known \<or> (\<exists>x \<in> set ordered. manifest_sha (snd x) = manifest_sha (snd y)))" by blast
qed

section \<open>A finished run\<close>

lemma listed_ingested: "d \<in> set (map ig_snapshot (take n (sort_desc f (sort_desc g (ingests db))))) \<Longrightarrow> ingested d db"
  by (auto simp: ingested_iff sort_desc_def dest!: in_set_takeD)

lemma worker_parts:
  assumes "ingest_available_snapshots E envs st db = (Inr r, db')"
  obtains ordered errors current already totals where
    "load_candidates E st (map ig_snapshot (take 10000 (sort_desc ig_generated_at (sort_desc ig_snapshot (ingests db))))) = Inr (ordered, errors, current, already)"
    "foldE (ingest_candidate E envs) \<lparr>it_ingested = 0, it_already = already, it_seen = 0, it_created = 0, it_observations = 0\<rparr>
       (enumerate 0 ordered) db = (Inr totals, db')"
    "wr_current_sha256 r = manifest_sha (snd current)" "wr_archive_errors r = errors" "wr_snapshots_ingested r = it_ingested totals"
  using assms by (fastforce simp: ingest_available_snapshots_def bindE_Inr act_Inr)

lemma worker_finished:
  assumes run: "ingest_available_snapshots E envs st db = (Inr r, db')" and wf: "desk_wf tz db"
  shows "desk_wf tz db'" "desk_extends db db'" "ingested (wr_current_sha256 r) db'"
    "archives_ok E st \<Longrightarrow> wr_archive_errors r = []"
    "archives_ok E st \<Longrightarrow> name \<in> set (archived_manifest_names st) \<Longrightarrow> load_archive E name st = Inr (s, m) \<Longrightarrow> ingested (manifest_sha m) db'"
proof -
  show "desk_wf tz db'" and grow: "desk_extends db db'" using run_grows [OF worker_run run wf] by simp_all
  obtain ordered errors current already totals where
    c: "load_candidates E st (map ig_snapshot (take 10000 (sort_desc ig_generated_at (sort_desc ig_snapshot (ingests db))))) = Inr (ordered, errors, current, already)"
    and f: "foldE (ingest_candidate E envs) \<lparr>it_ingested = 0, it_already = already, it_seen = 0, it_created = 0, it_observations = 0\<rparr>
       (enumerate 0 ordered) db = (Inr totals, db')"
    and w: "wr_current_sha256 r = manifest_sha (snd current)" "wr_archive_errors r = errors" by (rule worker_parts [OF run])
  note cs = candidates_of [OF c]
  have fold: "ingested (manifest_sha (snd x)) db'" if "x \<in> set ordered" for x
    using fold_marks [OF f wf] cs(2) that by blast
  have known: "ingested d db'" if "d \<in> set (map ig_snapshot (take 10000 (sort_desc ig_generated_at (sort_desc ig_snapshot (ingests db)))))" for d
    by (rule extends_ingested [OF grow listed_ingested [OF that]])
  show "ingested (wr_current_sha256 r) db'" using cs(3) fold known unfolding w by metis
  show "archives_ok E st \<Longrightarrow> wr_archive_errors r = []" using cs(4) w by blast
  show "archives_ok E st \<Longrightarrow> name \<in> set (archived_manifest_names st) \<Longrightarrow> load_archive E name st = Inr (s, m) \<Longrightarrow> ingested (manifest_sha m) db'"
    using cs(4) fold known by (metis snd_conv)
qed

section \<open>A second run\<close>

definition scan_follows :: "string list \<Rightarrow> candidate_scan \<Rightarrow> candidate_scan \<Rightarrow> bool" where
  "scan_follows known a b \<longleftrightarrow> cs_seen b = cs_seen a
     \<and> fst ` set (cs_candidates b) \<subseteq> fst ` set (cs_candidates a) - set known"

lemma scan_follows_step:
  assumes rel: "scan_follows known' a b" and more: "set known \<subseteq> set known'" and run: "scan_archive E st known a name = Inr a'"
  shows "\<exists>b'. scan_archive E st known' b name = Inr b' \<and> scan_follows known' a' b'"
  using run
proof (cases rule: scan_cases)
  case (unreadable e)
  then show ?thesis using rel by (simp add: scan_archive_def note_error_def scan_follows_def)
next
  case (seen m)
  then show ?thesis using rel by (simp add: scan_archive_def Let_def scan_follows_def)
next
  case (known m)
  then have "manifest_sha m \<in> set known'" using more by blast
  then show ?thesis using rel known by (simp add: scan_archive_def Let_def scan_follows_def)
next
  case (damaged m e)
  then show ?thesis using rel by (auto simp: scan_archive_def note_error_def Let_def scan_follows_def)
next
  case (loaded m x)
  then show ?thesis using rel by (auto simp: scan_archive_def Let_def scan_follows_def dom_update)
qed

lemma scan_follows_run:
  assumes "foldR (scan_archive E st known) a xs = Inr a'" and "scan_follows known' a b" and "set known \<subseteq> set known'"
  shows "\<exists>b'. foldR (scan_archive E st known') b xs = Inr b' \<and> scan_follows known' a' b'"
  using assms(1,2)
proof (induction xs arbitrary: a b)
  case (Cons x xs)
  then obtain c where "scan_archive E st known a x = Inr c" "foldR (scan_archive E st known) c xs = Inr a'" by (auto simp: bindR_eq_Inr)
  then show ?case using Cons.IH scan_follows_step [OF Cons.prems(2) assms(3)] by (fastforce simp: bindR_eq_Inr)
qed simp

lemma known_all:
  assumes "length (ingests db) \<le> 10000"
  shows "set (map ig_snapshot (take 10000 (sort_desc ig_generated_at (sort_desc ig_snapshot (ingests db))))) = ig_snapshot ` set (ingests db)"
  using assms by simp

lemma worker_again:
  assumes run: "ingest_available_snapshots E envs st db = (Inr r, db')" and wf: "desk_wf tz db" and few: "length (ingests db') \<le> 10000"
    and same: "ingests d = ingests db'"
  obtains r' where "ingest_available_snapshots E envs' st d = (Inr r', d)" "wr_snapshots_ingested r' = 0" "wr_signals_created r' = 0"
proof -
  let ?known = "\<lambda>d. map ig_snapshot (take 10000 (sort_desc ig_generated_at (sort_desc ig_snapshot (ingests d))))"
  let ?start = "\<lparr>cs_candidates = [], cs_errors = [], cs_seen = [], cs_already = 0\<rparr>"
  obtain ordered errors current already totals where c: "load_candidates E st (?known db) = Inr (ordered, errors, current, already)"
    and f: "foldE (ingest_candidate E envs) \<lparr>it_ingested = 0, it_already = already, it_seen = 0, it_created = 0, it_observations = 0\<rparr>
       (enumerate 0 ordered) db = (Inr totals, db')" and w: "wr_current_sha256 r = manifest_sha (snd current)"
    by (rule worker_parts [OF run]) blast
  obtain scan where scan: "foldR (scan_archive E st (?known db)) ?start (archived_manifest_names st) = Inr scan"
    and ord: "ordered_candidates (map snd (cs_candidates (add_current (?known db) current scan))) = Inr ordered"
    using c by (auto simp: load_candidates_def bindR_eq_Inr Let_def split: sum.splits)
  note cs = candidates_of [OF c] and inv = scan_run [OF scan, unfolded scan_inv_def]
  have marked: "ingested (manifest_sha (snd x)) db'" if "x \<in> set ordered" for x
    using fold_marks [OF f wf] cs(2) that by blast
  have all: "set (?known db') = ig_snapshot ` set (ingests db')" by (rule known_all [OF few])
  have "set (?known db) \<subseteq> set (?known db')"
    unfolding all using listed_ingested extends_ingested [OF worker_finished(2) [OF run wf]] ingested_iff by blast
  from scan_follows_run [OF scan _ this, of ?start] obtain scan' where
    scan': "foldR (scan_archive E st (?known db')) ?start (archived_manifest_names st) = Inr scan'" and rel: "scan_follows (?known db') scan scan'"
    by (auto simp: scan_follows_def)
  have "fst ` set (cs_candidates scan) \<subseteq> set (?known db')"
  proof
    fix d assume "d \<in> fst ` set (cs_candidates scan)"
    then obtain x where m: "map_of (cs_candidates scan) d = Some x" by (cases "map_of (cs_candidates scan) d") (auto simp: map_of_eq_None_iff)
    then have d: "manifest_sha (snd x) = d" using inv by blast
    have "x \<in> set (map snd (cs_candidates (add_current (?known db) current scan)))"
      unfolding set_map by (rule image_eqI [OF _ map_of_SomeD [OF add_current_keeps [OF m]]]) simp
    then show "d \<in> set (?known db')" unfolding all using marked ordered_set [OF ord] d ingested_iff by blast
  qed
  then have "fst ` set (cs_candidates scan') \<subseteq> {}" using rel unfolding scan_follows_def by blast
  then have none: "cs_candidates scan' = []" by simp
  have "manifest_sha (snd current) \<in> set (?known db')"
    unfolding all using worker_finished(3) [OF run wf] unfolding w ingested_iff .
  then have "cs_candidates (add_current (?known db') current scan') = []" using none by (simp add: add_current_def Let_def)
  then have "load_candidates E st (?known db') = Inr ([], cs_errors (add_current (?known db') current scan'), current, cs_already (add_current (?known db') current scan'))"
    unfolding load_candidates_def scan' using cs(1) by (simp add: Let_def ordered_candidates_def)
  then show ?thesis by (intro that) (simp add: ingest_available_snapshots_def same bindE_def of_ingest_def of_store_def lift_res_def, simp_all)
qed

end
