(* ===== verification/SignalFacts.thy ===== *)
theory SignalFacts
  imports SignalConversion
begin

text \<open>
  What holds of every signal a snapshot is converted into: a property of the six conversions is one of
  the whole batch.
\<close>

section \<open>The signals of a snapshot carry its digest\<close>

lemma mapR_all: "mapR f xs = Inr ys \<Longrightarrow> (\<And>x y. f x = Inr y \<Longrightarrow> P y) \<Longrightarrow> \<forall>y \<in> set ys. P y"
  by (induction xs arbitrary: ys) (auto simp: bindR_eq_Inr)

lemma record_signal_snapshot:
  "event_signal sha d g r = Inr s \<Longrightarrow> si_snapshot s = d"
  "finding_signal sha d g known r = Inr s \<Longrightarrow> si_snapshot s = d"
  "baseline_difference_signal sha d g r = Inr s \<Longrightarrow> si_snapshot s = d"
  "si_snapshot (vulnerability_signal sha d g r) = d"
  by (auto simp: event_signal_def finding_signal_def baseline_difference_signal_def vulnerability_signal_def bindR_eq_Inr Let_def)

lemma new_ui_signal_snapshot:
  "new_ui_alert_signal sha d g source asset alert = Inr (Some s) \<Longrightarrow> si_snapshot s = d"
  "new_ui_vulnerability_signal sha d g source asset v = Inr (Some s) \<Longrightarrow> si_snapshot s = d"
  by (auto simp: new_ui_alert_signal_def new_ui_vulnerability_signal_def bindR_eq_Inr Let_def split: option.splits)

lemma kept_values:
  "snd ` set (prefer_alert found alerts) \<subseteq> snd ` set alerts \<union> set_option found"
  "snd ` set (first_vulnerability found alerts) \<subseteq> snd ` set alerts \<union> set_option found"
  by (auto simp: prefer_alert_def first_vulnerability_def split: option.splits if_splits dest!: set_AList_update)

lemma foldR_keeps:
  assumes "foldR f a xs = Inr b" and "I a" and "\<And>a x b. I a \<Longrightarrow> f a x = Inr b \<Longrightarrow> I b"
  shows "I b"
  using assms by (induction xs arbitrary: a) (auto simp: bindR_eq_Inr)

lemma new_ui_all:
  assumes "new_ui_signals sha d g source = Inr ss"
    and alert: "\<And>asset alert s. new_ui_alert_signal sha d g source asset alert = Inr (Some s) \<Longrightarrow> P s"
    and vulnerability: "\<And>asset v s. new_ui_vulnerability_signal sha d g source asset v = Inr (Some s) \<Longrightarrow> P s"
  shows "\<forall>s \<in> set ss. P s"
proof (cases "get_item source ''details''")
  case (JObj details)
  obtain alerts known where
    a: "foldR (\<lambda>alerts (asset, alert). bindR (new_ui_alert_signal sha d g source asset alert) (\<lambda>found. Inr (prefer_alert found alerts))) []
        (detail_records details ''alert_assets'' ''alerts'') = Inr alerts"
    and k: "foldR (\<lambda>known (asset, v). bindR (new_ui_vulnerability_signal sha d g source asset v) (\<lambda>found. Inr (first_vulnerability found known))) []
        (detail_records details ''vulnerability_assets'' ''vulnerabilities'') = Inr known"
    and ss: "ss = map snd alerts @ map snd known"
    using assms(1) by (auto simp: new_ui_signals_def JObj bindR_eq_Inr)
  have "snd ` set alerts \<subseteq> Collect P"
  proof (rule foldR_keeps [OF a])
    fix acc x acc' assume acc: "snd ` set acc \<subseteq> Collect P"
      and step: "(case x of (asset, alert) \<Rightarrow> bindR (new_ui_alert_signal sha d g source asset alert) (\<lambda>found. Inr (prefer_alert found acc))) = Inr acc'"
    obtain asset al found where f: "new_ui_alert_signal sha d g source asset al = Inr found" "acc' = prefer_alert found acc"
      using step by (auto simp: bindR_eq_Inr split: prod.splits)
    have "set_option found \<subseteq> Collect P" using f(1) alert by (cases found) auto
    then show "snd ` set acc' \<subseteq> Collect P" using acc kept_values(1) [of found acc] unfolding f(2) by blast
  qed simp
  moreover have "snd ` set known \<subseteq> Collect P"
  proof (rule foldR_keeps [OF k])
    fix acc x acc' assume acc: "snd ` set acc \<subseteq> Collect P"
      and step: "(case x of (asset, v) \<Rightarrow> bindR (new_ui_vulnerability_signal sha d g source asset v) (\<lambda>found. Inr (first_vulnerability found acc))) = Inr acc'"
    obtain asset v found where f: "new_ui_vulnerability_signal sha d g source asset v = Inr found" "acc' = first_vulnerability found acc"
      using step by (auto simp: bindR_eq_Inr split: prod.splits)
    have "set_option found \<subseteq> Collect P" using f(1) vulnerability by (cases found) auto
    then show "snd ` set acc' \<subseteq> Collect P" using acc kept_values(2) [of found acc] unfolding f(2) by blast
  qed simp
  ultimately show ?thesis by (auto simp: ss)
qed (use assms(1) in \<open>auto simp: new_ui_signals_def\<close>)

lemma signals_all:
  assumes "signals_from_snapshot sha schema snapshot expected = Inr (d, batch)"
    and "\<And>g r s. event_signal sha d g r = Inr s \<Longrightarrow> P s"
    and "\<And>g k r s. finding_signal sha d g k r = Inr s \<Longrightarrow> P s"
    and "\<And>g r s. baseline_difference_signal sha d g r = Inr s \<Longrightarrow> P s"
    and "\<And>g r. P (vulnerability_signal sha d g r)"
    and "\<And>g source asset alert s. new_ui_alert_signal sha d g source asset alert = Inr (Some s) \<Longrightarrow> P s"
    and "\<And>g source asset v s. new_ui_vulnerability_signal sha d g source asset v = Inr (Some s) \<Longrightarrow> P s"
  shows "\<forall>s \<in> set batch. P s"
proof -
  obtain g known events findings differences vulnerabilities sources es fs ds vs srcs where
    e: "mapR (event_signal sha d g) es = Inr events" and f: "mapR (finding_signal sha d g known) fs = Inr findings"
    and b: "mapR (baseline_difference_signal sha d g) ds = Inr differences"
    and v: "mapR (\<lambda>r. Inr (vulnerability_signal sha d g r)) vs = (Inr vulnerabilities :: conversion_error + signal_input list)"
    and n: "mapR (source_signals sha d g) srcs = Inr sources" and batch: "batch = events @ findings @ differences @ vulnerabilities @ concat sources"
    using assms(1) by (auto simp: signals_from_snapshot_def bindR_eq_Inr Let_def split: sum.splits if_splits)
  have "\<forall>ss \<in> set sources. \<forall>s \<in> set ss. P s"
    by (rule mapR_all [OF n]) (auto simp: source_signals_def split: if_splits dest!: new_ui_all [OF _ assms(6,7)])
  moreover have "\<forall>s \<in> set events. P s" by (rule mapR_all [OF e assms(2)])
  moreover have "\<forall>s \<in> set findings. P s" by (rule mapR_all [OF f assms(3)])
  moreover have "\<forall>s \<in> set differences. P s" by (rule mapR_all [OF b assms(4)])
  moreover have "\<forall>s \<in> set vulnerabilities. P s" by (rule mapR_all [OF v]) (use assms(5) in auto)
  ultimately show ?thesis by (auto simp: batch)
qed

lemma signals_snapshot: "signals_from_snapshot sha schema snapshot expected = Inr (d, batch) \<Longrightarrow> \<forall>s \<in> set batch. si_snapshot s = d"
  by (erule signals_all) (auto simp: record_signal_snapshot new_ui_signal_snapshot)

end
