(* ===== verification/WorkerProgress.thy ===== *)
theory WorkerProgress
  imports WorkerFacts SignalFacts
begin

text \<open>
  When a run of the ingest worker succeeds, and how one snapshot the ticket store refuses keeps every
  later one out.
\<close>

section \<open>Signals the store accepts\<close>

definition payloads_read :: "ticket_db \<Rightarrow> bool" where
  "payloads_read db \<longleftrightarrow> (\<forall>r \<in> set (signals db). loads (sg_payload_json r) \<noteq> None)"

definition storable :: "signal_input \<Rightarrow> bool" where
  "storable s \<longleftrightarrow> json_ok (JObj (si_payload s)) \<and> (\<forall>now. \<exists>n. normalize_signal now s = Inr n)"

lemma payload_reads: "storable s \<Longrightarrow> normalize_signal now s = Inr n \<Longrightarrow> loads (sg_payload_json n) \<noteq> None"
  using loads_dumps(1) [of "JObj (si_payload s)" False] normalize_signal_Inr(6) [of now s n] by (simp add: storable_def)

lemma fingerprint_row: "signal_by_fingerprint f db = Some r \<Longrightarrow> r \<in> set (signals db) \<and> sg_fingerprint r = f"
  by (auto simp: signal_by_fingerprint_def find_Some_iff)

lemma signal_present: "r \<in> set (signals db) \<Longrightarrow> sg_id r = i \<Longrightarrow> signal_by_id i db \<noteq> None"
  by (auto simp: signal_by_id_def find_None_iff)

lemma occurrence_total: "signal_by_id (oc_signal r) db \<noteq> None \<Longrightarrow> \<exists>db'. insert_or_ignore_occurrence r db = (Inr (), db') \<and> signals db' = signals db"
  by (auto simp: insert_or_ignore_occurrence_def)

lemma upsert_total:
  assumes s: "storable s" and wf: "signals_wf db" and read: "payloads_read db"
  shows "\<exists>x db'. upsert_signal env now s db = (Inr x, db') \<and> payloads_read db'"
proof -
  obtain n where n: "normalize_signal now s = Inr n" using s by (auto simp: storable_def)
  note ids = normalize_signal_Inr [OF n]
  let ?o = "occurrence_of n (payload_hash (en_sha env) (JObj (si_payload s))) now"
  have oc: "oc_signal ?o = sg_id n" by (simp add: occurrence_of_def)
  show ?thesis
  proof (cases "signal_by_fingerprint (sg_fingerprint n) db")
    case None
    have "\<forall>q \<in> set (signals db). sg_id q \<noteq> sg_id n \<and> sg_fingerprint q \<noteq> sg_fingerprint n"
      using None wf ids(1) by (auto simp: signal_by_fingerprint_def find_None_iff signals_wf_def)
    then have ins: "insert_signal n db = (Inr (), db\<lparr>signals := signals db @ [n]\<rparr>)"
      using ids(3) by (simp add: insert_signal_def list_ex_iff)
    obtain db' where "insert_or_ignore_occurrence ?o (db\<lparr>signals := signals db @ [n]\<rparr>) = (Inr (), db')" "signals db' = signals db @ [n]"
      using occurrence_total [of ?o "db\<lparr>signals := signals db @ [n]\<rparr>"] signal_present [of n "db\<lparr>signals := signals db @ [n]\<rparr>"] oc by auto
    then have "upsert_signal env now s db = (Inr (True, True), db')" "payloads_read db'" using n None ins read payload_reads [OF s n]
      by (simp_all add: upsert_signal_def Let_def bindE_lift_res semantic_changed_def whenE_def payloads_read_def) (simp add: bindE_def)
    then show ?thesis by blast
  next
    case (Some r)
    note row = fingerprint_row [OF Some]
    have id: "sg_id r = sg_id n" using row wf ids(1) by (auto simp: signals_wf_def)
    obtain v where v: "loads (sg_payload_json r) = Some v" using row read by (auto simp: payloads_read_def)
    let ?changed = "payload_hash (en_sha env) (JObj (si_payload s)) \<noteq> payload_hash (en_sha env) v"
    obtain db1 where db1: "whenE ?changed (insert_or_ignore_occurrence ?o) db = (Inr (), db1)" "signals db1 = signals db"
      using occurrence_total [of ?o db] signal_present [of r db] row id oc by (cases ?changed) (auto simp: whenE_def)
    have "upsert_signal env now s db = (if sg_snapshot r = sg_snapshot n then (Inr (False, False), db)
        else (Inr (False, True), db1\<lparr>signals := map (\<lambda>q. if sg_id q = sg_id n then refresh_signal n r ?changed now q else q) (signals db1)\<rparr>))"
      using n Some v db1(1) by (simp add: upsert_signal_def Let_def bindE_lift_res semantic_changed_def whenE_def [of False])
        (simp add: bindE_def update_signal_def modify_def)
    then show ?thesis using read payload_reads [OF s n] db1(2) by (auto simp: payloads_read_def refresh_signal_def)
  qed
qed

lemma batch_total:
  assumes "\<forall>s \<in> set batch. storable s" and "desk_wf tz db" and "payloads_read db"
  shows "\<exists>x db'. foldE (upsert_counted env now) acc batch db = (Inr x, db') \<and> payloads_read db'"
  using assms
proof (induction batch arbitrary: acc db)
  case (Cons s batch)
  obtain x db1 where u: "upsert_signal env now s db = (Inr x, db1)" and read: "payloads_read db1"
    using upsert_total [of s db env now] Cons.prems by (auto simp: desk_wf_def)
  have "desk_run tz db db1" using upsert_signal_run u unfolding commits_def by blast
  then have "desk_wf tz db1" using Cons.prems(2) steps_wf by (auto simp: desk_run_def)
  then show ?case using Cons.IH [of db1] Cons.prems(1) u read by (auto simp: upsert_counted_def bindE_def split: prod.split)
qed simp

lemma ingest_total:
  assumes "\<forall>s \<in> set batch. storable s \<and> lower (si_snapshot s) = digest" and "desk_wf tz db" and "payloads_read db"
    and "is_sha256_hex digest" and "required_text ''Snapshot ID'' 1024 (JStr sid) = Inr sid'" and "required_text ''Timestamp snapshot'' 64 (JStr g) = Inr g'"
    and "now_text env = Inr now"
  shows "\<exists>stats db'. ingest_snapshot_signals env batch digest sid g db = (Inr stats, db') \<and> payloads_read db'"
proof (cases "ingested digest db")
  case True
  then show ?thesis using assms by (simp add: ingest_snapshot_signals_def hex_argument_hex bindE_lift_res bindE_guardE list_all_iff transaction_def)
next
  case False
  obtain x db' where f: "foldE (upsert_counted env now) (0, 0) batch db = (Inr x, db')" "payloads_read db'"
    using batch_total assms(1-3) by blast
  have "\<not> ingested digest db'" using False markers_fold [OF f(1)] by (simp add: ingested_iff)
  then show ?thesis using assms False f
    by (simp add: ingest_snapshot_signals_def hex_argument_hex bindE_lift_res bindE_guardE list_all_iff transaction_def)
      (simp add: bindE_def insert_ingest_def payloads_read_def split: prod.split)
qed

section \<open>Runs that succeed\<close>

definition acceptable :: "store_env \<Rightarrow> stored_snapshot \<Rightarrow> bool" where
  "acceptable E x \<longleftrightarrow> (\<exists>batch. signals_from_snapshot (sn_sha E) (sn_schema E) (fst x) (Some (manifest_sha (snd x))) = Inr (manifest_sha (snd x), batch)
       \<and> (\<forall>s \<in> set batch. storable s))
     \<and> (\<exists>v t. required_item (entries (fst x)) ''snapshot_id'' = Inr v \<and> required_text ''Snapshot ID'' 1024 (JStr (py_str v)) = Inr t)
     \<and> (\<exists>v t. required_item (entries (fst x)) ''generated_at'' = Inr v \<and> required_text ''Timestamp snapshot'' 64 (JStr (py_str v)) = Inr t)"

definition worker_env_ok :: "store_env \<Rightarrow> (nat \<Rightarrow> desk_env) \<Rightarrow> bool" where
  "worker_env_ok E envs \<longleftrightarrow> (\<forall>i. en_sha (envs i) = sn_sha E \<and> (\<exists>now. now_text (envs i) = Inr now))"

lemma candidate_total:
  assumes env: "worker_env_ok E envs" and x: "acceptable E x" "is_sha256_hex (manifest_sha (snd x))" and wf: "desk_wf tz db" and read: "payloads_read db"
  shows "\<exists>totals' db'. ingest_candidate E envs totals (i, x) db = (Inr totals', db') \<and> payloads_read db'"
proof (cases "ingested (manifest_sha (snd x)) db")
  case True
  then show ?thesis using read x(2)
    by (simp add: ingest_candidate_def Let_def bindE_def of_ingest_def of_store_def snapshot_ingested_hex)
next
  case False
  obtain batch where b: "signals_from_snapshot (sn_sha E) (sn_schema E) (fst x) (Some (manifest_sha (snd x))) = Inr (manifest_sha (snd x), batch)"
    and ok: "\<forall>s \<in> set batch. storable s" using x(1) by (auto simp: acceptable_def)
  obtain sid t where sid: "required_item (entries (fst x)) ''snapshot_id'' = Inr sid" "required_text ''Snapshot ID'' 1024 (JStr (py_str sid)) = Inr t"
    using x(1) by (auto simp: acceptable_def)
  obtain g u where g: "required_item (entries (fst x)) ''generated_at'' = Inr g" "required_text ''Timestamp snapshot'' 64 (JStr (py_str g)) = Inr u"
    using x(1) by (auto simp: acceptable_def)
  obtain now where now: "now_text (envs i) = Inr now" and sha: "en_sha (envs i) = sn_sha E" using env by (auto simp: worker_env_ok_def)
  have "\<forall>s \<in> set batch. storable s \<and> lower (si_snapshot s) = manifest_sha (snd x)"
    using ok signals_snapshot [OF b] lower_hex [OF x(2)] by simp
  from ingest_total [OF this wf read x(2) sid(2) g(2) now] obtain stats db' where
    i: "ingest_snapshot_signals (envs i) batch (manifest_sha (snd x)) (py_str sid) (py_str g) db = (Inr stats, db')" "payloads_read db'" by blast
  have "\<exists>r. ingest_snapshot (envs i) (sn_schema E) (fst x) (Some (manifest_sha (snd x))) db = (Inr r, db')"
    using i(1) by (simp add: ingest_snapshot_def sha b sid(1) g(1) bindE_lift_res) (simp add: bindE_def of_store_def)
  then show ?thesis using False i(2) x(2)
    by (auto simp: ingest_candidate_def Let_def bindE_def of_ingest_def of_store_def snapshot_ingested_hex)
qed

lemma candidates_total:
  assumes env: "worker_env_ok E envs" and "\<forall>x \<in> set cs. acceptable E x \<and> is_sha256_hex (manifest_sha (snd x))"
    and "desk_wf tz db" and "payloads_read db"
  shows "\<exists>totals' db'. foldE (ingest_candidate E envs) totals (enumerate n cs) db = (Inr totals', db') \<and> payloads_read db'"
  using assms(2-4)
proof (induction cs arbitrary: n totals db)
  case (Cons a cs)
  obtain t1 db1 where a: "ingest_candidate E envs totals (n, a) db = (Inr t1, db1)" "payloads_read db1"
    using candidate_total [OF env _ _ Cons.prems(2,3)] Cons.prems(1) by fastforce
  then show ?case using Cons.IH [of db1] Cons.prems(1) run_grows [OF ingest_candidate_run a(1) Cons.prems(2)]
    by (auto simp: bindE_def)
qed simp

lemma scan_total:
  assumes "archives_ok E st" and "set names \<subseteq> set (archived_manifest_names st)"
  shows "\<exists>scan. foldR (scan_archive E st known) acc names = Inr scan"
  using assms(2)
proof (induction names arbitrary: acc)
  case (Cons name names)
  obtain s m where l: "load_archive E name st = Inr (s, m)" using archive_loads [OF assms(1)] Cons.prems by (metis list.set_intros(1) subsetD)
  then have "\<exists>acc'. scan_archive E st known acc name = Inr acc'"
    using load_probe [OF l] by (simp add: scan_archive_def Let_def)
  then show ?case using Cons by (auto simp: bindR_eq_Inr)
qed simp

lemma keyed_total: "\<forall>x \<in> set xs. \<exists>g. k x = Inr g \<Longrightarrow> \<exists>keyed. mapR (\<lambda>x. bindR (k x) (\<lambda>g. Inr (g, x))) xs = Inr keyed"
  by (induction xs) (auto simp: bindR_eq_Inr)

lemma acceptable_key: "acceptable E x \<Longrightarrow> \<exists>g. generated_key x = Inr g"
  by (auto simp: acceptable_def generated_key_def)

lemma worker_total:
  assumes env: "worker_env_ok E envs" and wf: "desk_wf tz db" and read: "payloads_read db" and ok: "archives_ok E st"
    and cur: "load_pointer E ''current'' st = Inr current" and acc: "acceptable E current"
    and all: "\<And>name x. load_archive E name st = Inr x \<Longrightarrow> acceptable E x"
  shows "\<exists>r db'. ingest_available_snapshots E envs st db = (Inr r, db') \<and> payloads_read db'"
proof -
  let ?known = "map ig_snapshot (take 10000 (sort_desc ig_generated_at (sort_desc ig_snapshot (ingests db))))"
  obtain scan where scan: "foldR (scan_archive E st ?known) \<lparr>cs_candidates = [], cs_errors = [], cs_seen = [], cs_already = 0\<rparr> (archived_manifest_names st) = Inr scan"
    using scan_total [OF ok order.refl] by blast
  note inv = scan_run [OF scan, unfolded scan_inv_def]
  have "acceptable E x" if "(d, x) \<in> set (cs_candidates scan)" for d x
    using inv all map_of_is_SomeI [OF _ that] by blast
  then have good: "\<forall>x \<in> set (map snd (cs_candidates (add_current ?known current scan))). acceptable E x"
    using acc by (auto simp: add_current_def Let_def dest!: set_AList_update split: if_splits)
  obtain keyed where keyed: "mapR (\<lambda>x. bindR (generated_key x) (\<lambda>g. Inr (g, x))) (map snd (cs_candidates (add_current ?known current scan))) = Inr keyed"
    using keyed_total [of "map snd (cs_candidates (add_current ?known current scan))" generated_key] good acceptable_key by blast
  then obtain ordered where ord: "ordered_candidates (map snd (cs_candidates (add_current ?known current scan))) = Inr ordered"
    by (simp add: ordered_candidates_def)
  then have load: "load_candidates E st ?known = Inr (ordered, cs_errors (add_current ?known current scan), current, cs_already (add_current ?known current scan))"
    unfolding load_candidates_def scan bindR_simps cur by (simp add: Let_def)
  have "\<forall>x \<in> set ordered. acceptable E x \<and> is_sha256_hex (manifest_sha (snd x))"
    using good ordered_set [OF ord] candidates_of(2) [OF load] by blast
  from candidates_total [OF env this wf read] obtain totals db' where
    "foldE (ingest_candidate E envs) \<lparr>it_ingested = 0, it_already = cs_already (add_current ?known current scan), it_seen = 0, it_created = 0, it_observations = 0\<rparr>
       (enumerate 0 ordered) db = (Inr totals, db')" "payloads_read db'" by blast
  then show ?thesis unfolding ingest_available_snapshots_def using load
    by (auto simp: bindE_def of_ingest_def of_store_def lift_res_def)
qed

section \<open>A refused snapshot\<close>

lemma ingest_adds:
  assumes "ingest_snapshot_signals env batch digest sid g db = (r, db')" and "is_sha256_hex digest" and "ingested d db'"
  shows "ingested d db \<or> d = digest"
proof (cases r)
  case (Inl e)
  then have "db' = db" using assms(1) simple_writers_atomic(5) [where I = "\<lambda>_. True"] unfolding atomic_on_def by blast
  then show ?thesis using assms(3) by simp
next
  case (Inr stats)
  consider "db' = db" | n u a created where "db' = u\<lparr>ingests := ingests u @ [n]\<rparr>" "ig_snapshot n = digest" "ingests u = ingests db"
    using assms(1) Inr
    by (fastforce simp: ingest_snapshot_signals_def hex_argument_hex [OF assms(2)] run_simps transaction_Inr split: if_splits prod.splits dest!: markers_fold)
  then show ?thesis using assms(3) by cases (auto simp: ingested_iff)
qed

lemma ingest_snapshot_state:
  obtains "snd (ingest_snapshot env schema s expected db) = db"
  | digest batch sid g where "signals_from_snapshot (en_sha env) schema s expected = Inr (digest, batch)"
    "snd (ingest_snapshot env schema s expected db) = snd (ingest_snapshot_signals env batch digest sid g db)"
proof (cases "signals_from_snapshot (en_sha env) schema s expected")
  case (Inl e)
  then have "snd (ingest_snapshot env schema s expected db) = db" by (simp add: ingest_snapshot_def)
  then show ?thesis by (rule that(1))
next
  case (Inr y)
  show ?thesis
  proof (cases "\<exists>v w. required_item (entries s) ''snapshot_id'' = Inr v \<and> required_item (entries s) ''generated_at'' = Inr w")
    case True
    then obtain v w where v: "required_item (entries s) ''snapshot_id'' = Inr v" "required_item (entries s) ''generated_at'' = Inr w" by blast
    have "snd (ingest_snapshot env schema s expected db) = snd (ingest_snapshot_signals env (snd y) (fst y) (py_str v) (py_str w) db)"
      by (simp add: ingest_snapshot_def Inr v bindE_def of_store_def split: prod.split sum.split)
    then show ?thesis using that(2) [of "fst y" "snd y"] Inr by simp
  next
    case False
    then have "snd (ingest_snapshot env schema s expected db) = db"
      by (cases "required_item (entries s) ''snapshot_id''"; cases "required_item (entries s) ''generated_at''")
        (simp_all add: ingest_snapshot_def Inr split: prod.split)
    then show ?thesis by (rule that(1))
  qed
qed

lemma candidate_state:
  assumes "ingest_candidate E envs totals c db = (r, db')" and "is_sha256_hex (manifest_sha (snd (snd c)))"
  shows "db' = db \<or> db' = snd (ingest_snapshot (envs (fst c)) (sn_schema E) (fst (snd c)) (Some (manifest_sha (snd (snd c)))) db)"
proof -
  have "db' = snd (ingest_candidate E envs totals c db)" using assms(1) by simp
  then show ?thesis
    by (simp add: ingest_candidate_def Let_def bindE_def of_ingest_def of_store_def snapshot_ingested_hex [OF assms(2)] split: prod.split sum.split)
qed

lemma candidate_adds:
  assumes "ingest_candidate E envs totals c db = (r, db')" and "is_sha256_hex (manifest_sha (snd (snd c)))" and "ingested d db'"
  shows "ingested d db \<or> d = manifest_sha (snd (snd c))"
proof -
  let ?sha = "manifest_sha (snd (snd c))"
  consider "db' = db" | "db' = snd (ingest_snapshot (envs (fst c)) (sn_schema E) (fst (snd c)) (Some ?sha) db)"
    using candidate_state [OF assms(1,2)] by blast
  then show ?thesis
  proof cases
    case 2
    show ?thesis
    proof (rule ingest_snapshot_state [of "envs (fst c)" "sn_schema E" "fst (snd c)" "Some ?sha" db])
      fix digest batch sid g
      assume s: "signals_from_snapshot (en_sha (envs (fst c))) (sn_schema E) (fst (snd c)) (Some ?sha) = Inr (digest, batch)"
        and t: "snd (ingest_snapshot (envs (fst c)) (sn_schema E) (fst (snd c)) (Some ?sha) db) = snd (ingest_snapshot_signals (envs (fst c)) batch digest sid g db)"
      have "digest = ?sha" using signals_digest [OF s refl] lower_hex [OF assms(2)] by simp
      moreover have "ingest_snapshot_signals (envs (fst c)) batch digest sid g db = (fst (ingest_snapshot_signals (envs (fst c)) batch digest sid g db), db')"
        using 2 t by simp
      ultimately show ?thesis using ingest_adds assms(2,3) by blast
    qed (use 2 assms(3) in simp)
  qed (use assms(3) in simp)
qed

lemma fold_adds:
  assumes "foldE (ingest_candidate E envs) totals (enumerate n cs) db = (r, db')" and "\<forall>c \<in> set cs. is_sha256_hex (manifest_sha (snd c))" and "ingested d db'"
  shows "ingested d db \<or> d \<in> (\<lambda>c. manifest_sha (snd c)) ` set cs"
  using assms
proof (induction cs arbitrary: n totals db)
  case (Cons a cs)
  obtain r1 db1 where a: "ingest_candidate E envs totals (n, a) db = (r1, db1)" by (cases "ingest_candidate E envs totals (n, a) db")
  show ?case
  proof (cases r1)
    case (Inl e)
    then show ?thesis using Cons.prems a candidate_adds [OF a, of d] by (auto simp: bindE_def)
  next
    case (Inr t1)
    then have "foldE (ingest_candidate E envs) t1 (enumerate (Suc n) cs) db1 = (r, db')" using Cons.prems(1) a by (simp add: bindE_def)
    from Cons.IH [OF this] show ?thesis using Cons.prems(2,3) candidate_adds [OF a, of d] by auto
  qed
qed simp

lemma fold_normalizes: "foldE (upsert_counted env now) acc batch db = (Inr x, db') \<Longrightarrow> s \<in> set batch \<Longrightarrow> \<exists>n. normalize_signal now s = Inr n"
proof (induction batch arbitrary: acc db)
  case (Cons a batch)
  then show ?case
    by (auto simp: upsert_counted_def bindE_Inr act_Inr upsert_signal_def Let_def split: prod.splits)
qed simp

definition refused :: "store_env \<Rightarrow> stored_snapshot \<Rightarrow> bool" where
  "refused E x \<longleftrightarrow> (\<exists>batch. signals_from_snapshot (sn_sha E) (sn_schema E) (fst x) (Some (manifest_sha (snd x))) = Inr (manifest_sha (snd x), batch)
     \<and> (\<exists>s \<in> set batch. \<forall>now. \<exists>e. normalize_signal now s = Inl e))"

lemma refused_candidate:
  assumes env: "\<forall>i. en_sha (envs i) = sn_sha E" and ref: "refused E x" and hex: "is_sha256_hex (manifest_sha (snd x))"
    and new: "\<not> ingested (manifest_sha (snd x)) db" and run: "ingest_candidate E envs totals (i, x) db = (r, db')"
  shows "\<exists>e. r = Inl e" "db' = db"
proof -
  obtain batch s where b: "signals_from_snapshot (sn_sha E) (sn_schema E) (fst x) (Some (manifest_sha (snd x))) = Inr (manifest_sha (snd x), batch)"
    and s: "s \<in> set batch" and bad: "\<And>now. \<exists>e. normalize_signal now s = Inl e" using ref by (auto simp: refused_def)
  have no: "ingest_snapshot_signals (envs i) batch (manifest_sha (snd x)) sid g db \<noteq> (Inr stats, u)" for sid g stats u
  proof
    assume "ingest_snapshot_signals (envs i) batch (manifest_sha (snd x)) sid g db = (Inr stats, u)"
    then obtain now y v where "foldE (upsert_counted (envs i) now) (0, 0) batch db = (Inr y, v)"
      using new by (auto simp: ingest_snapshot_signals_def hex_argument_hex [OF hex] bindE_Inr act_Inr transaction_Inr split: if_splits)
    then show False using fold_normalizes s bad by (metis sum.distinct(1))
  qed
  have fails: "\<exists>e. ingest_snapshot_signals (envs i) batch (manifest_sha (snd x)) sid g db = (Inl e, db)" for sid g
    using no simple_writers_atomic(5) [where I = "\<lambda>_. True"] unfolding atomic_on_def
    by (cases "ingest_snapshot_signals (envs i) batch (manifest_sha (snd x)) sid g db"; cases "fst (ingest_snapshot_signals (envs i) batch (manifest_sha (snd x)) sid g db)") auto
  then have step: "\<exists>e. ingest_snapshot (envs i) (sn_schema E) (fst x) (Some (manifest_sha (snd x))) db = (Inl e, db)"
  proof (cases "\<exists>v w. required_item (entries (fst x)) ''snapshot_id'' = Inr v \<and> required_item (entries (fst x)) ''generated_at'' = Inr w")
    case True
    then obtain v w where v: "required_item (entries (fst x)) ''snapshot_id'' = Inr v" "required_item (entries (fst x)) ''generated_at'' = Inr w" by blast
    obtain e where "ingest_snapshot_signals (envs i) batch (manifest_sha (snd x)) (py_str v) (py_str w) db = (Inl e, db)" using fails by blast
    then show ?thesis using env b by (simp add: ingest_snapshot_def v) (simp add: bindE_def of_store_def)
  next
    case False
    then show ?thesis using env b
      by (cases "required_item (entries (fst x)) ''snapshot_id''"; cases "required_item (entries (fst x)) ''generated_at''") (simp_all add: ingest_snapshot_def)
  qed
  then show "\<exists>e. r = Inl e" "db' = db"
    using run new by (auto simp: ingest_candidate_def Let_def bindE_def of_ingest_def of_store_def snapshot_ingested_hex [OF hex])
qed

lemma foldE_append: "foldE f a (xs @ ys) s = (case foldE f a xs s of (Inl e, t) \<Rightarrow> (Inl e, t) | (Inr b, t) \<Rightarrow> foldE f b ys t)"
  by (induction xs arbitrary: a s) (auto simp: bindE_def split: prod.split sum.split)

lemma blocked_fold:
  assumes env: "\<forall>i. en_sha (envs i) = sn_sha E" and ref: "refused E x"
    and hex: "\<forall>c \<in> set (pre @ x # post). is_sha256_hex (manifest_sha (snd c))"
    and new: "manifest_sha (snd x) \<notin> (\<lambda>c. manifest_sha (snd c)) ` set pre" "\<not> ingested (manifest_sha (snd x)) db"
    and run: "foldE (ingest_candidate E envs) totals (enumerate n (pre @ x # post)) db = (r, db')"
  shows "\<exists>e. r = Inl e" "ingested d db' \<Longrightarrow> ingested d db \<or> d \<in> (\<lambda>c. manifest_sha (snd c)) ` set pre"
proof -
  obtain r1 db1 where pre: "foldE (ingest_candidate E envs) totals (enumerate n pre) db = (r1, db1)"
    by (cases "foldE (ingest_candidate E envs) totals (enumerate n pre) db")
  have added: "ingested d db1 \<Longrightarrow> ingested d db \<or> d \<in> (\<lambda>c. manifest_sha (snd c)) ` set pre" for d
    using fold_adds [OF pre] hex by simp
  have "(\<exists>e. r = Inl e) \<and> db' = db1"
  proof (cases r1)
    case (Inl e)
    then have "(r, db') = (Inl e, db1)" using run pre by (simp add: enumerate_append_eq foldE_append)
    then show ?thesis by blast
  next
    case (Inr t1)
    obtain r2 db2 where c: "ingest_candidate E envs t1 (n + length pre, x) db1 = (r2, db2)" by (cases "ingest_candidate E envs t1 (n + length pre, x) db1")
    have "\<exists>e. r2 = Inl e" "db2 = db1"
      using refused_candidate [OF env ref _ _ c] hex added new by auto
    then show ?thesis using run pre c Inr by (auto simp: enumerate_append_eq foldE_append bindE_def)
  qed
  then show "\<exists>e. r = Inl e" "ingested d db' \<Longrightarrow> ingested d db \<or> d \<in> (\<lambda>c. manifest_sha (snd c)) ` set pre"
    using added by auto
qed

lemma ordered_distinct:
  assumes "ordered_candidates xs = Inr ys" and "distinct (map (\<lambda>x. manifest_sha (snd x)) xs)"
  shows "distinct (map (\<lambda>x. manifest_sha (snd x)) ys)"
proof -
  obtain keyed where keyed: "mapR (\<lambda>x. bindR (generated_key x) (\<lambda>g. Inr (g, x))) xs = Inr keyed"
    and ys: "ys = map snd (sort_key fst (sort_key (\<lambda>(_, x). manifest_sha (snd x)) keyed))"
    using assms(1) unfolding ordered_candidates_def bindR_eq_Inr by auto
  have k: "map snd keyed = xs" using keyed by (rule keyed_snd)
  have "mset (map (\<lambda>x. manifest_sha (snd x)) ys) = mset (map (\<lambda>x. manifest_sha (snd x)) xs)"
    unfolding ys k [symmetric] by simp
  then show ?thesis using assms(2) mset_eq_imp_distinct_iff by blast
qed

lemma candidates_distinct:
  assumes "load_candidates E st known = Inr (ordered, errors, current, already)"
  shows "distinct (map (\<lambda>x. manifest_sha (snd x)) ordered)"
proof -
  obtain scan where scan: "foldR (scan_archive E st known) \<lparr>cs_candidates = [], cs_errors = [], cs_seen = [], cs_already = 0\<rparr> (archived_manifest_names st) = Inr scan"
    and ord: "ordered_candidates (map snd (cs_candidates (add_current known current scan))) = Inr ordered"
    using assms by (auto simp: load_candidates_def bindR_eq_Inr Let_def split: sum.splits)
  note inv = scan_run [OF scan, unfolded scan_inv_def]
  have key: "\<forall>(d, x) \<in> set (cs_candidates scan). manifest_sha (snd x) = d"
    using inv map_of_is_SomeI by (metis (mono_tags, lifting) case_prodI2)
  then have "\<forall>(d, x) \<in> set (cs_candidates (add_current known current scan)). manifest_sha (snd x) = d"
    by (auto simp: add_current_def Let_def dest!: set_AList_update)
  then have "map (\<lambda>x. manifest_sha (snd x)) (map snd (cs_candidates (add_current known current scan))) = map fst (cs_candidates (add_current known current scan))"
    by (auto simp: split_def)
  moreover have "distinct (map fst (cs_candidates (add_current known current scan)))"
    using inv by (auto simp: add_current_def Let_def intro: distinct_update)
  ultimately show ?thesis using ordered_distinct [OF ord] by metis
qed

lemma worker_blocked:
  assumes env: "\<forall>i. en_sha (envs i) = sn_sha E" and ref: "refused E x" and new: "\<not> ingested (manifest_sha (snd x)) db"
    and cs: "load_candidates E st (map ig_snapshot (take 10000 (sort_desc ig_generated_at (sort_desc ig_snapshot (ingests db))))) = Inr (pre @ x # post, errors, current, already)"
    and run: "ingest_available_snapshots E envs st db = (r, db')"
  shows "\<exists>e. r = Inl e" "\<not> ingested (manifest_sha (snd x)) db'"
    "y \<in> set post \<Longrightarrow> \<not> ingested (manifest_sha (snd y)) db \<Longrightarrow> \<not> ingested (manifest_sha (snd y)) db'"
proof -
  let ?start = "\<lparr>it_ingested = 0, it_already = already, it_seen = 0, it_created = 0, it_observations = 0\<rparr>"
  obtain r1 db1 where f: "foldE (ingest_candidate E envs) ?start (enumerate 0 (pre @ x # post)) db = (r1, db1)"
    by (cases "foldE (ingest_candidate E envs) ?start (enumerate 0 (pre @ x # post)) db")
  have d: "distinct (map (\<lambda>x. manifest_sha (snd x)) (pre @ x # post))" by (rule candidates_distinct [OF cs])
  then have fresh: "manifest_sha (snd x) \<notin> (\<lambda>c. manifest_sha (snd c)) ` set pre" by auto
  have hex: "\<forall>c \<in> set (pre @ x # post). is_sha256_hex (manifest_sha (snd c))" using candidates_of(2) [OF cs] by blast
  note blocked = blocked_fold [OF env ref hex fresh new f]
  have "db' = db1 \<and> (\<exists>e. r = Inl e)"
    using run blocked(1) f cs unfolding ingest_available_snapshots_def
    by (auto simp: bindE_def of_ingest_def of_store_def lift_res_def)
  moreover have "manifest_sha (snd y) \<notin> (\<lambda>c. manifest_sha (snd c)) ` set pre" if "y \<in> set post" for y
    using d that by auto
  ultimately show "\<exists>e. r = Inl e" "\<not> ingested (manifest_sha (snd x)) db'"
    "y \<in> set post \<Longrightarrow> \<not> ingested (manifest_sha (snd y)) db \<Longrightarrow> \<not> ingested (manifest_sha (snd y)) db'"
    using blocked(2) fresh new by blast+
qed

section \<open>A refused snapshot before the current one\<close>

lemma candidate_source:
  assumes "load_candidates E st known = Inr (ordered, errors, current, already)" and "z \<in> set ordered"
  shows "(\<exists>n. load_archive E n st = Inr z) \<or> z = current"
proof -
  obtain scan where scan: "foldR (scan_archive E st known) \<lparr>cs_candidates = [], cs_errors = [], cs_seen = [], cs_already = 0\<rparr> (archived_manifest_names st) = Inr scan"
    and ord: "ordered_candidates (map snd (cs_candidates (add_current known current scan))) = Inr ordered"
    using assms(1) by (auto simp: load_candidates_def bindR_eq_Inr Let_def split: sum.splits)
  note inv = scan_run [OF scan, unfolded scan_inv_def]
  have "\<exists>n. load_archive E n st = Inr v" if "(d, v) \<in> set (cs_candidates scan)" for d v
    using inv map_of_is_SomeI [OF _ that] by blast
  then show ?thesis using assms(2) unfolding ordered_set [OF ord]
    by (auto simp: add_current_def Let_def dest!: set_AList_update split: if_splits)
qed

lemma load_manifest_content:
  assumes "load_manifest E m p st = Inr s" and "sound_manifest m"
  obtains c where "look (so_objects st) (manifest_sha m @ ''.json'') = Some c" "Option.bind (utf8_decode c) loads = Some s"
  using assms sound_parts(5) [OF assms(2)]
  by (auto simp: load_manifest_def object_of_def manifest_sha_def split: option.splits if_splits sum.splits)

text \<open>Two manifests with the same digest lead to the same snapshot.\<close>

lemma same_digest_same_snapshot:
  assumes "load_manifest E m p st = Inr s" "sound_manifest m" "load_manifest E m' p' st = Inr s'" "sound_manifest m'"
    and "manifest_sha m = manifest_sha m'"
  shows "s = s'"
  using load_manifest_content [OF assms(1,2)] load_manifest_content [OF assms(3,4)] assms(5) by (metis option.inject)

lemma archive_manifest: "load_archive E name st = Inr x \<Longrightarrow> \<exists>p. load_manifest E (snd x) p st = Inr (fst x)"
  by (auto simp: load_archive_def bindR_eq_Inr split: if_splits)

lemma pointer_manifest: "load_pointer E p st = Inr x \<Longrightarrow> load_manifest E (snd x) p st = Inr (fst x)"
  by (auto simp: load_pointer_def bindR_eq_Inr)

lemma loads_same:
  assumes "load_archive E name st = Inr x" and "load_archive E name' st = Inr y \<or> load_pointer E p st = Inr y"
    and "manifest_sha (snd x) = manifest_sha (snd y)"
  shows "fst x = fst y"
proof -
  obtain l where x: "load_manifest E (snd x) l st = Inr (fst x)" using archive_manifest [OF assms(1)] by blast
  obtain l' where y: "load_manifest E (snd y) l' st = Inr (fst y)" using archive_manifest pointer_manifest assms(2) by blast
  have "sound_manifest (snd x)" using load_archive_parts(4) [of E name st "fst x" "snd x"] assms(1) by simp
  moreover have "sound_manifest (snd y)"
    using load_archive_parts(4) [of E name' st "fst y" "snd y"] load_pointer_parts(2) [of E p st "fst y" "snd y"] assms(2) by auto
  ultimately show ?thesis using same_digest_same_snapshot [OF x _ y] assms(3) by blast
qed

lemma archive_listed: "load_archive E name st = Inr x \<Longrightarrow> name \<in> set (archived_manifest_names st)"
  using in_listing [of "so_manifests st" name]
  by (auto simp: load_archive_def archived_manifest_names_def bindR_eq_Inr read_archived_manifest_def split: if_splits option.splits)

text \<open>The candidates are sorted by their time of generation.\<close>

lemma ordered_sorted:
  assumes "ordered_candidates xs = Inr ys"
  shows "sorted_wrt (\<lambda>x y. \<forall>g h. generated_key x = Inr g \<longrightarrow> generated_key y = Inr h \<longrightarrow> g \<le> h) ys"
proof -
  obtain keyed where keyed: "mapR (\<lambda>x. bindR (generated_key x) (\<lambda>g. Inr (g, x))) xs = Inr keyed"
    and ys: "ys = map snd (sort_key fst (sort_key (\<lambda>(_, x). manifest_sha (snd x)) keyed))"
    using assms unfolding ordered_candidates_def bindR_eq_Inr by auto
  have key: "\<forall>q \<in> set keyed. generated_key (snd q) = Inr (fst q)"
    by (rule mapR_all [OF keyed]) (auto simp: bindR_eq_Inr)
  let ?zs = "sort_key fst (sort_key (\<lambda>(_, x). manifest_sha (snd x)) keyed)"
  have "sorted_wrt (\<lambda>a b. fst a \<le> fst b) ?zs"
    using sorted_sort_key [of fst "sort_key (\<lambda>(_, x). manifest_sha (snd x)) keyed"] by (simp add: sorted_wrt_map)
  then show ?thesis unfolding ys sorted_wrt_map
    by (rule sorted_wrt_mono_rel [rotated]) (use key in \<open>simp add: split_def\<close>)
qed

lemma sorted_before:
  assumes "sorted_wrt R ys" and "x \<in> set ys" "y \<in> set ys" and "\<not> R y x" "x \<noteq> y"
  obtains pre post where "ys = pre @ x # post" "y \<in> set post"
proof -
  obtain pre post where ys: "ys = pre @ x # post" using assms(2) split_list by metis
  have "y \<notin> set pre" using assms(1,4) unfolding ys sorted_wrt_append by auto
  then show ?thesis using assms(3,5) ys that by auto
qed

lemma current_blocked:
  assumes env: "\<forall>i. en_sha (envs i) = sn_sha E" and ok: "archives_ok E st"
    and x: "load_archive E name st = Inr x" "refused E x" "\<not> ingested (manifest_sha (snd x)) db"
    and y: "load_pointer E ''current'' st = Inr y" "\<not> ingested (manifest_sha (snd y)) db"
    and later: "generated_key x = Inr g" "generated_key y = Inr h" "g < h"
    and run: "ingest_available_snapshots E envs st db = (r, db')"
  shows "(\<exists>e. r = Inl e) \<and> \<not> ingested (manifest_sha (snd x)) db' \<and> \<not> ingested (manifest_sha (snd y)) db'"
proof (cases "load_candidates E st (map ig_snapshot (take 10000 (sort_desc ig_generated_at (sort_desc ig_snapshot (ingests db)))))")
  case (Inl e)
  then have "r = Inl e" "db' = db"
    using run by (simp_all add: ingest_available_snapshots_def bindE_def of_ingest_def of_store_def lift_res_def)
  then show ?thesis using x(3) y(2) by blast
next
  case (Inr cands)
  let ?known = "map ig_snapshot (take 10000 (sort_desc ig_generated_at (sort_desc ig_snapshot (ingests db))))"
  obtain ordered errors current already where cs: "load_candidates E st ?known = Inr (ordered, errors, current, already)"
    using Inr by (cases cands) simp
  note c = candidates_of [OF cs]
  have cur: "current = y" using c(1) y(1) by simp
  have fresh: "manifest_sha (snd x) \<notin> set ?known" "manifest_sha (snd y) \<notin> set ?known" using x(3) y(2) listed_ingested by blast+
  obtain x' where x': "x' \<in> set ordered" "manifest_sha (snd x') = manifest_sha (snd x)"
    using c(4) [OF ok] archive_listed [OF x(1)] x(1) fresh(1) by blast
  obtain y' where y': "y' \<in> set ordered" "manifest_sha (snd y') = manifest_sha (snd y)"
    using c(3) fresh(2) cur by blast
  have source: "(\<exists>n. load_archive E n st = Inr z) \<or> z = y" if "z \<in> set ordered" for z
    using candidate_source [OF cs that] cur by blast
  have sx: "fst x' = fst x"
    using source [OF x'(1)] loads_same [OF x(1) _ x'(2) [symmetric]] y(1) by metis
  have sy: "fst y' = fst y"
    using source [OF y'(1)] loads_same [of E _ st y' _ y "''current''"] y(1) y'(2) by metis
  have keys: "generated_key x' = Inr g" "generated_key y' = Inr h" using later by (simp_all add: generated_key_def sx sy)
  obtain scan where ord: "ordered_candidates scan = Inr ordered" using cs by (auto simp: load_candidates_def bindR_eq_Inr Let_def split: sum.splits)
  have "x' \<noteq> y'" using keys later(3) by auto
  then obtain pre post where split: "ordered = pre @ x' # post" "y' \<in> set post"
    using sorted_before [OF ordered_sorted [OF ord] x'(1) y'(1)] keys later(3) by (metis leD)
  have ref: "refused E x'" using x(2) by (simp add: refused_def sx x'(2))
  show ?thesis
    using worker_blocked [OF env ref _ cs [unfolded split(1)] run] x(3) y(2) split(2) x'(2) y'(2) by metis
qed

end
