(* ===== verification/SnapshotProperties.thy ===== *)
theory SnapshotProperties
  imports SnapshotPrune
begin

text \<open>
  The contract of the snapshot store: what a publication and a pruning guarantee on every outcome, and
  what they achieve when they finish.
\<close>

section \<open>Concrete stores\<close>

text \<open>A digest of 64 hexadecimal digits that tells apart texts whose lengths differ modulo 16.\<close>

definition length_digest :: "string \<Rightarrow> string" where
  "length_digest s = replicate 64 (hex_digit (length s mod 16))"

lemma hex_digit_lower: "n < 16 \<Longrightarrow> is_hex_lower (hex_digit n)"
proof -
  have "\<forall>n \<in> set [0..<16]. is_hex_lower (hex_digit n)" by code_simp
  then show "n < 16 \<Longrightarrow> is_hex_lower (hex_digit n)" by simp
qed

lemma length_digest_hex: "is_sha256_hex (length_digest s)"
  by (simp add: is_sha256_hex_def length_digest_def list_all_iff hex_digit_lower)

definition demo_store_env :: "(nat \<Rightarrow> bool) \<Rightarrow> store_env" where
  "demo_store_env fails = \<lparr>sn_sha = length_digest, sn_schema = (\<lambda>_. []), sn_fails = fails, sn_demo = False\<rparr>"

lemma demo_store_env_ok: "store_env_ok (demo_store_env fails)"
  by (simp add: store_env_ok_def demo_store_env_def length_digest_hex)

definition empty_store :: snapshot_store where
  "empty_store = \<lparr>so_objects = [], so_manifests = [], so_pointers = [], so_clock = 0\<rparr>"

lemma empty_store_ok: "store_ok E empty_store"
  by (simp add: store_ok_def pointers_ok_def archives_ok_def empty_store_def look_def)

definition demo_snapshot :: "string \<Rightarrow> json list \<Rightarrow> json" where
  "demo_snapshot generated_at events = JObj [(''assets'', JArr []), (''baseline_differences'', JArr []), (''events'', JArr events),
     (''findings'', JArr []), (''generated_at'', JStr generated_at), (''schema_version'', JStr ''3.0''), (''snapshot_id'', JStr ''s''), (''sources'', JArr []),
     (''sync'', JObj [(''collector_version'', JStr ''1''), (''publication_mode'', JStr ''real_only''), (''state'', JStr ''fresh'')]), (''vulnerabilities'', JArr [])]"

lemma demo_snapshot_ok: "(\<forall>e \<in> set events. json_ok e) \<Longrightarrow> json_ok (demo_snapshot g events)"
  by (simp add: demo_snapshot_def)

section \<open>Publication\<close>

text \<open>C22: Whatever the outcome of a publication - any check that refuses it, any file operation that fails,
  so also a crash after any write - every pointer and every archived manifest still leads to an object of
  the recorded size and hash that is a valid snapshot, no object and no archived manifest is lost or
  changed, and the current pointer yields either what it yielded before or the new snapshot.\<close>

theorem publish_crash_safe:
  assumes "store_env_ok E" and "json_ok snapshot" and "store_ok E st" and "publish E snapshot published_at st = (r, st')"
  shows "store_ok E st'
    \<and> (\<forall>n c. look (so_objects st) n = Some c \<longrightarrow> look (so_objects st') n = Some c)
    \<and> (\<forall>n c. look (so_manifests st) n = Some c \<longrightarrow> look (so_manifests st') n = Some c)
    \<and> (load_pointer E ''current'' st' = load_pointer E ''current'' st
       \<or> (\<exists>m. jget m ''sha256'' = JStr (sn_sha E (snapshot_bytes snapshot)) \<and> load_pointer E ''current'' st' = Inr (canon snapshot, m)))"
proof -
  note p = publish_any_outcome [OF assms]
  have "jget (canon (published_manifest E snapshot t)) ''sha256'' = JStr (sn_sha E (snapshot_bytes snapshot))" for t
    using jget_canon_ok [OF sound_parts(1) [OF published_sound [OF assms(1,2)]]] by (simp add: published_manifest_def manifest_of_def)
  then show ?thesis using p unfolding grows_def by blast
qed

text \<open>In the second publication the write of the \<open>previous\<close> pointer fails, after the object and the manifest.\<close>

theorem publish_crash_safe_witness:
  "let E = demo_store_env (\<lambda>n. n = 6); st = snd (publish E (demo_snapshot ''2026-01-01T00:00:00Z'' []) (Aware 0) empty_store);
     st' = snd (publish E (demo_snapshot ''2026-01-01T00:00:01.00Z'' []) (Aware 60) st)
   in store_ok E st'
    \<and> (load_pointer E ''current'' st' = load_pointer E ''current'' st
       \<or> (\<exists>m. jget m ''sha256'' = JStr (sn_sha E (snapshot_bytes (demo_snapshot ''2026-01-01T00:00:01.00Z'' [])))
           \<and> load_pointer E ''current'' st' = Inr (canon (demo_snapshot ''2026-01-01T00:00:01.00Z'' []), m)))"
proof -
  let ?E = "demo_store_env (\<lambda>n. n = 6)"
  let ?st = "snd (publish ?E (demo_snapshot ''2026-01-01T00:00:00Z'' []) (Aware 0) empty_store)"
  have "store_ok ?E ?st"
    using publish_crash_safe [OF demo_store_env_ok demo_snapshot_ok empty_store_ok prod.collapse [symmetric]] by simp
  from publish_crash_safe [OF demo_store_env_ok demo_snapshot_ok this prod.collapse [symmetric], of "[]" "''2026-01-01T00:00:01.00Z''" "Aware 60"]
  show ?thesis unfolding Let_def by simp
qed

text \<open>C23: A publication fails only for an invalid snapshot, a snapshot that is not real in a store of real
  ones, a naive time, an immutable file with other content or a failing file operation. Otherwise the
  current pointer and the archived manifest yield the snapshot in canonical form under the returned
  manifest, the previous pointer yields what was current before unless it had the same content, the last
  known good pointer yields a valid snapshot, and the new one when its synchronisation is fresh.\<close>

theorem publish_result:
  assumes "store_env_ok E" and "json_ok snapshot" and "store_ok E st" and "publish E snapshot published_at st = (r, st')"
  shows "case r of
      Inl e \<Rightarrow> excused E snapshot published_at st
    | Inr m \<Rightarrow> validate_snapshot (sn_schema E) snapshot = Inr snapshot
        \<and> (\<exists>t. published_at = Aware t \<and> m = manifest_of snapshot (sn_sha E (snapshot_bytes snapshot)) (length (snapshot_bytes snapshot)) t)
        \<and> load_pointer E ''current'' st' = Inr (canon snapshot, canon m)
        \<and> load_archive E (sn_sha E (manifest_bytes m) @ ''.json'') st' = Inr (canon snapshot, canon m)
        \<and> (\<forall>s p. load_pointer E ''current'' st = Inr (s, p) \<longrightarrow> jget p ''sha256'' \<noteq> jget m ''sha256''
             \<longrightarrow> load_pointer E ''previous'' st' = Inr (s, canon p))
        \<and> (\<exists>g. load_pointer E ''last_known_good'' st' = Inr g)
        \<and> (jget (jget snapshot ''sync'') ''state'' = JStr ''fresh'' \<longrightarrow> load_pointer E ''last_known_good'' st' = Inr (canon snapshot, canon m))"
proof (cases r)
  case (Inl e)
  then show ?thesis using throughD [OF publish_triple [OF assms(1-3)] assms(4)] by (simp add: stopped_def)
next
  case (Inr m)
  obtain t where t: "published_at = Aware t" and m: "m = published_manifest E snapshot t" and valid: "snapshot_problems (sn_schema E) snapshot = []"
    and rest: "load_pointer E ''current'' st' = Inr (canon snapshot, canon m)"
      "load_archive E (archive_name E snapshot t) st' = Inr (canon snapshot, canon m)"
      "\<And>s p. load_pointer E ''current'' st = Inr (s, p) \<Longrightarrow> jget p ''sha256'' \<noteq> jget m ''sha256'' \<Longrightarrow> load_pointer E ''previous'' st' = Inr (s, canon p)"
      "\<exists>g. load_pointer E ''last_known_good'' st' = Inr g"
      "fresh_snapshot snapshot \<Longrightarrow> load_pointer E ''last_known_good'' st' = Inr (canon snapshot, canon m)"
    by (rule publish_finished [OF assms(1-3) assms(4) [unfolded Inr]]) blast
  have "validate_snapshot (sn_schema E) snapshot = Inr snapshot" using valid by (simp add: validate_snapshot_def)
  then show ?thesis using Inr t m rest by (simp add: published_manifest_def archive_name_def fresh_snapshot_def)
qed

lemma demo_valid: "snapshot_problems (\<lambda>_. []) (demo_snapshot ''g'' []) = []"
  by code_simp

lemma demo_members: "jget (jget (demo_snapshot g events) ''sync'') ''publication_mode'' = JStr ''real_only''"
  "jget (jget (demo_snapshot g events) ''sync'') ''state'' = JStr ''fresh''"
  by (simp_all add: demo_snapshot_def)

lemma demo_not_excused:
  assumes "snapshot_problems (\<lambda>_. []) (demo_snapshot g events) = []" and "so_objects st = []" and "so_manifests st = []"
  shows "\<not> excused (demo_store_env (\<lambda>_. False)) (demo_snapshot g events) (Aware t) st"
  using assms by (simp add: excused_def demo_store_env_def demo_members look_def)

theorem publish_result_witness:
  "let E = demo_store_env (\<lambda>_. False); run = publish E (demo_snapshot ''g'' []) (Aware 0) empty_store
   in case fst run of Inl e \<Rightarrow> False | Inr m \<Rightarrow> load_pointer E ''current'' (snd run) = Inr (canon (demo_snapshot ''g'' []), canon m)"
proof -
  let ?run = "publish (demo_store_env (\<lambda>_. False)) (demo_snapshot ''g'' []) (Aware 0) empty_store"
  have "\<not> excused (demo_store_env (\<lambda>_. False)) (demo_snapshot ''g'' []) (Aware 0) empty_store"
    by (rule demo_not_excused) (simp_all add: demo_valid empty_store_def)
  then show ?thesis
    using publish_result [OF demo_store_env_ok demo_snapshot_ok empty_store_ok prod.collapse [symmetric], of "[]" "\<lambda>_. False" "''g''" "Aware 0"]
    by (cases "fst ?run") (simp_all add: Let_def)
qed

section \<open>Pruning\<close>

text \<open>C24: Pruning, however it ends and whatever deletion fails, keeps every pointer and every surviving
  archived manifest loadable, changes no answer of a pointer and leaves the newest objects alone; when it
  finishes, at most three objects more than those it was asked to retain are left.\<close>

theorem prune_safe:
  assumes "store_ok E st" and "prune_objects E retain st = (r, st')"
  shows "store_ok E st'
    \<and> (\<forall>p. load_pointer E p st' = load_pointer E p st)
    \<and> (\<forall>n \<in> set (take (nat retain) (map fst (newest_first (filter (\<lambda>(name, _). object_file_name name) (so_objects st))))).
         look (so_objects st') n = look (so_objects st) n)
    \<and> (\<forall>removed. r = Inr removed \<longrightarrow> card {n. object_file_name n \<and> look (so_objects st') n \<noteq> None} \<le> nat retain + 3)"
  using prune_any_outcome [OF assms] prune_bound [OF assms(1)] assms(2) unfolding newest_names_def by blast

theorem prune_safe_witness:
  "let E = demo_store_env (\<lambda>n. n = 5); st = snd (publish E (demo_snapshot ''g'' []) (Aware 0) empty_store)
   in (\<forall>p. load_pointer E p (snd (prune_objects E 3 st)) = load_pointer E p st)"
proof -
  let ?E = "demo_store_env (\<lambda>n. n = 5)"
  have "store_ok ?E (snd (publish ?E (demo_snapshot ''g'' []) (Aware 0) empty_store))"
    by (rule publish_any_outcome(1) [OF demo_store_env_ok demo_snapshot_ok empty_store_ok prod.collapse [symmetric]]) simp
  from prune_safe [OF this prod.collapse [symmetric]] show ?thesis by (simp add: Let_def)
qed

end
