(* ===== verification/WorkerProperties.thy ===== *)
theory WorkerProperties
  imports WorkerProgress SnapshotProperties TicketProperties
begin

text \<open>
  The contract of the ingest worker, over the snapshot store and the ticket store together, and the
  identity of the signals it feeds to the latter.
\<close>

section \<open>A concrete run\<close>

definition worker_desk :: "nat \<Rightarrow> desk_env" where
  "worker_desk i = (demo_env 0)\<lparr>en_sha := length_digest\<rparr>"

definition calm :: store_env where
  "calm = demo_store_env (\<lambda>_. False)"

lemma calm_parts [simp]: "sn_sha calm = length_digest" "sn_schema calm = (\<lambda>_. [])" "\<not> sn_fails calm n" "\<not> sn_demo calm"
  by (simp_all add: calm_def demo_store_env_def)

lemma calm_ok: "store_env_ok calm"
  unfolding calm_def by (rule demo_store_env_ok)

lemma worker_desk_ok: "worker_env_ok calm worker_desk"
  by (simp add: worker_env_ok_def worker_desk_def now_text_def demo_env_def utc_text_of_def valid_instant_def time_units)

definition first_store :: "json \<Rightarrow> snapshot_store" where
  "first_store s = snd (publish calm s (Aware 0) empty_store)"

lemma first_run:
  assumes "snapshot_problems (\<lambda>_. []) (demo_snapshot g events) = []"
  shows "so_objects (first_store (demo_snapshot g events))
      = put_file (snapshot_object calm (demo_snapshot g events)) (snapshot_bytes (demo_snapshot g events)) 0 []"
    "so_manifests (first_store (demo_snapshot g events))
      = put_file (archive_name calm (demo_snapshot g events) 0) (manifest_bytes (published_manifest calm (demo_snapshot g events) 0)) 1 []"
  using assms
  by (simp_all add: first_store_def publish_def validate_snapshot_def demo_members Let_def bindE_lift_res bindE_guardE)
    (simp_all add: bindE_def write_once_def empty_store_def look_def write_object_def write_archive_def write_pointer_def guardE_def
      file_op_def put_file_def store_try_def read_manifest_def load_pointer_def pointer_names_def act_defs
      snapshot_object_def archive_name_def published_manifest_def demo_members)

lemma first_store_ok: "(\<forall>e \<in> set events. json_ok e) \<Longrightarrow> store_ok calm (first_store (demo_snapshot g events))"
  unfolding first_store_def
  by (rule publish_any_outcome(1) [OF calm_ok demo_snapshot_ok empty_store_ok prod.collapse [symmetric]])

section \<open>Everything is ingested\<close>

text \<open>C31: On a store kept by publications and prunings, a run of the worker over snapshots whose signals the
  ticket store accepts returns a result without errors; then the current snapshot and every archived one are
  marked as ingested, the ticket store is well-formed and nothing it held is lost.\<close>

theorem worker_ingests_everything:
  assumes "worker_env_ok E envs" and "desk_wf tz db" and "payloads_read db" and "store_ok E st"
    and "load_pointer E ''current'' st = Inr current" and "acceptable E current"
    and "\<And>name x. load_archive E name st = Inr x \<Longrightarrow> acceptable E x"
  shows "\<exists>r db'. ingest_available_snapshots E envs st db = (Inr r, db') \<and> wr_archive_errors r = []
    \<and> ingested (manifest_sha (snd current)) db'
    \<and> (\<forall>name s m. load_archive E name st = Inr (s, m) \<longrightarrow> ingested (manifest_sha m) db')
    \<and> desk_wf tz db' \<and> desk_extends db db' \<and> payloads_read db'"
proof -
  have ok: "archives_ok E st" using assms(4) by (simp add: store_ok_def)
  obtain r db' where run: "ingest_available_snapshots E envs st db = (Inr r, db')" and read: "payloads_read db'"
    using worker_total [OF assms(1-3) ok assms(5,6)] assms(7) by blast
  note fin = worker_finished [OF run assms(2)]
  have "wr_current_sha256 r = manifest_sha (snd current)"
    using worker_parts [OF run] candidates_of(1) assms(5) by (metis sum.inject(2))
  then have "ingested (manifest_sha (snd current)) db'" using fin(3) by simp
  moreover have "\<forall>name s m. load_archive E name st = Inr (s, m) \<longrightarrow> ingested (manifest_sha m) db'"
    using fin(5) [OF ok] archive_listed by blast
  ultimately show ?thesis using run read fin(1,2) fin(4) [OF ok] by blast
qed

lemma canon_demo: "canon (demo_snapshot ''g'' []) = demo_snapshot ''g'' []"
  by code_simp

lemma digest_hex: "is_sha256_hex (length_digest s)"
  by (rule length_digest_hex)

text \<open>A snapshot loaded from the first store is the published one, under its digest.\<close>

lemma first_loaded:
  assumes valid: "snapshot_problems (\<lambda>_. []) (demo_snapshot g events) = []" and ok: "\<forall>e \<in> set events. json_ok e"
    and load: "load_archive calm name (first_store (demo_snapshot g events)) = Inr x \<or> load_pointer calm p (first_store (demo_snapshot g events)) = Inr x"
  shows "fst x = canon (demo_snapshot g events)" "manifest_sha (snd x) = length_digest (snapshot_bytes (demo_snapshot g events))"
proof -
  let ?s = "demo_snapshot g events"
  obtain l where m: "load_manifest calm (snd x) l (first_store ?s) = Inr (fst x)" using load archive_manifest pointer_manifest by blast
  have sound: "sound_manifest (snd x)"
    using load_archive_parts(4) [of calm name "first_store ?s" "fst x" "snd x"] load_pointer_parts(2) [of calm p "first_store ?s" "fst x" "snd x"] load by auto
  obtain c where c: "look (so_objects (first_store ?s)) (manifest_sha (snd x) @ ''.json'') = Some c" "Option.bind (utf8_decode c) loads = Some (fst x)"
    by (rule load_manifest_content [OF m sound])
  then have name: "manifest_sha (snd x) @ ''.json'' = snapshot_object calm ?s" and bytes: "c = snapshot_bytes ?s"
    unfolding first_run(1) [OF valid] by (auto simp: look_def put_file_def split: if_splits)
  show "manifest_sha (snd x) = length_digest (snapshot_bytes ?s)" using name by (simp add: snapshot_object_def)
  have "Option.bind (utf8_decode (snapshot_bytes ?s)) loads = Some (canon ?s)"
    using loads_dumps(2) [OF demo_snapshot_ok [OF ok], of False] by (simp add: snapshot_bytes_def)
  then show "fst x = canon ?s" using c(2) bytes by simp
qed

lemma quiet_acceptable:
  assumes "fst x = demo_snapshot ''g'' []" and "manifest_sha (snd x) = length_digest (snapshot_bytes (demo_snapshot ''g'' []))"
  shows "acceptable calm x"
proof -
  have "signals_from_snapshot length_digest (\<lambda>_. []) (demo_snapshot ''g'' []) (Some (manifest_sha (snd x))) = Inr (manifest_sha (snd x), [])"
    using lower_hex [OF digest_hex] assms(2)
    by (simp add: signals_from_snapshot_def snapshot_sha256_def canonical_bytes_def validate_snapshot_def demo_valid Let_def)
      (simp add: demo_snapshot_def required_item_def snapshot_records_def py_iter_def)
  moreover have "\<exists>t. required_text ''Snapshot ID'' 1024 (JStr ''s'') = Inr t" "\<exists>t. required_text ''Timestamp snapshot'' 64 (JStr ''g'') = Inr t"
    by (rule exI, code_simp)+
  ultimately show ?thesis unfolding acceptable_def assms(1) by (simp add: demo_snapshot_def required_item_def)
qed

lemma first_current: "\<exists>x. load_pointer calm ''current'' (first_store (demo_snapshot ''g'' [])) = Inr x"
proof -
  have "\<not> excused calm (demo_snapshot ''g'' []) (Aware 0) empty_store"
    unfolding calm_def by (rule demo_not_excused) (simp_all add: demo_valid empty_store_def)
  then obtain m st' where run: "publish calm (demo_snapshot ''g'' []) (Aware 0) empty_store = (Inr m, st')"
    using publish_returns [OF calm_ok demo_snapshot_ok empty_store_ok] by (metis empty_iff list.set(1))
  obtain t where "load_pointer calm ''current'' st' = Inr (canon (demo_snapshot ''g'' []), canon m)"
    by (rule publish_finished [OF calm_ok demo_snapshot_ok empty_store_ok run]) auto
  then show ?thesis unfolding first_store_def run by auto
qed

lemma quiet_loaded: "load_archive calm name (first_store (demo_snapshot ''g'' [])) = Inr x \<or> load_pointer calm p (first_store (demo_snapshot ''g'' [])) = Inr x
    \<Longrightarrow> acceptable calm x"
  using first_loaded [OF demo_valid _, of name x p] by (intro quiet_acceptable) (simp_all add: canon_demo)

theorem worker_ingests_everything_witness:
  "\<exists>r db'. ingest_available_snapshots calm worker_desk (first_store (demo_snapshot ''g'' [])) empty_db = (Inr r, db') \<and> wr_archive_errors r = []
    \<and> desk_wf utc_zone db'"
proof -
  obtain cur where cur: "load_pointer calm ''current'' (first_store (demo_snapshot ''g'' [])) = Inr cur" using first_current by blast
  have "store_ok calm (first_store (demo_snapshot ''g'' []))" by (rule first_store_ok) simp
  from worker_ingests_everything [OF worker_desk_ok empty_db_wf [of utc_zone] _ this cur]
  show ?thesis using quiet_loaded cur by (fastforce simp: payloads_read_def empty_db_def)
qed

lemma quiet_digest: "load_archive calm name (first_store (demo_snapshot ''g'' [])) = Inr x \<or> load_pointer calm p (first_store (demo_snapshot ''g'' [])) = Inr x
    \<Longrightarrow> manifest_sha (snd x) = length_digest (snapshot_bytes (demo_snapshot ''g'' []))"
  by (rule first_loaded(2) [OF demo_valid]) simp_all

section \<open>A second run is idle\<close>

text \<open>C32: After a finished run a second run over the same snapshots, at any later time, returns without
  ingesting anything and leaves the ticket store exactly as it is, as long as the list of ingested
  snapshots fits the worker's one page of 10000. Only the ingest markers matter, so signals removed by
  the pruning command, which keeps the markers, do not come back.\<close>

theorem worker_rerun_idle:
  assumes "ingest_available_snapshots E envs st db = (Inr r, db')" and "desk_wf tz db" and "length (ingests db') \<le> 10000"
    and "ingests d = ingests db'"
  shows "\<exists>r'. ingest_available_snapshots E envs' st d = (Inr r', d) \<and> wr_snapshots_ingested r' = 0 \<and> wr_signals_created r' = 0"
  by (rule worker_again [OF assms, of envs']) blast

lemma worker_adds:
  assumes run: "ingest_available_snapshots E envs st db = (Inr r, db')" and "ingested d db'"
  shows "ingested d db \<or> (\<exists>x. ((\<exists>n. load_archive E n st = Inr x) \<or> load_pointer E ''current'' st = Inr x) \<and> d = manifest_sha (snd x))"
proof -
  obtain ordered errors current already totals where
    c: "load_candidates E st (map ig_snapshot (take 10000 (sort_desc ig_generated_at (sort_desc ig_snapshot (ingests db))))) = Inr (ordered, errors, current, already)"
    and f: "foldE (ingest_candidate E envs) \<lparr>it_ingested = 0, it_already = already, it_seen = 0, it_created = 0, it_observations = 0\<rparr>
       (enumerate 0 ordered) db = (Inr totals, db')" by (rule worker_parts [OF run]) blast
  show ?thesis using fold_adds [OF f _ assms(2)] candidates_of(1,2) [OF c] candidate_source [OF c] by blast
qed

theorem worker_rerun_idle_witness:
  "let run = ingest_available_snapshots calm worker_desk (first_store (demo_snapshot ''g'' [])) in
   \<exists>r'. run (snd (run empty_db)) = (Inr r', snd (run empty_db)) \<and> wr_snapshots_ingested r' = 0"
proof -
  let ?st = "first_store (demo_snapshot ''g'' [])"
  let ?run = "ingest_available_snapshots calm worker_desk ?st"
  obtain cur where cur: "load_pointer calm ''current'' ?st = Inr cur" using first_current by blast
  have "archives_ok calm ?st" using first_store_ok [of "[]" "''g''"] by (simp add: store_ok_def)
  then obtain r db' where run: "?run empty_db = (Inr r, db')"
    using worker_total [OF worker_desk_ok empty_db_wf [of utc_zone] _ _ cur] quiet_loaded cur by (fastforce simp: payloads_read_def empty_db_def)
  have "ig_snapshot ` set (ingests db') \<subseteq> {length_digest (snapshot_bytes (demo_snapshot ''g'' []))}"
  proof
    fix d assume "d \<in> ig_snapshot ` set (ingests db')"
    have none: "\<not> ingested d empty_db" by (simp add: ingested_iff empty_db_def)
    have "ingested d db'" using \<open>d \<in> _\<close> by (simp add: ingested_iff)
    from worker_adds [OF run this] none
    obtain x where x: "(\<exists>n. load_archive calm n ?st = Inr x) \<or> load_pointer calm ''current'' ?st = Inr x" "d = manifest_sha (snd x)"
      by blast
    have "manifest_sha (snd x) = length_digest (snapshot_bytes (demo_snapshot ''g'' []))"
      using x(1) quiet_digest [of _ x] by blast
    then show "d \<in> {length_digest (snapshot_bytes (demo_snapshot ''g'' []))}" using x(2) by simp
  qed
  from card_mono [OF _ this] have small: "card (ig_snapshot ` set (ingests db')) \<le> 1" by simp
  have "distinct (map ig_snapshot (ingests db'))"
    using worker_finished(1) [OF run empty_db_wf [of utc_zone]] by (simp add: desk_wf_def signals_wf_def)
  from distinct_card [OF this] small have "length (ingests db') \<le> 10000" by simp
  from worker_rerun_idle [OF run empty_db_wf [of utc_zone] this refl, of worker_desk] show ?thesis using run by (auto simp: Let_def)
qed

section \<open>A refused snapshot shuts out the current one\<close>













end
