(* ===== verification/TicketPruning.thy ===== *)
theory TicketPruning
  imports TicketDb
begin

text \<open>
  \<open>scripts/prune_ticket_store.py\<close>: the maintenance command that keeps the newest tickets of the
  store and what belongs to them. A store file is the database with the SQL text of its
  \<open>audit_events_no_delete\<close> trigger. SQLite's own checks of the file (\<open>quick_check\<close>,
  \<open>integrity_check\<close>), the outcome of the backup and what other processes commit between the dry run
  and the write transaction are parameters; \<open>foreign_key_check\<close>, the \<open>ON DELETE RESTRICT\<close>
  references and the trigger are written out. Symbolic links, permissions and the format of the
  backup manifest are operating-system matters.
\<close>

section \<open>The store file\<close>

record ticket_file =
  tf_db :: ticket_db
  tf_trigger :: "string option"

record prune_env =
  pn_intact :: "ticket_db \<Rightarrow> bool"
  pn_backup :: "ticket_db \<Rightarrow> bool"
  pn_meanwhile :: "ticket_db \<Rightarrow> ticket_db"

datatype prune_error =
    NegativeRetain | DamagedFile | BrokenReferences | MissingTrigger | Unclassifiable string | BackupFailed
  | ConstraintFailed | TicketsChanged | SignalsDiffer | OccurrencesDiffer | TriggerNotRestored | IngestsChanged

type_synonym 'a prune = "(ticket_file, prune_error, 'a) act"

definition references_ok :: "ticket_db \<Rightarrow> bool" where
  "references_ok db \<longleftrightarrow>
     list_all (\<lambda>o'. oc_signal o' \<in> sg_id ` set (signals db)) (occurrences db)
     \<and> list_all (\<lambda>t. tk_signal t \<in> sg_id ` set (signals db)) (tickets db)
     \<and> list_all (\<lambda>c. cm_ticket c \<in> tk_id ` set (tickets db)) (comments db)
     \<and> list_all (\<lambda>a. ta_ticket a \<in> tk_id ` set (tickets db)) (tasks db)
     \<and> list_all (\<lambda>a. au_ticket a \<in> tk_id ` set (tickets db)) (audit db)"

definition check_integrity :: "prune_env \<Rightarrow> unit prune" where
  "check_integrity E = bindE (gets tf_db) (\<lambda>db.
     bindE (guardE (pn_intact E db) DamagedFile) (\<lambda>_. guardE (references_ok db) BrokenReferences))"

definition require_schema :: "string prune" where
  "require_schema = bindE (gets tf_trigger) (\<lambda>sql.
     bindE (guardE (sql \<noteq> None \<and> strip (the sql) \<noteq> []) MissingTrigger) (\<lambda>_. ret (the sql)))"

section \<open>The plan\<close>

record prune_plan =
  pp_tickets :: "string list"
  pp_kept :: "string list"
  pp_kept_signals :: "string list"
  pp_protected :: "string option"
  pp_signals :: nat
  pp_occurrences :: nat

text \<open>\<open>v[k]\<close>; a \<open>KeyError\<close> and a \<open>TypeError\<close> are both caught.\<close>

definition json_item :: "string \<Rightarrow> json \<Rightarrow> json option" where
  "json_item k v = (case v of JObj kvs \<Rightarrow> map_of kvs k | _ \<Rightarrow> None)"

definition security_test_signal :: "string \<Rightarrow> signal_row \<Rightarrow> prune_error + bool" where
  "security_test_signal ticket s =
     (if sg_type s \<noteq> ''host_modbus_write'' then Inr False
      else case Option.bind (Option.bind (Option.bind (loads (sg_payload_json s)) (json_item ''event'')) (json_item ''source'')) (json_item ''classification'') of
        None \<Rightarrow> Inl (Unclassifiable ticket)
      | Some c \<Rightarrow> Inr (c = JStr ''security_test''))"

fun first_protected :: "(ticket_row \<times> signal_row) list \<Rightarrow> prune_error + string option" where
  "first_protected [] = Inr None"
| "first_protected ((t, s) # rows) = bindR (security_test_signal (tk_id t) s) (\<lambda>b.
     if b then Inr (Some (tk_id t)) else first_protected rows)"

text \<open>Tickets with their signals, \<open>ORDER BY tickets.updated_at DESC, tickets.id\<close>\<close>

definition prune_rows :: "ticket_db \<Rightarrow> (ticket_row \<times> signal_row) list" where
  "prune_rows db = sort_desc (\<lambda>(t, _). tk_updated_at t) (sort_key (\<lambda>(t, _). tk_id t)
     (List.map_filter (\<lambda>t. map_option (Pair t) (signal_by_id (tk_signal t) db)) (tickets db)))"

text \<open>A protected ticket outside the window replaces its oldest member.\<close>

definition kept_tickets :: "string list \<Rightarrow> nat \<Rightarrow> string option \<Rightarrow> string list" where
  "kept_tickets ids retain protected =
     (let window = take retain ids in
      case protected of
        None \<Rightarrow> window
      | Some p \<Rightarrow> if p \<in> set window then window
                  else p # (if window = [] then [] else removeAll (ids ! (retain - 1)) window))"

definition plan_prune :: "int \<Rightarrow> ticket_db \<Rightarrow> prune_error + prune_plan" where
  "plan_prune retain db =
     (if retain < 0 then Inl NegativeRetain
      else let rows = prune_rows db; ids = map (\<lambda>(t, _). tk_id t) rows in
        bindR (first_protected rows) (\<lambda>protected.
        let kept = kept_tickets ids (nat retain) protected;
            kept_signals = map (\<lambda>(t, _). tk_signal t) (filter (\<lambda>(t, _). tk_id t \<in> set kept) rows) in
        Inr \<lparr>pp_tickets = ids, pp_kept = kept, pp_kept_signals = kept_signals, pp_protected = protected,
          pp_signals = card (sg_id ` set (signals db) - set kept_signals),
          pp_occurrences = length (filter (\<lambda>o'. oc_signal o' \<notin> set kept_signals) (occurrences db))\<rparr>))"

definition tickets_to_delete :: "prune_plan \<Rightarrow> nat" where
  "tickets_to_delete plan = length (pp_tickets plan) - card (set (pp_kept plan))"

section \<open>Deleting\<close>

text \<open>\<open>DELETE FROM \<dots> WHERE NOT keep\<close> on one table; a row that is still referenced aborts it.\<close>

definition keep_rows :: "(ticket_db \<Rightarrow> 'r list) \<Rightarrow> ('r list \<Rightarrow> ticket_db \<Rightarrow> ticket_db) \<Rightarrow> ('r \<Rightarrow> bool) \<Rightarrow> nat prune" where
  "keep_rows get put keep = (\<lambda>st.
     let old = get (tf_db st); db' = put (filter keep old) (tf_db st) in
     if references_ok db' then (Inr (length (filter (\<lambda>r. \<not> keep r) old)), st\<lparr>tf_db := db'\<rparr>) else (Inl ConstraintFailed, st))"

definition keep_audit :: "(audit_row \<Rightarrow> bool) \<Rightarrow> nat prune" where
  "keep_audit keep = bindE (gets (\<lambda>st. tf_trigger st = None \<or> list_all keep (audit (tf_db st)))) (\<lambda>free.
     bindE (guardE free ConstraintFailed) (\<lambda>_. keep_rows audit (\<lambda>rows db. db\<lparr>audit := rows\<rparr>) keep))"

record deleted_rows =
  dl_comments :: nat
  dl_tasks :: nat
  dl_audit :: nat
  dl_tickets :: nat
  dl_occurrences :: nat
  dl_signals :: nat

definition apply_plan :: "prune_plan \<Rightarrow> string \<Rightarrow> deleted_rows prune" where
  "apply_plan plan audit_trigger_sql =
     (let kept = set (pp_kept plan) in
      bindE (keep_rows comments (\<lambda>rows db. db\<lparr>comments := rows\<rparr>) (\<lambda>c. cm_ticket c \<in> kept)) (\<lambda>n_comments.
      bindE (keep_rows tasks (\<lambda>rows db. db\<lparr>tasks := rows\<rparr>) (\<lambda>a. ta_ticket a \<in> kept)) (\<lambda>n_tasks.
      bindE (modify (\<lambda>st. st\<lparr>tf_trigger := None\<rparr>)) (\<lambda>_.
      bindE (keep_audit (\<lambda>a. au_ticket a \<in> kept)) (\<lambda>n_audit.
      bindE (modify (\<lambda>st. st\<lparr>tf_trigger := Some audit_trigger_sql\<rparr>)) (\<lambda>_.
      bindE (keep_rows tickets (\<lambda>rows db. db\<lparr>tickets := rows\<rparr>) (\<lambda>t. tk_id t \<in> kept)) (\<lambda>n_tickets.
      bindE (gets (\<lambda>st. tk_signal ` set (tickets (tf_db st)))) (\<lambda>used.
      bindE (keep_rows occurrences (\<lambda>rows db. db\<lparr>occurrences := rows\<rparr>) (\<lambda>o'. oc_signal o' \<in> used)) (\<lambda>n_occurrences.
      bindE (keep_rows signals (\<lambda>rows db. db\<lparr>signals := rows\<rparr>) (\<lambda>s. sg_id s \<in> used)) (\<lambda>n_signals.
      bindE (guardE (n_tickets = tickets_to_delete plan) TicketsChanged) (\<lambda>_.
      bindE (guardE (n_signals = pp_signals plan) SignalsDiffer) (\<lambda>_.
      bindE (guardE (n_occurrences = pp_occurrences plan) OccurrencesDiffer) (\<lambda>_.
      bindE (gets tf_trigger) (\<lambda>restored.
      bindE (guardE (restored \<noteq> None) TriggerNotRestored) (\<lambda>_.
      ret \<lparr>dl_comments = n_comments, dl_tasks = n_tasks, dl_audit = n_audit, dl_tickets = n_tickets,
        dl_occurrences = n_occurrences, dl_signals = n_signals\<rparr>)))))))))))))))"

section \<open>The command\<close>

definition snapshot_ingests :: "ticket_db \<Rightarrow> ingest_row list" where
  "snapshot_ingests db = sort_key ig_snapshot (ingests db)"

text \<open>The body of the write transaction\<close>

definition prune_body :: "prune_env \<Rightarrow> int \<Rightarrow> (prune_plan \<times> deleted_rows) prune" where
  "prune_body E retain =
     bindE require_schema (\<lambda>audit_trigger_sql.
     bindE (check_integrity E) (\<lambda>_.
     bindE (gets (\<lambda>st. snapshot_ingests (tf_db st))) (\<lambda>before_ingests.
     bindE (gets (\<lambda>st. plan_prune retain (tf_db st))) (\<lambda>planned.
     bindE (lift_res planned) (\<lambda>plan.
     bindE (apply_plan plan audit_trigger_sql) (\<lambda>deleted.
     bindE (gets (\<lambda>st. snapshot_ingests (tf_db st))) (\<lambda>after_ingests.
     bindE (guardE (after_ingests = before_ingests) IngestsChanged) (\<lambda>_.
     bindE (check_integrity E) (\<lambda>_.
     ret (plan, deleted))))))))))"

definition prune_ticket_store :: "prune_env \<Rightarrow> int \<Rightarrow> bool \<Rightarrow> (prune_plan \<times> deleted_rows option) prune" where
  "prune_ticket_store E retain apply_changes =
     bindE (guardE (0 \<le> retain) NegativeRetain) (\<lambda>_.
     bindE require_schema (\<lambda>_.
     bindE (check_integrity E) (\<lambda>_.
     bindE (gets (\<lambda>st. plan_prune retain (tf_db st))) (\<lambda>planned.
     bindE (lift_res planned) (\<lambda>dry_plan.
     if \<not> apply_changes then ret (dry_plan, None)
     else
       bindE (gets (\<lambda>st. pn_backup E (tf_db st))) (\<lambda>backed_up.
       bindE (guardE backed_up BackupFailed) (\<lambda>_.
       bindE (modify (\<lambda>st. st\<lparr>tf_db := pn_meanwhile E (tf_db st)\<rparr>)) (\<lambda>_.
       bindE (transaction (prune_body E retain)) (\<lambda>(plan, deleted).
       ret (plan, Some deleted))))))))))"

end
