(* ===== verification/PruneFacts.thy ===== *)
theory PruneFacts
  imports TicketPruning AuditTrail
begin

text \<open>
  Facts on the pruning of the ticket store: what is left of a well-formed database when a set of
  tickets is kept, the order of the plan's rows, and the run of the deletions.
\<close>

section \<open>The part of a database that is kept\<close>

definition kept_part :: "string set \<Rightarrow> ticket_db \<Rightarrow> ticket_db" where
  "kept_part K db =
     (let ts = filter (\<lambda>t. tk_id t \<in> K) (tickets db); used = tk_signal ` set ts in
      db\<lparr>signals := filter (\<lambda>s. sg_id s \<in> used) (signals db), occurrences := filter (\<lambda>o'. oc_signal o' \<in> used) (occurrences db),
         tickets := ts, comments := filter (\<lambda>c. cm_ticket c \<in> K) (comments db),
         tasks := filter (\<lambda>a. ta_ticket a \<in> K) (tasks db), audit := filter (\<lambda>a. au_ticket a \<in> K) (audit db)\<rparr>)"

lemma kept_part_rows [simp]:
  "tickets (kept_part K db) = filter (\<lambda>t. tk_id t \<in> K) (tickets db)" "ingests (kept_part K db) = ingests db"
  "comments (kept_part K db) = filter (\<lambda>c. cm_ticket c \<in> K) (comments db)" "tasks (kept_part K db) = filter (\<lambda>a. ta_ticket a \<in> K) (tasks db)"
  "audit (kept_part K db) = filter (\<lambda>a. au_ticket a \<in> K) (audit db)"
  "signals (kept_part K db) = filter (\<lambda>s. sg_id s \<in> tk_signal ` {t \<in> set (tickets db). tk_id t \<in> K}) (signals db)"
  "occurrences (kept_part K db) = filter (\<lambda>o'. oc_signal o' \<in> tk_signal ` {t \<in> set (tickets db). tk_id t \<in> K}) (occurrences db)"
  "next_occurrence (kept_part K db) = next_occurrence db" "next_sequence (kept_part K db) = next_sequence db"
  by (simp_all add: kept_part_def Let_def)

lemma distinct_filtered: "distinct (map f xs) \<Longrightarrow> distinct (map f (filter P xs))"
  by (rule distinct_map_filter)

lemma image_filtered:
  assumes "f ` A \<subseteq> g ` B" shows "f ` {x \<in> A. f x \<in> U} \<subseteq> g ` {y \<in> B. g y \<in> U}"
proof
  fix z assume "z \<in> f ` {x \<in> A. f x \<in> U}"
  then have z: "z \<in> f ` A" "z \<in> U" by auto
  obtain y where "y \<in> B" "z = g y" using subsetD [OF assms z(1)] by (rule imageE)
  then show "z \<in> g ` {y \<in> B. g y \<in> U}" using z(2) by simp
qed

lemma image_follows:
  assumes "f ` A \<subseteq> g ` B" shows "f ` {x \<in> A. P x} \<subseteq> g ` {y \<in> B. g y \<in> f ` {x \<in> A. P x}}"
proof
  fix z assume z: "z \<in> f ` {x \<in> A. P x}"
  then have "z \<in> f ` A" by auto
  then obtain y where "y \<in> B" "z = g y" using subsetD [OF assms] by blast
  then show "z \<in> g ` {y \<in> B. g y \<in> f ` {x \<in> A. P x}}" using z by simp
qed

lemma ball_filtered: "\<forall>r \<in> A. P r \<Longrightarrow> \<forall>r \<in> {x \<in> A. Q x}. P r"
  by simp

lemma kept_part_wf:
  assumes "desk_wf tz db" shows "desk_wf tz (kept_part K db)"
proof -
  have wf: "signals_wf db" "tickets_wf tz db" "children_wf db" using assms by (simp_all add: desk_wf_def)
  have refs: "oc_signal ` set (occurrences db) \<subseteq> sg_id ` set (signals db)" "tk_signal ` set (tickets db) \<subseteq> sg_id ` set (signals db)"
    by (insert wf(1,2), unfold signals_wf_def tickets_wf_def) (elim conjE, assumption)+
  have "oc_signal ` set (filter (\<lambda>o'. oc_signal o' \<in> U) (occurrences db)) \<subseteq> sg_id ` set (filter (\<lambda>s. sg_id s \<in> U) (signals db))"
    "tk_signal ` set (filter (\<lambda>t. tk_id t \<in> K) (tickets db))
      \<subseteq> sg_id ` set (filter (\<lambda>s. sg_id s \<in> tk_signal ` {t \<in> set (tickets db). tk_id t \<in> K}) (signals db))" for U
    unfolding set_filter by (rule image_filtered [OF refs(1)], rule image_follows [OF refs(2)])
  note kept_refs = this
  have "signals_wf (kept_part K db)"
    using wf(1) unfolding signals_wf_def kept_part_rows set_filter
    by (elim conjE, intro conjI)
      (assumption | (rule distinct_filtered numbered_filter image_filtered ball_filtered, assumption))+
  moreover have "tickets_wf tz (kept_part K db)"
    using wf(2) kept_refs(2) unfolding tickets_wf_def kept_part_rows set_filter
    by (elim conjE, intro conjI) (assumption | (rule distinct_filtered ball_filtered, assumption))+
  moreover have "children_wf (kept_part K db)"
    using wf(3) unfolding children_wf_def kept_part_rows
    by (intro conjI) (auto intro!: distinct_filtered numbered_filter)
  ultimately show ?thesis by (simp add: desk_wf_def)
qed

lemma replay_kept: "tid \<in> K \<Longrightarrow> replay tid (filter (\<lambda>a. au_ticket a \<in> K) es) = replay tid es"
proof -
  assume "tid \<in> K"
  then have "foldl (apply_event tid) v (filter (\<lambda>a. au_ticket a \<in> K) es) = foldl (apply_event tid) v es" for v
    by (induction es arbitrary: v) (auto simp: apply_event_def)
  then show ?thesis by (simp add: replay_def)
qed

lemma kept_part_explains: "audit_explains db \<Longrightarrow> audit_explains (kept_part K db)"
  by (simp add: audit_explains_def replay_kept)

lemma wf_references: "desk_wf tz db \<Longrightarrow> references_ok db"
  by (auto simp: desk_wf_def signals_wf_def tickets_wf_def children_wf_def references_ok_def list_all_iff)

section \<open>The rows of the plan\<close>

lemma mset_sort_desc [simp]: "mset (sort_desc k xs) = mset xs"
  by (simp add: sort_desc_def)

lemma tickets_joined:
  assumes "\<forall>t \<in> set ts. signal_by_id (tk_signal t) db \<noteq> None"
  shows "map fst (List.map_filter (\<lambda>t. map_option (Pair t) (signal_by_id (tk_signal t) db)) ts) = ts"
  using assms by (induction ts) (auto simp: map_filter_simps)

lemma wf_ticket_signals:
  assumes "desk_wf tz db" shows "\<forall>t \<in> set (tickets db). signal_by_id (tk_signal t) db \<noteq> None"
  using assms by (auto simp: desk_wf_def tickets_wf_def not_found)

lemma prune_rows_mset: "desk_wf tz db \<Longrightarrow> mset (map fst (prune_rows db)) = mset (tickets db)"
proof -
  assume wf: "desk_wf tz db"
  let ?rows = "List.map_filter (\<lambda>t. map_option (Pair t) (signal_by_id (tk_signal t) db)) (tickets db)"
  have "mset (prune_rows db) = mset ?rows" by (simp add: prune_rows_def)
  then have "mset (map fst (prune_rows db)) = mset (map fst ?rows)" by simp
  then show ?thesis unfolding tickets_joined [OF wf_ticket_signals [OF wf]] .
qed

definition row_ids :: "ticket_db \<Rightarrow> string list" where
  "row_ids db = map (\<lambda>(t, _). tk_id t) (prune_rows db)"

lemma row_ids_wf:
  assumes "desk_wf tz db"
  shows "set (row_ids db) = tk_id ` set (tickets db)" "distinct (row_ids db)" "length (row_ids db) = length (tickets db)"
proof -
  have ids: "row_ids db = map tk_id (map fst (prune_rows db))" by (simp add: row_ids_def case_prod_beta)
  have m: "mset (row_ids db) = mset (map tk_id (tickets db))" unfolding ids mset_map prune_rows_mset [OF assms, unfolded mset_map] ..
  show "set (row_ids db) = tk_id ` set (tickets db)" using mset_eq_setD [OF m] by simp
  show "distinct (row_ids db)" unfolding mset_eq_imp_distinct_iff [OF m] using assms by (simp add: desk_wf_def tickets_wf_def)
  show "length (row_ids db) = length (tickets db)" using mset_eq_length [OF m] by simp
qed

lemma prune_rows_newest: "sorted_wrt (\<lambda>r q. tk_updated_at (fst q) \<le> tk_updated_at (fst r)) (prune_rows db)"
  using sort_desc_sorted [of "\<lambda>(t, _). tk_updated_at t"] by (simp add: prune_rows_def case_prod_beta)

lemma prune_rows_mem:
  assumes "(t, s) \<in> set (prune_rows db)" shows "t \<in> set (tickets db)" "signal_by_id (tk_signal t) db = Some s"
  using assms by (auto simp: prune_rows_def map_filter_def split: option.splits)

lemma prune_rows_of:
  assumes "desk_wf tz db" "t \<in> set (tickets db)" obtains s where "(t, s) \<in> set (prune_rows db)"
proof -
  have "t \<in> set (map fst (prune_rows db))" using mset_eq_setD [OF prune_rows_mset [OF assms(1)]] assms(2) by blast
  then show ?thesis using that by auto
qed

section \<open>Which tickets are kept\<close>

lemma first_protected_found:
  assumes "first_protected rows = Inr p"
  shows "case p of None \<Rightarrow> \<forall>(t, s) \<in> set rows. security_test_signal (tk_id t) s = Inr False
    | Some i \<Rightarrow> \<exists>us t s vs. rows = us @ (t, s) # vs \<and> tk_id t = i \<and> security_test_signal i s = Inr True
        \<and> (\<forall>(t', s') \<in> set us. security_test_signal (tk_id t') s' = Inr False)"
  using assms
proof (induction rows)
  case (Cons r rows)
  obtain t s where r: "r = (t, s)" by (cases r)
  obtain b where b: "security_test_signal (tk_id t) s = Inr b" using Cons.prems unfolding r by (auto simp: bindR_eq_Inr)
  show ?case
  proof (cases b)
    case True
    then have "p = Some (tk_id t)" using Cons.prems b unfolding r by simp
    then show ?thesis using b True unfolding r by (simp) (rule exI [of _ "[]"], simp)
  next
    case False
    then have "first_protected rows = Inr p" using Cons.prems b unfolding r by simp
    note IH = Cons.IH [OF this]
    show ?thesis
    proof (cases p)
      case None
      then show ?thesis using IH b False unfolding r by simp
    next
      case (Some i)
      then obtain us t' s' vs where "rows = us @ (t', s') # vs" "tk_id t' = i" "security_test_signal i s' = Inr True"
        "\<forall>(t', s') \<in> set us. security_test_signal (tk_id t') s' = Inr False" using IH by auto
      then show ?thesis using b False unfolding r Some by simp (rule exI [of _ "(t, s) # us"], simp)
    qed
  qed
qed simp

lemma take_nth:
  assumes "p \<in> set ids" "p \<notin> set (take n ids)"
  shows "n < length ids" "0 < n \<Longrightarrow> ids ! (n - 1) \<in> set (take n ids)"
proof -
  show n: "n < length ids" using assms by (metis leI take_all)
  show "0 < n \<Longrightarrow> ids ! (n - 1) \<in> set (take n ids)"
    using n by (auto simp: in_set_conv_nth intro!: exI [of _ "n - 1"])
qed

lemma kept_tickets_facts:
  assumes "distinct ids" and "\<And>p. protected = Some p \<Longrightarrow> p \<in> set ids"
  shows "set (kept_tickets ids n protected) \<subseteq> set ids"
    "card (set (kept_tickets ids n protected)) = max (min n (length ids)) (if protected = None then 0 else 1)"
    "\<And>p. protected = Some p \<Longrightarrow> p \<in> set (kept_tickets ids n protected)"
proof -
  have sub: "set (take n ids) \<subseteq> set ids" by (rule set_take_subset)
  have size: "card (set (take n ids)) = min n (length ids)" using assms(1) distinct_card [of "take n ids"] by simp
  show "set (kept_tickets ids n protected) \<subseteq> set ids" "\<And>p. protected = Some p \<Longrightarrow> p \<in> set (kept_tickets ids n protected)"
    using assms(2) sub by (auto simp: kept_tickets_def Let_def split: option.split)
  show "card (set (kept_tickets ids n protected)) = max (min n (length ids)) (if protected = None then 0 else 1)"
  proof (cases protected)
    case None
    then show ?thesis using size by (simp add: kept_tickets_def)
  next
    case (Some p)
    have p: "p \<in> set ids" using assms(2) Some by blast
    show ?thesis
    proof (cases "p \<in> set (take n ids)")
      case True
      then have "0 < card (set (take n ids))" unfolding card_gt_0_iff by (metis empty_iff finite_set)
      then have "1 \<le> min n (length ids)" unfolding size by (simp add: Suc_le_eq)
      then show ?thesis using True size Some by (simp add: kept_tickets_def)
    next
      case False
      note out = take_nth [OF p False]
      show ?thesis
      proof (cases "n = 0")
        case True
        then show ?thesis using Some by (simp add: kept_tickets_def)
      next
        case n: False
        then have "card (set (take n ids) - {ids ! (n - 1)}) = n - 1" using out size by (simp add: card_Diff_singleton)
        moreover have "take n ids \<noteq> []" using n out(1) by auto
        ultimately have "card (set (kept_tickets ids n protected)) = Suc (n - 1)"
          using False Some by (simp add: kept_tickets_def Let_def)
        then show ?thesis using n out(1) Some by simp
      qed
    qed
  qed
qed

lemma kept_before_dropped:
  assumes ids: "distinct ids" "\<And>p. protected = Some p \<Longrightarrow> p \<in> set ids"
    and i: "i \<in> set (kept_tickets ids n protected)" "protected \<noteq> Some i"
    and j: "j \<in> set ids" "j \<notin> set (kept_tickets ids n protected)"
  obtains a b where "a < b" "b < length ids" "ids ! a = i" "ids ! b = j"
proof -
  have iw: "i \<in> set (take n ids)" using i by (auto simp: kept_tickets_def Let_def split: option.splits if_splits)
  then obtain a where a: "a < n" "a < length ids" "ids ! a = i" by (auto simp: in_set_conv_nth)
  obtain b where b: "b < length ids" "ids ! b = j" using j(1) by (auto simp: in_set_conv_nth)
  have "i \<noteq> j" using i(1) j(2) by blast
  then have "a \<noteq> b" using a(3) b(2) by blast
  have "n - 1 \<le> b"
  proof (cases "j \<in> set (take n ids)")
    case False
    have "n \<le> b"
    proof (rule ccontr)
      assume "\<not> n \<le> b"
      then have "take n ids ! b = j" "b < length (take n ids)" using b by simp_all
      then show False using False nth_mem by blast
    qed
    then show ?thesis by simp
  next
    case True
    then obtain p where p: "protected = Some p" "p \<notin> set (take n ids)" and last: "j = ids ! (n - 1)"
      using j(2) by (auto simp: kept_tickets_def Let_def split: option.splits if_splits)
    have "n < length ids" by (rule take_nth(1) [OF ids(2) [OF p(1)] p(2)])
    then have "b = n - 1" using b last ids(1) by (simp add: nth_eq_iff_index_eq)
    then show ?thesis by simp
  qed
  then have "a < b" using a(1) \<open>a \<noteq> b\<close> by simp
  then show ?thesis using that a(3) b by blast
qed

section \<open>The deletions\<close>

text \<open>Every statement in its order leaves no dangling reference, so none of them is refused.\<close>

lemma references_without:
  assumes "references_ok db"
  shows "references_ok (db\<lparr>comments := filter P (comments db)\<rparr>)" "references_ok (db\<lparr>tasks := filter Q (tasks db)\<rparr>)"
    "references_ok (db\<lparr>audit := filter R (audit db)\<rparr>)" "references_ok (db\<lparr>occurrences := filter S (occurrences db)\<rparr>)"
  using assms by (simp_all add: references_ok_def list_all_iff)

lemma references_tickets:
  assumes "references_ok db" and "\<forall>c \<in> set (comments db). cm_ticket c \<in> K" and "\<forall>a \<in> set (tasks db). ta_ticket a \<in> K"
    and "\<forall>a \<in> set (audit db). au_ticket a \<in> K"
  shows "references_ok (db\<lparr>tickets := filter (\<lambda>t. tk_id t \<in> K) (tickets db)\<rparr>)"
proof -
  have "i \<in> tk_id ` set (filter (\<lambda>t. tk_id t \<in> K) (tickets db))" if "i \<in> tk_id ` set (tickets db)" "i \<in> K" for i
    using that by auto
  then show ?thesis using assms by (simp add: references_ok_def list_all_iff)
qed

lemma references_signals:
  assumes "references_ok db" and "\<forall>o' \<in> set (occurrences db). oc_signal o' \<in> U" and "\<forall>t \<in> set (tickets db). tk_signal t \<in> U"
  shows "references_ok (db\<lparr>signals := filter (\<lambda>s. sg_id s \<in> U) (signals db)\<rparr>)"
proof -
  have "i \<in> sg_id ` set (filter (\<lambda>s. sg_id s \<in> U) (signals db))" if "i \<in> sg_id ` set (signals db)" "i \<in> U" for i
    using that by auto
  then show ?thesis using assms by (simp add: references_ok_def list_all_iff)
qed

lemma keep_rows_run:
  assumes "references_ok (put (filter keep (get (tf_db st))) (tf_db st))"
  shows "keep_rows get put keep st = (Inr (length (filter (\<lambda>r. \<not> keep r) (get (tf_db st)))), st\<lparr>tf_db := put (filter keep (get (tf_db st))) (tf_db st)\<rparr>)"
  using assms by (simp add: keep_rows_def Let_def)

definition plan_counts :: "prune_plan \<Rightarrow> ticket_db \<Rightarrow> bool" where
  "plan_counts plan db \<longleftrightarrow> (let K = set (pp_kept plan); used = tk_signal ` {t \<in> set (tickets db). tk_id t \<in> K} in
     length (filter (\<lambda>t. tk_id t \<notin> K) (tickets db)) = tickets_to_delete plan
     \<and> length (filter (\<lambda>s. sg_id s \<notin> used) (signals db)) = pp_signals plan
     \<and> length (filter (\<lambda>o'. oc_signal o' \<notin> used) (occurrences db)) = pp_occurrences plan)"

lemma apply_plan_run:
  assumes refs: "references_ok db" and counts: "plan_counts plan db"
  obtains d where "apply_plan plan sql \<lparr>tf_db = db, tf_trigger = t\<rparr>
    = (Inr d, \<lparr>tf_db = kept_part (set (pp_kept plan)) db, tf_trigger = Some sql\<rparr>)"
proof -
  let ?K = "set (pp_kept plan)"
  let ?used = "tk_signal ` {t \<in> set (tickets db). tk_id t \<in> ?K}"
  define d1 where "d1 = db\<lparr>comments := filter (\<lambda>c. cm_ticket c \<in> ?K) (comments db)\<rparr>"
  define d2 where "d2 = d1\<lparr>tasks := filter (\<lambda>a. ta_ticket a \<in> ?K) (tasks d1)\<rparr>"
  define d3 where "d3 = d2\<lparr>audit := filter (\<lambda>a. au_ticket a \<in> ?K) (audit d2)\<rparr>"
  define d4 where "d4 = d3\<lparr>tickets := filter (\<lambda>t. tk_id t \<in> ?K) (tickets d3)\<rparr>"
  define d5 where "d5 = d4\<lparr>occurrences := filter (\<lambda>o'. oc_signal o' \<in> ?used) (occurrences d4)\<rparr>"
  define d6 where "d6 = d5\<lparr>signals := filter (\<lambda>s. sg_id s \<in> ?used) (signals d5)\<rparr>"
  note ds = d1_def d2_def d3_def d4_def d5_def d6_def
  have ok: "references_ok d1" "references_ok d2" "references_ok d3"
    unfolding d1_def d2_def d3_def by (simp_all only: references_without refs)
  have ok4: "references_ok d4" unfolding d4_def by (rule references_tickets [OF ok(3)]) (simp_all add: ds)
  have ok5: "references_ok d5" unfolding d5_def by (rule references_without(4) [OF ok4])
  have ok6: "references_ok d6" unfolding d6_def by (rule references_signals [OF ok5]) (auto simp: ds)
  have used: "tk_signal ` set (tickets d4) = ?used" by (simp add: ds)
  have same: "tickets d3 = tickets db" "occurrences d4 = occurrences db" "signals d5 = signals db" by (simp_all add: ds)
  have final: "d6 = kept_part ?K db" by (simp add: ds kept_part_def Let_def)
  note runs = keep_rows_run [of "\<lambda>rows db. db\<lparr>comments := rows\<rparr>" _ comments] keep_rows_run [of "\<lambda>rows db. db\<lparr>tasks := rows\<rparr>" _ tasks]
    keep_rows_run [of "\<lambda>rows db. db\<lparr>audit := rows\<rparr>" _ audit] keep_rows_run [of "\<lambda>rows db. db\<lparr>tickets := rows\<rparr>" _ tickets]
    keep_rows_run [of "\<lambda>rows db. db\<lparr>occurrences := rows\<rparr>" _ occurrences] keep_rows_run [of "\<lambda>rows db. db\<lparr>signals := rows\<rparr>" _ signals]
  show ?thesis
    using counts
    apply (intro that)
     apply (simp add: apply_plan_def Let_def bindE_def gets_def modify_def guardE_def ret_def keep_audit_def runs plan_counts_def
        d1_def [symmetric] d2_def [symmetric] d3_def [symmetric] d4_def [symmetric] d5_def [symmetric] d6_def [symmetric]
        ok ok4 ok5 ok6 used final [symmetric])
    apply (simp only: same)
    apply simp
    done
qed

end
