(* ===== verification/PruneProperties.thy ===== *)
theory PruneProperties
  imports PruneFacts TicketProperties
begin

text \<open>
  The contract of the pruning command: which tickets it keeps, what is left of the database, and that
  its own cross-checks never stop it halfway on a well-formed store.
\<close>

section \<open>The plan\<close>

lemma count_outside:
  assumes "distinct (map f xs)" shows "length (filter (\<lambda>x. f x \<notin> U) xs) = card (f ` set xs - U)"
proof -
  have "distinct (map f (filter (\<lambda>x. f x \<notin> U) xs))" by (rule distinct_map_filter [OF assms])
  from distinct_card [OF this] have "length (filter (\<lambda>x. f x \<notin> U) xs) = card (set (map f (filter (\<lambda>x. f x \<notin> U) xs)))" by simp
  also have "set (map f (filter (\<lambda>x. f x \<notin> U) xs)) = f ` set xs - U" by auto
  finally show ?thesis .
qed

lemma plan_parts:
  assumes "plan_prune retain db = Inr plan"
  obtains protected where "0 \<le> retain" "first_protected (prune_rows db) = Inr protected" "pp_protected plan = protected"
    "pp_tickets plan = row_ids db" "pp_kept plan = kept_tickets (row_ids db) (nat retain) protected"
    "pp_kept_signals plan = map (\<lambda>(t, _). tk_signal t) (filter (\<lambda>(t, _). tk_id t \<in> set (pp_kept plan)) (prune_rows db))"
    "pp_signals plan = card (sg_id ` set (signals db) - set (pp_kept_signals plan))"
    "pp_occurrences plan = length (filter (\<lambda>o'. oc_signal o' \<notin> set (pp_kept_signals plan)) (occurrences db))"
  using assms unfolding plan_prune_def row_ids_def by (auto simp: bindR_eq_Inr Let_def split: if_splits)

lemma protected_listed:
  assumes "first_protected (prune_rows db) = Inr (Some p)" shows "p \<in> set (row_ids db)"
  using first_protected_found [OF assms] by (auto simp: row_ids_def)

lemma plan_kept:
  assumes wf: "desk_wf tz db" and plan: "plan_prune retain db = Inr plan"
  shows "set (pp_kept plan) \<subseteq> tk_id ` set (tickets db)"
    "card (set (pp_kept plan)) = max (min (nat retain) (length (tickets db))) (if pp_protected plan = None then 0 else 1)"
    "\<And>p. pp_protected plan = Some p \<Longrightarrow> p \<in> set (pp_kept plan)"
    "set (pp_kept_signals plan) = tk_signal ` {t \<in> set (tickets db). tk_id t \<in> set (pp_kept plan)}"
proof -
  obtain protected where p: "first_protected (prune_rows db) = Inr protected" "pp_protected plan = protected"
    and k: "pp_kept plan = kept_tickets (row_ids db) (nat retain) protected"
    and s: "pp_kept_signals plan = map (\<lambda>(t, _). tk_signal t) (filter (\<lambda>(t, _). tk_id t \<in> set (pp_kept plan)) (prune_rows db))"
    by (rule plan_parts [OF plan]) blast
  note ids = row_ids_wf [OF wf]
  have listed: "q \<in> set (row_ids db)" if "protected = Some q" for q using protected_listed p(1) that by blast
  note facts = kept_tickets_facts [OF ids(2) listed, where n = "nat retain"]
  show "set (pp_kept plan) \<subseteq> tk_id ` set (tickets db)" using facts(1) unfolding k ids(1) .
  show "card (set (pp_kept plan)) = max (min (nat retain) (length (tickets db))) (if pp_protected plan = None then 0 else 1)"
    using facts(2) unfolding k p(2) ids(3) .
  show "\<And>q. pp_protected plan = Some q \<Longrightarrow> q \<in> set (pp_kept plan)" using facts(3) unfolding k p(2) .
  have "tk_signal t \<in> set (pp_kept_signals plan)" if t: "t \<in> set (tickets db)" "tk_id t \<in> set (pp_kept plan)" for t
  proof -
    obtain s where "(t, s) \<in> set (prune_rows db)" by (rule prune_rows_of [OF wf t(1)])
    then show ?thesis using t(2) unfolding s by force
  qed
  then show "set (pp_kept_signals plan) = tk_signal ` {t \<in> set (tickets db). tk_id t \<in> set (pp_kept plan)}"
    using prune_rows_mem(1) unfolding s by auto
qed

lemma plan_counts_wf:
  assumes wf: "desk_wf tz db" and plan: "plan_prune retain db = Inr plan"
  shows "plan_counts plan db"
proof -
  obtain protected where t: "pp_tickets plan = row_ids db"
    and s: "pp_signals plan = card (sg_id ` set (signals db) - set (pp_kept_signals plan))"
    and o: "pp_occurrences plan = length (filter (\<lambda>o'. oc_signal o' \<notin> set (pp_kept_signals plan)) (occurrences db))"
    by (rule plan_parts [OF plan]) blast
  note kept = plan_kept [OF wf plan] and ids = row_ids_wf [OF wf]
  have d: "distinct (map tk_id (tickets db))" "distinct (map sg_id (signals db))"
    using wf by (simp_all add: desk_wf_def signals_wf_def tickets_wf_def)
  have "length (filter (\<lambda>t. tk_id t \<notin> set (pp_kept plan)) (tickets db)) = card (tk_id ` set (tickets db) - set (pp_kept plan))"
    by (rule count_outside [OF d(1)])
  also have "\<dots> = card (tk_id ` set (tickets db)) - card (set (pp_kept plan))" using kept(1) by (simp add: card_Diff_subset)
  also have "card (tk_id ` set (tickets db)) = length (pp_tickets plan)" using distinct_card [OF d(1)] ids(3) t by simp
  finally show ?thesis
    using count_outside [OF d(2)] unfolding plan_counts_def Let_def tickets_to_delete_def s o kept(4) by simp
qed

section \<open>The command\<close>

definition prune_refusals :: "prune_error set" where
  "prune_refusals = {NegativeRetain, DamagedFile, BrokenReferences, MissingTrigger, BackupFailed} \<union> range Unclassifiable"

lemma plan_error: "plan_prune retain db = Inl e \<Longrightarrow> e \<in> prune_refusals"
proof -
  have found: "first_protected rows = Inl e \<Longrightarrow> e \<in> prune_refusals" for rows e
    by (induction rows) (auto simp: security_test_signal_def prune_refusals_def bindR_def split: if_splits option.splits sum.splits)
  assume "plan_prune retain db = Inl e"
  then show ?thesis using found by (auto simp: plan_prune_def Let_def bindR_def prune_refusals_def split: if_splits sum.splits)
qed

lemma require_schema_cases:
  obtains sql where "require_schema st = (Inr sql, st)" "tf_trigger st = Some sql" | "require_schema st = (Inl MissingTrigger, st)"
  by (cases "tf_trigger st = None \<or> strip (the (tf_trigger st)) = []") (auto simp: require_schema_def act_defs)

lemma check_integrity_cases:
  obtains "check_integrity E st = (Inr (), st)" "references_ok (tf_db st)" | e where "check_integrity E st = (Inl e, st)" "e \<in> {DamagedFile, BrokenReferences}"
  by (cases "pn_intact E (tf_db st)"; cases "references_ok (tf_db st)") (simp_all add: check_integrity_def act_defs)

lemma prune_body_outcome:
  assumes wf: "desk_wf tz (tf_db st)" and run: "prune_body E retain st = (r, st')"
  shows "case r of Inl e \<Rightarrow> e \<in> prune_refusals
    | Inr (plan, d) \<Rightarrow> plan_prune retain (tf_db st) = Inr plan \<and> tf_trigger st' = tf_trigger st
        \<and> tf_db st' = kept_part (set (pp_kept plan)) (tf_db st)"
proof (cases rule: require_schema_cases [of st])
  case (1 sql)
  show ?thesis
  proof (cases rule: check_integrity_cases [of E st])
    case 1
    show ?thesis
    proof (cases "plan_prune retain (tf_db st)")
      case (Inl e)
      then show ?thesis using run plan_error [OF Inl] \<open>require_schema st = (Inr sql, st)\<close> 1 by (auto simp: prune_body_def bindE_def gets_def lift_res_def)
    next
      case (Inr plan)
      obtain d where d: "apply_plan plan sql \<lparr>tf_db = tf_db st, tf_trigger = tf_trigger st\<rparr>
          = (Inr d, \<lparr>tf_db = kept_part (set (pp_kept plan)) (tf_db st), tf_trigger = Some sql\<rparr>)"
        by (rule apply_plan_run [OF 1(2) plan_counts_wf [OF wf Inr]])
      then have d: "apply_plan plan sql st = (Inr d, \<lparr>tf_db = kept_part (set (pp_kept plan)) (tf_db st), tf_trigger = Some sql\<rparr>)"
        by (cases st) simp
      let ?st = "\<lparr>tf_db = kept_part (set (pp_kept plan)) (tf_db st), tf_trigger = Some sql\<rparr>"
      have "snapshot_ingests (kept_part K db) = snapshot_ingests db" for K db by (simp add: snapshot_ingests_def)
      then have "prune_body E retain st = bindE (check_integrity E) (\<lambda>_. ret (plan, d)) ?st"
        using Inr d \<open>require_schema st = (Inr sql, st)\<close> 1 by (simp add: prune_body_def bindE_def gets_def lift_res_def guardE_def ret_def)
      then show ?thesis using run Inr \<open>tf_trigger st = Some sql\<close>
        by (cases rule: check_integrity_cases [of E ?st]) (auto simp: bindE_def ret_def prune_refusals_def)
    qed
  next
    case (2 e)
    then show ?thesis using run \<open>require_schema st = (Inr sql, st)\<close> by (auto simp: prune_body_def bindE_def prune_refusals_def)
  qed
next
  case 2
  then show ?thesis using run by (auto simp: prune_body_def bindE_def prune_refusals_def)
qed

lemma dry_run_changes_nothing: "snd (prune_ticket_store E retain False st) = st"
  by (cases rule: require_schema_cases [of st]; cases rule: check_integrity_cases [of E st]; cases "plan_prune retain (tf_db st)")
    (auto simp: prune_ticket_store_def act_defs lift_res_def)

text \<open>C34: Pruning, applied while other processes write, ends in one of two ways. Either it is refused
  (a negative window, a damaged file, a missing trigger, a failed backup, a signal it cannot classify) and
  has deleted nothing; its own cross-checks and the foreign keys never stop it. Or exactly the planned
  tickets are left with their signals, occurrences, comments, tasks and audit events, all ingest markers
  stay, the append-only trigger is back, and the database is well-formed with a complete audit trail. A
  dry run changes nothing.\<close>

theorem prune_outcome:
  assumes wf: "desk_wf tz (pn_meanwhile E (tf_db st))" and run: "prune_ticket_store E retain True st = (r, st')"
  shows "snd (prune_ticket_store E retain False st) = st \<and> tf_trigger st' = tf_trigger st \<and>
    (case r of
       Inl e \<Rightarrow> e \<in> prune_refusals \<and> (tf_db st' = tf_db st \<or> tf_db st' = pn_meanwhile E (tf_db st))
     | Inr (plan, deleted) \<Rightarrow> plan_prune retain (pn_meanwhile E (tf_db st)) = Inr plan
         \<and> tf_db st' = kept_part (set (pp_kept plan)) (pn_meanwhile E (tf_db st))
         \<and> ingests (tf_db st') = ingests (pn_meanwhile E (tf_db st)) \<and> desk_wf tz (tf_db st')
         \<and> (audit_explains (pn_meanwhile E (tf_db st)) \<longrightarrow> audit_explains (tf_db st')))"
proof -
  let ?st = "st\<lparr>tf_db := pn_meanwhile E (tf_db st)\<rparr>"
  obtain r1 st1 where body: "prune_body E retain ?st = (r1, st1)" by fastforce
  have "(\<exists>e \<in> prune_refusals. (r, st') = (Inl e, st)) \<or>
      (r, st') = (case r1 of Inl e \<Rightarrow> (Inl e, ?st) | Inr (plan, d) \<Rightarrow> (Inr (plan, Some d), st1))"
    using run plan_error [of retain "tf_db st"] body
    by (cases rule: require_schema_cases [of st]; cases rule: check_integrity_cases [of E st]; cases "plan_prune retain (tf_db st)")
      (auto simp: prune_ticket_store_def act_defs lift_res_def prune_refusals_def transaction_def split: if_splits sum.splits)
  then show ?thesis
    using prune_body_outcome [of tz ?st E retain r1 st1] wf body kept_part_wf [of tz "pn_meanwhile E (tf_db st)"]
      kept_part_explains [of "pn_meanwhile E (tf_db st)"]
    by (cases r1) (auto simp: dry_run_changes_nothing split: prod.splits)
qed

definition quiet_prune :: prune_env where
  "quiet_prune = \<lparr>pn_intact = (\<lambda>_. True), pn_backup = (\<lambda>_. True), pn_meanwhile = (\<lambda>db. db)\<rparr>"

theorem prune_outcome_witness:
  "\<exists>r st'. prune_ticket_store quiet_prune 0 True \<lparr>tf_db = demo_db, tf_trigger = Some ''x''\<rparr> = (r, st') \<and> tf_trigger st' = Some ''x''"
proof -
  obtain r st' where run: "prune_ticket_store quiet_prune 0 True \<lparr>tf_db = demo_db, tf_trigger = Some ''x''\<rparr> = (r, st')" by fastforce
  have "desk_wf utc_zone (pn_meanwhile quiet_prune (tf_db \<lparr>tf_db = demo_db, tf_trigger = Some ''x''\<rparr>))"
    using demo_wf by (simp add: quiet_prune_def)
  from prune_outcome [OF this run] show ?thesis using run by auto
qed

section \<open>Which tickets stay\<close>







end
