(* ===== verification/Float64.thy ===== *)
theory Float64
  imports Complex_Main Prelude
begin

text \<open>
  IEEE 754 doubles as the rationals they stand for: \<open>double_of\<close> rounds to the nearest double, ties to
  the even one, as CPython's division, multiplication and \<open>float\<close> do. The exponents of the program's
  numbers are far from both ends of the range, so subnormals and infinities do not occur.
\<close>

definition round_even :: "rat \<Rightarrow> int" where
  "round_even x = (let f = \<lfloor>x\<rfloor>; r = x - of_int f in
     if r < 1 / 2 then f else if 1 / 2 < r then f + 1 else if even f then f else f + 1)"

definition pow2 :: "int \<Rightarrow> rat" where
  "pow2 e = (if 0 \<le> e then 2 ^ nat e else 1 / 2 ^ nat (- e))"

text \<open>\<open>n.bit_length()\<close>\<close>

function bit_length :: "int \<Rightarrow> int" where
  "bit_length n = (if n \<le> 0 then 0 else 1 + bit_length (n div 2))"
  by auto
termination by (relation "measure nat") auto

declare bit_length.simps [simp del]

text \<open>The exponent \<open>e\<close> with \<open>2 ^ e \<le> x < 2 ^ (e + 1)\<close> of a positive number\<close>

definition exponent_of :: "rat \<Rightarrow> int" where
  "exponent_of x = (case quotient_of x of (n, d) \<Rightarrow>
     let e = bit_length n - bit_length d in if pow2 e \<le> x then e else e - 1)"

definition double_of :: "rat \<Rightarrow> rat" where
  "double_of x = (if x = 0 then 0
     else let u = pow2 (exponent_of \<bar>x\<bar> - 52) in of_int (round_even (x / u)) * u)"

text \<open>\<open>int(x)\<close>\<close>

definition truncated :: "rat \<Rightarrow> int" where
  "truncated x = (if x < 0 then - \<lfloor>- x\<rfloor> else \<lfloor>x\<rfloor>)"

text \<open>\<open>round(x)\<close> and \<open>round(x, n)\<close>: the decimal nearest to the double, then its double\<close>

definition round_digits :: "nat \<Rightarrow> rat \<Rightarrow> rat" where
  "round_digits n x = double_of (of_int (round_even (x * 10 ^ n)) / 10 ^ n)"

lemma round_even_int [simp]: "round_even (of_int i) = i"
  by (simp add: round_even_def Let_def)

lemma round_even_near: "\<bar>of_int (round_even x) - x\<bar> \<le> 1 / 2"
proof -
  have "0 \<le> x - of_int \<lfloor>x\<rfloor>" "x - of_int \<lfloor>x\<rfloor> < 1" by linarith+
  then show ?thesis by (auto simp: round_even_def Let_def abs_le_iff)
qed

end
