(* ===== verification/SiemExport.thy ===== *)
theory SiemExport
  imports SignalConversion Float64
begin

text \<open>
  \<open>siem_exports.py\<close>: the SIEM export of a snapshot. The records become normalised events sorted by
  their stable identifiers, rendered as NDJSON and as CEF, and the bundle lists every file with size
  and hash. The ZIP container is the standard library's: a bundle is its files in order. As in
  \<open>SignalConversion\<close> a document of an unexpected shape ends in an exception.
\<close>

datatype siem_error = Conversion conversion_error | SiemTimestamp | TechnicalOnly

definition conv :: "conversion_error + 'a \<Rightarrow> siem_error + 'a" where
  "conv r = (case r of Inl e \<Rightarrow> Inl (Conversion e) | Inr x \<Rightarrow> Inr x)"

section \<open>Normalised events\<close>

definition siem_severities :: "string list" where
  "siem_severities = [''critical'', ''high'', ''info'', ''low'', ''medium'', ''unknown'']"

text \<open>The casefolded text; no severity holds a character whose folding differs from \<open>lower\<close>.\<close>

definition normalized_severity :: "json \<Rightarrow> string" where
  "normalized_severity v = (let s = lower (text_or (text_of v) ''unknown'') in if s \<in> set siem_severities then s else ''unknown'')"

text \<open>The same score bands as in \<open>signal_ingest.py\<close>\<close>

definition siem_cvss_severity :: "json \<Rightarrow> string" where
  "siem_cvss_severity v = cvss_severity v"

definition utc_timestamp :: "json \<Rightarrow> string \<Rightarrow> siem_error + string" where
  "utc_timestamp v fallback = (case fromisoformat (replace_Z (text_or (text_of v) fallback)) of
     Some (Aware t) \<Rightarrow> if valid_instant t then Inr (utc_text t) else Inl SiemTimestamp
   | _ \<Rightarrow> Inl SiemTimestamp)"

definition stable_event_id :: "(string \<Rightarrow> string) \<Rightarrow> dict \<Rightarrow> string" where
  "stable_event_id sha identity = ''dtlab:siem:'' @ sha (utf8 (dumps False (JObj identity)))"

definition siem_event_identity :: "dict \<Rightarrow> dict \<Rightarrow> siem_error + dict" where
  "siem_event_identity record evidence =
     (let rid = text_of (get_item evidence ''source_record_id'') in
      if rid \<noteq> None \<and> \<not> positional (the rid)
      then Inr [(''dataset'', JStr ''dtlab.event''), (''source_id'', get_item evidence ''source_id''), (''source_record_id'', jopt rid)]
      else bindR (conv (sorted_ids record ''asset_ids'')) (\<lambda>ids. Inr
        [(''dataset'', JStr ''dtlab.event''), (''source_id'', get_item evidence ''source_id''), (''occurred_at'', get_item record ''occurred_at''),
         (''center_id'', get_item record ''center_id''), (''category'', get_item record ''category''), (''title'', get_item record ''title''),
         (''severity'', get_item record ''severity''), (''asset_ids'', JArr (map JStr ids))]))"

record siem_context =
  sx_sha :: "string \<Rightarrow> string"
  sx_snapshot :: json
  sx_digest :: string

record siem_source =
  so_identity :: dict
  so_dataset :: string
  so_type :: string
  so_severity :: string
  so_title :: string
  so_description :: string
  so_assets :: "string list"
  so_source :: "string option"
  so_record :: "string option"
  so_timestamp :: json
  so_basis :: string
  so_truth :: json

definition base_event :: "siem_context \<Rightarrow> siem_source \<Rightarrow> siem_error + dict" where
  "base_event X s =
     bindR (conv (required_item (entries (sx_snapshot X)) ''generated_at'')) (\<lambda>g.
     bindR (utc_timestamp (so_timestamp s) (py_str g)) (\<lambda>timestamp.
     bindR (conv (required_item (entries (sx_snapshot X)) ''snapshot_id'')) (\<lambda>sid.
     Inr [(''schema_version'', JStr ''dtlab-siem-event-v1''), (''event_id'', JStr (stable_event_id (sx_sha X) (so_identity s))),
       (''timestamp'', JStr timestamp), (''timestamp_basis'', JStr (so_basis s)), (''dataset'', JStr (so_dataset s)), (''type'', JStr (so_type s)),
       (''severity'', JStr (so_severity s)), (''title'', JStr (so_title s)), (''description'', JStr (so_description s)),
       (''asset_ids'', JArr (map JStr (sort (remdups (so_assets s))))), (''source_id'', jopt (so_source s)),
       (''source_record_id'', jopt (so_record s)), (''truth'', JStr (text_or (text_of (so_truth s)) ''unavailable'')),
       (''snapshot_id'', JStr (py_str sid)), (''snapshot_sha256'', JStr (sx_digest X))])))"

section \<open>Records of the snapshot\<close>

definition siem_event :: "siem_context \<Rightarrow> dict \<Rightarrow> siem_error + dict" where
  "siem_event X record = (let ev = evidence_of record in
     bindR (siem_event_identity record ev) (\<lambda>identity.
     bindR (conv (sorted_ids record ''asset_ids'')) (\<lambda>ids.
     base_event X \<lparr>so_identity = identity, so_dataset = ''dtlab.event'', so_type = text_or (text_of (get_item record ''category'')) ''event'',
       so_severity = normalized_severity (get_item record ''severity''), so_title = text_or (text_of (get_item record ''title'')) ''Evento Cisco'',
       so_description = text_or (text_of (get_item record ''description'')) ''Evento Cisco'', so_assets = ids,
       so_source = text_of (get_item ev ''source_id''), so_record = text_of (get_item ev ''source_record_id''),
       so_timestamp = get_item record ''occurred_at'', so_basis = ''occurred_at'', so_truth = get_item ev ''truth''\<rparr>)))"

definition siem_finding :: "siem_context \<Rightarrow> string list \<Rightarrow> dict \<Rightarrow> siem_error + dict" where
  "siem_finding X known record = (let ev = evidence_of record in
     bindR (conv (sorted_ids record ''entity_ids'')) (\<lambda>ids.
     base_event X \<lparr>so_identity = [(''dataset'', JStr ''dtlab.finding''), (''source_id'', get_item ev ''source_id''),
         (''code'', get_item record ''code''), (''entity_ids'', JArr (map JStr ids))],
       so_dataset = ''dtlab.finding'', so_type = text_or (text_of (get_item record ''code'')) ''finding'',
       so_severity = normalized_severity (get_item record ''severity''), so_title = text_or (text_of (get_item record ''title'')) ''Finding DTLab'',
       so_description = text_or (text_of (get_item record ''description'')) ''Finding DTLab'', so_assets = filter (\<lambda>i. i \<in> set known) ids,
       so_source = text_of (get_item ev ''source_id''), so_record = text_of (get_item ev ''source_record_id''),
       so_timestamp = first_truthy [get_item record ''last_detected_at''] (get_item record ''first_detected_at''),
       so_basis = ''last_detected_at'', so_truth = get_item ev ''truth''\<rparr>))"

definition siem_difference :: "siem_context \<Rightarrow> dict \<Rightarrow> siem_error + dict" where
  "siem_difference X record = (let ev = evidence_of record; kind = text_or (text_of (get_item record ''difference_type'')) ''baseline_difference'' in
     bindR (conv (sorted_ids record ''asset_ids'')) (\<lambda>ids.
     base_event X \<lparr>so_identity = [(''dataset'', JStr ''dtlab.baseline_difference''), (''source_id'', get_item ev ''source_id''),
         (''baseline_id'', get_item record ''baseline_id''), (''difference_type'', get_item record ''difference_type''),
         (''target_id'', get_item record ''target_id''), (''key'', get_item record ''key''), (''value'', get_item record ''value''),
         (''asset_ids'', JArr (map JStr ids)), (''flow_id'', get_item record ''flow_id''), (''detected_at'', get_item record ''detected_at'')],
       so_dataset = ''dtlab.baseline_difference'', so_type = kind, so_severity = ''unknown'', so_title = ''Differenza baseline: '' @ kind,
       so_description = text_or (text_of (get_item record ''description'')) kind, so_assets = ids,
       so_source = text_of (get_item ev ''source_id''), so_record = text_of (get_item ev ''source_record_id''),
       so_timestamp = get_item record ''detected_at'', so_basis = ''detected_at'', so_truth = get_item ev ''truth''\<rparr>))"

definition siem_vulnerability :: "siem_context \<Rightarrow> dict \<Rightarrow> siem_error + dict" where
  "siem_vulnerability X record = (let ev = evidence_of record; details = entries (get_item record ''details'');
       external = text_of (get_item record ''external_id''); rid = text_of (get_item ev ''source_record_id'');
       fallback = ''Vulnerabilit'' @ [CHR 0xE0] in
     bindR (conv (required_item record ''asset_id'')) (\<lambda>asset.
     base_event X \<lparr>so_identity = [(''dataset'', JStr ''dtlab.device_vulnerability''), (''source_id'', get_item ev ''source_id''),
         (''asset_id'', get_item record ''asset_id''),
         (''vulnerability_id'', case first_text external rid of Some t \<Rightarrow> JStr t | None \<Rightarrow> get_item record ''id'')],
       so_dataset = ''dtlab.device_vulnerability'', so_type = text_or external ''device_vulnerability'',
       so_severity = normalized_severity (get_item record ''severity''),
       so_title = text_or (first_text (text_of (get_item record ''title'')) external) fallback,
       so_description = text_or (first_text (text_of (get_item details ''full_description''))
         (first_text (text_of (get_item details ''summary'')) (text_of (get_item record ''title'')))) fallback,
       so_assets = [py_str asset], so_source = text_of (get_item ev ''source_id''), so_record = rid,
       so_timestamp = first_truthy [get_item details ''matching_at''] (get_item record ''published_at''),
       so_basis = (if truthy (get_item details ''matching_at'') then ''matching_at'' else ''published_at''),
       so_truth = get_item ev ''truth''\<rparr>))"

definition siem_records :: "json \<Rightarrow> string \<Rightarrow> siem_error + dict list" where
  "siem_records snapshot k = conv (snapshot_records snapshot k)"

definition classic_events :: "siem_context \<Rightarrow> siem_error + dict list" where
  "classic_events X =
     bindR (siem_records (sx_snapshot X) ''assets'') (\<lambda>assets.
     bindR (mapR (\<lambda>a. bindR (conv (required_item a ''id'')) (\<lambda>i. Inr (py_str i))) assets) (\<lambda>known.
     bindR (bindR (siem_records (sx_snapshot X) ''events'') (mapR (siem_event X))) (\<lambda>events.
     bindR (bindR (siem_records (sx_snapshot X) ''findings'') (mapR (siem_finding X known))) (\<lambda>findings.
     bindR (bindR (siem_records (sx_snapshot X) ''baseline_differences'') (mapR (siem_difference X))) (\<lambda>differences.
     bindR (bindR (siem_records (sx_snapshot X) ''vulnerabilities'') (mapR (siem_vulnerability X))) (\<lambda>vulnerabilities.
     Inr (events @ findings @ differences @ vulnerabilities)))))))"

section \<open>New UI records\<close>

definition siem_alert_key :: "string \<Rightarrow> string \<Rightarrow> dict \<Rightarrow> string" where
  "siem_alert_key source_id asset_id alert =
     dumps False (JObj ([(''dataset'', JStr ''dtlab.new_ui.alert''), (''source_id'', JStr source_id), (''asset_id'', JStr asset_id)]
       @ (case first_text (text_of (get_item alert ''instance_id'')) (text_of (get_item alert ''alert_id'')) of
            Some i \<Rightarrow> [(''native_id'', JStr i)]
          | None \<Rightarrow> [(''source_fields'', JObj [(''alert_type'', get_item alert ''alert_type''),
              (''category'', get_item alert ''category''), (''trigger'', get_item alert ''trigger'')])])))"

definition siem_alert_rank :: "dict \<Rightarrow> dict \<Rightarrow> nat" where
  "siem_alert_rank asset alert = (let status = lower (text_or (first_text (text_of (get_item alert ''status'')) (text_of (get_item asset ''query_status''))) []) in
     if status = ''active'' then 3 else if status = ''muted'' then 2 else if status = ''cleared'' then 1 else 2)"

definition add_siem_alert :: "string \<Rightarrow> dict \<times> dict \<Rightarrow> (string \<times> nat \<times> string \<times> dict) list \<Rightarrow> (string \<times> nat \<times> string \<times> dict) list" where
  "add_siem_alert source_id found alerts = (case found of (asset, alert) \<Rightarrow>
     (case text_of (get_item asset ''asset_id'') of
        None \<Rightarrow> alerts
      | Some asset_id \<Rightarrow>
          let key = siem_alert_key source_id asset_id alert; rank = siem_alert_rank asset alert in
          (case map_of alerts key of
             None \<Rightarrow> AList.update key (rank, asset_id, alert) alerts
           | Some (old, _) \<Rightarrow> if old < rank then AList.update key (rank, asset_id, alert) alerts else alerts)))"

text \<open>\<open>json.loads(key)\<close>\<close>

definition key_identity :: "string \<Rightarrow> siem_error + dict" where
  "key_identity key = (case loads key of Some (JObj kvs) \<Rightarrow> Inr kvs | _ \<Rightarrow> Inl (Conversion BadShape))"

definition siem_alert :: "siem_context \<Rightarrow> string \<Rightarrow> json \<Rightarrow> string \<times> nat \<times> string \<times> dict \<Rightarrow> siem_error + dict" where
  "siem_alert X source_id truth entry = (case entry of (key, _, asset_id, alert) \<Rightarrow>
     bindR (key_identity key) (\<lambda>identity.
     let native_id = text_or (first_text (text_of (get_item alert ''instance_id'')) (text_of (get_item alert ''alert_id'')))
           (drop (length ''dtlab:siem:'') (stable_event_id (sx_sha X) identity));
         alert_type = text_or (text_of (get_item alert ''alert_type'')) ''new_ui_alert''; trigger = text_of (get_item alert ''trigger'') in
     base_event X \<lparr>so_identity = identity, so_dataset = ''dtlab.new_ui.alert'', so_type = alert_type,
       so_severity = normalized_severity (get_item alert ''severity''), so_title = text_or trigger alert_type,
       so_description = join middle_dot (rev (remdups (rev (somes [text_of (get_item alert ''category''), Some alert_type, trigger])))),
       so_assets = [asset_id], so_source = Some source_id, so_record = Some (''new-ui-alert:'' @ asset_id @ '':'' @ native_id),
       so_timestamp = get_item alert ''last_occurrence'',
       so_basis = (if truthy (get_item alert ''last_occurrence'') then ''last_occurrence'' else ''snapshot_generated_at''), so_truth = truth\<rparr>))"

definition siem_vulnerability_key :: "string \<Rightarrow> string \<Rightarrow> dict \<Rightarrow> string" where
  "siem_vulnerability_key source_id asset_id vulnerability =
     dumps False (JObj [(''dataset'', JStr ''dtlab.new_ui.vulnerability''), (''source_id'', JStr source_id), (''asset_id'', JStr asset_id),
       (''vulnerability_id'', case text_of (get_item vulnerability ''cve_id'') of
          Some c \<Rightarrow> JStr c
        | None \<Rightarrow> JObj [(''name'', jopt (text_of (get_item vulnerability ''name''))), (''source'', jopt (text_of (get_item vulnerability ''source'')))])])"

definition add_siem_vulnerability :: "string \<Rightarrow> dict \<times> dict \<Rightarrow> (string \<times> string \<times> dict) list \<Rightarrow> (string \<times> string \<times> dict) list" where
  "add_siem_vulnerability source_id found known = (case found of (asset, vulnerability) \<Rightarrow>
     (case text_of (get_item asset ''asset_id'') of
        None \<Rightarrow> known
      | Some asset_id \<Rightarrow>
          let key = siem_vulnerability_key source_id asset_id vulnerability in
          if map_of known key = None then AList.update key (asset_id, vulnerability) known else known))"

definition siem_new_ui_vulnerability :: "siem_context \<Rightarrow> string \<Rightarrow> json \<Rightarrow> string \<times> string \<times> dict \<Rightarrow> siem_error + dict" where
  "siem_new_ui_vulnerability X source_id truth entry = (case entry of (key, asset_id, vulnerability) \<Rightarrow>
     bindR (key_identity key) (\<lambda>identity.
     let cve = text_of (get_item vulnerability ''cve_id'');
         title = text_or (first_text (text_of (get_item vulnerability ''name'')) cve) (''Vulnerabilit'' @ [CHR 0xE0] @ '' New UI'');
         part = (\<lambda>label k. if text_of (get_item vulnerability k) = None then None else Some (label @ py_str (get_item vulnerability k)));
         native_id = text_or cve (drop (length ''dtlab:siem:'') (stable_event_id (sx_sha X) identity)) in
     bindR (conv (required_item (entries (sx_snapshot X)) ''generated_at'')) (\<lambda>g.
     base_event X \<lparr>so_identity = identity, so_dataset = ''dtlab.new_ui.vulnerability'', so_type = text_or cve ''new_ui_vulnerability'',
       so_severity = siem_cvss_severity (get_item vulnerability ''cvss_score''), so_title = title,
       so_description = joined_or (somes [cve, part ''Fonte '' ''source'', part ''CVSS '' ''cvss_score'', part ''CSRS '' ''csrs_score'']) title,
       so_assets = [asset_id], so_source = Some source_id, so_record = Some (''new-ui-vulnerability:'' @ asset_id @ '':'' @ native_id),
       so_timestamp = g, so_basis = ''snapshot_generated_at'', so_truth = truth\<rparr>)))"

definition siem_source_events :: "siem_context \<Rightarrow> dict \<Rightarrow> siem_error + dict list" where
  "siem_source_events X source =
     (if get_item source ''type'' \<noteq> JStr ''cisco_cyber_vision_new_ui'' then Inr []
      else bindR (conv (required_item source ''id'')) (\<lambda>i. let source_id = py_str i; truth = get_item (evidence_of source) ''truth'' in
        (case get_item source ''details'' of
           JObj details \<Rightarrow>
             let alerts = fold (add_siem_alert source_id) (detail_records details ''alert_assets'' ''alerts'') [];
                 known = fold (add_siem_vulnerability source_id) (detail_records details ''vulnerability_assets'' ''vulnerabilities'') [] in
             bindR (mapR (siem_alert X source_id truth) (sort_key fst alerts)) (\<lambda>xs.
             bindR (mapR (siem_new_ui_vulnerability X source_id truth) (sort_key fst known)) (\<lambda>ys. Inr (xs @ ys)))
         | _ \<Rightarrow> Inr [])))"

definition new_ui_records :: "siem_context \<Rightarrow> siem_error + dict list" where
  "new_ui_records X = bindR (siem_records (sx_snapshot X) ''sources'') (\<lambda>sources.
     bindR (mapR (siem_source_events X) sources) (\<lambda>xss. Inr (concat xss)))"

section \<open>The event stream\<close>

text \<open>A stable sort by the second key, then by the first\<close>

definition build_siem_events :: "(string \<Rightarrow> string) \<Rightarrow> (json \<Rightarrow> string list) \<Rightarrow> json \<Rightarrow> siem_error + dict list" where
  "build_siem_events sha schema snapshot =
     bindR (conv (case snapshot_sha256 sha schema snapshot of Inl ps \<Rightarrow> Inl (InvalidContract ps) | Inr d \<Rightarrow> Inr d)) (\<lambda>digest.
     let X = \<lparr>sx_sha = sha, sx_snapshot = snapshot, sx_digest = digest\<rparr> in
     bindR (classic_events X) (\<lambda>classic.
     bindR (new_ui_records X) (\<lambda>new_ui.
     Inr (sort_key (\<lambda>e. py_str (get_item e ''event_id'')) (sort_key (\<lambda>e. py_str (get_item e ''dataset'')) (classic @ new_ui))))))"

definition line_feed :: char where
  "line_feed = CHR 0x0A"

definition ndjson_bytes :: "dict list \<Rightarrow> string" where
  "ndjson_bytes events = (if events = [] then [] else utf8 (join [line_feed] (map (\<lambda>e. dumps False (JObj e)) events) @ [line_feed]))"

definition build_siem_ndjson :: "(string \<Rightarrow> string) \<Rightarrow> (json \<Rightarrow> string list) \<Rightarrow> json \<Rightarrow> siem_error + string" where
  "build_siem_ndjson sha schema snapshot = bindR (build_siem_events sha schema snapshot) (\<lambda>events. Inr (ndjson_bytes events))"

section \<open>CEF\<close>

text \<open>\<open>text.replace(c, by)\<close>\<close>

definition replace_char :: "char \<Rightarrow> string \<Rightarrow> string \<Rightarrow> string" where
  "replace_char c by text = concat (map (\<lambda>x. if x = c then by else [x]) text)"

definition cef_escape :: "string \<Rightarrow> string" where
  "cef_escape text =
     replace_char (CHR ''='') [CHR 0x5C, CHR ''='']
      (replace_char (CHR ''|'') [CHR 0x5C, CHR ''|'']
       (replace_char line_feed [CHR 0x5C, CHR ''n'']
        (replace_char (CHR 0x0D) [CHR 0x5C, CHR ''r'']
         (replace_char (CHR 0x5C) [CHR 0x5C, CHR 0x5C] text))))"

definition epoch_us :: int where
  "epoch_us = 719162 * day_us"

text \<open>\<open>int(parsed.timestamp() * 1000)\<close>, in doubles\<close>

definition cef_timestamp :: "string \<Rightarrow> siem_error + string" where
  "cef_timestamp v = (case fromisoformat (replace_Z v) of
     Some (Aware t) \<Rightarrow> Inr (show_int (truncated (double_of (double_of (of_int (t - epoch_us) / 1000000) * 1000))))
   | _ \<Rightarrow> Inl SiemTimestamp)"

definition cef_severity :: "string \<Rightarrow> nat option" where
  "cef_severity s = map_of [(''critical'', 10), (''high'', 8), (''medium'', 5), (''low'', 3), (''info'', 1), (''unknown'', 0)] s"

text \<open>A member of a normalised event as \<open>_cef_escape\<close> reads it: \<open>None\<close> is empty.\<close>

definition cef_value :: "dict \<Rightarrow> string \<Rightarrow> string" where
  "cef_value e k = (let v = get_item e k in if v = JNull then [] else py_str v)"

definition cef_extension :: "dict \<Rightarrow> string \<Rightarrow> (string \<times> string) list" where
  "cef_extension e rt =
     [(''rt'', rt), (''externalId'', cef_value e ''event_id''), (''cs1Label'', ''dataset''), (''cs1'', cef_value e ''dataset''),
      (''cs2Label'', ''asset_ids''), (''cs2'', dumps False (get_item e ''asset_ids'')), (''cs3Label'', ''source_id''), (''cs3'', cef_value e ''source_id''),
      (''cs4Label'', ''source_record_id''), (''cs4'', cef_value e ''source_record_id''), (''cs5Label'', ''snapshot_id''), (''cs5'', cef_value e ''snapshot_id''),
      (''cs6Label'', ''snapshot_sha256''), (''cs6'', cef_value e ''snapshot_sha256''), (''msg'', cef_value e ''description'')]"

definition cef_header :: "dict \<Rightarrow> nat \<Rightarrow> string list" where
  "cef_header e n = [''CEF:0'', ''DTLab'', ''Control Center'', ''2.0'', cef_escape (cef_value e ''dataset'' @ '':'' @ cef_value e ''type''),
     cef_escape (cef_value e ''title''), show_nat n]"

definition cef_line :: "dict \<Rightarrow> siem_error + string" where
  "cef_line e = bindR (cef_timestamp (cef_value e ''timestamp'')) (\<lambda>rt.
     case cef_severity (cef_value e ''severity'') of
       None \<Rightarrow> Inl (Conversion BadShape)
     | Some n \<Rightarrow> Inr (join ''|'' (cef_header e n @ [join '' '' (map (\<lambda>(k, v). k @ ''='' @ cef_escape v) (cef_extension e rt))])))"

definition cef_bytes :: "dict list \<Rightarrow> siem_error + string" where
  "cef_bytes events = bindR (mapR cef_line events) (\<lambda>lines. Inr (utf8 (if lines = [] then [] else join [line_feed] lines @ [line_feed])))"

definition build_siem_cef :: "(string \<Rightarrow> string) \<Rightarrow> (json \<Rightarrow> string list) \<Rightarrow> json \<Rightarrow> siem_error + string" where
  "build_siem_cef sha schema snapshot = bindR (build_siem_events sha schema snapshot) cef_bytes"

section \<open>The bundle\<close>

text \<open>\<open>json.dumps(v, ensure_ascii=False, sort_keys=True, indent=2)\<close>\<close>

definition indented :: "nat \<Rightarrow> string \<Rightarrow> string \<Rightarrow> string list \<Rightarrow> string" where
  "indented n opening closing items = (if items = [] then opening @ closing
     else opening @ [line_feed] @ join ([CHR '','', line_feed]) (map (\<lambda>t. replicate (n + 2) (CHR 0x20) @ t) items)
       @ [line_feed] @ replicate n (CHR 0x20) @ closing)"

fun emit_indented :: "nat \<Rightarrow> json \<Rightarrow> string" where
  "emit_indented n (JArr xs) = indented n ''['' '']'' (map (emit_indented (n + 2)) xs)"
| "emit_indented n (JObj kvs) = indented n ''{'' ''}'' (map (\<lambda>(k, v). quote False k @ '': '' @ emit_indented (n + 2) v) kvs)"
| "emit_indented n v = emit False v"

definition pretty_bytes :: "json \<Rightarrow> string" where
  "pretty_bytes v = utf8 (emit_indented 0 (canon v) @ [line_feed])"

definition siem_datasets :: "string list" where
  "siem_datasets = [''dtlab.baseline_difference'', ''dtlab.device_vulnerability'', ''dtlab.event'', ''dtlab.finding'',
     ''dtlab.new_ui.alert'', ''dtlab.new_ui.vulnerability'']"

definition strings :: "string list \<Rightarrow> json" where
  "strings xs = JArr (map JStr xs)"

definition text_schema :: json where
  "text_schema = JObj [(''type'', JStr ''string''), (''minLength'', JInt 1)]"

definition nullable_schema :: json where
  "nullable_schema = JObj [(''type'', strings [''string'', ''null''])]"

definition pattern_schema :: "string \<Rightarrow> json" where
  "pattern_schema p = JObj [(''type'', JStr ''string''), (''pattern'', JStr p)]"

definition siem_event_schema :: json where
  "siem_event_schema = JObj [
     (''$schema'', JStr ''https://json-schema.org/draft/2020-12/schema''),
     (''$id'', JStr ''https://modbus.sitoclone.it/schemas/dtlab-siem-event-v1.schema.json''),
     (''title'', JStr ''DTLab normalized SIEM event''), (''type'', JStr ''object''), (''additionalProperties'', JBool False),
     (''required'', strings [''schema_version'', ''event_id'', ''timestamp'', ''timestamp_basis'', ''dataset'', ''type'', ''severity'', ''title'',
        ''description'', ''asset_ids'', ''source_id'', ''source_record_id'', ''truth'', ''snapshot_id'', ''snapshot_sha256'']),
     (''properties'', JObj [
        (''schema_version'', JObj [(''const'', JStr ''dtlab-siem-event-v1'')]),
        (''event_id'', pattern_schema ''^dtlab:siem:[0-9a-f]{64}$''),
        (''timestamp'', JObj [(''type'', JStr ''string''), (''format'', JStr ''date-time'')]),
        (''timestamp_basis'', text_schema),
        (''dataset'', JObj [(''type'', JStr ''string''), (''enum'', strings siem_datasets)]),
        (''type'', text_schema),
        (''severity'', JObj [(''type'', JStr ''string''), (''enum'', strings siem_severities)]),
        (''title'', text_schema), (''description'', text_schema),
        (''asset_ids'', JObj [(''type'', JStr ''array''), (''items'', text_schema), (''uniqueItems'', JBool True)]),
        (''source_id'', nullable_schema), (''source_record_id'', nullable_schema), (''truth'', text_schema),
        (''snapshot_id'', text_schema), (''snapshot_sha256'', pattern_schema ''^[0-9a-f]{64}$'')])]"

definition build_siem_event_schema_json :: string where
  "build_siem_event_schema_json = pretty_bytes siem_event_schema"

definition siem_readme :: "string \<Rightarrow> string \<Rightarrow> nat \<Rightarrow> string" where
  "siem_readme sid digest n = utf8 (join [line_feed]
     [''DTLab SIEM export bundle'', ''Bundle version: 1.0'', ''Event schema: dtlab-siem-event-v1'', ''Snapshot: '' @ sid,
      ''Snapshot SHA-256: '' @ digest, ''Records: '' @ show_nat n, [],
      ''This is a technical export and may contain real asset identifiers.'',
      ''It contains source-owned snapshot records only; no ticket-store data and no'',
      ''correlations inferred from names, addresses, or temporal proximity.'',
      ''New UI profile IDs are not rewritten as Classic device IDs.'',
      ''event-schema.json validates each events.ndjson line; CEF rt uses UTC epoch ms.'',
      ''Verify every file against manifest.json before ingestion.'', []])"

definition dataset_counts :: "dict list \<Rightarrow> dict" where
  "dataset_counts events = (let ds = map (\<lambda>e. py_str (get_item e ''dataset'')) events in
     map (\<lambda>d. (d, JInt (int (count_list ds d)))) (sort (remdups ds)))"

definition file_entry :: "(string \<Rightarrow> string) \<Rightarrow> string \<times> string \<Rightarrow> string \<times> json" where
  "file_entry sha f = (fst f, JObj [(''bytes'', JInt (int (length (snd f)))), (''sha256'', JStr (sha (snd f)))])"

definition siem_manifest :: "(string \<Rightarrow> string) \<Rightarrow> json \<Rightarrow> string \<Rightarrow> dict list \<Rightarrow> (string \<times> string) list \<Rightarrow> json" where
  "siem_manifest sha snapshot digest events files =
     JObj [(''schema_version'', JStr ''dtlab-siem-manifest-v1''), (''bundle_version'', JStr ''1.0''),
       (''event_schema_version'', JStr ''dtlab-siem-event-v1''), (''export_mode'', JStr ''technical''),
       (''snapshot_id'', jget snapshot ''snapshot_id''), (''snapshot_sha256'', JStr digest),
       (''snapshot_generated_at'', jget snapshot ''generated_at''), (''record_count'', JInt (int (length events))),
       (''datasets'', JObj (dataset_counts events)),
       (''correlation_policy'', JStr ''explicit_source_references_only_no_inference''),
       (''files'', JObj (map (file_entry sha) (sort_key fst files)))]"

text \<open>The files of the archive in their order; a snapshot without events may lack the members that the manifest reads.\<close>

definition build_siem_export_bundle ::
  "(string \<Rightarrow> string) \<Rightarrow> (json \<Rightarrow> string list) \<Rightarrow> json \<Rightarrow> string \<Rightarrow> siem_error + (string \<times> string) list" where
  "build_siem_export_bundle sha schema snapshot mode =
     (if mode \<noteq> ''technical'' then Inl TechnicalOnly
      else bindR (build_siem_events sha schema snapshot) (\<lambda>events.
        bindR (conv (case snapshot_sha256 sha schema snapshot of Inl ps \<Rightarrow> Inl (InvalidContract ps) | Inr d \<Rightarrow> Inr d)) (\<lambda>digest.
        bindR (cef_bytes events) (\<lambda>cef.
        bindR (conv (required_item (entries snapshot) ''snapshot_id'')) (\<lambda>sid.
        bindR (conv (required_item (entries snapshot) ''generated_at'')) (\<lambda>_.
        let files = [(''events.cef'', cef), (''events.ndjson'', ndjson_bytes events), (''event-schema.json'', build_siem_event_schema_json),
              (''README.txt'', siem_readme (py_str sid) digest (length events))] in
        Inr (sort_key fst (files @ [(''manifest.json'', pretty_bytes (siem_manifest sha snapshot digest events files))]))))))))"

end
