(* ===== verification/SiemFacts.thy ===== *)
theory SiemFacts
  imports SiemExport SignalFacts
begin

text \<open>
  Readers of the exported formats, as a consumer would write them, and the proof that they recover
  what was written: lines, CEF headers split at unescaped bars, CEF extensions split at unescaped
  equals signs.
\<close>

section \<open>Lines\<close>

fun split_on :: "char \<Rightarrow> string \<Rightarrow> string list" where
  "split_on c [] = [[]]"
| "split_on c (x # s) = (if x = c then [] # split_on c s else (case split_on c s of f # fs \<Rightarrow> (x # f) # fs))"

definition text_lines :: "string \<Rightarrow> string list" where
  "text_lines s = butlast (split_on line_feed s)"

lemma split_on_nonempty [simp]: "split_on c s \<noteq> []"
  by (induction s) (auto split: list.splits)

lemma split_on_append: "c \<notin> set l \<Longrightarrow> split_on c (l @ c # s) = l # split_on c s"
  by (induction l) auto

lemma lines_joined:
  assumes "\<forall>l \<in> set ls. line_feed \<notin> set l" and "ls \<noteq> []"
  shows "text_lines (join [line_feed] ls @ [line_feed]) = ls"
proof -
  have "split_on line_feed (join [line_feed] ls @ [line_feed]) = ls @ [[]]"
    using assms
  proof (induction ls)
    case (Cons l ls)
    show ?case
    proof (cases "ls = []")
      case True
      then show ?thesis using Cons.prems by (simp add: split_on_append [of _ _ "[]", simplified])
    next
      case False
      then have "join [line_feed] (l # ls) @ [line_feed] = l @ line_feed # (join [line_feed] ls @ [line_feed])" by (cases ls) simp_all
      then show ?thesis using Cons.IH Cons.prems False by (simp add: split_on_append)
    qed
  qed simp
  then show ?thesis by (simp add: text_lines_def)
qed

lemma hex_no_feed: "d < 16 \<Longrightarrow> hex_digit d \<noteq> line_feed"
  using hex_val_digit [of d] by (auto simp: line_feed_def hex_val_def)

lemma esc_no_feed: "line_feed \<notin> set (esc_char ea c)"
proof -
  have n: "(of_char c :: nat) < 256" by simp
  have c: "c = line_feed \<Longrightarrow> (of_char c :: nat) = 10" by (simp add: line_feed_def)
  have h: "hex_digit (of_char c div 16) \<noteq> line_feed" "hex_digit (of_char c mod 16) \<noteq> line_feed"
    using n by (auto intro!: hex_no_feed simp: less_mult_imp_div_less)
  show ?thesis using c h by (auto simp: esc_char_def Let_def) (auto simp: line_feed_def)
qed

lemma quote_no_feed: "line_feed \<notin> set (quote ea s)"
  using esc_no_feed by (auto simp: quote_def line_feed_def)

section \<open>CEF escapes\<close>

definition cef_esc :: "char \<Rightarrow> string" where
  "cef_esc x = (if x = CHR 0x5C then [CHR 0x5C, CHR 0x5C] else if x = CHR 0x0D then [CHR 0x5C, CHR ''r'']
     else if x = line_feed then [CHR 0x5C, CHR ''n''] else if x = CHR ''|'' then [CHR 0x5C, CHR ''|'']
     else if x = CHR ''='' then [CHR 0x5C, CHR ''=''] else [x])"

lemma replace_char_concat: "replace_char c by (concat (map f t)) = concat (map (\<lambda>x. replace_char c by (f x)) t)"
  by (induction t) (simp_all add: replace_char_def)

lemma cef_escape_chars: "cef_escape t = concat (map cef_esc t)"
proof -
  have start: "t = concat (map (\<lambda>x. [x]) t)" by (induction t) simp_all
  have "cef_escape t = concat (map (\<lambda>x. replace_char (CHR ''='') [CHR 0x5C, CHR ''='']
      (replace_char (CHR ''|'') [CHR 0x5C, CHR ''|'']
       (replace_char line_feed [CHR 0x5C, CHR ''n'']
        (replace_char (CHR 0x0D) [CHR 0x5C, CHR ''r'']
         (replace_char (CHR 0x5C) [CHR 0x5C, CHR 0x5C] [x]))))) t)"
    unfolding cef_escape_def by (subst (1) start, simp only: replace_char_concat)
  also have "\<dots> = concat (map cef_esc t)"
    by (intro arg_cong [of _ _ concat] map_cong refl) (simp add: replace_char_def cef_esc_def line_feed_def)
  finally show ?thesis .
qed

fun cef_unescape :: "string \<Rightarrow> string option" where
  "cef_unescape [] = Some []"
| "cef_unescape (x # s) = (if x \<noteq> CHR 0x5C then map_option ((#) x) (cef_unescape s)
     else case s of [] \<Rightarrow> None
       | y # r \<Rightarrow> (if y = CHR ''n'' then map_option ((#) line_feed) (cef_unescape r)
                   else if y = CHR ''r'' then map_option ((#) (CHR 0x0D)) (cef_unescape r)
                   else if y \<in> {CHR 0x5C, CHR ''|'', CHR ''=''} then map_option ((#) y) (cef_unescape r) else None))"

lemma cef_unescape_escape [simp]: "cef_unescape (cef_escape t) = Some t"
proof -
  have "cef_unescape (cef_esc x @ s) = map_option ((#) x) (cef_unescape s)" for x s
    by (simp add: cef_esc_def line_feed_def)
  then show ?thesis by (induction t) (simp_all add: cef_escape_chars)
qed

lemma cef_escape_no_feed: "line_feed \<notin> set (cef_escape t)"
  by (auto simp: cef_escape_chars cef_esc_def line_feed_def split: if_splits)

section \<open>Fields\<close>

definition prepend :: "string \<Rightarrow> string list \<Rightarrow> string list" where
  "prepend s fs = (s @ hd fs) # tl fs"

lemma prepend_simps [simp]: "prepend [] (f # fs) = f # fs" "prepend s (prepend t fs) = prepend (s @ t) fs" "prepend s (f # fs) = (s @ f) # fs"
  by (simp_all add: prepend_def)

fun split_field :: "char \<Rightarrow> string \<Rightarrow> string list" where
  "split_field c [] = [[]]"
| "split_field c (x # s) =
     (if x = CHR 0x5C then (case s of [] \<Rightarrow> [[x]] | y # r \<Rightarrow> prepend [x, y] (split_field c r))
      else if x = c then [] # split_field c s else prepend [x] (split_field c s))"

definition sealed :: "char \<Rightarrow> string \<Rightarrow> bool" where
  "sealed c s \<longleftrightarrow> (\<forall>r. split_field c (s @ r) = prepend s (split_field c r))"

lemma split_field_nonempty [simp]: "split_field c s \<noteq> []"
  by (induction c s rule: split_field.induct) (auto simp: prepend_def split: list.splits)

lemma sealed_nil [simp]: "sealed c []"
  by (simp add: sealed_def prepend_def)

lemma sealed_append [simp]: "sealed c s \<Longrightarrow> sealed c t \<Longrightarrow> sealed c (s @ t)"
  by (simp add: sealed_def)

lemma sealed_char: "x \<noteq> c \<Longrightarrow> x \<noteq> CHR 0x5C \<Longrightarrow> sealed c [x]"
  by (simp add: sealed_def)

lemma sealed_Cons: "x \<noteq> c \<Longrightarrow> x \<noteq> CHR 0x5C \<Longrightarrow> sealed c s \<Longrightarrow> sealed c (x # s)"
  using sealed_append [OF sealed_char] by simp

lemma sealed_plain: "\<forall>x \<in> set s. x \<noteq> c \<and> x \<noteq> CHR 0x5C \<Longrightarrow> sealed c s"
proof (induction s)
  case (Cons x s)
  then show ?case using sealed_append [OF sealed_char [of x c] Cons.IH] by simp
qed simp

lemma sealed_escape:
  assumes "c = CHR ''|'' \<or> c = CHR ''=''" shows "sealed c (cef_escape t)"
proof -
  have "sealed c [CHR 0x5C, y]" for y by (simp add: sealed_def)
  then have "sealed c (cef_esc x)" for x using assms sealed_char [of x c] by (auto simp: cef_esc_def)
  then show ?thesis by (induction t) (simp_all add: cef_escape_chars)
qed

lemma split_joined:
  assumes "c \<noteq> CHR 0x5C" and "\<forall>f \<in> set fs. sealed c f" and "fs \<noteq> []"
  shows "split_field c (join [c] fs) = fs"
  using assms(2,3)
proof (induction fs)
  case (Cons f fs)
  show ?case
  proof (cases fs)
    case Nil
    have "split_field c (f @ []) = prepend f (split_field c [])" using Cons.prems unfolding sealed_def by (metis list.set_intros(1))
    then show ?thesis using Nil by simp
  next
    case (Cons g gs)
    have "split_field c (f @ c # join [c] fs) = f # split_field c (join [c] fs)"
      using Cons.prems assms(1) unfolding sealed_def by (simp add: prepend_def)
    then show ?thesis using Cons.IH Cons.prems Cons by simp
  qed
qed simp

section \<open>Reading a CEF line\<close>

text \<open>\<open>key=value key=value \<dots>\<close>: between two unescaped equals signs the last word is the next key.\<close>

definition last_word :: "string \<Rightarrow> string \<times> string" where
  "last_word p = (let k = rev (takeWhile (\<lambda>x. x \<noteq> CHR 0x20) (rev p)) in (take (length p - length k - 1) p, k))"

fun read_pairs :: "string \<Rightarrow> string list \<Rightarrow> (string \<times> string option) list" where
  "read_pairs k [] = []"
| "read_pairs k [p] = [(k, cef_unescape p)]"
| "read_pairs k (p # ps) = (case last_word p of (v, k') \<Rightarrow> (k, cef_unescape v) # read_pairs k' ps)"

definition read_extension :: "string \<Rightarrow> (string \<times> string option) list" where
  "read_extension s = (case split_field (CHR ''='') s of k # ps \<Rightarrow> read_pairs k ps | [] \<Rightarrow> [])"

definition read_cef :: "string \<Rightarrow> string option list \<times> (string \<times> string option) list" where
  "read_cef line = (let fs = split_field (CHR ''|'') line in (map cef_unescape (butlast fs), read_extension (last fs)))"

definition write_pairs :: "(string \<times> string) list \<Rightarrow> string" where
  "write_pairs kvs = join '' '' (map (\<lambda>(k, v). k @ ''='' @ cef_escape v) kvs)"

definition key_ok :: "string \<Rightarrow> bool" where
  "key_ok k \<longleftrightarrow> list_all (\<lambda>x. x \<notin> {CHR 0x20, CHR ''='', CHR ''|'', CHR 0x5C, line_feed}) k"

lemma last_word_key: "key_ok k \<Longrightarrow> last_word (v @ CHR 0x20 # k) = (v, k)"
proof -
  assume "key_ok k"
  then have "takeWhile (\<lambda>x. x \<noteq> CHR 0x20) (rev k @ CHR 0x20 # rev v) = rev k"
    by (intro takeWhile_append2 [THEN trans]) (auto simp: key_ok_def list_all_iff)
  then show ?thesis by (simp add: last_word_def Let_def)
qed

lemma key_sealed: "key_ok k \<Longrightarrow> c = CHR ''|'' \<or> c = CHR ''='' \<Longrightarrow> sealed c k"
  by (rule sealed_plain) (auto simp: key_ok_def list_all_iff)

fun pieces :: "(string \<times> string) list \<Rightarrow> string list" where
  "pieces [] = []"
| "pieces [(k, v)] = [cef_escape v]"
| "pieces ((k, v) # (k', v') # r) = (cef_escape v @ CHR 0x20 # k') # pieces ((k', v') # r)"

lemma write_pieces: "kvs \<noteq> [] \<Longrightarrow> write_pairs kvs = join [CHR ''=''] (fst (hd kvs) # pieces kvs)"
proof (induction kvs rule: pieces.induct)
  case (3 k v k' v' r)
  have "pieces ((k', v') # r) \<noteq> []" by (cases r) auto
  then show ?case using 3 by (simp add: write_pairs_def join_Cons)
qed (simp_all add: write_pairs_def)

lemma pieces_sealed: "\<forall>(k, v) \<in> set kvs. key_ok k \<Longrightarrow> \<forall>p \<in> set (pieces kvs). sealed (CHR ''='') p"
proof (induction kvs rule: pieces.induct)
  case (3 k v k' v' r)
  then have "sealed (CHR ''='') (cef_escape v @ [CHR 0x20] @ k')"
    by (intro sealed_append sealed_escape key_sealed sealed_char) auto
  then show ?case using 3 by simp
qed (simp_all add: sealed_escape)

lemma read_pieces: "\<forall>(k, v) \<in> set kvs. key_ok k \<Longrightarrow> kvs \<noteq> [] \<Longrightarrow> read_pairs (fst (hd kvs)) (pieces kvs) = map (\<lambda>(k, v). (k, Some v)) kvs"
proof (induction kvs rule: pieces.induct)
  case (3 k v k' v' r)
  then have IH: "read_pairs k' (pieces ((k', v') # r)) = map (\<lambda>(k, v). (k, Some v)) ((k', v') # r)" by simp
  obtain p ps where ps: "pieces ((k', v') # r) = p # ps" by (cases r) auto
  have "last_word (cef_escape v @ CHR 0x20 # k') = (cef_escape v, k')" using 3(2) by (intro last_word_key) simp
  then show ?case using IH ps by simp
qed simp_all

lemma read_write_pairs:
  assumes "\<forall>(k, v) \<in> set kvs. key_ok k" and "kvs \<noteq> []"
  shows "read_extension (write_pairs kvs) = map (\<lambda>(k, v). (k, Some v)) kvs"
proof -
  have "key_ok (fst (hd kvs))" using assms by (cases kvs) auto
  then have "split_field (CHR ''='') (write_pairs kvs) = fst (hd kvs) # pieces kvs"
    unfolding write_pieces [OF assms(2)] using pieces_sealed [OF assms(1)] key_sealed by (intro split_joined) auto
  then show ?thesis using read_pieces [OF assms] by (simp add: read_extension_def)
qed

lemma pairs_sealed:
  assumes "\<forall>(k, v) \<in> set kvs. key_ok k" shows "sealed (CHR ''|'') (write_pairs kvs)"
proof -
  have one: "sealed (CHR ''|'') (k @ ''='' @ cef_escape v)" if "(k, v) \<in> set kvs" for k v
    using assms that by (intro sealed_append sealed_escape key_sealed sealed_char) auto
  have "sealed (CHR ''|'') (join '' '' xs)" if "\<forall>x \<in> set xs. sealed (CHR ''|'') x" for xs
    using that by (induction xs rule: induct_list012) (auto intro!: sealed_append sealed_Cons)
  note joined = this
  show ?thesis unfolding write_pairs_def by (rule joined) (use one in auto)
qed

section \<open>The written events\<close>

lemma cef_extension_keys: "\<forall>(k, v) \<in> set (cef_extension e rt). key_ok k" "cef_extension e rt \<noteq> []"
  by (simp_all add: cef_extension_def key_ok_def line_feed_def)

text \<open>What a reader finds in the line of an event\<close>

definition cef_fields :: "dict \<Rightarrow> string option list \<times> (string \<times> string option) list" where
  "cef_fields e = (map Some [''CEF:0'', ''DTLab'', ''Control Center'', ''2.0'', cef_value e ''dataset'' @ '':'' @ cef_value e ''type'',
       cef_value e ''title'', show_nat (the (cef_severity (cef_value e ''severity'')))],
     map (\<lambda>(k, v). (k, Some v)) (cef_extension e (case cef_timestamp (cef_value e ''timestamp'') of Inr rt \<Rightarrow> rt | Inl _ \<Rightarrow> [])))"

lemma plain_unescape: "CHR 0x5C \<notin> set t \<Longrightarrow> cef_unescape t = Some t"
  by (induction t) auto

lemma show_nat_plain: "is_digit c = False \<Longrightarrow> c \<notin> set (show_nat n)"
  using show_nat_digits by blast

lemma cef_line_read:
  assumes "cef_line e = Inr line" shows "read_cef line = cef_fields e" "line_feed \<notin> set line"
proof -
  obtain rt n where rt: "cef_timestamp (cef_value e ''timestamp'') = Inr rt" and n: "cef_severity (cef_value e ''severity'') = Some n"
    and line: "line = join ''|'' (cef_header e n @ [write_pairs (cef_extension e rt)])"
    using assms by (auto simp: cef_line_def bindR_eq_Inr write_pairs_def split: option.splits)
  have digits: "CHR 0x5C \<notin> set (show_nat n)" "CHR ''|'' \<notin> set (show_nat n)" "line_feed \<notin> set (show_nat n)"
    by (rule show_nat_plain, simp add: is_digit_def line_feed_def)+
  have "\<forall>f \<in> set (cef_header e n). sealed (CHR ''|'') f"
    using digits by (auto simp: cef_header_def intro!: sealed_plain sealed_escape)
  then have split: "split_field (CHR ''|'') line = cef_header e n @ [write_pairs (cef_extension e rt)]"
    unfolding line using pairs_sealed [OF cef_extension_keys(1)] by (intro split_joined) auto
  have "map cef_unescape (cef_header e n) = fst (cef_fields e)"
    using n plain_unescape [OF digits(1)] by (simp add: cef_header_def cef_fields_def)
  then show "read_cef line = cef_fields e"
    using read_write_pairs [OF cef_extension_keys, of e rt] rt by (simp add: read_cef_def split cef_fields_def Let_def)
  have joined: "line_feed \<notin> set (join sep xs)" if "line_feed \<notin> set sep" "\<forall>x \<in> set xs. line_feed \<notin> set x" for sep xs
    using that by (induction xs rule: induct_list012) auto
  have "\<forall>f \<in> set (cef_header e n). line_feed \<notin> set f"
    using digits(3) cef_escape_no_feed by (auto simp: cef_header_def) (auto simp: line_feed_def)
  moreover have "line_feed \<notin> set (write_pairs (cef_extension e rt))"
    unfolding write_pairs_def
  proof (rule joined)
    show "\<forall>x \<in> set (map (\<lambda>(k, v). k @ ''='' @ cef_escape v) (cef_extension e rt)). line_feed \<notin> set x"
      using cef_extension_keys(1) [of e rt] cef_escape_no_feed by (force simp: key_ok_def list_all_iff line_feed_def)
  qed (simp add: line_feed_def)
  ultimately show "line_feed \<notin> set line" unfolding line by (intro joined) (auto simp: line_feed_def)
qed

text \<open>An event is a document of strings.\<close>

lemma base_event_ok:
  assumes "base_event X s = Inr e" shows "json_ok (JObj e)" "get_item e ''event_id'' = JStr (stable_event_id (sx_sha X) (so_identity s))"
  using assms by (auto simp: base_event_def bindR_eq_Inr get_item_def jopt_def split: option.splits)

definition string_doc :: "dict \<Rightarrow> bool" where
  "string_doc e \<longleftrightarrow> (\<forall>v \<in> snd ` set e. v = JNull \<or> (\<exists>t. v = JStr t) \<or> (\<exists>ts. v = JArr (map JStr ts)))"

lemma base_event_strings: "base_event X s = Inr e \<Longrightarrow> string_doc e"
  by (auto simp: base_event_def bindR_eq_Inr string_doc_def jopt_def split: option.splits)

lemma join_no: "c \<notin> set sep \<Longrightarrow> \<forall>x \<in> set xs. c \<notin> set x \<Longrightarrow> c \<notin> set (join sep xs)"
  by (induction xs rule: induct_list012) auto

lemma string_doc_no_feed:
  assumes "string_doc e" shows "line_feed \<notin> set (dumps False (JObj e))"
proof -
  have one: "line_feed \<notin> set (emit False (canon v))" if "v = JNull \<or> (\<exists>t. v = JStr t) \<or> (\<exists>ts. v = JArr (map JStr ts))" for v
  proof -
    have "line_feed \<notin> set (join '','' (map (emit False) (map JStr ts)))" for ts
      by (rule join_no) (auto simp: line_feed_def quote_no_feed [unfolded line_feed_def])
    then show ?thesis using that by (auto simp: quote_no_feed comp_def) (auto simp: line_feed_def)
  qed
  have "line_feed \<notin> set (join '','' (map (\<lambda>(k, v). quote False k @ '':'' @ emit False v) (sort_key fst (map (\<lambda>(k, v). (k, canon v)) e))))"
  proof (rule join_no)
    show "\<forall>x \<in> set (map (\<lambda>(k, v). quote False k @ '':'' @ emit False v) (sort_key fst (map (\<lambda>(k, v). (k, canon v)) e))). line_feed \<notin> set x"
    proof
      fix x assume "x \<in> set (map (\<lambda>(k, v). quote False k @ '':'' @ emit False v) (sort_key fst (map (\<lambda>(k, v). (k, canon v)) e)))"
      then obtain k v where v: "(k, v) \<in> set e" and x: "x = quote False k @ '':'' @ emit False (canon v)" by auto
      have "v \<in> snd ` set e" using v by force
      then have "line_feed \<notin> set (emit False (canon v))" using assms one unfolding string_doc_def by blast
      then show "line_feed \<notin> set x" unfolding x using quote_no_feed by (simp add: line_feed_def)
    qed
  qed (simp add: line_feed_def)
  then show ?thesis by (simp add: dumps_def line_feed_def)
qed

definition from_base :: "dict \<Rightarrow> bool" where
  "from_base e \<longleftrightarrow> (\<exists>X s. base_event X s = Inr e)"

lemma siem_event_base:
  "siem_event X r = Inr e \<Longrightarrow> from_base e" "siem_finding X known r = Inr e \<Longrightarrow> from_base e" "siem_difference X r = Inr e \<Longrightarrow> from_base e"
  "siem_vulnerability X r = Inr e \<Longrightarrow> from_base e" "siem_alert X i truth a = Inr e \<Longrightarrow> from_base e" "siem_new_ui_vulnerability X i truth v = Inr e \<Longrightarrow> from_base e"
  unfolding from_base_def
  by (auto simp: siem_event_def siem_finding_def siem_difference_def siem_vulnerability_def siem_alert_def siem_new_ui_vulnerability_def Let_def
      bindR_eq_Inr split: prod.splits)

lemma mapR_base: "mapR f xs = Inr ys \<Longrightarrow> (\<And>x y. f x = Inr y \<Longrightarrow> from_base y) \<Longrightarrow> \<forall>y \<in> set ys. from_base y"
  by (rule mapR_all)

lemma source_events_base: "siem_source_events X source = Inr es \<Longrightarrow> \<forall>e \<in> set es. from_base e"
proof (cases "get_item source ''type'' = JStr ''cisco_cyber_vision_new_ui''")
  case ui: True
  assume run: "siem_source_events X source = Inr es"
  show ?thesis
  proof (cases "get_item source ''details''")
    case (JObj details)
    then obtain i truth as vs xs ys where parts: "mapR (siem_alert X i truth) as = Inr xs" "mapR (siem_new_ui_vulnerability X i truth) vs = Inr ys"
      and es: "es = xs @ ys"
      using run ui by (auto simp: siem_source_events_def bindR_eq_Inr Let_def)
    show ?thesis using mapR_base [OF parts(1) siem_event_base(5)] mapR_base [OF parts(2) siem_event_base(6)] es by auto
  qed (use run ui in \<open>auto simp: siem_source_events_def bindR_eq_Inr Let_def\<close>)
qed (auto simp: siem_source_events_def)

lemma events_base:
  assumes "build_siem_events sha schema snapshot = Inr events" shows "\<forall>e \<in> set events. from_base e"
proof -
  obtain X classic new_ui where c: "classic_events X = Inr classic" and n: "new_ui_records X = Inr new_ui" and e: "set events = set (classic @ new_ui)"
    using assms by (auto simp: build_siem_events_def bindR_eq_Inr Let_def)
  have "\<forall>e \<in> set classic. from_base e"
    using c by (auto simp: classic_events_def bindR_eq_Inr dest!: mapR_base intro: siem_event_base)
  moreover have "\<forall>e \<in> set new_ui. from_base e"
    using n mapR_all [of "siem_source_events X" _ _ "\<lambda>es. \<forall>e \<in> set es. from_base e"] source_events_base
    by (auto simp: new_ui_records_def bindR_eq_Inr)
  ultimately show ?thesis using e by auto
qed

end
