(* ===== verification/SiemProperties.thy ===== *)
theory SiemProperties
  imports SiemFacts SnapshotProperties
begin

text \<open>
  The contract of the SIEM export: a consumer reads back from the NDJSON and the CEF stream exactly the
  events that were built, whatever the texts of the snapshot hold.
\<close>

section \<open>A concrete export\<close>

definition odd_title :: string where
  "odd_title = [CHR ''a'', CHR ''|'', CHR ''='', CHR 0x5C, line_feed, CHR ''b'']"

definition odd_record :: dict where
  "odd_record = [(''id'', JStr ''e''), (''title'', JStr odd_title)]"

abbreviation epoch_text :: string where
  "epoch_text \<equiv> ''1970-01-01T00:00:00Z''"

definition siem_demo :: json where
  "siem_demo = demo_snapshot epoch_text [JObj odd_record]"

lemma siem_demo_valid: "snapshot_problems (\<lambda>_. []) siem_demo = []"
  by code_simp

lemma siem_demo_time: "fromisoformat (replace_Z epoch_text) = Some (Aware epoch_us)" "strip epoch_text = epoch_text"
  by code_simp+

lemma siem_demo_timestamp: "utc_timestamp JNull epoch_text = Inr (utc_text epoch_us)"
  using siem_demo_time by (simp add: utc_timestamp_def text_of_def text_or_def valid_instant_def epoch_us_def max_instant_def day_us_def)

lemma siem_demo_rt: "cef_timestamp (utc_text epoch_us) = Inr ''0''"
proof -
  have "valid_instant epoch_us" by (simp add: valid_instant_def epoch_us_def max_instant_def day_us_def)
  moreover have "show_nat 0 = ''0''" by code_simp
  ultimately show ?thesis using fromisoformat_utc_text by (simp add: cef_timestamp_def double_of_def truncated_def show_int_def)
qed

lemma event_item_Cons: "get_item ((k, v) # d) k' = (if k' = k then v else get_item d k')"
  by (simp add: get_item_def)

lemma siem_demo_event:
  assumes "sx_snapshot X = siem_demo" obtains e where "siem_event X odd_record = Inr e" "\<exists>l. cef_line e = Inr l"
proof -
  have items: "get_item odd_record ''asset_ids'' = JNull" "get_item odd_record ''category'' = JNull" "get_item odd_record ''severity'' = JNull"
    "get_item odd_record ''description'' = JNull" "get_item odd_record ''occurred_at'' = JNull" "get_item odd_record ''evidence'' = JNull"
    "map_of odd_record ''asset_ids'' = None"
    by (simp_all add: odd_record_def get_item_def)
  have ids: "sorted_ids odd_record ''asset_ids'' = Inr []" by (simp add: sorted_ids_def items)
  have snap: "required_item (entries siem_demo) ''generated_at'' = Inr (JStr epoch_text)" "required_item (entries siem_demo) ''snapshot_id'' = Inr (JStr ''s'')"
    by (simp_all add: siem_demo_def demo_snapshot_def required_item_def)
  have sev: "normalized_severity JNull = ''unknown''" by code_simp
  have ev: "evidence_of odd_record = []" unfolding evidence_of_def items(6) by simp
  have none: "get_item [] k = JNull" for k by (simp add: get_item_def)
  have "\<exists>identity. siem_event_identity odd_record [] = Inr identity"
    by (simp add: siem_event_identity_def none ids conv_def text_of_def Let_def)
  then obtain identity where i: "siem_event_identity odd_record (evidence_of odd_record) = Inr identity" unfolding ev by blast
  have "\<exists>e. siem_event X odd_record = Inr e"
    by (simp add: siem_event_def i ids conv_def Let_def items base_event_def assms snap siem_demo_timestamp)
  then obtain e where e: "siem_event X odd_record = Inr e" by blast
  have "get_item e ''severity'' = JStr ''unknown''" "get_item e ''timestamp'' = JStr (utc_text epoch_us)"
    using e by (auto simp: siem_event_def i ids conv_def Let_def items base_event_def assms snap siem_demo_timestamp sev event_item_Cons)
  then have v: "cef_value e ''severity'' = ''unknown''" "cef_value e ''timestamp'' = utc_text epoch_us" by (simp_all add: cef_value_def)
  have "cef_severity ''unknown'' = Some 0" by (simp add: cef_severity_def)
  then show ?thesis using that e by (simp add: cef_line_def v siem_demo_rt)
qed

lemma siem_demo_built:
  obtains e where "build_siem_events length_digest (\<lambda>_. []) siem_demo = Inr [e]" "\<exists>l. cef_line e = Inr l"
proof -
  let ?X = "\<lparr>sx_sha = length_digest, sx_snapshot = siem_demo, sx_digest = length_digest (snapshot_bytes siem_demo)\<rparr>"
  obtain e where e: "siem_event ?X odd_record = Inr e" "\<exists>l. cef_line e = Inr l" using siem_demo_event [of ?X] by auto
  have records: "snapshot_records siem_demo ''events'' = Inr [odd_record]" "snapshot_records siem_demo ''assets'' = Inr []"
    "snapshot_records siem_demo ''findings'' = Inr []" "snapshot_records siem_demo ''baseline_differences'' = Inr []"
    "snapshot_records siem_demo ''vulnerabilities'' = Inr []" "snapshot_records siem_demo ''sources'' = Inr []"
    by (simp_all add: siem_demo_def demo_snapshot_def snapshot_records_def required_item_def py_iter_def as_dict_def)
  have "snapshot_sha256 length_digest (\<lambda>_. []) siem_demo = Inr (length_digest (snapshot_bytes siem_demo))"
    by (simp add: snapshot_sha256_def canonical_bytes_def validate_snapshot_def siem_demo_valid)
  then have "build_siem_events length_digest (\<lambda>_. []) siem_demo = Inr [e]"
    by (simp add: build_siem_events_def conv_def classic_events_def new_ui_records_def siem_records_def records e(1))
  then show ?thesis using that e(2) by blast
qed

text \<open>C36: The NDJSON export is readable: its bytes are UTF-8, every line of it is one JSON document, and
  the documents are the built events, in the order of their identifiers.\<close>

theorem siem_ndjson_readable:
  assumes "build_siem_ndjson sha schema snapshot = Inr bytes"
  shows "\<exists>events text. build_siem_events sha schema snapshot = Inr events \<and> utf8_decode bytes = Some text
    \<and> map loads (text_lines text) = map (\<lambda>e. Some (canon (JObj e))) events
    \<and> sorted (map (\<lambda>e. py_str (get_item e ''event_id'')) events)"
proof -
  obtain events where e: "build_siem_events sha schema snapshot = Inr events" and b: "bytes = ndjson_bytes events"
    using assms by (auto simp: build_siem_ndjson_def bindR_eq_Inr)
  have base: "json_ok (JObj x) \<and> string_doc x" if "x \<in> set events" for x
    using events_base [OF e] that base_event_ok(1) base_event_strings unfolding from_base_def by blast
  have "sorted (map (\<lambda>e. py_str (get_item e ''event_id'')) events)"
    using e by (auto simp: build_siem_events_def bindR_eq_Inr Let_def simp del: py_str_simps)
  moreover have "\<exists>text. utf8_decode bytes = Some text \<and> map loads (text_lines text) = map (\<lambda>e. Some (canon (JObj e))) events"
  proof (cases "events = []")
    case False
    let ?ls = "map (\<lambda>e. dumps False (JObj e)) events"
    have "text_lines (join [line_feed] ?ls @ [line_feed]) = ?ls"
      using False base string_doc_no_feed by (intro lines_joined) auto
    moreover have "map loads ?ls = map (\<lambda>e. Some (canon (JObj e))) events"
      using base loads_dumps(1) by simp
    ultimately show ?thesis using False by (simp add: b ndjson_bytes_def)
  qed (simp add: b ndjson_bytes_def text_lines_def)
  ultimately show ?thesis using e by blast
qed

theorem siem_ndjson_readable_witness:
  "\<exists>bytes text. build_siem_ndjson length_digest (\<lambda>_. []) siem_demo = Inr bytes \<and> utf8_decode bytes = Some text \<and> length (text_lines text) = 1"
proof -
  obtain e where e: "build_siem_events length_digest (\<lambda>_. []) siem_demo = Inr [e]" by (rule siem_demo_built)
  then obtain bytes where "build_siem_ndjson length_digest (\<lambda>_. []) siem_demo = Inr bytes" by (simp add: build_siem_ndjson_def)
  note run = this
  obtain content where "utf8_decode bytes = Some content" "map loads (text_lines content) = [Some (canon (JObj e))]"
    using siem_ndjson_readable [OF run] e by auto
  then show ?thesis using run map_eq_imp_length_eq [of loads "text_lines content" "\<lambda>x. x" "[Some (canon (JObj e))]"] by auto
qed

text \<open>C37: The CEF export cannot be injected into: a reader that splits the lines at line feeds, the header
  at unescaped bars and the extension at unescaped equals signs recovers one line per event with exactly
  the fields that were written, whatever bars, equals signs, backslashes, spaces and line breaks the
  texts hold.\<close>

theorem siem_cef_readable:
  assumes "build_siem_cef sha schema snapshot = Inr bytes"
  shows "\<exists>events text. build_siem_events sha schema snapshot = Inr events \<and> utf8_decode bytes = Some text
    \<and> map read_cef (text_lines text) = map cef_fields events"
proof -
  obtain events ls where e: "build_siem_events sha schema snapshot = Inr events" and ls: "mapR cef_line events = Inr ls"
    and b: "bytes = utf8 (if ls = [] then [] else join [line_feed] ls @ [line_feed])"
    using assms by (auto simp: build_siem_cef_def cef_bytes_def bindR_eq_Inr)
  have "map read_cef ls = map cef_fields events \<and> (\<forall>l \<in> set ls. line_feed \<notin> set l)"
    using ls by (induction events arbitrary: ls) (auto simp: bindR_eq_Inr cef_line_read)
  then show ?thesis using e lines_joined [of ls] by (cases "ls = []") (auto simp: b text_lines_def)
qed

theorem siem_cef_readable_witness:
  "\<exists>bytes text. build_siem_cef length_digest (\<lambda>_. []) siem_demo = Inr bytes \<and> utf8_decode bytes = Some text \<and> length (text_lines text) = 1"
proof -
  obtain e l where e: "build_siem_events length_digest (\<lambda>_. []) siem_demo = Inr [e]" and l: "cef_line e = Inr l" by (rule siem_demo_built) blast
  then obtain bytes where run: "build_siem_cef length_digest (\<lambda>_. []) siem_demo = Inr bytes" by (simp add: build_siem_cef_def cef_bytes_def)
  obtain content where "utf8_decode bytes = Some content" "map read_cef (text_lines content) = [cef_fields e]"
    using siem_cef_readable [OF run] e by auto
  then show ?thesis using run map_eq_imp_length_eq [of read_cef "text_lines content" "\<lambda>x. x" "[cef_fields e]"] by auto
qed

end
