(* ===== verification/ContractV3.thy ===== *)
theory ContractV3
  imports Contract
begin

text \<open>
  \<open>contract_v3.py\<close>: the v3 snapshot is the v2 snapshot with attack scenarios and runs, detection
  correlations, process telemetry, security zones and compliance mappings. The validator layers its own
  identifier, reference and semantic checks over those of v2. As in \<open>Contract\<close> the JSON-schema
  validator is the parameter \<open>schema_errors\<close>, and the other checks run on documents it accepts.
\<close>

datatype v3_problem =
    V2Problem contract_problem | MissingRoe string nat | StartRequired nat string | CompletedNotStarted nat | RunCompletedBeforeStart nat
  | DetectionField nat string | DetectionBeforeAttack nat | LatencyMismatch nat int | BoundsMismatch nat nat | NotTechnique nat

definition v3_collections :: "string list" where
  "v3_collections = [''attack_scenarios'', ''attack_runs'', ''detection_correlations'', ''process_telemetry'', ''security_zones'', ''compliance_mappings'']"

section \<open>Identifiers and references\<close>

definition v3_unique_ids :: "json \<Rightarrow> (string \<times> string list) list \<times> contract_problem list" where
  "v3_unique_ids snapshot =
     (let scanned = map (\<lambda>c. (c, scan_ids c 0 [] (list_of snapshot c))) v3_collections
      in (map (\<lambda>(c, ids, _). (c, ids)) scanned, concat (map (\<lambda>(_, _, errors). errors) scanned)))"

text \<open>Only references that are strings are looked up, so other identifiers of the environment do not count.\<close>

definition all_known_ids :: "json \<Rightarrow> (string \<times> string list) list \<Rightarrow> (string \<times> string list) list \<Rightarrow> string list" where
  "all_known_ids snapshot v2_ids v3_ids =
     (case jget (jget snapshot ''environment'') ''id'' of JStr s \<Rightarrow> [s] | _ \<Rightarrow> []) @ concat (map snd v2_ids) @ concat (map snd v3_ids)"

text \<open>The references of one list member\<close>

definition element_references :: "string \<Rightarrow> json list \<Rightarrow> string list \<Rightarrow> contract_problem list" where
  "element_references path values known =
     concat (map (\<lambda>(j, v). missing_reference (indexed path j) v known) (enumerate 0 values))"

definition run_references :: "string list \<Rightarrow> string list \<Rightarrow> nat \<times> json \<Rightarrow> contract_problem list" where
  "run_references scenarios assets = (\<lambda>(i, r). let p = indexed ''attack_runs'' i in
     missing_reference (p @ ''.scenario_id'') (jget r ''scenario_id'') scenarios
     @ missing_reference (p @ ''.source_asset_id'') (jget r ''source_asset_id'') assets
     @ element_references (p @ ''.target_asset_ids'') (list_of r ''target_asset_ids'') assets)"

definition zone_references :: "string list \<Rightarrow> string list \<Rightarrow> nat \<times> json \<Rightarrow> contract_problem list" where
  "zone_references assets zones = (\<lambda>(i, z). let p = indexed ''security_zones'' i in
     element_references (p @ ''.asset_ids'') (list_of z ''asset_ids'') assets
     @ concat (map (\<lambda>(j, c). missing_reference (indexed (p @ ''.conduits'') j @ ''.to_zone_id'') (jget c ''to_zone_id'') zones)
         (enumerate 0 (list_of z ''conduits''))))"

definition mapping_references :: "string list \<Rightarrow> string list \<Rightarrow> string list \<Rightarrow> nat \<times> json \<Rightarrow> contract_problem list" where
  "mapping_references assets zones known = (\<lambda>(i, m). let p = indexed ''compliance_mappings'' i in
     element_references (p @ ''.asset_ids'') (list_of m ''asset_ids'') assets
     @ element_references (p @ ''.zone_ids'') (list_of m ''zone_ids'') zones
     @ element_references (p @ ''.evidence_refs'') (list_of m ''evidence_refs'') known)"

definition v3_cross_reference_errors :: "json \<Rightarrow> (string \<times> string list) list \<Rightarrow> (string \<times> string list) list \<Rightarrow> contract_problem list" where
  "v3_cross_reference_errors snapshot v2_ids v3_ids =
     (let assets = ids_in v2_ids ''assets''; runs = ids_in v3_ids ''attack_runs''; zones = ids_in v3_ids ''security_zones'' in
      concat (map (run_references (ids_in v3_ids ''attack_scenarios'') assets) (enumerate 0 (list_of snapshot ''attack_runs'')))
      @ member_references snapshot ''detection_correlations'' [(''attack_run_id'', runs), (''event_id'', ids_in v2_ids ''events'')]
      @ member_references snapshot ''process_telemetry'' [(''asset_id'', assets), (''attack_run_id'', runs)]
      @ concat (map (zone_references assets zones) (enumerate 0 (list_of snapshot ''security_zones'')))
      @ concat (map (mapping_references assets zones (all_known_ids snapshot v2_ids v3_ids)) (enumerate 0 (list_of snapshot ''compliance_mappings''))))"

section \<open>Semantic checks\<close>

definition lacks_roe :: "json \<Rightarrow> bool" where
  "lacks_roe r \<longleftrightarrow> jget r ''execution_mode'' = JStr ''real'' \<and> \<not> truthy (jget r ''roe_reference'')"

definition scenario_errors :: "nat \<times> json \<Rightarrow> v3_problem list" where
  "scenario_errors = (\<lambda>(i, r). if lacks_roe r then [MissingRoe ''attack_scenarios'' i] else [])"

definition run_errors :: "nat \<times> json \<Rightarrow> v3_problem list" where
  "run_errors = (\<lambda>(i, r). let started = jget r ''started_at''; completed = jget r ''completed_at''; status = jget r ''status'' in
     (if lacks_roe r then [MissingRoe ''attack_runs'' i] else [])
     @ (if status \<in> {JStr ''completed'', JStr ''failed''} \<and> \<not> truthy started then [StartRequired i (py_str status)] else [])
     @ (if truthy completed \<and> \<not> truthy started then [CompletedNotStarted i] else [])
     @ (if truthy started \<and> truthy completed
        then (case (parse_instant completed, parse_instant started) of
                (Some c, Some s) \<Rightarrow> if c < s then [RunCompletedBeforeStart i] else [] | _ \<Rightarrow> [])
        else []))"

definition latency_errors :: "nat \<Rightarrow> json \<Rightarrow> json \<Rightarrow> json \<Rightarrow> v3_problem list" where
  "latency_errors i attack_at detected_at latency =
     (case (parse_instant attack_at, parse_instant detected_at) of
        (Some a, Some d) \<Rightarrow>
          if d < a then [DetectionBeforeAttack i]
          else if latency = JNull then []
          else (let computed = trunc_seconds (d - a) in
                case py_int latency of None \<Rightarrow> [] | Some l \<Rightarrow> if 1 < \<bar>computed - l\<bar> then [LatencyMismatch i computed] else [])
      | _ \<Rightarrow> [])"

definition correlation_errors :: "nat \<times> json \<Rightarrow> v3_problem list" where
  "correlation_errors = (\<lambda>(i, c).
     let detected = jget c ''detected''; detected_at = jget c ''detected_at''; latency = jget c ''detection_latency_seconds'';
         source = jget c ''detection_source''; attack_at = jget c ''attack_at'' in
     if detected = JBool True then
       (if detected_at = JNull then [DetectionField i ''detected_at''] else [])
       @ (if latency = JNull then [DetectionField i ''detection_latency_seconds''] else [])
       @ (if source = JStr ''none'' then [DetectionField i ''detection_source''] else [])
       @ (if source \<in> {JStr ''cisco_cyber_vision'', JStr ''cisco_cyber_vision_new_ui''} \<and> \<not> truthy (jget c ''event_id'')
          then [DetectionField i ''event_id''] else [])
       @ (if truthy attack_at \<and> truthy detected_at then latency_errors i attack_at detected_at latency else [])
     else if detected = JBool False then
       (if detected_at \<noteq> JNull then [DetectionField i ''detected_at''] else [])
       @ (if latency \<noteq> JNull then [DetectionField i ''detection_latency_seconds''] else [])
       @ (if source \<noteq> JStr ''none'' then [DetectionField i ''detection_source''] else [])
     else [])"

definition register_errors :: "nat \<Rightarrow> nat \<times> json \<Rightarrow> v3_problem list" where
  "register_errors i = (\<lambda>(j, r). let in_bounds = jget r ''in_bounds'' in
     case (number_value (jget r ''value''), number_value (jget r ''expected_min''), number_value (jget r ''expected_max'')) of
       (Some v, Some low, Some high) \<Rightarrow>
         if in_bounds \<noteq> JNull \<and> truthy in_bounds \<noteq> (low \<le> v \<and> v \<le> high) then [BoundsMismatch i j] else []
     | _ \<Rightarrow> [])"

definition telemetry_errors :: "nat \<times> json \<Rightarrow> v3_problem list" where
  "telemetry_errors = (\<lambda>(i, s). concat (map (register_errors i) (enumerate 0 (list_of s ''registers''))))"

text \<open>\<open>^T[0-9]{4}(\.[0-9]{3})?$\<close>; the dollar also matches before a final line feed.\<close>

definition technique_id :: "string \<Rightarrow> bool" where
  "technique_id s = (let t = (if suffix [CHR 0x0A] s then butlast s else s); d = (\<lambda>n u. length u = n \<and> list_all is_digit u) in
     prefix ''T'' t \<and> (d 4 (drop 1 t) \<or> d 4 (take 4 (drop 1 t)) \<and> take 1 (drop 5 t) = ''.'' \<and> d 3 (drop 6 t)))"

definition mapping_errors :: "nat \<times> json \<Rightarrow> v3_problem list" where
  "mapping_errors = (\<lambda>(i, m). if jget m ''framework'' = JStr ''mitre_attack_ics'' \<and> \<not> technique_id (py_str (jget m ''reference_id''))
     then [NotTechnique i] else [])"

definition v3_semantic_errors :: "json \<Rightarrow> v3_problem list" where
  "v3_semantic_errors snapshot =
     concat (map scenario_errors (enumerate 0 (list_of snapshot ''attack_scenarios'')))
     @ concat (map run_errors (enumerate 0 (list_of snapshot ''attack_runs'')))
     @ concat (map correlation_errors (enumerate 0 (list_of snapshot ''detection_correlations'')))
     @ concat (map telemetry_errors (enumerate 0 (list_of snapshot ''process_telemetry'')))
     @ concat (map mapping_errors (enumerate 0 (list_of snapshot ''compliance_mappings'')))"

section \<open>Validation and the canonical document\<close>

definition v3_problems :: "(json \<Rightarrow> string list) \<Rightarrow> json \<Rightarrow> v3_problem list" where
  "v3_problems schema_errors snapshot =
     (if \<not> is_obj snapshot then [V2Problem SnapshotNotObject]
      else (case schema_errors snapshot of
              [] \<Rightarrow> (let (v2_ids, v2_id_errors) = unique_ids snapshot; (v3_ids, v3_id_errors) = v3_unique_ids snapshot in
                map V2Problem (v2_id_errors @ cross_reference_errors snapshot v2_ids @ snapshot_semantic_errors snapshot v2_ids
                  @ v3_id_errors @ v3_cross_reference_errors snapshot v2_ids v3_ids)
                @ v3_semantic_errors snapshot)
            | es \<Rightarrow> map (V2Problem \<circ> SchemaViolation) es) @ map (V2Problem \<circ> SecretLeak) (find_secret_leaks snapshot ''$''))"

definition validate_snapshot_v3 :: "(json \<Rightarrow> string list) \<Rightarrow> json \<Rightarrow> v3_problem list + json" where
  "validate_snapshot_v3 schema_errors snapshot =
     (let ps = v3_problems schema_errors snapshot in if ps \<noteq> [] then Inl (rev (remdups (rev ps))) else Inr snapshot)"

definition load_snapshot_v3 :: "(json \<Rightarrow> string list) \<Rightarrow> nat \<Rightarrow> string \<Rightarrow> v3_problem list + json" where
  "load_snapshot_v3 schema_errors max_bytes content =
     (if max_bytes < length content then Inl [V2Problem (FileTooLarge (length content) max_bytes)]
      else case Option.bind (utf8_decode content) loads of
        None \<Rightarrow> Inl [V2Problem UnreadableFile]
      | Some payload \<Rightarrow> bindR (validate_snapshot_v3 schema_errors payload) (\<lambda>_. Inr payload))"

definition canonical_bytes_v3 :: "(json \<Rightarrow> string list) \<Rightarrow> json \<Rightarrow> v3_problem list + string" where
  "canonical_bytes_v3 schema_errors snapshot = bindR (validate_snapshot_v3 schema_errors snapshot) (\<lambda>s. Inr (snapshot_bytes s))"

definition snapshot_sha256_v3 :: "(string \<Rightarrow> string) \<Rightarrow> (json \<Rightarrow> string list) \<Rightarrow> json \<Rightarrow> v3_problem list + string" where
  "snapshot_sha256_v3 sha schema_errors snapshot = bindR (canonical_bytes_v3 schema_errors snapshot) (\<lambda>b. Inr (sha b))"

section \<open>What a valid snapshot is\<close>















end
