(* ===== verification/Identity.thy ===== *)
theory Identity
  imports SignalConversion
begin

text \<open>
  \<open>identity.py\<close>: proposals of which virtual machine is which Cyber Vision asset. Records are the
  documents the adapters produce, whose identifiers are texts; a record of another shape ends in an
  exception, \<open>BadShape\<close> as in \<open>SignalConversion\<close>. The double arrow of one note is outside the code
  points of the model and is written with ASCII characters.
\<close>

type_synonym 'a conv = "conversion_error + 'a"

datatype link_method = IpMacMatch | MacMatch | IpMatch | NameMatch

fun method_text :: "link_method \<Rightarrow> string" where
  "method_text IpMacMatch = ''ip_mac_match''"
| "method_text MacMatch = ''mac_match''"
| "method_text IpMatch = ''ip_match''"
| "method_text NameMatch = ''name_match''"

text \<open>The confidence, in hundredths\<close>

fun confidence :: "link_method \<Rightarrow> nat" where
  "confidence IpMacMatch = 99" | "confidence MacMatch = 97" | "confidence IpMatch = 88" | "confidence NameMatch = 65"

definition confidence_json :: "link_method \<Rightarrow> json" where
  "confidence_json m = JFloat (''0.'' @ show_nat (confidence m))"

section \<open>Names and addresses\<close>

definition name_char :: "char \<Rightarrow> bool" where
  "name_char c \<longleftrightarrow> is_digit c \<or> c \<in> set ''abcdefghijklmnopqrstuvwxyz''"

definition normalized_name :: "string \<Rightarrow> string" where
  "normalized_name v = filter name_char (lower (if prefix ''[Relatech] '' v then drop (length ''[Relatech] '') v else v))"

text \<open>\<open>needle in text\<close>\<close>

definition substring :: "string \<Rightarrow> string \<Rightarrow> bool" where
  "substring needle text \<longleftrightarrow> list_ex (prefix needle) (suffixes text)"

text \<open>\<open>for x in d.get(k, [])\<close>\<close>

definition items_of :: "dict \<Rightarrow> string \<Rightarrow> json list conv" where
  "items_of d k = (case map_of d k of None \<Rightarrow> Inr [] | Some v \<Rightarrow> py_iter v)"

definition addresses :: "dict \<Rightarrow> string \<Rightarrow> string list conv" where
  "addresses d k = bindR (items_of d k) (\<lambda>xs. Inr (map (\<lambda>x. lower (py_str x)) xs))"

definition concatR :: "('a \<Rightarrow> 'b list conv) \<Rightarrow> 'a list \<Rightarrow> 'b list conv" where
  "concatR f xs = bindR (mapR f xs) (\<lambda>yss. Inr (concat yss))"

definition vm_ips :: "dict \<Rightarrow> string list conv" where
  "vm_ips vm = bindR (items_of vm ''interfaces'') (concatR (\<lambda>i. bindR (as_dict i) (\<lambda>nic. addresses nic ''ip_addresses'')))"

definition vm_macs :: "dict \<Rightarrow> string list conv" where
  "vm_macs vm = bindR (items_of vm ''interfaces'') (concatR (\<lambda>i. bindR (as_dict i) (\<lambda>nic.
     let mac = get_item nic ''mac_address'' in Inr (if truthy mac then [lower (py_str mac)] else []))))"

definition operational_context :: "dict \<Rightarrow> dict conv" where
  "operational_context vm = (case map_of vm ''operational_context'' of None \<Rightarrow> Inr [] | Some v \<Rightarrow> as_dict v)"

definition eligible :: "dict \<Rightarrow> bool conv" where
  "eligible vm = bindR (operational_context vm) (\<lambda>c. Inr (get_item c ''kpi_scope'' \<noteq> JStr ''excluded_legacy''))"

definition eligible_vms :: "dict list \<Rightarrow> dict list conv" where
  "eligible_vms = concatR (\<lambda>vm. bindR (eligible vm) (\<lambda>b. Inr (if b then [vm] else [])))"

section \<open>Candidates\<close>

text \<open>A record with its addresses: those of a machine are sets, those of an asset lists.\<close>

record endpoint =
  ep_record :: dict
  ep_ips :: "string list"
  ep_macs :: "string list"

definition vm_endpoint :: "dict \<Rightarrow> endpoint conv" where
  "vm_endpoint vm = bindR (vm_ips vm) (\<lambda>ips. bindR (vm_macs vm) (\<lambda>macs. Inr \<lparr>ep_record = vm, ep_ips = ips, ep_macs = macs\<rparr>))"

definition asset_endpoint :: "dict \<Rightarrow> endpoint conv" where
  "asset_endpoint asset = bindR (addresses asset ''ip_addresses'') (\<lambda>ips. bindR (addresses asset ''mac_addresses'') (\<lambda>macs.
     Inr \<lparr>ep_record = asset, ep_ips = ips, ep_macs = macs\<rparr>))"

text \<open>How many machines have an address, and how often the assets list it.\<close>

definition vm_occurrences :: "(endpoint \<Rightarrow> string list) \<Rightarrow> endpoint list \<Rightarrow> string \<Rightarrow> nat" where
  "vm_occurrences f vms a = length (filter (\<lambda>v. a \<in> set (f v)) vms)"

definition asset_occurrences :: "(endpoint \<Rightarrow> string list) \<Rightarrow> endpoint list \<Rightarrow> string \<Rightarrow> nat" where
  "asset_occurrences f assets a = count_list (concat (map f assets)) a"

definition unique_shared :: "(endpoint \<Rightarrow> string list) \<Rightarrow> endpoint list \<Rightarrow> endpoint list \<Rightarrow> endpoint \<Rightarrow> endpoint \<Rightarrow> string list" where
  "unique_shared f vms assets vm asset =
     filter (\<lambda>a. a \<in> set (f vm) \<and> vm_occurrences f vms a = 1 \<and> asset_occurrences f assets a = 1) (f asset)"

definition asset_name :: "dict \<Rightarrow> string" where
  "asset_name asset = normalized_name (py_str (or_else (get_item asset ''name'') (JStr [])))"

definition name_match :: "dict \<Rightarrow> dict \<Rightarrow> bool conv" where
  "name_match vm asset =
     (if asset_name asset = [] then Inr False
      else bindR (required_item vm ''name'') (\<lambda>v. case v of
        JStr n \<Rightarrow> Inr (substring (asset_name asset) (normalized_name n) \<or> substring (normalized_name n) (asset_name asset))
      | _ \<Rightarrow> Inl BadShape))"

definition link_method_of :: "endpoint list \<Rightarrow> endpoint list \<Rightarrow> endpoint \<Rightarrow> endpoint \<Rightarrow> link_method option conv" where
  "link_method_of vms assets vm asset =
     bindR (name_match (ep_record vm) (ep_record asset)) (\<lambda>named.
     let macs = unique_shared ep_macs vms assets vm asset \<noteq> []; ips = unique_shared ep_ips vms assets vm asset \<noteq> [] in
     Inr (if macs \<and> ips then Some IpMacMatch else if macs then Some MacMatch else if ips then Some IpMatch
          else if named then Some NameMatch else None))"

definition text_item :: "dict \<Rightarrow> string \<Rightarrow> string conv" where
  "text_item d k = bindR (required_item d k) (\<lambda>v. case v of JStr s \<Rightarrow> Inr s | _ \<Rightarrow> Inl BadShape)"

record candidate =
  cd_method :: link_method
  cd_vm_id :: string
  cd_asset_id :: string
  cd_vm :: endpoint
  cd_asset :: endpoint

definition candidate_of :: "endpoint list \<Rightarrow> endpoint list \<Rightarrow> endpoint \<Rightarrow> endpoint \<Rightarrow> candidate list conv" where
  "candidate_of vms assets asset vm = bindR (link_method_of vms assets vm asset) (\<lambda>r. case r of
     None \<Rightarrow> Inr []
   | Some m \<Rightarrow> bindR (text_item (ep_record vm) ''id'') (\<lambda>i. bindR (text_item (ep_record asset) ''id'') (\<lambda>j.
       Inr [\<lparr>cd_method = m, cd_vm_id = i, cd_asset_id = j, cd_vm = vm, cd_asset = asset\<rparr>])))"

definition candidates :: "endpoint list \<Rightarrow> endpoint list \<Rightarrow> candidate list conv" where
  "candidates vms assets = concatR (\<lambda>asset. concatR (candidate_of vms assets asset) vms) assets"

section \<open>The matching\<close>

text \<open>The best candidate of a group, unless two are equally good.\<close>

definition strict_best :: "candidate list \<Rightarrow> candidate option" where
  "strict_best cs = (case sort_key (\<lambda>c. - int (confidence (cd_method c))) cs of
     [] \<Rightarrow> None
   | [c] \<Rightarrow> Some c
   | c # d # _ \<Rightarrow> if confidence (cd_method c) = confidence (cd_method d) then None else Some c)"

definition best_by :: "(candidate \<Rightarrow> string) \<Rightarrow> candidate list \<Rightarrow> candidate list" where
  "best_by key cs = List.map_filter (\<lambda>k. strict_best (filter (\<lambda>c. key c = k) cs)) (remdups (map key cs))"

definition matching :: "candidate list \<Rightarrow> candidate list" where
  "matching cs = sort_key cd_vm_id (sort_key cd_asset_id (best_by cd_vm_id (best_by cd_asset_id cs)))"

section \<open>Links\<close>

definition identity_evidence :: "string \<Rightarrow> string \<Rightarrow> string \<Rightarrow> string \<Rightarrow> string list \<Rightarrow> json" where
  "identity_evidence source_id record_id truth fetched_at notes =
     JObj [(''source_id'', JStr source_id), (''source_record_id'', JStr record_id), (''truth'', JStr truth),
       (''observed_at'', JStr fetched_at), (''fetched_at'', JStr fetched_at), (''completeness'', JFloat ''1.0''),
       (''notes'', JArr (map JStr notes))]"

record identity_config =
  ic_fetched_at :: string
  ic_collector :: string
  ic_operator :: "string option"
  ic_confirmed :: "(string \<times> string) list"

text \<open>Normalised names with their addresses; of equal names the later one counts.\<close>

definition confirmed_vm_ipv4 :: "identity_config \<Rightarrow> (string \<times> string) list" where
  "confirmed_vm_ipv4 C = fold (\<lambda>(n, a) d. AList.update (normalized_name n) (lower a) d) (ic_confirmed C) []"

definition confirmation :: "identity_config \<Rightarrow> string \<Rightarrow> candidate \<Rightarrow> string option" where
  "confirmation C vm_name c = (case map_of (confirmed_vm_ipv4 C) (normalized_name vm_name) of
     None \<Rightarrow> None
   | Some ip \<Rightarrow> if ic_operator C \<noteq> None \<and> the (ic_operator C) \<noteq> [] \<and> ip \<noteq> [] \<and> ip \<in> set (ep_ips (cd_asset c)) \<and> cd_method c \<noteq> NameMatch
               then Some ip else None)"

definition link_json :: "candidate \<Rightarrow> json \<Rightarrow> json \<Rightarrow> json \<Rightarrow> string \<Rightarrow> json" where
  "link_json c evidence method score status =
     JObj [(''id'', JStr (''identity:'' @ cd_vm_id c @ '':'' @ cd_asset_id c)), (''evidence'', evidence),
       (''virtual_machine_id'', JStr (cd_vm_id c)), (''asset_id'', JStr (cd_asset_id c)),
       (''method'', method), (''confidence'', score), (''status'', JStr status)]"

definition confirmed_link :: "identity_config \<Rightarrow> string \<Rightarrow> string \<Rightarrow> candidate \<Rightarrow> json" where
  "confirmed_link C vm_name ip c = link_json c
     (identity_evidence (the (ic_operator C)) (''operator-confirmation:vm-ip:'' @ normalized_name vm_name) ''real'' (ic_fetched_at C)
       [''Corrispondenza VM<->asset confermata dal responsabile DTLab sulla base dell'' @ [CHR 0x27] @ ''indirizzo OT '' @ ip @ ''.'',
        ''Il riscontro live uno-a-uno usa anche il metodo '' @ method_text (cd_method c) @ ''.''])
     (JStr ''operator_confirmed'') (JFloat ''1.0'') ''confirmed''"

definition proposed_link :: "identity_config \<Rightarrow> bool \<Rightarrow> candidate \<Rightarrow> json" where
  "proposed_link C official c = link_json c
     (identity_evidence (ic_collector C) (''identity-resolution:'' @ method_text (cd_method c)) ''observed'' (ic_fetched_at C)
       ((''Collegamento bipartito uno-a-uno derivato; la coppia non '' @ [CHR 0xE8] @ '' ancora confermata da un operatore.'')
        # (if official then [''PLC-Desktop '' @ [CHR 0xE8] @ '' il target PLC ufficiale; l'' @ [CHR 0x27] @ ''ID asset Cisco resta proposto.''] else [])))
     (JStr (method_text (cd_method c))) (confidence_json (cd_method c)) ''proposed''"

definition link_of :: "identity_config \<Rightarrow> candidate \<Rightarrow> json conv" where
  "link_of C c =
     bindR (required_item (ep_record (cd_vm c)) ''name'') (\<lambda>name.
     bindR (operational_context (ep_record (cd_vm c))) (\<lambda>context.
     Inr (case confirmation C (py_str name) c of
            Some ip \<Rightarrow> confirmed_link C (py_str name) ip c
          | None \<Rightarrow> proposed_link C (get_item context ''official_target'' = JBool True) c)))"

definition resolve_vm_asset_identities :: "identity_config \<Rightarrow> dict list \<Rightarrow> dict list \<Rightarrow> json list conv" where
  "resolve_vm_asset_identities C virtual_machines assets =
     bindR (eligible_vms virtual_machines) (\<lambda>vms.
     bindR (mapR vm_endpoint vms) (\<lambda>vm_ends.
     bindR (mapR asset_endpoint assets) (\<lambda>asset_ends.
     bindR (candidates vm_ends asset_ends) (\<lambda>cs.
     mapR (link_of C) (matching cs)))))"

end
