(* ===== verification/IdentityProperties.thy ===== *)
theory IdentityProperties
  imports Identity
begin

text \<open>
  What the identity resolution guarantees: its links are a matching, and each of them rests on what
  its method says.
\<close>

section \<open>Traversals\<close>

lemma mapR_list: "mapR f xs = Inr ys \<longleftrightarrow> list_all2 (\<lambda>x y. f x = Inr y) xs ys"
proof (induction xs arbitrary: ys)
  case (Cons x xs)
  show ?case by (cases ys) (auto simp: bindR_eq_Inr Cons.IH)
qed auto

lemma mapR_source: "mapR f xs = Inr ys \<Longrightarrow> y \<in> set ys \<Longrightarrow> \<exists>x \<in> set xs. f x = Inr y"
  by (induction xs arbitrary: ys) (auto simp: bindR_eq_Inr)

lemma mapR_result: "mapR f xs = Inr ys \<Longrightarrow> x \<in> set xs \<Longrightarrow> \<exists>y \<in> set ys. f x = Inr y"
  by (induction xs arbitrary: ys) (auto simp: bindR_eq_Inr)

lemma mapR_keys: "mapR f xs = Inr ys \<Longrightarrow> (\<And>x y. f x = Inr y \<Longrightarrow> g y = h x) \<Longrightarrow> map g ys = map h xs"
  by (auto simp: mapR_list list_all2_conv_all_nth intro: nth_equalityI)

lemma concatR_source: "concatR f xs = Inr ys \<Longrightarrow> y \<in> set ys \<Longrightarrow> \<exists>x \<in> set xs. \<exists>zs. f x = Inr zs \<and> y \<in> set zs"
  by (fastforce simp: concatR_def bindR_eq_Inr dest: mapR_source)

lemma concatR_result: "concatR f xs = Inr ys \<Longrightarrow> x \<in> set xs \<Longrightarrow> \<exists>zs. f x = Inr zs \<and> set zs \<subseteq> set ys"
  by (auto simp: concatR_def bindR_eq_Inr dest!: mapR_result)

lemma eligible_set: "eligible_vms vms = Inr es \<Longrightarrow> set es = {vm \<in> set vms. eligible vm = Inr True}"
proof -
  assume r: "eligible_vms vms = Inr es"
  have "vm \<in> set vms \<and> eligible vm = Inr True" if "vm \<in> set es" for vm
    using concatR_source [OF r [unfolded eligible_vms_def] that] by (auto simp: bindR_eq_Inr split: if_splits)
  moreover have "vm \<in> set es" if "vm \<in> set vms" "eligible vm = Inr True" for vm
    using concatR_result [OF r [unfolded eligible_vms_def] that(1)] that(2) by auto
  ultimately show ?thesis by blast
qed

section \<open>The matching\<close>

lemma strict_best_Some:
  assumes "strict_best cs = Some c"
  shows "c \<in> set cs \<and> (\<forall>d \<in> set cs. d = c \<or> confidence (cd_method d) < confidence (cd_method c))"
proof -
  let ?s = "sort_key (\<lambda>c. - int (confidence (cd_method c))) cs"
  have set: "set ?s = set cs" and sorted: "sorted (map (\<lambda>c. - int (confidence (cd_method c))) ?s)" by simp_all
  consider "?s = [c]" | d ds where "?s = c # d # ds" "confidence (cd_method c) \<noteq> confidence (cd_method d)"
    using assms by (auto simp: strict_best_def split: list.splits if_splits)
  then show ?thesis
  proof cases
    case 1
    then show ?thesis using set by auto
  next
    case 2
    have "confidence (cd_method e) < confidence (cd_method c)" if "e \<in> set (d # ds)" for e
      using sorted 2 that unfolding 2 by auto
    then show ?thesis using set unfolding 2 by auto
  qed
qed

lemma strict_best_in: "strict_best cs = Some c \<Longrightarrow> c \<in> set cs"
  using strict_best_Some by blast

lemma best_by_mem: "c \<in> set (best_by key cs) \<longleftrightarrow> strict_best (filter (\<lambda>d. key d = key c) cs) = Some c"
proof -
  have "c \<in> set cs" "key c = k" if "strict_best (filter (\<lambda>d. key d = k) cs) = Some c" for k
    using strict_best_in [OF that] by auto
  then show ?thesis by (force simp: best_by_def List.map_filter_def)
qed

lemma best_by_subset: "set (best_by key cs) \<subseteq> set cs"
  using strict_best_in by (fastforce simp: best_by_mem)

lemma distinct_map_filter:
  assumes "distinct ks" and "\<And>k c. f k = Some c \<Longrightarrow> key c = k"
  shows "distinct (map key (List.map_filter f ks))"
  using assms by (induction ks) (fastforce simp: List.map_filter_simps List.map_filter_def split: option.splits)+

lemma best_by_distinct: "distinct (map key (best_by key cs))"
  unfolding best_by_def by (rule distinct_map_filter) (use strict_best_in in fastforce)+

lemma best_by_inj: "inj_on key (set (best_by key cs))"
  using best_by_distinct [of key cs] by (simp add: distinct_map)

lemma matching_set: "set (matching cs) = set (best_by cd_vm_id (best_by cd_asset_id cs))"
  by (simp add: matching_def)

lemma matching_distinct: "distinct (map cd_vm_id (matching cs))" "distinct (map cd_asset_id (matching cs))"
proof -
  let ?b = "best_by cd_vm_id (best_by cd_asset_id cs)"
  have d: "distinct ?b" using best_by_distinct [of cd_vm_id "best_by cd_asset_id cs"] by (simp add: distinct_map)
  then have m: "distinct (matching cs)" by (simp add: matching_def)
  show "distinct (map cd_vm_id (matching cs))"
    using m best_by_inj [of cd_vm_id "best_by cd_asset_id cs"] by (simp add: distinct_map matching_set)
  have "inj_on cd_asset_id (set ?b)" using best_by_inj best_by_subset by (rule inj_on_subset)
  then show "distinct (map cd_asset_id (matching cs))" using m by (simp add: distinct_map matching_set)
qed

lemma matching_mem: "c \<in> set (matching cs) \<Longrightarrow> c \<in> set cs"
  using best_by_subset matching_set by blast

lemma matching_best:
  assumes "c \<in> set (matching cs)" "d \<in> set cs" "cd_asset_id d = cd_asset_id c"
  shows "d = c \<or> confidence (cd_method d) < confidence (cd_method c)"
proof -
  have "c \<in> set (best_by cd_asset_id cs)" using assms(1) best_by_subset by (auto simp: matching_set)
  then show ?thesis using strict_best_Some assms(2,3) by (fastforce simp: best_by_mem)
qed

section \<open>What a link rests on\<close>

lemma candidate_of_source:
  assumes "candidate_of vms assets asset vm = Inr t" "c \<in> set t"
  shows "cd_vm c = vm \<and> cd_asset c = asset \<and> link_method_of vms assets vm asset = Inr (Some (cd_method c))
    \<and> text_item (ep_record vm) ''id'' = Inr (cd_vm_id c) \<and> text_item (ep_record asset) ''id'' = Inr (cd_asset_id c)"
proof -
  obtain r where r: "link_method_of vms assets vm asset = Inr r" using assms(1) by (auto simp: candidate_of_def bindR_eq_Inr)
  then obtain m where m: "r = Some m" using assms by (cases r) (simp_all add: candidate_of_def)
  obtain i j where ids: "text_item (ep_record vm) ''id'' = Inr i" "text_item (ep_record asset) ''id'' = Inr j"
    using assms(1) r m by (auto simp: candidate_of_def bindR_eq_Inr)
  then have "t = [\<lparr>cd_method = m, cd_vm_id = i, cd_asset_id = j, cd_vm = vm, cd_asset = asset\<rparr>]"
    using assms(1) r m by (simp add: candidate_of_def)
  then show ?thesis using assms(2) r m ids by simp
qed

lemma candidates_source:
  assumes "candidates vms assets = Inr cs" "c \<in> set cs"
  shows "cd_vm c \<in> set vms" "cd_asset c \<in> set assets"
    "link_method_of vms assets (cd_vm c) (cd_asset c) = Inr (Some (cd_method c))"
    "text_item (ep_record (cd_vm c)) ''id'' = Inr (cd_vm_id c)" "text_item (ep_record (cd_asset c)) ''id'' = Inr (cd_asset_id c)"
proof -
  obtain asset r where asset: "asset \<in> set assets" "concatR (candidate_of vms assets asset) vms = Inr r" "c \<in> set r"
    using concatR_source [OF assms(1) [unfolded candidates_def] assms(2)] by blast
  obtain vm t where vm: "vm \<in> set vms" "candidate_of vms assets asset vm = Inr t" "c \<in> set t"
    using concatR_source [OF asset(2,3)] by blast
  have "cd_vm c = vm" "cd_asset c = asset" "link_method_of vms assets vm asset = Inr (Some (cd_method c))"
    "text_item (ep_record vm) ''id'' = Inr (cd_vm_id c)" "text_item (ep_record asset) ''id'' = Inr (cd_asset_id c)"
    using candidate_of_source [OF vm(2,3)] by simp_all
  then show "cd_vm c \<in> set vms" "cd_asset c \<in> set assets"
    "link_method_of vms assets (cd_vm c) (cd_asset c) = Inr (Some (cd_method c))"
    "text_item (ep_record (cd_vm c)) ''id'' = Inr (cd_vm_id c)" "text_item (ep_record (cd_asset c)) ''id'' = Inr (cd_asset_id c)"
    using vm(1) asset(1) by simp_all
qed

text \<open>An address that a machine and an asset share, and that no other machine and no other asset has.\<close>

definition has :: "string list conv \<Rightarrow> string \<Rightarrow> bool" where
  "has r a \<longleftrightarrow> (\<exists>xs. r = Inr xs \<and> a \<in> set xs)"

definition sole_address ::
  "(dict \<Rightarrow> string list conv) \<Rightarrow> (dict \<Rightarrow> string list conv) \<Rightarrow> dict list \<Rightarrow> dict list \<Rightarrow> dict \<Rightarrow> dict \<Rightarrow> string \<Rightarrow> bool" where
  "sole_address fv fa vms assets vm asset a \<longleftrightarrow> has (fv vm) a \<and> has (fa asset) a
     \<and> (\<forall>other \<in> set vms. eligible other = Inr True \<longrightarrow> has (fv other) a \<longrightarrow> other = vm)
     \<and> (\<forall>other \<in> set assets. has (fa other) a \<longrightarrow> other = asset)"

lemma single:
  assumes "length (filter P xs) = 1" and "x \<in> set xs" "P x" "y \<in> set xs" "P y" shows "x = y"
proof -
  obtain z where z: "filter P xs = [z]" using assms(1) by (auto simp: length_Suc_conv)
  have "x \<in> set (filter P xs)" "y \<in> set (filter P xs)" using assms(2-5) by simp_all
  then show ?thesis unfolding z by simp
qed

lemma counted_once:
  "count_list (concat (map f xs)) a = 1 \<Longrightarrow> x \<in> set xs \<Longrightarrow> a \<in> set (f x) \<Longrightarrow> y \<in> set xs \<Longrightarrow> a \<in> set (f y) \<Longrightarrow> x = y"
proof (induction xs)
  case (Cons z zs)
  have zs: "a \<in> set (concat (map f zs))" if "w \<in> set zs" "a \<in> set (f w)" for w using that by auto
  show ?case
  proof (cases "a \<in> set (f z)")
    case True
    then have "count_list (f z) a \<noteq> 0" by (simp add: count_list_0_iff)
    then have "count_list (concat (map f zs)) a = 0" using Cons.prems(1) by simp
    then have "a \<notin> set (concat (map f zs))" by (simp add: count_list_0_iff)
    then show ?thesis using Cons.prems zs by auto
  next
    case False
    then have "count_list (f z) a = 0" by (simp add: count_list_0_iff)
    then show ?thesis using Cons False by auto
  qed
qed simp

lemma unique_shared_sole:
  assumes a: "a \<in> set (unique_shared f vms assets vm asset)" and "vm \<in> set vms" "asset \<in> set assets"
    and vms: "mapR vm_endpoint es = Inr vms" and assets: "mapR asset_endpoint records = Inr assets"
    and fv: "\<And>r e. vm_endpoint r = Inr e \<Longrightarrow> ep_record e = r \<and> fv r = Inr (f e)"
    and fa: "\<And>r e. asset_endpoint r = Inr e \<Longrightarrow> ep_record e = r \<and> fa r = Inr (f e)"
    and es: "set es = {vm \<in> set all_vms. eligible vm = Inr True}"
  shows "sole_address fv fa all_vms records (ep_record vm) (ep_record asset) a"
proof -
  have vm: "fv (ep_record vm) = Inr (f vm)" using mapR_source [OF vms assms(2)] fv by metis
  have asset: "fa (ep_record asset) = Inr (f asset)" using mapR_source [OF assets assms(3)] fa by metis
  have shared: "a \<in> set (f vm)" "a \<in> set (f asset)" "vm_occurrences f vms a = 1" "asset_occurrences f assets a = 1"
    using a by (auto simp: unique_shared_def)
  have "other = ep_record vm" if "other \<in> set all_vms" "eligible other = Inr True" "has (fv other) a" for other
  proof -
    have "other \<in> set es" using that es by simp
    from mapR_result [OF vms this] obtain e where e: "e \<in> set vms" "vm_endpoint other = Inr e" by blast
    then have "a \<in> set (f e)" using fv that(3) by (auto simp: has_def)
    then have "e = vm" using single [OF shared(3) [unfolded vm_occurrences_def]] e(1) assms(2) shared(1) by blast
    then show ?thesis using fv e(2) by blast
  qed
  moreover have "other = ep_record asset" if "other \<in> set records" "has (fa other) a" for other
  proof -
    from mapR_result [OF assets that(1)] obtain e where e: "e \<in> set assets" "asset_endpoint other = Inr e" by blast
    then have "a \<in> set (f e)" using fa that(2) by (auto simp: has_def)
    then have "e = asset" using counted_once [OF shared(4) [unfolded asset_occurrences_def]] e(1) assms(3) shared(2) by blast
    then show ?thesis using fa e(2) by blast
  qed
  ultimately show ?thesis using vm asset shared(1,2) by (auto simp: sole_address_def has_def)
qed

lemma method_source:
  assumes "link_method_of vms assets vm asset = Inr (Some m)" "m \<noteq> NameMatch"
  shows "\<exists>a. a \<in> set (unique_shared ep_ips vms assets vm asset) \<or> a \<in> set (unique_shared ep_macs vms assets vm asset)"
proof -
  have "unique_shared ep_ips vms assets vm asset \<noteq> [] \<or> unique_shared ep_macs vms assets vm asset \<noteq> []"
    using assms by (auto simp: link_method_of_def bindR_eq_Inr Let_def split: if_splits)
  then show ?thesis using hd_in_set by blast
qed

lemma endpoint_fields:
  "vm_endpoint r = Inr e \<Longrightarrow> ep_record e = r \<and> vm_ips r = Inr (ep_ips e) \<and> vm_macs r = Inr (ep_macs e)"
  "asset_endpoint r = Inr e \<Longrightarrow> ep_record e = r \<and> addresses r ''ip_addresses'' = Inr (ep_ips e) \<and> addresses r ''mac_addresses'' = Inr (ep_macs e)"
  by (auto simp: vm_endpoint_def asset_endpoint_def bindR_eq_Inr)

lemma link_json_items [simp]:
  "jget (link_json c e m x s) ''virtual_machine_id'' = JStr (cd_vm_id c)" "jget (link_json c e m x s) ''asset_id'' = JStr (cd_asset_id c)"
  "jget (link_json c e m x s) ''method'' = m" "jget (link_json c e m x s) ''status'' = JStr s"
  by (simp_all add: link_json_def jget_def get_item_def)

lemma method_text_own: "method_text m \<noteq> ''operator_confirmed''" "method_text m = ''name_match'' \<longleftrightarrow> m = NameMatch"
  by (cases m; simp)+

lemma link_parts:
  assumes "link_of C c = Inr l"
  shows "jget l ''virtual_machine_id'' = JStr (cd_vm_id c)" "jget l ''asset_id'' = JStr (cd_asset_id c)"
    "jget l ''status'' = JStr ''confirmed'' \<longleftrightarrow> jget l ''method'' = JStr ''operator_confirmed''"
    "jget l ''method'' \<noteq> JStr ''name_match'' \<Longrightarrow> cd_method c \<noteq> NameMatch"
    "jget l ''status'' = JStr ''confirmed'' \<Longrightarrow> \<exists>ip. map_of (confirmed_vm_ipv4 C) (normalized_name (py_str (get_item (ep_record (cd_vm c)) ''name''))) = Some ip
       \<and> ip \<in> set (ep_ips (cd_asset c))"
proof -
  obtain name ctx where name: "map_of (ep_record (cd_vm c)) ''name'' = Some name"
      and l: "l = (case confirmation C (py_str name) c of Some ip \<Rightarrow> confirmed_link C (py_str name) ip c
          | None \<Rightarrow> proposed_link C (get_item ctx ''official_target'' = JBool True) c)"
    using assms unfolding link_of_def bindR_eq_Inr required_item_def by (cases "map_of (ep_record (cd_vm c)) ''name''") auto
  have item: "get_item (ep_record (cd_vm c)) ''name'' = name" using name by (simp add: get_item_def)
  note defs = l confirmed_link_def proposed_link_def method_text_own
  show "jget l ''virtual_machine_id'' = JStr (cd_vm_id c)" "jget l ''asset_id'' = JStr (cd_asset_id c)"
    "jget l ''status'' = JStr ''confirmed'' \<longleftrightarrow> jget l ''method'' = JStr ''operator_confirmed''"
    by (simp_all add: defs split: option.split)
  show "cd_method c \<noteq> NameMatch" if "jget l ''method'' \<noteq> JStr ''name_match''"
    using that by (auto simp: defs confirmation_def split: option.splits if_splits)
  show "\<exists>ip. map_of (confirmed_vm_ipv4 C) (normalized_name (py_str (get_item (ep_record (cd_vm c)) ''name''))) = Some ip \<and> ip \<in> set (ep_ips (cd_asset c))"
    if "jget l ''status'' = JStr ''confirmed''"
    using that unfolding item by (auto simp: defs confirmation_def split: option.splits if_splits)
qed

lemma text_item_get: "text_item d k = Inr s \<Longrightarrow> get_item d k = JStr s"
  by (auto simp: text_item_def required_item_def bindR_eq_Inr get_item_def split: option.splits json.splits)

text \<open>C39: The identity links are a matching of machines and assets that rests on evidence. No machine and no
  asset occurs in two links; a linked machine is in scope; a link whose method is not the name rests on an
  IP or MAC address that this machine and this asset share and that no other machine in scope and no
  other asset has; and a link is confirmed only if the operator's table gives the machine an address of
  the asset.\<close>

theorem identity_links_sound:
  assumes "resolve_vm_asset_identities C vms assets = Inr links"
  shows "distinct (map (\<lambda>l. jget l ''virtual_machine_id'') links) \<and> distinct (map (\<lambda>l. jget l ''asset_id'') links)
    \<and> (\<forall>l \<in> set links. \<exists>vm \<in> set vms. \<exists>asset \<in> set assets. eligible vm = Inr True
        \<and> get_item vm ''id'' = jget l ''virtual_machine_id'' \<and> get_item asset ''id'' = jget l ''asset_id''
        \<and> (jget l ''method'' \<noteq> JStr ''name_match'' \<longrightarrow> (\<exists>a. sole_address vm_ips (\<lambda>d. addresses d ''ip_addresses'') vms assets vm asset a
             \<or> sole_address vm_macs (\<lambda>d. addresses d ''mac_addresses'') vms assets vm asset a))
        \<and> (jget l ''status'' = JStr ''confirmed'' \<longleftrightarrow> jget l ''method'' = JStr ''operator_confirmed'')
        \<and> (jget l ''status'' = JStr ''confirmed'' \<longrightarrow> (\<exists>ip. map_of (confirmed_vm_ipv4 C) (normalized_name (py_str (get_item vm ''name''))) = Some ip
             \<and> has (addresses asset ''ip_addresses'') ip)))"
    (is "_ \<and> _ \<and> (\<forall>l \<in> _. ?ok l)")
proof -
  obtain es vm_ends asset_ends cs where es: "eligible_vms vms = Inr es" and ends: "mapR vm_endpoint es = Inr vm_ends" "mapR asset_endpoint assets = Inr asset_ends"
      and cs: "candidates vm_ends asset_ends = Inr cs" and links: "mapR (link_of C) (matching cs) = Inr links"
    using assms by (auto simp: resolve_vm_asset_identities_def bindR_eq_Inr)
  have keys: "map (\<lambda>l. jget l ''virtual_machine_id'') links = map (JStr \<circ> cd_vm_id) (matching cs)"
    "map (\<lambda>l. jget l ''asset_id'') links = map (JStr \<circ> cd_asset_id) (matching cs)"
    by (rule mapR_keys [OF links]; simp add: link_parts(1,2))+
  have "distinct (map (\<lambda>l. jget l ''virtual_machine_id'') links)" "distinct (map (\<lambda>l. jget l ''asset_id'') links)"
    unfolding keys using matching_distinct [of cs] by (auto simp: distinct_map inj_on_def)
  moreover have "?ok l"
    if l: "l \<in> set links" for l
  proof -
    from mapR_source [OF links l] obtain c where c: "c \<in> set (matching cs)" "link_of C c = Inr l" by blast
    note source = candidates_source [OF cs matching_mem [OF c(1)]] and parts = link_parts [OF c(2)]
    obtain vm where vm: "vm \<in> set es" "vm_endpoint vm = Inr (cd_vm c)" using mapR_source [OF ends(1) source(1)] by blast
    obtain asset where asset: "asset \<in> set assets" "asset_endpoint asset = Inr (cd_asset c)" using mapR_source [OF ends(2) source(2)] by blast
    note fields = endpoint_fields(1) [OF vm(2)] endpoint_fields(2) [OF asset(2)]
    have in_vms: "vm \<in> set vms" "eligible vm = Inr True" using vm(1) eligible_set [OF es] by auto
    have sole: "\<exists>a. sole_address vm_ips (\<lambda>d. addresses d ''ip_addresses'') vms assets vm asset a
        \<or> sole_address vm_macs (\<lambda>d. addresses d ''mac_addresses'') vms assets vm asset a" if "jget l ''method'' \<noteq> JStr ''name_match''"
    proof -
      note unique = unique_shared_sole [OF _ source(1,2) ends _ _ eligible_set [OF es]]
      have ip: "sole_address vm_ips (\<lambda>d. addresses d ''ip_addresses'') vms assets vm asset a"
        if "a \<in> set (unique_shared ep_ips vm_ends asset_ends (cd_vm c) (cd_asset c))" for a
        using unique [OF that, of vm_ips "\<lambda>d. addresses d ''ip_addresses''"] endpoint_fields fields by simp
      have mac: "sole_address vm_macs (\<lambda>d. addresses d ''mac_addresses'') vms assets vm asset a"
        if "a \<in> set (unique_shared ep_macs vm_ends asset_ends (cd_vm c) (cd_asset c))" for a
        using unique [OF that, of vm_macs "\<lambda>d. addresses d ''mac_addresses''"] endpoint_fields fields by simp
      show ?thesis using method_source [OF source(3) parts(4) [OF that]] ip mac by blast
    qed
    show ?thesis
      using in_vms asset(1) sole parts text_item_get [OF source(4)] text_item_get [OF source(5)] fields
      by (intro bexI [of _ vm] bexI [of _ asset] conjI impI) (auto simp: has_def)
  qed
  ultimately show ?thesis by blast
qed

text \<open>The operator's table names the PLC desktop; a legacy machine with the same address does not count.\<close>

definition match_config :: identity_config where
  "match_config = \<lparr>ic_fetched_at = ''t'', ic_collector = ''src:collector'', ic_operator = Some ''src:operator'',
     ic_confirmed = [(''PLC-Desktop'', ''10.0.0.1'')]\<rparr>"

definition match_vm :: "string \<Rightarrow> string \<Rightarrow> string \<Rightarrow> dict" where
  "match_vm i name scope = [(''id'', JStr i), (''name'', JStr name), (''operational_context'', JObj [(''kpi_scope'', JStr scope)]),
     (''interfaces'', JArr [JObj [(''mac_address'', JStr ''AA:01''), (''ip_addresses'', JArr [JStr ''10.0.0.1''])]])]"

definition match_asset :: dict where
  "match_asset = [(''id'', JStr ''asset-1''), (''name'', JStr ''PLC''), (''ip_addresses'', JArr [JStr ''10.0.0.1'']), (''mac_addresses'', JArr [])]"

definition match_candidate :: candidate where
  "match_candidate = \<lparr>cd_method = IpMatch, cd_vm_id = ''vm-1'', cd_asset_id = ''asset-1'',
     cd_vm = \<lparr>ep_record = match_vm ''vm-1'' ''PLC-Desktop'' ''lab'', ep_ips = [''10.0.0.1''], ep_macs = [''aa:01'']\<rparr>,
     cd_asset = \<lparr>ep_record = match_asset, ep_ips = [''10.0.0.1''], ep_macs = []\<rparr>\<rparr>"

lemma match_resolved:
  "resolve_vm_asset_identities match_config [match_vm ''vm-1'' ''PLC-Desktop'' ''lab'', match_vm ''vm-2'' ''PLC-Desktop'' ''excluded_legacy''] [match_asset]
     = Inr [confirmed_link match_config ''PLC-Desktop'' ''10.0.0.1'' match_candidate]"
  by code_simp

theorem identity_links_sound_witness:
  "\<exists>l a. resolve_vm_asset_identities match_config [match_vm ''vm-1'' ''PLC-Desktop'' ''lab'', match_vm ''vm-2'' ''PLC-Desktop'' ''excluded_legacy''] [match_asset] = Inr [l]
     \<and> jget l ''status'' = JStr ''confirmed'' \<and> has (addresses match_asset ''ip_addresses'') a"
  using identity_links_sound [OF match_resolved] match_resolved by (auto simp: confirmed_link_def)



end
