(* ===== verification/Assembly.thy ===== *)
theory Assembly
  imports Identity Float64
begin

text \<open>
  \<open>assembly.py\<close>: one snapshot out of what the adapters deliver, with the identity links, the coverage and
  quality figures and the state of the synchronisation. \<open>esxi\<close> and \<open>cybervision\<close> are the documents of the
  adapters; a member they lack ends in an exception, \<open>BadShape\<close>. The quality score is computed in doubles.
\<close>

datatype assembly_error = Malformed conversion_error | NaiveTimestamp

definition shaped :: "'a conv \<Rightarrow> assembly_error + 'a" where
  "shaped r = (case r of Inl e \<Rightarrow> Inl (Malformed e) | Inr x \<Rightarrow> Inr x)"

definition operator_source_id :: string where "operator_source_id = ''src:operator:dtlab''"
definition collector_source_id :: string where "collector_source_id = ''src:collector:dtlab''"
definition collector_version :: string where "collector_version = ''2.0.0.dev0''"

definition operator_confirmed_vm_ipv4 :: "(string \<times> string) list" where
  "operator_confirmed_vm_ipv4 = [(''HMI-Ubuntu'', ''172.16.10.20''), (''Kali-Linux'', ''172.16.10.30''), (''PLC-Desktop'', ''172.16.10.10'')]"

definition aware_text :: "pydt \<Rightarrow> assembly_error + string" where
  "aware_text v = (case v of Aware t \<Rightarrow> Inr (utc_text t) | Naive _ \<Rightarrow> Inl NaiveTimestamp)"

definition source_evidence :: "string \<Rightarrow> string \<Rightarrow> string \<Rightarrow> string \<Rightarrow> json \<Rightarrow> json" where
  "source_evidence source_id record_id truth fetched_at completeness =
     JObj [(''source_id'', JStr source_id), (''source_record_id'', JStr record_id), (''truth'', JStr truth),
       (''observed_at'', if truth \<noteq> ''unavailable'' then JStr fetched_at else JNull), (''fetched_at'', JStr fetched_at),
       (''completeness'', completeness), (''notes'', JArr [])]"

definition real_evidence :: "string \<Rightarrow> string \<Rightarrow> string \<Rightarrow> json" where
  "real_evidence source_id record_id fetched_at = source_evidence source_id record_id ''real'' fetched_at (JFloat ''1.0'')"

definition operator_source :: "string \<Rightarrow> json" where
  "operator_source fetched_at =
     JObj [(''id'', JStr operator_source_id), (''evidence'', real_evidence operator_source_id ''operator-confirmations'' fetched_at),
       (''label'', JStr ''Conferme operative DTLab''), (''type'', JStr ''operator''),
       (''endpoint_label'', JStr ''Conferme del responsabile del laboratorio''), (''status'', JStr ''connected''), (''version'', JNull),
       (''last_attempt_at'', JStr fetched_at), (''last_success_at'', JStr fetched_at),
       (''record_counts'', JObj [(''operational_context'', JInt 5), (''identity_confirmations'', JInt (int (length operator_confirmed_vm_ipv4)))]),
       (''capabilities'', JObj []), (''error'', JNull)]"

text \<open>The source document with the number of identity links that \<open>assemble_snapshot\<close> adds to it\<close>

definition collector_source :: "string \<Rightarrow> nat \<Rightarrow> json" where
  "collector_source fetched_at links =
     JObj [(''id'', JStr collector_source_id), (''evidence'', real_evidence collector_source_id ''collector-runtime'' fetched_at),
       (''label'', JStr ''DTLab Collector''), (''type'', JStr ''other''),
       (''endpoint_label'', JStr ''Collector locale su postazione VPN''), (''status'', JStr ''connected''), (''version'', JStr collector_version),
       (''last_attempt_at'', JStr fetched_at), (''last_success_at'', JStr fetched_at),
       (''record_counts'', JObj [(''identity_links'', JInt (int links))]), (''capabilities'', JObj []), (''error'', JNull)]"

definition unavailable_cybervision_source :: "string \<Rightarrow> string \<Rightarrow> string \<Rightarrow> json" where
  "unavailable_cybervision_source fetched_at error_code status =
     JObj [(''id'', JStr ''src:cisco-cyber-vision:dtlab-01''),
       (''evidence'', source_evidence ''src:cisco-cyber-vision:dtlab-01'' ''classic:version'' ''unavailable'' fetched_at (JInt 0)),
       (''label'', JStr ''Cisco Cyber Vision''), (''type'', JStr ''cisco_cyber_vision''),
       (''endpoint_label'', JStr (''Cyber Vision Center '' @ [CHR 0xB7] @ '' accesso VPN'')), (''status'', JStr status), (''version'', JNull),
       (''last_attempt_at'', JStr fetched_at), (''last_success_at'', JNull), (''record_counts'', JObj []), (''capabilities'', JObj []),
       (''error'', JObj [(''code'', JStr error_code), (''message'', JStr (''Telemetria Cisco non disponibile nell'' @ [CHR 0x27] @ ''ultima sincronizzazione.''))])]"

section \<open>Coverage and quality\<close>

text \<open>\<open>any(...)\<close> over the checks; a check behind the first match is not looked at.\<close>

fun scope_unavailable :: "json list \<Rightarrow> bool conv" where
  "scope_unavailable [] = Inr False"
| "scope_unavailable (c # cs) = bindR (as_dict c) (\<lambda>d.
     if get_item d ''code'' = JStr ''esxi_host_network_scope'' \<and> get_item d ''status'' = JStr ''not_available''
     then Inr True else scope_unavailable cs)"

definition source_status :: "dict \<Rightarrow> json conv" where
  "source_status d = bindR (required_item d ''source'') (\<lambda>s. bindR (as_dict s) (\<lambda>source. required_item source ''status''))"

text \<open>\<open>float(v)\<close>\<close>

definition float_of :: "json \<Rightarrow> rat conv" where
  "float_of v = (case (case v of JBool b \<Rightarrow> Some (if b then 1 else 0) | JStr s \<Rightarrow> float_text (strip s) | _ \<Rightarrow> number_value v) of
     None \<Rightarrow> Inl BadShape | Some x \<Rightarrow> Inr (double_of x))"

text \<open>\<open>round(esxi_quality * 0.3 + cv_quality * 0.7)\<close>; the two coverages are in halves.\<close>

definition quality_score :: "rat \<Rightarrow> rat \<Rightarrow> int" where
  "quality_score esxi_quality cv_quality =
     round_even (double_of (double_of (esxi_quality * double_of (3 / 10)) + double_of (cv_quality * double_of (7 / 10))))"

definition half_json :: "rat \<Rightarrow> json" where
  "half_json x = JFloat (if x = 1 then ''1.0'' else if x = 0 then ''0.0'' else ''0.5'')"

definition coverage_json :: "rat \<Rightarrow> rat \<Rightarrow> dict \<Rightarrow> json" where
  "coverage_json inventory scope cv_coverage = JObj (dict_update
     [(''esxi_vm_inventory'', half_json inventory), (''esxi_host_network_scope'', half_json scope)]
     (map (\<lambda>(k, v). (''cybervision_'' @ k, v)) cv_coverage))"

definition missing_check :: json where
  "missing_check = JObj [(''code'', JStr ''cybervision_not_available''), (''label'', JStr ''Cisco Cyber Vision API''), (''status'', JStr ''not_available''),
     (''details'', JStr (''Telemetria Cisco non acquisita; nessun valore '' @ [CHR 0xE8] @ '' sostituito con zero.''))]"

section \<open>The snapshot\<close>

text \<open>\<open>d[k]\<close> of the optional Cyber Vision document, or an empty list\<close>

definition cv_list :: "dict option \<Rightarrow> string \<Rightarrow> json conv" where
  "cv_list cv k = (case cv of None \<Rightarrow> Inr (JArr []) | Some d \<Rightarrow> required_item d k)"

definition records_in :: "json \<Rightarrow> dict list conv" where
  "records_in v = bindR (py_iter v) (mapR as_dict)"

definition cv_source :: "dict option \<Rightarrow> json option \<Rightarrow> string \<Rightarrow> json conv" where
  "cv_source cv unavailable completed = (case cv of
     Some d \<Rightarrow> required_item d ''source''
   | None \<Rightarrow> Inr (case unavailable of
       Some s \<Rightarrow> if truthy s then s else unavailable_cybervision_source completed ''credential_unavailable'' ''not_configured''
     | None \<Rightarrow> unavailable_cybervision_source completed ''credential_unavailable'' ''not_configured''))"

definition cv_checks :: "dict option \<Rightarrow> json list conv" where
  "cv_checks cv = (case cv of None \<Rightarrow> Inr [missing_check] | Some d \<Rightarrow> items_of d ''quality_checks'')"

definition cv_coverage :: "dict option \<Rightarrow> dict conv" where
  "cv_coverage cv = (case cv of None \<Rightarrow> Inr [(''cybervision'', JFloat ''0.0'')]
   | Some d \<Rightarrow> (case map_of d ''coverage'' of None \<Rightarrow> Inr [] | Some v \<Rightarrow> as_dict v))"

definition cv_quality :: "dict option \<Rightarrow> rat conv" where
  "cv_quality cv = (case cv of None \<Rightarrow> Inr 0
   | Some d \<Rightarrow> (case map_of d ''quality_score'' of None \<Rightarrow> Inr 0 | Some v \<Rightarrow> float_of v))"

definition identity_settings :: "string \<Rightarrow> identity_config" where
  "identity_settings completed = \<lparr>ic_fetched_at = completed, ic_collector = collector_source_id, ic_operator = Some operator_source_id,
     ic_confirmed = operator_confirmed_vm_ipv4\<rparr>"

definition is_connected :: "json \<Rightarrow> bool" where
  "is_connected status \<longleftrightarrow> status = JStr ''connected''"

definition quality_json :: "dict \<Rightarrow> json \<Rightarrow> dict option \<Rightarrow> json conv" where
  "quality_json esxi esxi_status cv =
     bindR (items_of esxi ''quality_checks'') (\<lambda>esxi_checks.
     bindR (scope_unavailable esxi_checks) (\<lambda>no_scope.
     bindR (cv_coverage cv) (\<lambda>coverage.
     bindR (cv_quality cv) (\<lambda>quality.
     bindR (cv_checks cv) (\<lambda>more_checks.
     let inventory = (if is_connected esxi_status then 1 else 1 / 2); scope = (if no_scope then 0 else 1) in
     Inr (JObj [(''methodology'', JStr ''dtlab_data_quality_v2''), (''score'', JInt (quality_score ((inventory + scope) / 2 * 100) quality)),
       (''checks'', JArr (esxi_checks @ more_checks)), (''coverage'', coverage_json inventory scope coverage)]))))))"

definition sync_json :: "string \<Rightarrow> string \<Rightarrow> string \<Rightarrow> string option \<Rightarrow> json" where
  "sync_json state started completed last_good =
     JObj [(''state'', JStr state), (''publication_mode'', JStr ''real_only''), (''started_at'', JStr started), (''completed_at'', JStr completed),
       (''max_age_seconds'', JInt 900), (''collector_version'', JStr collector_version), (''vpn_required'', JBool True),
       (''last_known_good_snapshot_id'', jopt last_good)]"

definition environment_json :: "string \<Rightarrow> string \<Rightarrow> json" where
  "environment_json state completed =
     JObj [(''id'', JStr ''env:relatech-dtlab''), (''evidence'', real_evidence operator_source_id ''operator-confirmation:relatech-dtlab'' completed),
       (''name'', JStr ''Relatech DTLab''), (''kind'', JStr ''lab''), (''timezone'', JStr ''Europe/Rome''),
       (''status'', JStr (if state = ''fresh'' then ''operational'' else ''degraded'')),
       (''description'', JStr ''Laboratorio OT BeerFactory con Cisco Cyber Vision e VMware ESXi.'')]"

record assembly_request =
  ar_started :: pydt
  ar_completed :: pydt
  ar_snapshot_id :: string
  ar_last_good :: "string option"
  ar_unavailable :: "json option"

text \<open>The members copied from the Cyber Vision document\<close>

definition cv_members :: "string list" where
  "cv_members = [''risk_scores'', ''activities'', ''flows'', ''events'', ''vulnerabilities'', ''baselines'', ''baseline_differences'', ''sensors'', ''reports'']"

definition snapshot_doc :: "assembly_request \<Rightarrow> string \<Rightarrow> string \<Rightarrow> string \<Rightarrow> json list \<Rightarrow> dict \<Rightarrow> dict \<Rightarrow> json \<Rightarrow> json \<Rightarrow> json" where
  "snapshot_doc R state completed started sources inventory copied findings quality =
     JObj ([(''schema_version'', JStr ''2.0.0''), (''snapshot_id'', JStr (ar_snapshot_id R)), (''generated_at'', JStr completed),
       (''environment'', environment_json state completed), (''sync'', sync_json state started completed (ar_last_good R)),
       (''sources'', JArr sources)] @ inventory @ copied @ [(''findings'', findings), (''quality'', quality)])"

definition build_snapshot :: "assembly_request \<Rightarrow> dict \<Rightarrow> dict option \<Rightarrow> string \<Rightarrow> string \<Rightarrow> json conv" where
  "build_snapshot R esxi cv completed started =
     bindR (cv_source cv (ar_unavailable R) completed) (\<lambda>cv_src.
     bindR (required_item esxi ''source'') (\<lambda>esxi_src.
     bindR (case cv of None \<Rightarrow> Inr [] | Some d \<Rightarrow> items_of d ''additional_sources'') (\<lambda>additional.
     bindR (cv_list cv ''assets'') (\<lambda>assets.
     bindR (required_item esxi ''virtual_machines'') (\<lambda>vms.
     bindR (records_in vms) (\<lambda>vm_records.
     bindR (records_in assets) (\<lambda>asset_records.
     bindR (resolve_vm_asset_identities (identity_settings completed) vm_records asset_records) (\<lambda>identities.
     bindR (source_status esxi) (\<lambda>esxi_status.
     bindR (quality_json esxi esxi_status cv) (\<lambda>quality.
     bindR (if is_connected esxi_status then bindR (as_dict cv_src) (\<lambda>d. required_item d ''status'') else Inr JNull) (\<lambda>cv_status.
     bindR (required_item esxi ''networks'') (\<lambda>networks.
     bindR (mapR (\<lambda>k. bindR (cv_list cv k) (\<lambda>v. Inr (k, v))) cv_members) (\<lambda>copied.
     bindR (required_item esxi ''findings'') (\<lambda>findings.
     let state = (if is_connected esxi_status \<and> is_connected cv_status then ''fresh'' else ''partial'') in
     Inr (snapshot_doc R state completed started ([operator_source completed, collector_source completed (length identities), esxi_src, cv_src] @ additional)
       [(''virtual_machines'', vms), (''networks'', networks), (''assets'', assets), (''identity_links'', JArr identities)] copied findings quality)))))))))))))))"

definition assemble_snapshot :: "(json \<Rightarrow> string list) \<Rightarrow> assembly_request \<Rightarrow> dict \<Rightarrow> dict option \<Rightarrow> assembly_error + json" where
  "assemble_snapshot schema R esxi cv =
     bindR (aware_text (ar_completed R)) (\<lambda>completed.
     bindR (aware_text (ar_started R)) (\<lambda>started.
     bindR (shaped (build_snapshot R esxi cv completed started)) (\<lambda>snapshot.
     shaped (case validate_snapshot schema snapshot of Inl ps \<Rightarrow> Inl (InvalidContract ps) | Inr s \<Rightarrow> Inr s))))"

end
