(* ===== verification/CollectorSync.thy ===== *)
theory CollectorSync
  imports Assembly SnapshotStore
begin

text \<open>
  \<open>collector/sync.py\<close> and \<open>collector/raw_store.py\<close>: one run of the collector, from the sources to the
  published snapshot. What the clients and adapters deliver, the PowerShell query of the VPN, the remote
  publisher, the clock readings and the failures of raw files are parameters; every step between them is
  written out. File times are microseconds; years have four digits.
\<close>

section \<open>The raw store\<close>

datatype raw_error = BadSourceName | NaiveCollection | BadRetentionPolicy | NaiveReference | RawOsError

record raw_file =
  rf_content :: string
  rf_mtime :: int

record raw_store =
  rw_files :: "((string \<times> string) \<times> raw_file) list"
  rw_clock :: nat

definition compact_time :: "int \<Rightarrow> string" where
  "compact_time t = (let iso = iso_text t in
     filter (\<lambda>c. c \<noteq> CHR ''-'') (take 10 iso) @ ''T'' @ filter (\<lambda>c. c \<noteq> CHR '':'') (take 8 (drop 11 iso))
       @ ''.'' @ zfill 6 (nat (t mod 1000000)) @ ''Z'')"

text \<open>\<open>^[a-z0-9_-]+$\<close>, fully matched\<close>

definition raw_source_name :: "string \<Rightarrow> bool" where
  "raw_source_name s \<longleftrightarrow> s \<noteq> [] \<and> list_all (\<lambda>c. is_digit c \<or> c \<in> set ''abcdefghijklmnopqrstuvwxyz_-'') s"

definition raw_name :: "int \<Rightarrow> string" where
  "raw_name t = compact_time t @ ''.json.gz''"

definition raw_op :: "(nat \<Rightarrow> bool) \<Rightarrow> (raw_store \<Rightarrow> raw_store) \<Rightarrow> (raw_store, raw_error, unit) act" where
  "raw_op fails f = (\<lambda>st. let n = rw_clock st in
     if fails n then (Inl RawOsError, st\<lparr>rw_clock := Suc n\<rparr>) else (Inr (), (f st)\<lparr>rw_clock := Suc n\<rparr>))"

text \<open>The compressed content stands for itself.\<close>

definition raw_write :: "(nat \<Rightarrow> bool) \<Rightarrow> string \<Rightarrow> json \<Rightarrow> pydt \<Rightarrow> int \<Rightarrow> (raw_store, raw_error, unit) act" where
  "raw_write fails source payload collected_at wall =
     bindE (guardE (raw_source_name source) BadSourceName) (\<lambda>_.
     bindE (lift_res (case collected_at of Naive _ \<Rightarrow> Inl NaiveCollection | Aware t \<Rightarrow> Inr t)) (\<lambda>t.
     raw_op fails (\<lambda>st. st\<lparr>rw_files := AList.update (source, raw_name t) \<lparr>rf_content = utf8 (dumps False payload), rf_mtime = wall\<rparr> (rw_files st)\<rparr>)))"

text \<open>The files of one source directory, newest first\<close>

definition raw_listing :: "string \<Rightarrow> raw_store \<Rightarrow> ((string \<times> string) \<times> raw_file) list" where
  "raw_listing source st = sort_key (\<lambda>(_, f). - rf_mtime f) (filter (\<lambda>((s, n), _). s = source \<and> suffix ''.json.gz'' n) (rw_files st))"

definition raw_sources :: "raw_store \<Rightarrow> string list" where
  "raw_sources st = filter raw_source_name (remdups (map (\<lambda>((s, _), _). s) (rw_files st)))"

definition prune_raw_file :: "(nat \<Rightarrow> bool) \<Rightarrow> int \<Rightarrow> (string \<times> string) list \<Rightarrow> (string \<times> string) \<times> raw_file \<Rightarrow> (raw_store, raw_error, (string \<times> string) list) act" where
  "prune_raw_file fails cutoff removed entry = (case entry of (key, f) \<Rightarrow>
     if rf_mtime f < cutoff
     then bindE (raw_op fails (\<lambda>st. st\<lparr>rw_files := AList.delete key (rw_files st)\<rparr>)) (\<lambda>_. ret (removed @ [key]))
     else ret removed)"

definition raw_prune :: "(nat \<Rightarrow> bool) \<Rightarrow> int \<Rightarrow> int \<Rightarrow> pydt \<Rightarrow> (raw_store, raw_error, (string \<times> string) list) act" where
  "raw_prune fails older_than retain_per_source now =
     bindE (guardE (hour_us \<le> older_than \<and> 1 \<le> retain_per_source) BadRetentionPolicy) (\<lambda>_.
     bindE (lift_res (case now of Naive _ \<Rightarrow> Inl NaiveReference | Aware t \<Rightarrow> Inr t)) (\<lambda>reference.
     bindE (gets raw_sources) (\<lambda>sources.
     foldE (\<lambda>removed source. bindE (gets (raw_listing source)) (\<lambda>files.
       foldE (prune_raw_file fails (reference - older_than)) removed (drop (nat retain_per_source) files))) [] sources)))"

section \<open>The run\<close>

datatype sync_error =
    BadRetention | LocalOnlyTarget | UnknownTarget | TargetMissing | TargetDisabled | NaiveClock | BadVpnName | VpnUnknown | VpnDown
  | EsxiUnavailable | EsxiInvalid | RawProblem raw_error | FixtureInvalid | AssemblyProblem assembly_error
  | StoreProblem store_error | RemoteProblem

text \<open>An error of the Cyber Vision client carries a code; anything else is a failed normalisation.\<close>

datatype cv_failure = CvError string | CvOther

record sync_config =
  sc_publish :: "bool option"
  sc_publish_staging :: "bool option"
  sc_vpn_name :: string
  sc_local_only :: bool
  sc_target :: "string option"
  sc_require_vpn :: bool
  sc_retention :: int
  sc_esxi_override :: "json option"
  sc_cv_override :: "json option"

record sync_env =
  se_store :: store_env
  se_started :: pydt
  se_fetched :: pydt
  se_collected :: pydt
  se_completed :: pydt
  se_vpn :: "(int \<times> string) option"
  se_esxi :: "json option"
  se_normalize_esxi :: "json \<Rightarrow> pydt \<Rightarrow> dict option"
  se_cv :: "cv_failure + json option"
  se_normalize_cv :: "json \<Rightarrow> cv_failure + dict"
  se_remote :: "json \<Rightarrow> snapshot_store \<Rightarrow> bool"
  se_raw_fails :: "nat \<Rightarrow> bool"
  se_wall :: int
  se_uuid8 :: string

record sync_state =
  sy_store :: snapshot_store
  sy_raw :: raw_store

type_synonym 'a sync = "(sync_state, sync_error, 'a) act"

definition on_store :: "'a store_act \<Rightarrow> 'a sync" where
  "on_store m = (\<lambda>s. case m (sy_store s) of
     (Inl e, st) \<Rightarrow> (Inl (StoreProblem e), s\<lparr>sy_store := st\<rparr>) | (Inr x, st) \<Rightarrow> (Inr x, s\<lparr>sy_store := st\<rparr>))"

definition on_raw :: "(raw_store, raw_error, 'a) act \<Rightarrow> 'a sync" where
  "on_raw m = (\<lambda>s. case m (sy_raw s) of
     (Inl e, st) \<Rightarrow> (Inl (RawProblem e), s\<lparr>sy_raw := st\<rparr>) | (Inr x, st) \<Rightarrow> (Inr x, s\<lparr>sy_raw := st\<rparr>))"

text \<open>\<open>with suppress(...)\<close>\<close>

definition suppressing :: "(sync_error \<Rightarrow> bool) \<Rightarrow> 'a sync \<Rightarrow> unit sync" where
  "suppressing caught m = (\<lambda>s. case m s of
     (Inl e, s') \<Rightarrow> (if caught e then Inr () else Inl e, s') | (Inr _, s') \<Rightarrow> (Inr (), s'))"

definition requested_publish_config :: "sync_config \<Rightarrow> sync_error + bool" where
  "requested_publish_config C =
     (case sc_target C of
        None \<Rightarrow> Inr False
      | Some t \<Rightarrow>
          if sc_local_only C then Inl LocalOnlyTarget
          else if t \<notin> {''staging'', ''production''} then Inl UnknownTarget
          else (case (if t = ''production'' then sc_publish C else sc_publish_staging C) of
                  None \<Rightarrow> Inl TargetMissing | Some enabled \<Rightarrow> if enabled then Inr True else Inl TargetDisabled))"

text \<open>\<open>[\w .()-]{1,100}\<close>, fully matched\<close>

definition word_char :: "char \<Rightarrow> bool" where
  "word_char c \<longleftrightarrow> (let n = of_char c :: nat in is_digit c \<or> (65 \<le> n \<and> n \<le> 90) \<or> n = 95 \<or> (97 \<le> n \<and> n \<le> 122)
     \<or> n \<in> {170, 178, 179, 181, 185, 186, 188, 189, 190} \<or> (192 \<le> n \<and> n \<noteq> 215 \<and> n \<noteq> 247))"

definition vpn_name_ok :: "string \<Rightarrow> bool" where
  "vpn_name_ok s \<longleftrightarrow> 1 \<le> length s \<and> length s \<le> 100 \<and> list_all (\<lambda>c. word_char c \<or> c \<in> set '' .()-'') s"

definition vpn_is_connected :: "string \<Rightarrow> (int \<times> string) option \<Rightarrow> sync_error + bool" where
  "vpn_is_connected name answer =
     (if \<not> vpn_name_ok name then Inl BadVpnName
      else case answer of None \<Rightarrow> Inl VpnUnknown | Some (returncode, out) \<Rightarrow> Inr (returncode = 0 \<and> lower (strip out) = ''connected''))"

definition snapshot_id_at :: "int \<Rightarrow> string \<Rightarrow> string" where
  "snapshot_id_at t uuid8 = ''snapshot:dtlab:'' @ compact_time t @ '':'' @ uuid8"

definition instant_of :: "pydt \<Rightarrow> int" where
  "instant_of v = (case v of Aware t \<Rightarrow> t | Naive t \<Rightarrow> t)"

definition last_known_good_id :: "store_env \<Rightarrow> string option sync" where
  "last_known_good_id E = bindE (on_store (store_try (load_pointer E ''last_known_good''))) (\<lambda>found.
     ret (map_option (\<lambda>(snapshot, _). py_str (jget snapshot ''snapshot_id'')) found))"

text \<open>The Cyber Vision half of the acquisition: a document, or the code and status of its absence\<close>

definition acquire_cv :: "sync_env \<Rightarrow> sync_config \<Rightarrow> (cv_failure + dict option) sync" where
  "acquire_cv V C =
     (case (case sc_cv_override C of Some raw \<Rightarrow> Inr (Some raw) | None \<Rightarrow> se_cv V) of
        Inl f \<Rightarrow> ret (Inl f)
      | Inr None \<Rightarrow> ret (Inr None)
      | Inr (Some raw) \<Rightarrow> (\<lambda>s. case on_raw (raw_write (se_raw_fails V) ''cybervision'' raw (se_collected V) (se_wall V)) s of
          (Inl _, s') \<Rightarrow> (Inr (Inl CvOther), s')
        | (Inr _, s') \<Rightarrow> (Inr (case se_normalize_cv V raw of Inl f \<Rightarrow> Inl f | Inr d \<Rightarrow> Inr (Some d)), s')))"

definition cv_outcome :: "sync_config \<Rightarrow> cv_failure + dict option \<Rightarrow> sync_error + dict option \<times> string \<times> string" where
  "cv_outcome C r = (case r of
     Inr d \<Rightarrow> Inr (d, ''credential_unavailable'', ''not_configured'')
   | Inl (CvError code) \<Rightarrow> Inr (None, code, ''unavailable'')
   | Inl CvOther \<Rightarrow> if sc_cv_override C \<noteq> None then Inl FixtureInvalid else Inr (None, ''normalization_failed'', ''unavailable''))"

definition assembly_request_of :: "sync_env \<Rightarrow> dict option \<Rightarrow> string \<Rightarrow> string \<Rightarrow> string option \<Rightarrow> assembly_request" where
  "assembly_request_of V cv error_code status last_good =
     \<lparr>ar_started = se_started V, ar_completed = se_completed V, ar_snapshot_id = snapshot_id_at (instant_of (se_completed V)) (se_uuid8 V),
      ar_last_good = last_good,
      ar_unavailable = (if cv = None then Some (unavailable_cybervision_source (utc_text (instant_of (se_completed V))) error_code status) else None)\<rparr>"

record sync_result =
  sr_snapshot_id :: json
  sr_state :: json
  sr_manifest_sha256 :: json
  sr_virtual_machines :: nat
  sr_assets :: nat
  sr_risk_scores :: nat
  sr_remote_published :: bool
  sr_target :: "string option"

definition result_of :: "json \<Rightarrow> json \<Rightarrow> bool \<Rightarrow> string option \<Rightarrow> sync_result" where
  "result_of snapshot m remote target =
     \<lparr>sr_snapshot_id = jget snapshot ''snapshot_id'', sr_state = jget (jget snapshot ''sync'') ''state'', sr_manifest_sha256 = jget m ''sha256'',
      sr_virtual_machines = length (list_of snapshot ''virtual_machines''), sr_assets = length (list_of snapshot ''assets''),
      sr_risk_scores = length (list_of snapshot ''risk_scores''), sr_remote_published = remote, sr_target = target\<rparr>"

text \<open>\<open>OSError\<close> and \<open>SnapshotStoreError\<close>; a \<open>TypeError\<close> of a manifest is neither.\<close>

definition suppressed_store_error :: "sync_error \<Rightarrow> bool" where
  "suppressed_store_error e \<longleftrightarrow> e \<noteq> StoreProblem ManifestTypeError"

definition retention_step :: "sync_env \<Rightarrow> sync_config \<Rightarrow> unit sync" where
  "retention_step V C =
     bindE (suppressing suppressed_store_error (on_store (prune_objects (se_store V) (sc_retention C)))) (\<lambda>_.
     suppressing (\<lambda>_. True) (on_raw (raw_prune (se_raw_fails V) (7 * 24 * hour_us) 100 (se_completed V))))"

definition acquire :: "sync_env \<Rightarrow> sync_config \<Rightarrow> (dict \<times> dict option \<times> string \<times> string) sync" where
  "acquire V C =
     bindE (lift_res (case (case sc_esxi_override C of Some raw \<Rightarrow> Some raw | None \<Rightarrow> se_esxi V) of
       None \<Rightarrow> Inl EsxiUnavailable | Some raw \<Rightarrow> Inr raw)) (\<lambda>raw.
     bindE (on_raw (raw_write (se_raw_fails V) ''esxi'' raw (se_started V) (se_wall V))) (\<lambda>_.
     bindE (lift_res (case se_normalize_esxi V raw (se_fetched V) of None \<Rightarrow> Inl EsxiInvalid | Some d \<Rightarrow> Inr d)) (\<lambda>esxi.
     bindE (acquire_cv V C) (\<lambda>r.
     bindE (lift_res (cv_outcome C r)) (\<lambda>(cv, error_code, status).
     ret (esxi, cv, error_code, status))))))"

definition commit_snapshot :: "sync_env \<Rightarrow> dict \<times> dict option \<times> string \<times> string \<Rightarrow> (json \<times> json) sync" where
  "commit_snapshot V acquired = (case acquired of (esxi, cv, error_code, status) \<Rightarrow>
     bindE (last_known_good_id (se_store V)) (\<lambda>last_good.
     bindE (lift_res (case assemble_snapshot (sn_schema (se_store V)) (assembly_request_of V cv error_code status last_good) esxi cv of
       Inl e \<Rightarrow> Inl (AssemblyProblem e) | Inr s \<Rightarrow> Inr s)) (\<lambda>snapshot.
     bindE (on_store (publish (se_store V) snapshot (se_completed V))) (\<lambda>m.
     ret (snapshot, m)))))"

text \<open>The checks before the acquisition, and the acquisition\<close>

definition prepare_sync :: "sync_env \<Rightarrow> sync_config \<Rightarrow> (bool \<times> dict \<times> dict option \<times> string \<times> string) sync" where
  "prepare_sync V C =
     bindE (guardE (3 \<le> sc_retention C \<and> sc_retention C \<le> 10000) BadRetention) (\<lambda>_.
     bindE (lift_res (requested_publish_config C)) (\<lambda>publish_remote.
     bindE (guardE (case se_started V of Aware _ \<Rightarrow> True | Naive _ \<Rightarrow> False) NaiveClock) (\<lambda>_.
     bindE (lift_res (if sc_require_vpn C then vpn_is_connected (sc_vpn_name C) (se_vpn V) else Inr True)) (\<lambda>up.
     bindE (guardE up VpnDown) (\<lambda>_.
     bindE (acquire V C) (\<lambda>acquired.
     ret (publish_remote, acquired)))))))"

definition run_sync :: "sync_env \<Rightarrow> sync_config \<Rightarrow> sync_result sync" where
  "run_sync V C =
     bindE (prepare_sync V C) (\<lambda>(publish_remote, acquired).
     bindE (commit_snapshot V acquired) (\<lambda>(snapshot, m).
     bindE (gets sy_store) (\<lambda>st.
     bindE (guardE (publish_remote \<longrightarrow> se_remote V m st) RemoteProblem) (\<lambda>_.
     bindE (retention_step V C) (\<lambda>_.
     ret (result_of snapshot m publish_remote (sc_target C)))))))"

end
