(* ===== verification/AssemblyFacts.thy ===== *)
theory AssemblyFacts
  imports Assembly IdentityProperties
begin

text \<open>
  What holds of every assembled snapshot: it is a document that serialises, it is valid, and its members
  are those of the sources.
\<close>

lemma json_ok_floats [simp]: "json_ok (JFloat ''1.0'')" "json_ok (JFloat ''0.0'')" "json_ok (JFloat ''0.5'')"
  by code_simp+

lemma json_ok_confidence [simp]: "json_ok (confidence_json m)"
proof -
  have "json_ok (confidence_json IpMacMatch)" "json_ok (confidence_json MacMatch)" "json_ok (confidence_json IpMatch)" "json_ok (confidence_json NameMatch)"
    by code_simp+
  then show ?thesis by (metis link_method.exhaust)
qed

lemma json_ok_half [simp]: "json_ok (half_json x)"
  by (simp add: half_json_def del: json_ok.simps)

section \<open>Reading keeps documents well-formed\<close>

definition dict_ok :: "dict \<Rightarrow> bool" where
  "dict_ok d \<longleftrightarrow> json_ok (JObj d)"

lemma dict_ok_Nil [simp]: "dict_ok []"
  by (simp add: dict_ok_def)

lemma required_ok: "required_item d k = Inr v \<Longrightarrow> dict_ok d \<Longrightarrow> json_ok v"
  by (auto simp: required_item_def dict_ok_def split: option.splits dest!: map_of_SomeD)

lemma as_dict_ok: "as_dict v = Inr d \<Longrightarrow> json_ok v \<Longrightarrow> dict_ok d"
  by (auto simp: as_dict_def dict_ok_def split: json.splits)

lemma py_iter_ok: "py_iter v = Inr xs \<Longrightarrow> json_ok v \<Longrightarrow> \<forall>x \<in> set xs. json_ok x"
  by (auto simp: py_iter_def split: json.splits)

lemma map_of_ok: "map_of d k = Some v \<Longrightarrow> dict_ok d \<Longrightarrow> json_ok v"
  by (auto simp: dict_ok_def dest!: map_of_SomeD)

lemma items_ok: "items_of d k = Inr xs \<Longrightarrow> dict_ok d \<Longrightarrow> \<forall>x \<in> set xs. json_ok x"
  by (auto simp: items_of_def split: option.splits dest: py_iter_ok map_of_ok)

section \<open>The parts\<close>

lemma evidence_ok [simp]: "json_ok (identity_evidence s r t f notes)" "json_ok c \<Longrightarrow> json_ok (source_evidence s r t f c)" "json_ok (real_evidence s r f)"
  by (auto simp: identity_evidence_def source_evidence_def real_evidence_def simp del: json_ok.simps(1))

lemma link_ok: "link_of C c = Inr l \<Longrightarrow> json_ok l"
  by (auto simp: link_of_def bindR_eq_Inr confirmed_link_def proposed_link_def link_json_def simp del: json_ok.simps(1) split: option.splits)

lemma links_ok: "resolve_vm_asset_identities C vms assets = Inr links \<Longrightarrow> \<forall>l \<in> set links. json_ok l"
  by (auto simp: resolve_vm_asset_identities_def bindR_eq_Inr dest!: mapR_source intro: link_ok)

lemma sources_ok [simp]:
  "json_ok (operator_source f)" "json_ok (collector_source f n)" "json_ok (unavailable_cybervision_source f c s)"
  by (simp_all add: operator_source_def collector_source_def unavailable_cybervision_source_def del: json_ok.simps(1))

lemma cv_source_ok:
  "cv_source cv unavailable completed = Inr s \<Longrightarrow> \<forall>d. cv = Some d \<longrightarrow> dict_ok d \<Longrightarrow> \<forall>u. unavailable = Some u \<longrightarrow> json_ok u \<Longrightarrow> json_ok s"
  by (auto simp: cv_source_def dest: required_ok split: option.splits if_splits)

lemma cv_list_ok: "cv_list cv k = Inr v \<Longrightarrow> \<forall>d. cv = Some d \<longrightarrow> dict_ok d \<Longrightarrow> json_ok v"
  by (auto simp: cv_list_def dest: required_ok split: option.splits)

lemma coverage_ok: "dict_ok cover \<Longrightarrow> json_ok (coverage_json a b cover)"
proof -
  assume c: "dict_ok cover"
  have "inj (\<lambda>k. ''cybervision_'' @ k)" by (simp add: inj_def)
  moreover have "map fst (map (\<lambda>(k, v). (''cybervision_'' @ k, v)) cover) = map (\<lambda>k. ''cybervision_'' @ k) (map fst cover)" by (induction cover) auto
  ultimately have "json_ok (JObj (map (\<lambda>(k, v). (''cybervision_'' @ k, v)) cover))"
    using c by (auto simp: dict_ok_def distinct_map inj_on_def)
  then show ?thesis unfolding coverage_json_def by (intro json_ok_dict_update) (simp_all del: json_ok.simps(1))
qed

lemma cv_parts_ok:
  assumes "\<forall>d. cv = Some d \<longrightarrow> dict_ok d"
  shows "cv_coverage cv = Inr c \<Longrightarrow> dict_ok c" "cv_checks cv = Inr xs \<Longrightarrow> \<forall>x \<in> set xs. json_ok x"
  using assms by (auto simp: cv_coverage_def cv_checks_def missing_check_def dict_ok_def [of "[(''cybervision'', JFloat ''0.0'')]"] dest: as_dict_ok map_of_ok items_ok
      simp del: json_ok.simps(1) split: option.splits)

lemma quality_ok:
  assumes "quality_json esxi status cv = Inr q" "dict_ok esxi" "\<forall>d. cv = Some d \<longrightarrow> dict_ok d"
  shows "json_ok q"
proof -
  obtain checks coverage more a b n where q: "items_of esxi ''quality_checks'' = Inr checks" "cv_coverage cv = Inr coverage" "cv_checks cv = Inr more"
    "q = JObj [(''methodology'', JStr ''dtlab_data_quality_v2''), (''score'', JInt n), (''checks'', JArr (checks @ more)), (''coverage'', coverage_json a b coverage)]"
    using assms(1) by (fastforce simp: quality_json_def bindR_eq_Inr Let_def)
  then show ?thesis using items_ok [OF q(1) assms(2)] cv_parts_ok(2) [OF assms(3) q(3)] coverage_ok [OF cv_parts_ok(1) [OF assms(3) q(2)]] by auto
qed

section \<open>The snapshot\<close>

text \<open>The members of a built snapshot\<close>

lemma build_snapshot_parts:
  assumes "build_snapshot R esxi cv completed started = Inr s"
  obtains cv_src esxi_src additional assets vms vm_records asset_records links esxi_status quality cv_status networks copied findings where
    "cv_source cv (ar_unavailable R) completed = Inr cv_src" "required_item esxi ''source'' = Inr esxi_src"
    "(case cv of None \<Rightarrow> Inr [] | Some d \<Rightarrow> items_of d ''additional_sources'') = Inr additional" "cv_list cv ''assets'' = Inr assets"
    "required_item esxi ''virtual_machines'' = Inr vms" "records_in vms = Inr vm_records" "records_in assets = Inr asset_records"
    "resolve_vm_asset_identities (identity_settings completed) vm_records asset_records = Inr links"
    "source_status esxi = Inr esxi_status" "quality_json esxi esxi_status cv = Inr quality"
    "(if is_connected esxi_status then bindR (as_dict cv_src) (\<lambda>d. required_item d ''status'') else Inr JNull) = Inr cv_status"
    "required_item esxi ''networks'' = Inr networks"
    "mapR (\<lambda>k. bindR (cv_list cv k) (\<lambda>v. Inr (k, v))) cv_members = Inr copied" "required_item esxi ''findings'' = Inr findings"
    "s = snapshot_doc R (if is_connected esxi_status \<and> is_connected cv_status then ''fresh'' else ''partial'') completed started
       ([operator_source completed, collector_source completed (length links), esxi_src, cv_src] @ additional)
       [(''virtual_machines'', vms), (''networks'', networks), (''assets'', assets), (''identity_links'', JArr links)] copied findings quality"
  using assms [unfolded build_snapshot_def bindR_eq_Inr Let_def] that by blast

lemma copied_keys: "mapR (\<lambda>k. bindR (cv_list cv k) (\<lambda>v. Inr (k, v))) ks = Inr copied \<Longrightarrow> map fst copied = ks"
  by (drule mapR_keys [of _ _ _ fst id]) (auto simp: bindR_eq_Inr)

lemma build_snapshot_ok:
  assumes "build_snapshot R esxi cv completed started = Inr s" and esxi: "dict_ok esxi" and cv: "\<forall>d. cv = Some d \<longrightarrow> dict_ok d"
    and u: "\<forall>u. ar_unavailable R = Some u \<longrightarrow> json_ok u"
  shows "json_ok s"
  using assms(1)
proof (rule build_snapshot_parts)
  fix cv_src esxi_src additional assets vms vm_records asset_records links esxi_status quality cv_status networks copied findings
  assume p: "cv_source cv (ar_unavailable R) completed = Inr cv_src" "required_item esxi ''source'' = Inr esxi_src"
    "(case cv of None \<Rightarrow> Inr [] | Some d \<Rightarrow> items_of d ''additional_sources'') = Inr additional" "cv_list cv ''assets'' = Inr assets"
    "required_item esxi ''virtual_machines'' = Inr vms"
    "resolve_vm_asset_identities (identity_settings completed) vm_records asset_records = Inr links"
    "quality_json esxi esxi_status cv = Inr quality" "required_item esxi ''networks'' = Inr networks"
    "mapR (\<lambda>k. bindR (cv_list cv k) (\<lambda>v. Inr (k, v))) cv_members = Inr copied" "required_item esxi ''findings'' = Inr findings"
    and s: "s = snapshot_doc R (if is_connected esxi_status \<and> is_connected cv_status then ''fresh'' else ''partial'') completed started
       ([operator_source completed, collector_source completed (length links), esxi_src, cv_src] @ additional)
       [(''virtual_machines'', vms), (''networks'', networks), (''assets'', assets), (''identity_links'', JArr links)] copied findings quality"
  have copied: "\<forall>(k, v) \<in> set copied. json_ok v" using mapR_source [OF p(9)] cv by (auto simp: bindR_eq_Inr dest: cv_list_ok)
  have more: "\<forall>x \<in> set additional. json_ok x" using p(3) cv by (auto dest: items_ok split: option.splits)
  have fixed: "json_ok (environment_json state completed)" "json_ok (sync_json state started completed last)" for state last
    by (simp_all add: environment_json_def sync_json_def jopt_def split: option.split)
  have "distinct ([''schema_version'', ''snapshot_id'', ''generated_at'', ''environment'', ''sync'', ''sources'', ''virtual_machines'', ''networks'', ''assets'',
     ''identity_links''] @ map fst copied @ [''findings'', ''quality''])"
    unfolding copied_keys [OF p(9)] cv_members_def by simp
  then show "json_ok s"
    using copied more fixed cv_source_ok [OF p(1) cv u] required_ok [OF p(2) esxi] cv_list_ok [OF p(4) cv] required_ok [OF p(5) esxi] links_ok [OF p(6)]
      quality_ok [OF p(7) esxi cv] required_ok [OF p(8) esxi] required_ok [OF p(10) esxi]
    unfolding s snapshot_doc_def by (auto simp: ball_Un)
qed

end
