(* ===== verification/QuietDocuments.thy ===== *)
theory QuietDocuments
  imports Utf8
begin

text \<open>
  A quick sufficient test that the screening for secrets finds nothing in a document, with which the
  concrete snapshots of the development are shown to be valid.
\<close>

definition usual_keys :: "string list" where
  "usual_keys = [''networks'', ''flows'', ''kind'', ''timezone'', ''esxi_host_network_scope'', ''last_known_good_snapshot_id'', ''identity_links'', ''risk_scores'', ''checks'', ''virtual_machines'', ''collector_version'', ''operational_context'']"

definition quiet_key :: "string \<Rightarrow> bool" where
  "quiet_key k \<longleftrightarrow> list_all (\<lambda>c. c \<notin> set ''kwz'') (lower k) \<and> \<not> list_all (\<lambda>c. c \<in> set (lower k)) ''crentil''
     \<or> k \<in> set usual_keys"

text \<open>No slash or no colon, and neither question mark nor ampersand\<close>

definition quiet_text :: "string \<Rightarrow> bool" where
  "quiet_text s \<longleftrightarrow> (list_all (\<lambda>c. c \<noteq> CHR ''/'') s \<or> list_all (\<lambda>c. c \<noteq> CHR '':'') s) \<and> list_all (\<lambda>c. c \<notin> set ''?&'') s"

fun quiet :: "json \<Rightarrow> bool" where
  "quiet (JObj kvs) = list_all (\<lambda>(k, v). quiet_key k \<and> quiet v) kvs"
| "quiet (JArr xs) = list_all quiet xs"
| "quiet (JStr s) = quiet_text s"
| "quiet _ = True"

lemma word_inside: "list_ex (prefix w) (suffixes s) \<Longrightarrow> set w \<subseteq> set s"
  by (auto simp: list_ex_iff dest!: set_mono_prefix set_mono_suffix) blast

lemma quiet_key_allowed:
  assumes "quiet_key k" shows "\<not> forbidden_key k"
proof
  assume "forbidden_key k"
  then obtain w where w: "w \<in> set forbidden_keys" "set w \<subseteq> set (lower k)"
    by (auto simp: forbidden_key_def contains_any_def list_ex_iff [of _ forbidden_keys] dest: word_inside)
  have "list_all (\<lambda>w. list_ex (\<lambda>c. c \<in> set ''kwz'') w \<or> list_all (\<lambda>c. c \<in> set w) ''crentil'') forbidden_keys" by code_simp
  then have "list_ex (\<lambda>c. c \<in> set ''kwz'') w \<or> list_all (\<lambda>c. c \<in> set w) ''crentil''" using w(1) by (simp add: list_all_iff)
  then have "\<not> (list_all (\<lambda>c. c \<notin> set ''kwz'') (lower k) \<and> \<not> list_all (\<lambda>c. c \<in> set (lower k)) ''crentil'')"
    using w(2) unfolding list_ex_iff list_all_iff by blast
  moreover have "list_all (\<lambda>k. \<not> forbidden_key k) usual_keys" by code_simp
  ultimately show False using assms \<open>forbidden_key k\<close> unfolding quiet_key_def list_all_iff by blast
qed

lemma lower_keeps: "(of_char (lower_char c) :: nat) < 65 \<Longrightarrow> lower_char c = c"
proof -
  let ?n = "of_char c :: nat"
  assume "(of_char (lower_char c) :: nat) < 65"
  moreover have "of_char (char_of (?n + 32) :: char) = ?n + 32" if "?n \<le> 222" using that by (simp add: of_char_of)
  ultimately show ?thesis by (auto simp: lower_char_def Let_def split: if_splits)
qed

lemma mark_in_lower: "x \<in> set (lower t) \<Longrightarrow> (of_char x :: nat) < 65 \<Longrightarrow> x \<in> set t"
  using lower_keeps by (force simp: lower_def)

lemma quiet_text_clean:
  assumes "quiet_text s" shows "text_leaks p s = []"
proof -
  have marks: "CHR ''/'' \<notin> set s \<or> CHR '':'' \<notin> set s" and query: "CHR ''?'' \<notin> set s" "CHR ''&'' \<notin> set s"
    using assms unfolding quiet_text_def list_all_iff by auto
  have "\<not> userinfo_at t \<and> \<not> secret_query_at t" if "suffix t s" for t
  proof -
    have sub: "set t \<subseteq> set s" by (rule set_mono_suffix [OF that])
    have "CHR ''/'' \<notin> set (lower t) \<or> CHR '':'' \<notin> set (lower t)"
      using marks sub mark_in_lower [of "CHR ''/''" t] mark_in_lower [of "CHR '':''" t] by auto
    then have "behind [''http://'', ''https://''] (lower t) = []" by (auto simp: behind_def dest!: set_mono_prefix)
    moreover have "\<not> prefix ''?'' t" "\<not> prefix ''&'' t" using query sub by (auto dest!: set_mono_prefix)
    ultimately show ?thesis by (simp add: userinfo_at_def secret_query_at_def)
  qed
  then show ?thesis by (auto simp: text_leaks_def list_ex_iff)
qed

lemma quiet_no_leaks: "quiet v \<Longrightarrow> find_secret_leaks v p = []"
proof (induction v p rule: find_secret_leaks.induct)
  case (1 kvs p)
  then show ?case by (fastforce simp: list_all_iff quiet_key_allowed)
next
  case (2 xs p)
  have "find_secret_leaks x (p @ ''['' @ show_nat i @ '']'') = []" if "(i, x) \<in> set (enumerate 0 xs)" for i x
  proof (rule 2(1) [OF that refl])
    have "x \<in> set xs" using that by (metis map_snd_enumerate list.set_map image_eqI snd_conv)
    then show "quiet x" using 2(2) by (simp add: list_all_iff)
  qed
  then show ?case by auto
qed (auto simp: quiet_text_clean)

end
