(* ===== verification/CollectorProperties.thy ===== *)
theory CollectorProperties
  imports CollectorSync AssemblyFacts SnapshotProperties QuietDocuments
begin

text \<open>
  The contract of one run of the collector over the snapshot store: whatever goes wrong, what the
  dashboard reads stays valid, and before the publication it does not change at all.
\<close>

section \<open>Steps that leave the snapshot store alone\<close>

text \<open>The errors of the publication and of what follows it\<close>

definition late :: "sync_error \<Rightarrow> bool" where
  "late e \<longleftrightarrow> e = RemoteProblem \<or> (\<exists>x. e = StoreProblem x)"

definition aside :: "'a sync \<Rightarrow> bool" where
  "aside m \<longleftrightarrow> (\<forall>s r t. m s = (r, t) \<longrightarrow> sy_store t = sy_store s \<and> (\<forall>e. r = Inl e \<longrightarrow> \<not> late e))"

lemma aside_bind: "aside m \<Longrightarrow> (\<And>x. aside (k x)) \<Longrightarrow> aside (bindE m k)"
  unfolding aside_def bindE_def by (fastforce split: prod.splits sum.splits)

lemma aside_ret: "aside (ret x)"
  by (simp add: aside_def act_defs)

lemma aside_lift: "(\<And>e. r = Inl e \<Longrightarrow> \<not> late e) \<Longrightarrow> aside (lift_res r)"
  by (simp add: aside_def act_defs)

lemma aside_guard: "\<not> late e \<Longrightarrow> aside (guardE b e)"
  by (simp add: aside_def act_defs)

lemma aside_raw: "aside (on_raw m)"
  by (auto simp: aside_def on_raw_def late_def split: prod.splits sum.splits)

lemma acquire_cv_aside: "aside (acquire_cv V C)"
proof -
  have "aside (\<lambda>s. case on_raw m s of (Inl _, s') \<Rightarrow> (Inr x, s') | (Inr _, s') \<Rightarrow> (Inr y, s'))" for m :: "(raw_store, raw_error, unit) act" and x y :: "cv_failure + dict option"
    using aside_raw [of m] by (auto simp: aside_def split: prod.splits sum.splits)
  then show ?thesis by (simp add: acquire_cv_def aside_ret split: option.split sum.split)
qed

lemma acquire_aside: "aside (acquire V C)"
  unfolding acquire_def
  by (intro aside_bind aside_lift aside_raw acquire_cv_aside)
    (auto simp: late_def cv_outcome_def aside_ret split: option.splits sum.splits cv_failure.splits if_splits)

lemma prepare_aside: "aside (prepare_sync V C)"
  unfolding prepare_sync_def
  by (intro aside_bind aside_lift aside_guard aside_ret acquire_aside)
    (auto simp: late_def requested_publish_config_def vpn_is_connected_def split: option.splits if_splits)

lemma aside_then:
  assumes "aside m" "bindE m k s = (r, t)"
  obtains e where "r = Inl e" "\<not> late e" "sy_store t = sy_store s" | x u where "m s = (Inr x, u)" "sy_store u = sy_store s" "k x u = (r, t)"
proof (cases "m s")
  case (Pair a u)
  with assms show thesis using that by (cases a) (auto simp: bindE_def aside_def)
qed

section \<open>What the acquisition delivers\<close>

definition adapters_ok :: "sync_env \<Rightarrow> bool" where
  "adapters_ok V \<longleftrightarrow> (\<forall>raw t d. se_normalize_esxi V raw t = Some d \<longrightarrow> dict_ok d) \<and> (\<forall>raw d. se_normalize_cv V raw = Inr d \<longrightarrow> dict_ok d)"

lemma acquire_cv_ok: "adapters_ok V \<Longrightarrow> acquire_cv V C s = (Inr (Inr (Some d)), t) \<Longrightarrow> dict_ok d"
  by (auto simp: acquire_cv_def adapters_ok_def act_defs split: option.splits sum.splits prod.splits)

lemma acquire_ok:
  assumes "adapters_ok V" "acquire V C s = (Inr (esxi, cv, error_code, status), t)"
  shows "dict_ok esxi \<and> (\<forall>d. cv = Some d \<longrightarrow> dict_ok d)"
proof -
  obtain raw u1 u2 r where e: "se_normalize_esxi V raw (se_fetched V) = Some esxi" and r: "acquire_cv V C u1 = (Inr r, u2)" "cv_outcome C r = Inr (cv, error_code, status)"
    using assms(2) by (auto simp: acquire_def bindE_Inr act_Inr split: option.splits)
  have "r = Inr cv \<or> cv = None" using r(2) by (auto simp: cv_outcome_def split: sum.splits cv_failure.splits if_splits)
  then show ?thesis using e r(1) assms(1) acquire_cv_ok [OF assms(1)] by (auto simp: adapters_ok_def)
qed

lemma prepare_ok: "prepare_sync V C s = (Inr (remote, acquired), t) \<Longrightarrow> \<exists>u. acquire V C u = (Inr acquired, t) \<and> requested_publish_config C = Inr remote"
  by (auto simp: prepare_sync_def bindE_Inr act_Inr)

section \<open>Committing\<close>

definition snapshot_good :: "sync_env \<Rightarrow> json \<Rightarrow> bool" where
  "snapshot_good V snapshot \<longleftrightarrow> json_ok snapshot \<and> validate_snapshot (sn_schema (se_store V)) snapshot = Inr snapshot
     \<and> jget (jget snapshot ''sync'') ''publication_mode'' = JStr ''real_only''"

lemma validated_same: "validate_snapshot schema s = Inr x \<Longrightarrow> x = s"
  by (auto simp: validate_snapshot_def Let_def split: if_splits)

lemma snapshot_doc_items: "jget (jget (snapshot_doc R state c b so iv co f q) ''sync'') ''publication_mode'' = JStr ''real_only''"
  by (simp add: snapshot_doc_def sync_json_def)

lemma assemble_Inr: "assemble_snapshot schema R esxi cv = Inr s \<longleftrightarrow> (\<exists>completed started b. aware_text (ar_completed R) = Inr completed
   \<and> aware_text (ar_started R) = Inr started \<and> build_snapshot R esxi cv completed started = Inr b \<and> validate_snapshot schema b = Inr s)"
proof -
  have shaped: "shaped r = Inr x \<longleftrightarrow> r = Inr x" for r and x :: 'b by (simp add: shaped_def split: sum.split)
  have valid: "(case v of Inl ps \<Rightarrow> Inl (InvalidContract ps) | Inr s \<Rightarrow> Inr s) = Inr x \<longleftrightarrow> v = Inr x" for v and x :: json by (simp split: sum.split)
  show ?thesis unfolding assemble_snapshot_def bindR_eq_Inr shaped valid by blast
qed

lemma assembled_good:
  assumes "assemble_snapshot (sn_schema (se_store V)) R esxi cv = Inr s" "dict_ok esxi" "\<forall>d. cv = Some d \<longrightarrow> dict_ok d" "\<forall>u. ar_unavailable R = Some u \<longrightarrow> json_ok u"
  shows "snapshot_good V s"
proof -
  obtain completed started b where b: "build_snapshot R esxi cv completed started = Inr b" and v: "validate_snapshot (sn_schema (se_store V)) b = Inr s"
    using assms(1) unfolding assemble_Inr by blast
  have s: "s = b" by (rule validated_same [OF v])
  have "jget (jget b ''sync'') ''publication_mode'' = JStr ''real_only''"
    using b by (rule build_snapshot_parts) (simp only: snapshot_doc_items)
  then show ?thesis using build_snapshot_ok [OF b assms(2-4)] v by (simp add: snapshot_good_def s)
qed

lemma request_ok: "\<forall>u. ar_unavailable (assembly_request_of V cv c st g) = Some u \<longrightarrow> json_ok u"
  by (simp add: assembly_request_of_def)

text \<open>What the current pointer may yield: what it yielded before, or a good new snapshot\<close>

definition current_kept_or_new :: "sync_env \<Rightarrow> snapshot_store \<Rightarrow> snapshot_store \<Rightarrow> bool" where
  "current_kept_or_new V st st' \<longleftrightarrow> load_pointer (se_store V) ''current'' st' = load_pointer (se_store V) ''current'' st
     \<or> (\<exists>snapshot m. snapshot_good V snapshot \<and> load_pointer (se_store V) ''current'' st' = Inr (canon snapshot, m))"

definition committed :: "sync_env \<Rightarrow> json \<Rightarrow> json \<Rightarrow> snapshot_store \<Rightarrow> bool" where
  "committed V snapshot m st \<longleftrightarrow> snapshot_good V snapshot \<and> load_pointer (se_store V) ''current'' st = Inr (canon snapshot, canon m)
     \<and> (jget (jget snapshot ''sync'') ''state'' = JStr ''fresh'' \<longrightarrow> load_pointer (se_store V) ''last_known_good'' st = Inr (canon snapshot, canon m))"

lemma committed_new: "committed V snapshot m st' \<Longrightarrow> current_kept_or_new V st st'"
  by (auto simp: committed_def current_kept_or_new_def)

lemma last_known_good_total: "store_ok E (sy_store s) \<Longrightarrow> \<exists>x. last_known_good_id E s = (Inr x, s)"
  using pointer_errors(2) [of E "sy_store s" "''last_known_good''"]
  by (auto simp: last_known_good_id_def on_store_def store_try_def bindE_def act_defs store_ok_def split: sum.splits)

text \<open>What an error of the run says about the snapshot store\<close>

definition error_effect :: "sync_env \<Rightarrow> sync_error \<Rightarrow> snapshot_store \<Rightarrow> snapshot_store \<Rightarrow> bool" where
  "error_effect V e st st' \<longleftrightarrow> (case e of
     StoreProblem x \<Rightarrow> \<exists>snapshot. publish (se_store V) snapshot (se_completed V) st = (Inl x, st')
   | RemoteProblem \<Rightarrow> \<exists>snapshot m. committed V snapshot m st'
   | _ \<Rightarrow> st' = st)"

lemma error_aside: "\<not> late e \<Longrightarrow> error_effect V e st st"
  by (cases e) (auto simp: error_effect_def late_def)

lemma commit_outcome:
  assumes env: "store_env_ok (se_store V)" and docs: "dict_ok esxi" "\<forall>d. cv = Some d \<longrightarrow> dict_ok d" and ok: "store_ok (se_store V) (sy_store s)"
    and run: "commit_snapshot V (esxi, cv, error_code, status) s = (r, t)"
  shows "store_ok (se_store V) (sy_store t) \<and> current_kept_or_new V (sy_store s) (sy_store t)
    \<and> (case r of Inl e \<Rightarrow> error_effect V e (sy_store s) (sy_store t) | Inr (snapshot, m) \<Rightarrow> committed V snapshot m (sy_store t))"
proof -
  obtain last_good where g: "last_known_good_id (se_store V) s = (Inr last_good, s)" using last_known_good_total [OF ok] by blast
  let ?R = "assembly_request_of V cv error_code status last_good"
  have rest: "bindE (lift_res (case assemble_snapshot (sn_schema (se_store V)) ?R esxi cv of Inl e \<Rightarrow> Inl (AssemblyProblem e) | Inr s \<Rightarrow> Inr s)) (\<lambda>snapshot.
      bindE (on_store (publish (se_store V) snapshot (se_completed V))) (\<lambda>m. ret (snapshot, m))) s = (r, t)"
    using run g by (simp add: commit_snapshot_def bindE_def [of "last_known_good_id _"])
  show ?thesis
  proof (cases "assemble_snapshot (sn_schema (se_store V)) ?R esxi cv")
    case (Inl e)
    then show ?thesis using rest ok by (auto simp: bindE_lift_res current_kept_or_new_def error_effect_def)
  next
    case (Inr snapshot)
    have snap: "snapshot_good V snapshot" by (rule assembled_good [OF Inr docs request_ok])
    obtain p st' where pub: "publish (se_store V) snapshot (se_completed V) (sy_store s) = (p, st')" by force
    have ok_json: "json_ok snapshot" using snap by (simp add: snapshot_good_def)
    note any = publish_any_outcome [OF env ok_json ok pub]
    have t: "sy_store t = st'" and r: "r = (case p of Inl e \<Rightarrow> Inl (StoreProblem e) | Inr m \<Rightarrow> Inr (snapshot, m))"
      using rest Inr pub by (auto simp: bindE_lift_res bindE_def [of "on_store _"] on_store_def act_defs split: sum.splits)
    have kept: "current_kept_or_new V (sy_store s) st'" using any(4) snap by (auto simp: current_kept_or_new_def)
    show ?thesis
    proof (cases p)
      case (Inl e)
      then show ?thesis using any(1) kept t r pub by (auto simp: error_effect_def)
    next
      case (Inr m)
      have "committed V snapshot m st'"
        by (rule publish_finished [OF env ok_json ok pub [unfolded Inr]]) (simp add: committed_def snap fresh_snapshot_def)
      then show ?thesis using any(1) kept t r Inr by simp
    qed
  qed
qed

section \<open>The retention\<close>

text \<open>On a good store no manifest is of a wrong type, so no error of the retention gets through.\<close>

definition archives_typed :: "snapshot_store \<Rightarrow> bool" where
  "archives_typed st \<longleftrightarrow> (\<forall>n c. object_file_name n \<longrightarrow> look (so_manifests st) n = Some c \<longrightarrow> (\<exists>m. decode_manifest c n = Inr m))"

definition typed :: "'a store_act \<Rightarrow> bool" where
  "typed m \<longleftrightarrow> (\<forall>st r st'. archives_typed st \<longrightarrow> m st = (r, st') \<longrightarrow> archives_typed st' \<and> r \<noteq> Inl ManifestTypeError)"

lemma typed_step: "typed m \<Longrightarrow> archives_typed st \<Longrightarrow> m st = (r, st') \<Longrightarrow> archives_typed st' \<and> r \<noteq> Inl ManifestTypeError"
  unfolding typed_def by blast

lemma typed_bind:
  assumes "typed m" "\<And>x. typed (k x)"
  shows "typed (bindE m k)"
  unfolding typed_def
proof (intro allI impI)
  fix st r st'
  assume st: "archives_typed st" and run: "bindE m k st = (r, st')"
  obtain x u where m: "m st = (x, u)" by force
  note u = typed_step [OF assms(1) st m]
  show "archives_typed st' \<and> r \<noteq> Inl ManifestTypeError"
  proof (cases x)
    case (Inl e)
    with run m u show ?thesis by (auto simp: bindE_def)
  next
    case (Inr y)
    with run m have "k y u = (r, st')" by (simp add: bindE_def)
    with u show ?thesis using typed_step [OF assms(2)] by blast
  qed
qed

lemma typed_simple: "typed (ret x)" "typed (gets f)" "e \<noteq> ManifestTypeError \<Longrightarrow> typed (guardE b e)"
  by (auto simp: typed_def act_defs)

lemma typed_fold: "(\<And>a x. typed (f a x)) \<Longrightarrow> typed (foldE f a xs)"
  by (induction xs arbitrary: a) (auto intro: typed_simple typed_bind)

lemma typed_unlink: "typed (unlink_archive E n)" "typed (unlink_object E n)"
  by (auto simp: typed_def unlink_archive_def unlink_object_def file_op_def archives_typed_def Let_def split: if_splits)

lemma typed_prune_archive: "typed (prune_archive E keep removed n)"
proof (cases "object_file_name n")
  case True
  have "typed (\<lambda>st. lift_res (read_archived_manifest E n st) st)"
    using True by (fastforce simp: typed_def lift_res_def read_archived_manifest_def archives_typed_def split: option.splits if_splits)
  then show ?thesis using True unfolding prune_archive_def by (auto intro!: typed_bind typed_simple typed_unlink)
qed (simp add: prune_archive_def typed_simple)

lemma typed_prune_object: "typed (prune_object E keep removed n)"
  by (simp add: prune_object_def typed_simple typed_unlink typed_bind)

lemma protected_fold_typed:
  assumes "\<And>p. read_manifest p st \<noteq> Inl ManifestTypeError" and "acc \<noteq> Inl ManifestTypeError"
  shows "foldl (\<lambda>acc p. bindR acc (\<lambda>names. case read_manifest p st of
     Inr m \<Rightarrow> Inr (object_of m # names) | Inl e \<Rightarrow> if e = ManifestTypeError then Inl e else Inr names)) acc ps \<noteq> Inl ManifestTypeError"
  using assms(2)
proof (induction ps arbitrary: acc)
  case (Cons p ps)
  show ?case unfolding foldl_Cons
    by (rule Cons.IH, cases acc, use Cons.prems assms(1) [of p] in \<open>auto split: sum.split\<close>)
qed simp

lemma bindE_read: "bindE (\<lambda>st. lift_res (f st) st) k st = (case f st of Inl e \<Rightarrow> (Inl e, st) | Inr x \<Rightarrow> k x st)"
  by (simp add: bindE_def lift_res_def split: sum.split)

lemma prune_objects_typed:
  assumes "store_ok E st" "prune_objects E retain st = (r, st')"
  shows "r \<noteq> Inl ManifestTypeError"
proof -
  have a: "archives_typed st" using assms(1) decode_label unfolding archives_typed_def store_ok_def archives_ok_def by blast
  have "read_manifest p st \<noteq> Inl ManifestTypeError" for p
    using assms(1) pointer_errors(1) [of E st p] by (simp add: store_ok_def)
  then have p: "protected_objects st \<noteq> Inl ManifestTypeError" unfolding protected_objects_def by (rule protected_fold_typed) simp
  have sweep: "typed (bindE (gets (\<lambda>st. map fst (newest_first (filter (\<lambda>(name, _). object_file_name name) (so_objects st))))) (\<lambda>objects.
     let keep = protected @ take (nat retain) objects in
     bindE (gets (\<lambda>st. sort (map fst (so_manifests st)))) (\<lambda>archives.
     bindE (foldE (prune_archive E keep) [] archives) (\<lambda>removed. foldE (prune_object E keep) removed objects))))" for protected
    unfolding Let_def by (intro typed_bind typed_simple typed_fold typed_prune_archive typed_prune_object)
  show ?thesis
  proof (cases "protected_objects st")
    case (Inl e)
    then show ?thesis using assms(2) p by (auto simp: prune_objects_def bindE_guardE bindE_read split: if_splits)
  next
    case (Inr protected)
    then show ?thesis using assms(2) sweep [of protected] a
      by (auto simp: prune_objects_def bindE_guardE bindE_read typed_def split: if_splits)
  qed
qed

lemma suppress_raw: "suppressing (\<lambda>_. True) (on_raw m) s = (Inr (), s\<lparr>sy_raw := snd (m (sy_raw s))\<rparr>)"
  by (simp add: suppressing_def on_raw_def split: prod.split sum.split)

lemma suppress_store:
  "suppressing f (on_store m) s = ((case fst (m (sy_store s)) of Inl e \<Rightarrow> if f (StoreProblem e) then Inr () else Inl (StoreProblem e) | Inr _ \<Rightarrow> Inr ()),
     s\<lparr>sy_store := snd (m (sy_store s))\<rparr>)"
  by (simp add: suppressing_def on_store_def split: prod.split sum.split)

lemma retention_outcome:
  assumes "store_ok (se_store V) (sy_store s)" "retention_step V C s = (r, t)"
  shows "store_ok (se_store V) (sy_store t)" "load_pointer (se_store V) p (sy_store t) = load_pointer (se_store V) p (sy_store s)" "r = Inr ()"
proof -
  obtain q st' where prune: "prune_objects (se_store V) (sc_retention C) (sy_store s) = (q, st')" by force
  have "sy_store t = st' \<and> r = Inr ()"
    using assms(2) prune_objects_typed [OF assms(1) prune]
    by (cases q) (auto simp: retention_step_def bindE_def suppress_store suppress_raw prune suppressed_store_error_def split: if_splits)
  then show "store_ok (se_store V) (sy_store t)" "load_pointer (se_store V) p (sy_store t) = load_pointer (se_store V) p (sy_store s)" "r = Inr ()"
    using prune_any_outcome [OF assms(1) prune] by auto
qed

text \<open>C25: A run of the collector, however it ends, leaves a snapshot store in which every pointer and every
  archived manifest leads to a valid snapshot, and a current pointer that yields what it yielded before or
  a new snapshot that is valid and of real data. A run that returns has made the snapshot it assembled the
  current one, and the last known good one if its synchronisation is fresh, and reports it. A run that
  fails has either left the store as it was, or failed in the publication itself, or committed the snapshot
  and failed to publish it remotely: the retention never turns a committed snapshot into a failure.\<close>

theorem sync_outcome:
  assumes "store_env_ok (se_store V)" and "adapters_ok V" and "store_ok (se_store V) (sy_store s)" and "run_sync V C s = (r, s')"
  shows "store_ok (se_store V) (sy_store s') \<and> current_kept_or_new V (sy_store s) (sy_store s')
    \<and> (case r of
         Inl e \<Rightarrow> error_effect V e (sy_store s) (sy_store s')
       | Inr result \<Rightarrow> \<exists>snapshot m remote. committed V snapshot m (sy_store s') \<and> requested_publish_config C = Inr remote
           \<and> result = result_of snapshot m remote (sc_target C))"
proof -
  define tail where "tail remote = (\<lambda>(snapshot, m). bindE (gets sy_store) (\<lambda>st. bindE (guardE (remote \<longrightarrow> se_remote V m st) RemoteProblem) (\<lambda>_.
     bindE (retention_step V C) (\<lambda>_. ret (result_of snapshot m remote (sc_target C))))))" for remote
  have run: "bindE (prepare_sync V C) (\<lambda>(remote, acquired). bindE (commit_snapshot V acquired) (tail remote)) s = (r, s')"
    using assms(4) by (simp add: run_sync_def tail_def)
  show ?thesis
  proof (rule aside_then [OF prepare_aside run])
    fix e assume "r = Inl e" "\<not> late e" "sy_store s' = sy_store s"
    then show ?thesis using assms(3) error_aside by (simp add: current_kept_or_new_def)
  next
    fix x u assume p: "prepare_sync V C s = (Inr x, u)" and u: "sy_store u = sy_store s"
      and rest: "(case x of (remote, acquired) \<Rightarrow> bindE (commit_snapshot V acquired) (tail remote)) u = (r, s')"
    obtain remote esxi cv error_code status where x: "x = (remote, esxi, cv, error_code, status)" by (metis prod.exhaust)
    obtain w where w: "acquire V C w = (Inr (esxi, cv, error_code, status), u)" "requested_publish_config C = Inr remote"
      using prepare_ok [OF p [unfolded x]] by blast
    obtain c v where c: "commit_snapshot V (esxi, cv, error_code, status) u = (c, v)" by force
    have docs: "dict_ok esxi" "\<forall>d. cv = Some d \<longrightarrow> dict_ok d" using acquire_ok [OF assms(2) w(1)] by auto
    have ok: "store_ok (se_store V) (sy_store u)" using assms(3) u by simp
    note commit = commit_outcome [OF assms(1) docs ok c]
    show ?thesis
    proof (cases c)
      case (Inl e)
      then show ?thesis using rest c commit u by (auto simp: x bindE_def)
    next
      case (Inr sm)
      obtain snapshot m where sm: "sm = (snapshot, m)" by (cases sm)
      have okv: "store_ok (se_store V) (sy_store v)" using commit by simp
      obtain q t where t: "retention_step V C v = (q, t)" by force
      note kept = retention_outcome [OF okv t]
      have new: "committed V snapshot m (sy_store v)" "committed V snapshot m (sy_store t)" using commit Inr sm kept(2) by (auto simp: committed_def)
      have finish: "(if remote \<longrightarrow> se_remote V m (sy_store v) then (Inr (result_of snapshot m remote (sc_target C)), t) else (Inl RemoteProblem, v)) = (r, s')"
        using rest c t kept(3) by (auto simp: x Inr sm tail_def bindE_def [of "commit_snapshot _ _"] bindE_guardE bindE_def [of "retention_step _ _"] act_defs split: if_splits)
      show ?thesis
      proof (cases "remote \<longrightarrow> se_remote V m (sy_store v)")
        case True
        then have "r = Inr (result_of snapshot m remote (sc_target C))" "s' = t" using finish by auto
        then show ?thesis using kept(1) new(2) committed_new w(2) by auto
      next
        case False
        then have "r = Inl RemoteProblem" "s' = v" using finish by auto
        then show ?thesis using okv new(1) committed_new by (auto simp: error_effect_def)
      qed
    qed
  qed
qed

definition small_inventory :: dict where
  "small_inventory = [(''source'', JObj [(''status'', JStr ''connected''), (''id'', JStr ''src:esxi'')]), (''virtual_machines'', JArr []), (''networks'', JArr []), (''findings'', JArr [])]"

definition sync_sample :: sync_env where
  "sync_sample = \<lparr>se_store = demo_store_env (\<lambda>_. False), se_started = Aware 0, se_fetched = Aware 0, se_collected = Aware 0, se_completed = Aware 0,
     se_vpn = Some (0, ''Connected''), se_esxi = Some JNull, se_normalize_esxi = (\<lambda>_ _. Some small_inventory), se_cv = Inr None,
     se_normalize_cv = (\<lambda>_. Inl CvOther), se_remote = (\<lambda>_ _. False), se_raw_fails = (\<lambda>_. False), se_wall = 0, se_uuid8 = ''0''\<rparr>"

definition sync_options :: sync_config where
  "sync_options = \<lparr>sc_publish = None, sc_publish_staging = None, sc_vpn_name = ''DTLAB'', sc_local_only = True, sc_target = None, sc_require_vpn = True,
     sc_retention = 240, sc_esxi_override = None, sc_cv_override = None\<rparr>"

text \<open>The snapshot of the sample run, evaluated with the quick test for secrets\<close>

definition sample_doc :: json where
  "sample_doc = (case build_snapshot (assembly_request_of sync_sample None ''credential_unavailable'' ''not_configured'' None) small_inventory None
     (utc_text 0) (utc_text 0) of Inl _ \<Rightarrow> JNull | Inr s \<Rightarrow> s)"

lemma sample_built:
  "build_snapshot (assembly_request_of sync_sample None ''credential_unavailable'' ''not_configured'' None) small_inventory None (utc_text 0) (utc_text 0) = Inr sample_doc"
proof -
  have "(case build_snapshot (assembly_request_of sync_sample None ''credential_unavailable'' ''not_configured'' None) small_inventory None
     (utc_text 0) (utc_text 0) of Inl _ \<Rightarrow> False | Inr _ \<Rightarrow> True)" by code_simp
  then show ?thesis by (simp add: sample_doc_def split: sum.splits)
qed

lemma sample_quiet: "is_obj sample_doc" "quiet sample_doc"
  by code_simp+

lemma sample_consistent: "(let (ids, e) = unique_ids sample_doc in e @ cross_reference_errors sample_doc ids @ snapshot_semantic_errors sample_doc ids) = []"
  by code_simp

lemma sample_valid: "snapshot_problems (\<lambda>_. []) sample_doc = []"
  using sample_quiet sample_consistent by (simp add: snapshot_problems_def quiet_no_leaks split: prod.splits)

lemma sample_assembled:
  "assemble_snapshot (\<lambda>_. []) (assembly_request_of sync_sample None ''credential_unavailable'' ''not_configured'' None) small_inventory None = Inr sample_doc"
proof -
  have "ar_started (assembly_request_of sync_sample None c st g) = Aware 0" "ar_completed (assembly_request_of sync_sample None c st g) = Aware 0" for c st g
    by (simp_all add: assembly_request_of_def sync_sample_def)
  then show ?thesis using sample_built sample_valid by (simp add: assemble_Inr aware_text_def validate_snapshot_def)
qed

lemma sample_real: "jget (jget sample_doc ''sync'') ''publication_mode'' = JStr ''real_only''"
  by code_simp

definition fresh_sync :: sync_state where
  "fresh_sync = \<lparr>sy_store = empty_store, sy_raw = \<lparr>rw_files = [], rw_clock = 0\<rparr>\<rparr>"

lemma sample_prepared:
  "\<exists>raw. prepare_sync sync_sample sync_options fresh_sync
     = (Inr (False, small_inventory, None, ''credential_unavailable'', ''not_configured''), fresh_sync\<lparr>sy_raw := raw\<rparr>)"
proof -
  have "vpn_name_ok ''DTLAB''" "lower (strip ''Connected'') = ''connected''" "raw_source_name ''esxi''" by code_simp+
  then show ?thesis
    by (simp add: prepare_sync_def bindE_guardE bindE_lift_res requested_publish_config_def vpn_is_connected_def acquire_def acquire_cv_def cv_outcome_def
        on_raw_def raw_write_def raw_op_def bindE_def [of "\<lambda>s. case _ of (Inl e, st) \<Rightarrow> _ e st | (Inr x, st) \<Rightarrow> _ x st"]
        sync_sample_def sync_options_def fresh_sync_def act_defs Let_def)
qed

lemma sample_run: "\<exists>result s'. run_sync sync_sample sync_options fresh_sync = (Inr result, s')"
proof -
  let ?E = "demo_store_env (\<lambda>_. False)"
  have V: "se_store sync_sample = ?E" "se_completed sync_sample = Aware 0" by (simp_all add: sync_sample_def)
  obtain raw where p: "prepare_sync sync_sample sync_options fresh_sync
     = (Inr (False, small_inventory, None, ''credential_unavailable'', ''not_configured''), fresh_sync\<lparr>sy_raw := raw\<rparr>)" using sample_prepared by blast
  let ?u = "fresh_sync\<lparr>sy_raw := raw\<rparr>"
  have u: "sy_store ?u = empty_store" by (simp add: fresh_sync_def)
  have good: "last_known_good_id ?E ?u = (Inr None, ?u)"
    by (simp add: last_known_good_id_def on_store_def store_try_def bindE_def act_defs fresh_sync_def load_pointer_def read_manifest_def empty_store_def look_def pointer_names_def)
  have "\<not> excused ?E sample_doc (Aware 0) empty_store"
    using sample_valid sample_real by (simp add: excused_def demo_store_env_def empty_store_def look_def)
  moreover have "json_ok sample_doc" using build_snapshot_ok [OF sample_built] by (simp add: small_inventory_def dict_ok_def assembly_request_of_def)
  ultimately obtain m st' where pub: "publish ?E sample_doc (Aware 0) empty_store = (Inr m, st')"
    using publish_returns [OF demo_store_env_ok _ empty_store_ok] by blast
  have "sn_schema ?E = (\<lambda>_. [])" by (simp add: demo_store_env_def)
  then have commit: "commit_snapshot sync_sample (small_inventory, None, ''credential_unavailable'', ''not_configured'') ?u = (Inr (sample_doc, m), ?u\<lparr>sy_store := st'\<rparr>)"
    using good pub sample_assembled u by (simp add: commit_snapshot_def V bindE_def [of "last_known_good_id _"] bindE_lift_res on_store_def bindE_def act_defs)
  have "store_ok ?E st'"
    using publish_any_outcome(1) [OF demo_store_env_ok \<open>json_ok sample_doc\<close> empty_store_ok pub] .
  then have ok: "store_ok (se_store sync_sample) (sy_store (?u\<lparr>sy_store := st'\<rparr>))" by (simp add: V)
  obtain q t where t: "retention_step sync_sample sync_options (?u\<lparr>sy_store := st'\<rparr>) = (q, t)" by force
  have q: "q = Inr ()" by (rule retention_outcome(3) [OF ok t])
  show ?thesis by (simp add: run_sync_def bindE_def [of "prepare_sync _ _"] p bindE_def [of "commit_snapshot _ _"] commit bindE_guardE bindE_def [of "retention_step _ _"] t [unfolded q])
qed

theorem sync_outcome_witness:
  "\<exists>snapshot m s'. snd (run_sync sync_sample sync_options fresh_sync) = s' \<and> store_ok (demo_store_env (\<lambda>_. False)) (sy_store s')
     \<and> load_pointer (demo_store_env (\<lambda>_. False)) ''current'' (sy_store s') = Inr (canon snapshot, canon m)"
proof -
  obtain result s' where run: "run_sync sync_sample sync_options fresh_sync = (Inr result, s')" using sample_run by blast
  have V: "se_store sync_sample = demo_store_env (\<lambda>_. False)" "sy_store fresh_sync = empty_store" by (simp_all add: sync_sample_def fresh_sync_def)
  have "adapters_ok sync_sample" by (simp add: adapters_ok_def sync_sample_def small_inventory_def dict_ok_def)
  from sync_outcome [OF _ this _ run] show ?thesis using run demo_store_env_ok empty_store_ok unfolding V committed_def by auto
qed

end
