(* ===== verification/Spec2Isabelle.thy ===== *)
theory Spec2Isabelle
  imports TicketProperties HostOtDelivery WorkerProperties PruneProperties SiemProperties ContractV3 IdentityProperties CollectorProperties
begin

text \<open>
  DTLab control center: a verification of its operational core.

  \<^bold>\<open>The program.\<close> The repository is a security cockpit for an OT laboratory. A collector on the VPN reads
  VMware and Cisco Cyber Vision and publishes snapshots into a content-addressed store; a worker turns the
  records of every snapshot into signals; a sensor on the PLC host signs what it sees of Modbus writes and
  sends it to an authenticated receiver, which turns it into signals too; signals become tickets, and
  tickets, with their tasks, comments, deadlines and audit trail, live in one SQLite file. This development
  models the chain from both ends: sensor, spool, sender, receiver, policy and ticket on one side;
  snapshot contract, snapshot store, conversion, worker and ticket on the other; and the tools that read
  the result (SIEM export) and prune it.

  \<^bold>\<open>How code is translated.\<close> A method that reads and writes a store and may raise is an action
  (\<open>Prelude\<close>): a function from the store to \<open>Inl\<close> an exception or \<open>Inr\<close> a value, and the store it leaves;
  \<open>transaction\<close> is the rollback of \<open>with connection\<close>. A row of a table, a data class and a parsed
  configuration are records, the closed sets of words are datatypes with their texts, a JSON document is a
  \<open>json\<close> (\<open>PyJson\<close>, with \<open>json.dumps\<close>, \<open>json.loads\<close> and the proof that they are inverse), a
  \<open>datetime\<close> is a number of microseconds (\<open>PyTime\<close>, with \<open>isoformat\<close> and \<open>fromisoformat\<close>), text is a list of
  code points below 256 and bytes are its UTF-8 form (\<open>Utf8\<close>). Integers are unbounded as in Python; the
  endpoint sensor keeps epoch seconds as exact rationals, and where the code computes in doubles and the
  result depends on it, \<open>Float64\<close> rounds as IEEE 754 does.

  \<^bold>\<open>Parameters.\<close> Code outside the repository is an argument of the definitions that use it: the digest and
  the MAC, \<open>uuid4\<close> draws and clocks, the IANA time zone database, the JSON-schema validator over the schema
  files, the outcome of each file operation, the network. Hypotheses on them are those of their
  documentation (a digest is 64 lower-case hexadecimal digits, is collision-free where history is at stake),
  and every property with such a hypothesis is applied to concrete functions by its witness.

  \<^bold>\<open>The ticket desk\<close> (\<open>services/ticket_store.py\<close>). \<open>TicketTypes\<close>: vocabulary, validation, SLA clock, payload
  digest. \<open>TicketDb\<close>: tables, constraints, statements. \<open>SignalStore\<close> and \<open>TicketStore\<close>: \<open>ingest_signals\<close> to
  \<open>update_task_status\<close>, one definition per method. \<open>TicketSteps\<close> is the abstract desk, an inductive relation
  of atomic audited changes with its invariant; \<open>TicketRefinement\<close> shows that every method is a finite run of
  such steps, \<open>TicketDesk\<close> states that contract as the locale \<open>desk_operation\<close>, interpreted for every
  writer; \<open>AuditTrail\<close> replays the audit events. \<open>TicketProperties\<close>: refinement, invariant, complete audit,
  append-only history and the exact lifecycle. \<open>BusinessHours\<close> and \<open>OperationalSettings\<close>
  (\<open>services/operational_settings.py\<close>) hold the calendar loop behind the deadlines, whose fuel is a day for
  every day of the calendar and is proved enough, and the settings with operators and Syslog.
  \<open>TicketPruning\<close>, \<open>PruneFacts\<close>, \<open>PruneProperties\<close> (\<open>scripts/prune_ticket_store.py\<close>): the plan and its
  application keep the desk's invariant and its audit trail.

  \<^bold>\<open>The endpoint sensor\<close> (\<open>integrations/plc_endpoint_audit\<close>). \<open>PlcWrite\<close> and \<open>PlcEpisodes\<close> (\<open>core.py\<close>) turn
  requests into episodes with revisions, \<open>PlcLedger\<close> proves that no write is lost or counted twice.
  \<open>PlcState\<close> and \<open>EventSpool\<close> (\<open>spool.py\<close>) hold the episode numbers and the hash-chained, signed spool;
  \<open>SpoolChain\<close> and \<open>SpoolRead\<close> read it back. \<open>EventSender\<close> and \<open>HostOtWire\<close> (\<open>sender.py\<close>) deliver it; the
  locale \<open>event_sink\<close> is what the sender asks of a destination, interpreted by the local outbox and by
  HTTP. \<open>PlcRuntime\<close> (\<open>runtime.py\<close>, \<open>audit_hook.py\<close>) joins them in the server. \<open>PlcProperties\<close>: restart,
  commitment of the chain, refinement of the aggregator by the spool, delivery in order and progress.

  \<^bold>\<open>The receiver\<close>. \<open>HostOtEvents\<close> and \<open>HostOtIngest\<close> (\<open>services/host_ot_events.py\<close>) check an event and make it
  a signal, \<open>Playbooks\<close> and \<open>TicketPolicy\<close> (\<open>playbooks.py\<close>, \<open>ticket_policy.py\<close>) open the automatic ticket,
  \<open>HostOtStatus\<close> (\<open>host_ot_status.py\<close>) records liveness, \<open>HostOtIngress\<close> and \<open>HostOtService\<close>
  (\<open>host_ot_ingress.py\<close>) authenticate and store requests. \<open>HostOtAgreement\<close> compares sensor and receiver
  and names the honest events the receiver refuses; \<open>HostOtProperties\<close> and \<open>HostOtDelivery\<close> join the whole
  path over a network that loses answers and carries foreign traffic.

  \<^bold>\<open>Snapshots\<close>. \<open>Contract\<close> and \<open>ContractFacts\<close> (\<open>contract.py\<close>), \<open>ContractV3\<close> (\<open>contract_v3.py\<close>): validation.
  \<open>SnapshotStore\<close> (\<open>services/snapshot_store.py\<close>): objects, archive and pointers; \<open>SnapshotSafety\<close> is a logic
  of triples with one postcondition for a result and one for a crash, \<open>SnapshotInvariant\<close>,
  \<open>SnapshotPublish\<close> and \<open>SnapshotPrune\<close> apply it, \<open>SnapshotProperties\<close> states the contract.
  \<open>SignalConversion\<close> and \<open>SignalFacts\<close> (\<open>signal_ingest.py\<close>) make signals of a snapshot, \<open>IngestWorker\<close>,
  \<open>WorkerFacts\<close>, \<open>WorkerProgress\<close>, \<open>WorkerProperties\<close> (\<open>ticket_ingest_worker.py\<close>) ingest every archived
  snapshot, and show how one refused snapshot blocks all later ones. \<open>SiemExport\<close>, \<open>SiemFacts\<close>,
  \<open>SiemProperties\<close> (\<open>siem_exports.py\<close>): NDJSON and CEF can be read back by independent readers.

  \<^bold>\<open>The collector\<close>. \<open>Identity\<close> (\<open>services/identity.py\<close>) proposes which virtual machine is which asset;
  \<open>IdentityProperties\<close> shows that the links are a matching that rests on unambiguous addresses, or on names.
  \<open>Assembly\<close> (\<open>services/assembly.py\<close>) builds and validates the snapshot, with its quality score in doubles;
  \<open>AssemblyFacts\<close> gives the shape of the result. \<open>CollectorSync\<close> (\<open>collector/sync.py\<close>, \<open>raw_store.py\<close>) is one run
  from the sources to the published snapshot; \<open>CollectorProperties\<close>: whatever fails, what the dashboard reads
  stays valid, and a committed snapshot is never reported as a failure by the retention. \<open>QuietDocuments\<close> is a
  quick sufficient test for the absence of secrets, for the concrete documents of the witnesses.

  \<^bold>\<open>Bounds.\<close> Code points from 256 on, subnormal and infinite floats, and instants outside the years 1 to 9999
  (where the code raises) are outside the model's data. Recursion is structural or has a termination proof;
  the only fuel is the calendar's.

  \<^bold>\<open>Not modelled.\<close> Presentation (the Streamlit views under \<open>ui/\<close>, the Next.js front end, the FastAPI
  routers) shows what the services return. The vendor clients (\<open>collector/cybervision_client.py\<close>,
  \<open>esxi_client.py\<close>) and the field-by-field mappings of \<open>adapters/\<close> are parameters of the run of the collector.
  The reading history, the CSV exports and their masking are derived from snapshots and not read back. The deployment tools
  orchestrate ssh, docker and files; \<open>sandbox/generator.py\<close>, \<open>legacy/\<close> and \<open>lab/\<close> are demonstration code. In
  the modelled files, argument parsing, logging, permissions, directory creation, sockets and TLS are left
  out; the list of components says so for each.
\<close>

end
